(* ===== verification/Prelude.thy ===== *)
theory Prelude
  imports Main "HOL-Library.AList" "HOL-Library.Multiset" "HOL-Library.Sublist"
begin

text \<open>
  The shared vocabulary of the development: results (\<open>error + value\<close>, the value being
  \<open>Inr\<close>), association lists as Go maps with an explicit iteration order, the locale that
  states the finite-map contract the clients rely on, and the locale for a fold that keeps
  the preferred element and therefore does not depend on the order of the elements.
\<close>

section \<open>Collections of rewrite rules\<close>

named_theorems go_simps "evaluation rules for the Go library operations"
named_theorems frame_simps "fields an operation leaves alone"
named_theorems inv_intros "operations preserve the invariant of their component"

section \<open>Results\<close>

type_synonym ('e, 'a) result = "'e + 'a"

abbreviation ok :: "'a \<Rightarrow> ('e, 'a) result" where
  "ok \<equiv> Inr"

abbreviation err :: "'e \<Rightarrow> ('e, 'a) result" where
  "err \<equiv> Inl"

definition is_ok :: "('e, 'a) result \<Rightarrow> bool" where
  "is_ok r = (case r of Inl _ \<Rightarrow> False | Inr _ \<Rightarrow> True)"

text \<open>
  A chain of guards that stops at the first one that reports an error, as a Go function with
  early returns does; \<open>first_error\<close> is the loop over a list of checks.
\<close>

fun first_error :: "'e option list \<Rightarrow> 'e option" where
  "first_error [] = None"
| "first_error (None # cs) = first_error cs"
| "first_error (Some e # cs) = Some e"

section \<open>Go maps as association lists\<close>

text \<open>
  A Go map is an association list with distinct keys; the order of the list is the order in
  which one \<open>range\<close> statement would visit it, which Go leaves open.
\<close>

type_synonym ('k, 'v) gomap = "('k \<times> 'v) list"

definition gomap_wf :: "('k, 'v) gomap \<Rightarrow> bool" where
  "gomap_wf m = distinct (map fst m)"

definition gomap_get :: "('k, 'v) gomap \<Rightarrow> 'k \<Rightarrow> 'v option" where
  "gomap_get m k = map_of m k"

definition gomap_put :: "'k \<Rightarrow> 'v \<Rightarrow> ('k, 'v) gomap \<Rightarrow> ('k, 'v) gomap" where
  "gomap_put k v m = AList.update k v m"

definition gomap_del :: "'k \<Rightarrow> ('k, 'v) gomap \<Rightarrow> ('k, 'v) gomap" where
  "gomap_del k m = filter (\<lambda>(k', _). k' \<noteq> k) m"

text \<open>Deleting, while ranging over the map, every entry that satisfies a condition.\<close>

definition gomap_drop :: "('k \<Rightarrow> 'v \<Rightarrow> bool) \<Rightarrow> ('k, 'v) gomap \<Rightarrow> ('k, 'v) gomap" where
  "gomap_drop P m = filter (\<lambda>(k, v). \<not> P k v) m"

locale finite_map =
  fixes empty :: "'m"
    and get :: "'m \<Rightarrow> 'k \<Rightarrow> 'v option"
    and put :: "'k \<Rightarrow> 'v \<Rightarrow> 'm \<Rightarrow> 'm"
    and del :: "'k \<Rightarrow> 'm \<Rightarrow> 'm"
    and drop_if :: "('k \<Rightarrow> 'v \<Rightarrow> bool) \<Rightarrow> 'm \<Rightarrow> 'm"
    and wf :: "'m \<Rightarrow> bool"
  assumes wf_empty: "wf empty"
    and wf_put: "wf m \<Longrightarrow> wf (put k v m)"
    and wf_del: "wf m \<Longrightarrow> wf (del k m)"
    and wf_drop: "wf m \<Longrightarrow> wf (drop_if P m)"
    and get_empty: "get empty k = None"
    and get_put: "get (put k v m) k' = (if k' = k then Some v else get m k')"
    and get_del: "wf m \<Longrightarrow> get (del k m) k' = (if k' = k then None else get m k')"
    and get_drop: "wf m \<Longrightarrow> get (drop_if P m) k' =
          (case get m k' of None \<Rightarrow> None | Some v \<Rightarrow> if P k' v then None else Some v)"
begin

text \<open>A write is visible to its own key only, and the last write wins.\<close>

lemma put_same: "get (put k v m) k = Some v"
  by (simp add: get_put)

lemma put_other: "k' \<noteq> k \<Longrightarrow> get (put k v m) k' = get m k'"
  by (simp add: get_put)

lemma put_put: "get (put k v (put k w m)) k' = get (put k v m) k'"
  by (simp add: get_put)

lemma del_put: "wf m \<Longrightarrow> get (del k (put k v m)) k' = get (del k m) k'"
  by (simp add: get_del get_put wf_put)

lemma drop_idem: "wf m \<Longrightarrow> get (drop_if P (drop_if P m)) k = get (drop_if P m) k"
  by (simp add: get_drop wf_drop split: option.splits)

lemma drop_antimono:
  assumes "wf m" and "\<And>k v. P k v \<Longrightarrow> Q k v" and "get (drop_if Q m) k = Some v"
  shows "get (drop_if P m) k = Some v"
  using assms by (auto simp: get_drop split: option.splits if_splits)

end

lemma gomap_get_drop:
  "gomap_wf m \<Longrightarrow> gomap_get (gomap_drop P m) k =
     (case gomap_get m k of None \<Rightarrow> None | Some v \<Rightarrow> if P k v then None else Some v)"
  by (induction m)
    (auto simp: gomap_wf_def gomap_get_def gomap_drop_def map_of_eq_None_iff
          split: option.splits)

lemma gomap_wf_filter: "gomap_wf m \<Longrightarrow> gomap_wf (filter P m)"
  by (simp add: gomap_wf_def distinct_map_filter)

lemma gomap_del_drop: "gomap_del k m = gomap_drop (\<lambda>k' _. k' = k) m"
  by (simp add: gomap_del_def gomap_drop_def)

interpretation gm: finite_map "[]" gomap_get gomap_put gomap_del gomap_drop gomap_wf
proof unfold_locales
  fix m :: "('k, 'v) gomap" and k k' and v and P
  show "gomap_wf ([] :: ('k, 'v) gomap)" by (simp add: gomap_wf_def)
  show "gomap_get ([] :: ('k, 'v) gomap) k = None" by (simp add: gomap_get_def)
  show "gomap_wf m \<Longrightarrow> gomap_wf (gomap_put k v m)"
    by (simp add: gomap_wf_def gomap_put_def distinct_update)
  show "gomap_wf m \<Longrightarrow> gomap_wf (gomap_del k m)"
    by (simp add: gomap_del_def gomap_wf_filter)
  show "gomap_wf m \<Longrightarrow> gomap_wf (gomap_drop P m)"
    by (simp add: gomap_drop_def gomap_wf_filter)
  show "gomap_get (gomap_put k v m) k' = (if k' = k then Some v else gomap_get m k')"
    by (simp add: gomap_get_def gomap_put_def update_conv)
  show "gomap_wf m \<Longrightarrow> gomap_get (gomap_del k m) k' = (if k' = k then None else gomap_get m k')"
    by (simp add: gomap_del_drop gomap_get_drop split: option.splits)
  show "gomap_wf m \<Longrightarrow> gomap_get (gomap_drop P m) k' =
      (case gomap_get m k' of None \<Rightarrow> None | Some v \<Rightarrow> if P k' v then None else Some v)"
    by (rule gomap_get_drop)
qed

lemma gomap_get_in_set: "gomap_get m k = Some v \<Longrightarrow> (k, v) \<in> set m"
  by (simp add: gomap_get_def map_of_SomeD)

lemma gomap_in_set_get: "gomap_wf m \<Longrightarrow> (k, v) \<in> set m \<Longrightarrow> gomap_get m k = Some v"
  by (simp add: gomap_get_def gomap_wf_def)

lemma set_gomap_put:
  "gomap_wf m \<Longrightarrow> set (gomap_put k v m) = insert (k, v) {p \<in> set m. fst p \<noteq> k}"
  by (induction m) (auto simp: gomap_put_def gomap_wf_def rev_image_eqI)

lemma set_gomap_drop: "set (gomap_drop P m) = {(k, v) \<in> set m. \<not> P k v}"
  by (auto simp: gomap_drop_def)

lemma set_gomap_del: "set (gomap_del k m) = {(k', v) \<in> set m. k' \<noteq> k}"
  by (auto simp: gomap_del_def)

lemma gomap_put_same_value: "gomap_get m k = Some v \<Longrightarrow> gomap_put k v m = m"
  by (induction m) (auto simp: gomap_get_def gomap_put_def split: if_splits)

lemmas gomap_sets = set_gomap_put set_gomap_drop set_gomap_del
lemmas gomap_gets = gm.get_put gm.get_del gm.get_drop gm.get_empty
lemmas gomap_wfs = gm.wf_empty gm.wf_put gm.wf_del gm.wf_drop

section \<open>Keeping the preferred element of a collection\<close>

text \<open>
  Several loops of the program range over a map and keep the best element seen so far. Go's
  map order is random, so the result is well defined only if the preference is a strict weak
  order in which equally good elements are equal. The locale states that contract once.
\<close>

definition keep_step :: "('a \<Rightarrow> 'a \<Rightarrow> bool) \<Rightarrow> 'a option \<Rightarrow> 'a \<Rightarrow> 'a option" where
  "keep_step better acc x =
     (case acc of None \<Rightarrow> Some x | Some y \<Rightarrow> if better x y then Some x else Some y)"

definition keep_best :: "('a \<Rightarrow> 'a \<Rightarrow> bool) \<Rightarrow> 'a list \<Rightarrow> 'a option" where
  "keep_best better xs = foldl (keep_step better) None xs"

locale preference =
  fixes better :: "'a \<Rightarrow> 'a \<Rightarrow> bool"
    and ok_elem :: "'a \<Rightarrow> bool"
  assumes irrefl: "ok_elem x \<Longrightarrow> \<not> better x x"
    and trans: "ok_elem x \<Longrightarrow> ok_elem y \<Longrightarrow> ok_elem z \<Longrightarrow>
          better x y \<Longrightarrow> better y z \<Longrightarrow> better x z"
    and total: "ok_elem x \<Longrightarrow> ok_elem y \<Longrightarrow> x \<noteq> y \<Longrightarrow> better x y \<or> better y x"
begin

lemma asym: "ok_elem x \<Longrightarrow> ok_elem y \<Longrightarrow> better x y \<Longrightarrow> \<not> better y x"
  using irrefl trans by blast

definition is_best :: "'a set \<Rightarrow> 'a \<Rightarrow> bool" where
  "is_best X b = (b \<in> X \<and> (\<forall>x\<in>X. x \<noteq> b \<longrightarrow> better b x))"

lemma is_best_unique:
  "(\<And>x. x \<in> X \<Longrightarrow> ok_elem x) \<Longrightarrow> is_best X b \<Longrightarrow> is_best X c \<Longrightarrow> b = c"
  unfolding is_best_def by (metis asym)

lemma foldl_keep_best:
  assumes "ok_elem a" and "\<And>x. x \<in> set xs \<Longrightarrow> ok_elem x"
  shows "\<exists>b. foldl (keep_step better) (Some a) xs = Some b \<and> is_best (insert a (set xs)) b"
  using assms
proof (induction xs arbitrary: a)
  case Nil
  then show ?case by (simp add: is_best_def)
next
  case (Cons x xs)
  let ?a = "if better x a then x else a"
  have oks: "ok_elem a" "ok_elem x" "ok_elem ?a" "\<And>y. y \<in> set xs \<Longrightarrow> ok_elem y"
    using Cons.prems by auto
  obtain b where b: "foldl (keep_step better) (Some ?a) xs = Some b"
    "is_best (insert ?a (set xs)) b"
    using Cons.IH [OF oks(3,4)] by blast
  have okb: "ok_elem b" using b(2) oks by (auto simp: is_best_def)
  have head: "better b y" if "y \<in> {a, x}" "y \<noteq> b" for y
  proof (cases "y = ?a")
    case True
    with b(2) that show ?thesis by (auto simp: is_best_def)
  next
    case False
    with that have "better ?a y" using oks total by (auto split: if_splits)
    moreover have "?a = b \<or> better b ?a" using b(2) by (auto simp: is_best_def)
    ultimately show ?thesis using that oks okb trans [of b ?a y] by auto
  qed
  have "is_best (insert a (set (x # xs))) b"
    unfolding is_best_def
  proof (intro conjI ballI impI)
    show "b \<in> insert a (set (x # xs))" using b(2) by (auto simp: is_best_def split: if_splits)
  next
    fix y assume "y \<in> insert a (set (x # xs))" "y \<noteq> b"
    then show "better b y" using b(2) head by (auto simp: is_best_def)
  qed
  moreover have "foldl (keep_step better) (Some a) (x # xs) = Some b"
    using b(1) by (simp add: keep_step_def [of _ "Some a"] if_distrib)
  ultimately show ?case by blast
qed

lemma keep_best_is_best:
  assumes "xs \<noteq> []" and "\<And>x. x \<in> set xs \<Longrightarrow> ok_elem x"
  shows "\<exists>b. keep_best better xs = Some b \<and> is_best (set xs) b"
proof -
  obtain a ys where xs: "xs = a # ys" using assms(1) by (cases xs) auto
  then show ?thesis
    using foldl_keep_best [of a ys] assms(2) by (auto simp: keep_best_def keep_step_def)
qed

lemma keep_best_set_cong:
  assumes "set xs = set ys" and "\<And>x. x \<in> set xs \<Longrightarrow> ok_elem x"
  shows "keep_best better xs = keep_best better ys"
proof (cases "xs = []")
  case True
  with assms show ?thesis by simp
next
  case False
  with assms obtain b c where "keep_best better xs = Some b" "is_best (set xs) b"
    "keep_best better ys = Some c" "is_best (set xs) c"
    using keep_best_is_best [of xs] keep_best_is_best [of ys] by (metis set_empty)
  with is_best_unique [of "set xs" b c] assms(2) show ?thesis by simp
qed

end

section \<open>Chains of guards\<close>

text \<open>
  A guard sequence returns no error exactly when no guard fires; rewriting with these rules
  turns a Go validation function into the conjunction it decides, without case splits.
\<close>

lemma guard_if [go_simps]: "(if b then Some e else x) = None \<longleftrightarrow> \<not> b \<and> x = None"
  by simp

lemma guard_case [go_simps]:
  "(case x of None \<Rightarrow> y | Some e \<Rightarrow> Some (f e)) = None \<longleftrightarrow> x = None \<and> y = None"
  by (cases x) simp_all

lemma guard_required [go_simps]:
  "(case x of None \<Rightarrow> Some e | Some v \<Rightarrow> g v) = None \<longleftrightarrow> (\<exists>v. x = Some v \<and> g v = None)"
  by (cases x) simp_all

lemma pred_option_code [code]: "pred_option P None = True" "pred_option P (Some x) = P x"
  by simp_all

section \<open>Lists\<close>

lemma first_error_None_iff: "first_error cs = None \<longleftrightarrow> (\<forall>c\<in>set cs. c = None)"
  by (induction cs rule: first_error.induct) auto

lemma first_error_append:
  "first_error (xs @ ys) = (case first_error xs of None \<Rightarrow> first_error ys | Some e \<Rightarrow> Some e)"
  by (induction xs rule: first_error.induct) auto

lemma is_ok_simps [simp]: "is_ok (Inr x)" "\<not> is_ok (Inl e)"
  by (simp_all add: is_ok_def)

lemma is_ok_fstE:
  assumes "is_ok (fst p)"
  obtains v s where "p = (Inr v, s)"
  using assms by (cases p; cases "fst p") (auto simp: is_ok_def)

lemma length_filter_disj:
  "(\<And>x. x \<in> set xs \<Longrightarrow> \<not> (P x \<and> Q x)) \<Longrightarrow>
     length (filter (\<lambda>x. P x \<or> Q x) xs) = length (filter P xs) + length (filter Q xs)"
  by (induction xs) auto

lemma distinct_key_count:
  assumes "distinct (map f xs)"
  shows "length (filter (\<lambda>x. f x = k) xs) \<le> 1"
proof -
  have "distinct (map f (filter (\<lambda>x. f x = k) xs))" using assms by (rule distinct_map_filter)
  moreover have "map f (filter (\<lambda>x. f x = k) xs) = replicate (length (filter (\<lambda>x. f x = k) xs)) k"
    by (induction xs) auto
  ultimately have "distinct (replicate (length (filter (\<lambda>x. f x = k) xs)) k)" by simp
  then show ?thesis
    by (cases "length (filter (\<lambda>x. f x = k) xs)"; cases "length (filter (\<lambda>x. f x = k) xs) - 1") auto
qed

lemma distinct_key_eq:
  "distinct (map f xs) \<Longrightarrow> x \<in> set xs \<Longrightarrow> y \<in> set xs \<Longrightarrow> f x = f y \<Longrightarrow> x = y"
  by (meson distinct_map inj_onD)

text \<open>Rows with a unique key: selecting by the key of a member gives exactly that member.\<close>

lemma filter_unique_key:
  assumes "distinct (map f xs)" and "x \<in> set xs"
  shows "filter (\<lambda>y. f y = f x) xs = [x]"
  using assms
proof (induction xs)
  case (Cons a xs)
  show ?case
  proof (cases "a = x")
    case True
    then have "filter (\<lambda>y. f y = f x) xs = []"
      using Cons.prems(1) by (fastforce simp: filter_empty_conv image_iff)
    with True show ?thesis by simp
  next
    case False
    with Cons.prems have "x \<in> set xs" "f a \<noteq> f x" by auto
    with Cons show ?thesis by simp
  qed
qed simp

lemma distinct_map_update:
  "(\<And>x. x \<in> set xs \<Longrightarrow> f (g x) = f x) \<Longrightarrow> distinct (map f (map g xs)) = distinct (map f xs)"
  by (simp add: o_def cong: map_cong)

end
