(* ===== verification/Go_Time.thy ===== *)
theory Go_Time
  imports Prelude
begin

text \<open>
  Go's \<open>int64\<close> and package \<open>time\<close>. A \<open>time.Time\<close> is the number of nanoseconds since the Unix
  epoch as an unbounded integer (Go keeps seconds and nanoseconds apart, so instants far
  outside the \<open>int64\<close> nanosecond range exist); locations are not modelled, \<open>UTC()\<close> is the
  identity on instants. A \<open>time.Duration\<close> is an integer number of nanoseconds.
\<close>

section \<open>Signed 64-bit integers\<close>

definition min_int64 :: int where "min_int64 = - (2 ^ 63)"
definition max_int64 :: int where "max_int64 = 2 ^ 63 - 1"

definition in_int64 :: "int \<Rightarrow> bool" where
  "in_int64 x = (min_int64 \<le> x \<and> x \<le> max_int64)"

text \<open>Two's complement wrap-around of an exact result to 64 bits.\<close>

definition wrap_int64 :: "int \<Rightarrow> int" where
  "wrap_int64 x = (x + 2 ^ 63) mod 2 ^ 64 - 2 ^ 63"

lemmas int64_defs = min_int64_def max_int64_def in_int64_def wrap_int64_def

lemma wrap_int64_range: "in_int64 (wrap_int64 x)"
proof -
  have "0 \<le> (x + 2 ^ 63) mod 2 ^ 64" "(x + 2 ^ 63) mod 2 ^ 64 < (2 ^ 64 :: int)"
    by simp_all
  then show ?thesis by (simp add: int64_defs)
qed

lemma wrap_int64_id [simp]: "in_int64 x \<Longrightarrow> wrap_int64 x = x"
  by (simp add: int64_defs)

lemma wrap_int64_idem [simp]: "wrap_int64 (wrap_int64 x) = wrap_int64 x"
  by (rule wrap_int64_id) (rule wrap_int64_range)

section \<open>Instants and durations\<close>

type_synonym time = int
type_synonym duration = int

definition nanosecond :: duration where "nanosecond = 1"
definition second :: duration where "second = 1000000000"
definition minute :: duration where "minute = 60 * second"
definition hour :: duration where "hour = 60 * minute"

lemmas duration_defs = nanosecond_def second_def minute_def hour_def

text \<open>\<open>time.Time{}\<close>, 1 January of year 1, 00:00:00 UTC.\<close>

definition zero_time :: time where
  "zero_time = - 62135596800 * second"

definition IsZero :: "time \<Rightarrow> bool" where
  "IsZero t = (t = zero_time)"

definition Before :: "time \<Rightarrow> time \<Rightarrow> bool" where
  "Before t u = (t < u)"

definition After :: "time \<Rightarrow> time \<Rightarrow> bool" where
  "After t u = (u < t)"

definition Add :: "time \<Rightarrow> duration \<Rightarrow> time" where
  "Add t d = t + d"

text \<open>\<open>Time.Sub\<close> saturates at the bounds of a duration.\<close>

definition Sub :: "time \<Rightarrow> time \<Rightarrow> duration" where
  "Sub t u = max min_int64 (min max_int64 (t - u))"

text \<open>
  \<open>Time.UnixNano\<close> multiplies in \<open>int64\<close>: outside 1678--2262 the result wraps around.
  \<open>time.Unix(0, n)\<close> is its left inverse on every \<open>int64\<close>.
\<close>

definition UnixNano :: "time \<Rightarrow> int" where
  "UnixNano t = wrap_int64 t"

definition FromUnixNano :: "int \<Rightarrow> time" where
  "FromUnixNano n = n"

text \<open>
  \<open>time.Unix(sec, 0)\<close>: the seconds are stored relative to year 1 in an \<open>int64\<close>, so the
  addition of the offset may wrap.
\<close>

definition unix_to_internal :: int where "unix_to_internal = 62135596800"

definition FromUnix :: "int \<Rightarrow> time" where
  "FromUnix sec = (wrap_int64 (sec + unix_to_internal) - unix_to_internal) * second"

text \<open>
  \<open>Time.MarshalJSON\<close> refuses years outside 0--9999; the bounds are the first instants of
  year 0 and of year 10000 in UTC.
\<close>

definition json_time_ok :: "time \<Rightarrow> bool" where
  "json_time_ok t = (- 62167219200 * second \<le> t \<and> t < 253402300800 * second)"

lemmas time_defs = IsZero_def Before_def After_def Add_def

lemma Sub_exact: "in_int64 (t - u) \<Longrightarrow> Sub t u = t - u"
  by (auto simp: Sub_def in_int64_def)

text \<open>Saturation never changes a comparison with a bound inside the range.\<close>

lemma Sub_ge_iff: "min_int64 < d \<Longrightarrow> d \<le> max_int64 \<Longrightarrow> d \<le> Sub t u \<longleftrightarrow> d \<le> t - u"
  by (auto simp: Sub_def)

lemma Sub_gt_iff: "min_int64 \<le> d \<Longrightarrow> d < max_int64 \<Longrightarrow> d < Sub t u \<longleftrightarrow> d < t - u"
  by (auto simp: Sub_def min_int64_def max_int64_def)

lemma Sub_le_iff: "min_int64 \<le> d \<Longrightarrow> d < max_int64 \<Longrightarrow> Sub t u \<le> d \<longleftrightarrow> t - u \<le> d"
  using Sub_gt_iff [of d t u] by linarith

lemma UnixNano_in_range [simp]: "in_int64 t \<Longrightarrow> UnixNano t = t"
  by (simp add: UnixNano_def)

lemma UnixNano_int64: "in_int64 (UnixNano t)"
  by (simp add: UnixNano_def wrap_int64_range)

lemma UnixNano_roundtrip: "in_int64 n \<Longrightarrow> UnixNano (FromUnixNano n) = n"
  by (simp add: FromUnixNano_def)

lemma FromUnix_exact:
  "in_int64 (sec + unix_to_internal) \<Longrightarrow> FromUnix sec = sec * second"
  by (simp add: FromUnix_def)

lemma json_time_bounds: "json_time_ok t \<Longrightarrow> t < 253402300800 * second"
  by (simp add: json_time_ok_def)

end
