(* ===== verification/Go_Float.thy ===== *)
theory Go_Float
  imports Prelude Complex_Main "HOL-Library.Log_Nat"
begin

text \<open>
  Go's \<open>float64\<close> (IEEE 754 binary64) for the operations the program performs on percentages:
  comparisons, addition, subtraction and absolute value. A finite value is a rational number;
  every arithmetic result is rounded to nearest, ties to even, at 53 bits of precision, with
  the subnormal exponent \<open>-1074\<close> and overflow to an infinity. The sign of zero is not
  modelled: no operation of the program observes it. The locale \<open>rounding\<close> states what the
  percentage arithmetic needs of a rounding function.
\<close>

section \<open>Rounding to binary64\<close>

definition round_half_even :: "rat \<Rightarrow> int" where
  "round_half_even q =
     (let f = \<lfloor>q\<rfloor>; d = q - of_int f in
      if d < 1 / 2 then f else if 1 / 2 < d then f + 1 else if even f then f else f + 1)"

text \<open>The exponent of the binade that holds \<open>x\<close>, for positive \<open>x\<close>.\<close>

definition ilog2 :: "rat \<Rightarrow> int" where
  "ilog2 x = (if 1 \<le> x then bitlen \<lfloor>x\<rfloor> - 1 else - bitlen (\<lceil>1 / x\<rceil> - 1))"

definition f64_exp :: "rat \<Rightarrow> int" where
  "f64_exp x = max (ilog2 \<bar>x\<bar> - 52) (- 1074)"

definition rnd64 :: "rat \<Rightarrow> rat" where
  "rnd64 x = (if x = 0 then 0
     else of_int (round_half_even (x / 2 powi f64_exp x)) * 2 powi f64_exp x)"

section \<open>Values and operations\<close>

datatype float64 = F64NaN | F64Inf bool | F64 rat

definition f64_of_rat :: "rat \<Rightarrow> float64" where
  "f64_of_rat x = (let v = rnd64 x in if 2 ^ 1024 \<le> \<bar>v\<bar> then F64Inf (v < 0) else F64 v)"

fun f64_lt :: "float64 \<Rightarrow> float64 \<Rightarrow> bool" where
  "f64_lt F64NaN y = False"
| "f64_lt x F64NaN = False"
| "f64_lt (F64 a) (F64 b) = (a < b)"
| "f64_lt (F64Inf s) (F64 b) = s"
| "f64_lt (F64 a) (F64Inf t) = (\<not> t)"
| "f64_lt (F64Inf s) (F64Inf t) = (s \<and> \<not> t)"

definition f64_gt :: "float64 \<Rightarrow> float64 \<Rightarrow> bool" where
  "f64_gt x y = f64_lt y x"

fun f64_eq :: "float64 \<Rightarrow> float64 \<Rightarrow> bool" where
  "f64_eq F64NaN y = False"
| "f64_eq x F64NaN = False"
| "f64_eq (F64 a) (F64 b) = (a = b)"
| "f64_eq (F64Inf s) (F64Inf t) = (s = t)"
| "f64_eq x y = False"

fun f64_neg :: "float64 \<Rightarrow> float64" where
  "f64_neg F64NaN = F64NaN"
| "f64_neg (F64Inf s) = F64Inf (\<not> s)"
| "f64_neg (F64 a) = F64 (- a)"

fun f64_add :: "float64 \<Rightarrow> float64 \<Rightarrow> float64" where
  "f64_add F64NaN y = F64NaN"
| "f64_add x F64NaN = F64NaN"
| "f64_add (F64 a) (F64 b) = f64_of_rat (a + b)"
| "f64_add (F64Inf s) (F64 b) = F64Inf s"
| "f64_add (F64 a) (F64Inf t) = F64Inf t"
| "f64_add (F64Inf s) (F64Inf t) = (if s = t then F64Inf s else F64NaN)"

definition f64_sub :: "float64 \<Rightarrow> float64 \<Rightarrow> float64" where
  "f64_sub x y = f64_add x (f64_neg y)"

fun f64_abs :: "float64 \<Rightarrow> float64" where
  "f64_abs F64NaN = F64NaN"
| "f64_abs (F64Inf s) = F64Inf False"
| "f64_abs (F64 a) = F64 \<bar>a\<bar>"

definition IsNaN :: "float64 \<Rightarrow> bool" where
  "IsNaN x = (case x of F64NaN \<Rightarrow> True | _ \<Rightarrow> False)"

definition IsInf :: "float64 \<Rightarrow> bool" where
  "IsInf x = (case x of F64Inf _ \<Rightarrow> True | _ \<Rightarrow> False)"

section \<open>Rounding of small values\<close>

lemma round_half_even_le: "q \<le> of_int n \<Longrightarrow> round_half_even q \<le> n"
proof -
  assume q: "q \<le> of_int n"
  then have f: "\<lfloor>q\<rfloor> \<le> n" by (simp add: floor_le_iff)
  show ?thesis
  proof (cases "\<lfloor>q\<rfloor> = n")
    case True
    with q have "q - of_int \<lfloor>q\<rfloor> \<le> 0" by simp
    with True show ?thesis by (simp add: round_half_even_def Let_def)
  next
    case False
    with f show ?thesis by (simp add: round_half_even_def Let_def)
  qed
qed

lemma round_half_even_ge: "of_int n \<le> q \<Longrightarrow> n \<le> round_half_even q"
proof -
  assume "of_int n \<le> q"
  then have "n \<le> \<lfloor>q\<rfloor>" by (simp add: le_floor_iff)
  then show ?thesis by (simp add: round_half_even_def Let_def)
qed

lemma round_half_even_err: "\<bar>of_int (round_half_even q) - q\<bar> \<le> 1 / 2"
proof -
  have "of_int \<lfloor>q\<rfloor> \<le> q" "q < of_int \<lfloor>q\<rfloor> + 1" by linarith+
  then show ?thesis by (auto simp: round_half_even_def Let_def abs_le_iff)
qed

lemma bitlen_nonneg': "0 \<le> x \<Longrightarrow> 0 \<le> bitlen x"
  by (rule bitlen_nonneg)

lemma ilog2_upper:
  assumes "0 < x" and "x < 2 ^ k" and "1 \<le> k"
  shows "ilog2 x \<le> int k - 1"
proof (cases "1 \<le> x")
  case True
  from assms(2) have "of_int \<lfloor>x\<rfloor> < (2 ^ k :: rat)"
    using of_int_floor_le [of x] by linarith
  then have "\<lfloor>x\<rfloor> < 2 ^ k"
    by (metis of_int_less_iff of_int_numeral of_int_power)
  then have "bitlen \<lfloor>x\<rfloor> \<le> int k"
    using True by (simp add: bitlen_le_iff_power)
  with True show ?thesis by (simp add: ilog2_def)
next
  case False
  then have "1 \<le> 1 / x" using assms(1) by simp
  then have "0 \<le> \<lceil>1 / x\<rceil> - 1" by linarith
  then have "0 \<le> bitlen (\<lceil>1 / x\<rceil> - 1)" by (rule bitlen_nonneg')
  with False assms(3) show ?thesis by (simp add: ilog2_def)
qed

lemma f64_exp_upper:
  assumes "x \<noteq> 0" and "\<bar>x\<bar> < 2 ^ k" and "1 \<le> k"
  shows "f64_exp x \<le> int k - 53"
  using ilog2_upper [of "\<bar>x\<bar>" k] assms by (simp add: f64_exp_def)

lemma rnd64_err:
  assumes "\<bar>x\<bar> < 2 ^ k" and "1 \<le> k"
  shows "\<bar>rnd64 x - x\<bar> \<le> 2 powi (int k - 53) / 2"
proof (cases "x = 0")
  case False
  let ?u = "2 powi f64_exp x :: rat"
  have u: "0 < ?u" by simp
  have "rnd64 x - x = (of_int (round_half_even (x / ?u)) - x / ?u) * ?u"
    using False u by (simp add: rnd64_def algebra_simps)
  then have "\<bar>rnd64 x - x\<bar> = \<bar>of_int (round_half_even (x / ?u)) - x / ?u\<bar> * ?u"
    using u by (simp add: abs_mult)
  also have "\<dots> \<le> (1 / 2) * ?u"
    using round_half_even_err [of "x / ?u"] u by (intro mult_right_mono) simp_all
  also have "?u \<le> 2 powi (int k - 53)"
    using f64_exp_upper [OF False assms] by (intro power_int_increasing) simp_all
  finally show ?thesis by simp
qed (simp add: rnd64_def)

lemma int_scaled:
  assumes "e \<le> 0"
  shows "of_int n / (2 powi e :: rat) = of_int (n * 2 ^ nat (- e))"
  using assms by (simp add: power_int_def field_simps)

lemma rnd64_le_int:
  assumes "\<bar>x\<bar> < 2 ^ 53" and "x \<le> of_int n"
  shows "rnd64 x \<le> of_int n"
proof (cases "x = 0")
  case False
  let ?u = "2 powi f64_exp x :: rat"
  have e: "f64_exp x \<le> 0" using f64_exp_upper [OF False assms(1)] by simp
  have "x / ?u \<le> of_int n / ?u" using assms(2) by (simp add: divide_right_mono)
  then have "round_half_even (x / ?u) \<le> n * 2 ^ nat (- f64_exp x)"
    unfolding int_scaled [OF e] by (rule round_half_even_le)
  then have "of_int (round_half_even (x / ?u)) \<le> of_int n / ?u"
    unfolding int_scaled [OF e] by (simp only: of_int_le_iff)
  then show ?thesis using False by (simp add: rnd64_def pos_le_divide_eq)
qed (use assms in \<open>simp add: rnd64_def\<close>)

lemma rnd64_ge_int:
  assumes "\<bar>x\<bar> < 2 ^ 53" and "of_int n \<le> x"
  shows "of_int n \<le> rnd64 x"
proof (cases "x = 0")
  case False
  let ?u = "2 powi f64_exp x :: rat"
  have e: "f64_exp x \<le> 0" using f64_exp_upper [OF False assms(1)] by simp
  have "of_int n / ?u \<le> x / ?u" using assms(2) by (simp add: divide_right_mono)
  then have "n * 2 ^ nat (- f64_exp x) \<le> round_half_even (x / ?u)"
    unfolding int_scaled [OF e] by (rule round_half_even_ge)
  then have "of_int n / ?u \<le> of_int (round_half_even (x / ?u))"
    unfolding int_scaled [OF e] by (simp only: of_int_le_iff)
  then show ?thesis using False by (simp add: rnd64_def pos_divide_le_eq)
qed (use assms in \<open>simp add: rnd64_def\<close>)

section \<open>What the percentage arithmetic needs\<close>

locale rounding =
  fixes rnd :: "rat \<Rightarrow> rat" and eps :: rat
  assumes rnd_le_int: "\<bar>x\<bar> < 256 \<Longrightarrow> x \<le> of_int n \<Longrightarrow> rnd x \<le> of_int n"
    and rnd_ge_int: "\<bar>x\<bar> < 256 \<Longrightarrow> of_int n \<le> x \<Longrightarrow> of_int n \<le> rnd x"
    and rnd_err: "\<bar>x\<bar> < 256 \<Longrightarrow> \<bar>rnd x - x\<bar> \<le> eps"
    and eps_small: "0 \<le> eps" "4 * eps < 1 / 100"
begin

lemma rnd_int: "\<bar>of_int n :: rat\<bar> < 256 \<Longrightarrow> rnd (of_int n) = of_int n"
  using rnd_le_int rnd_ge_int by (simp add: order_antisym)

lemma complement_range:
  "0 \<le> u \<Longrightarrow> u \<le> 100 \<Longrightarrow> 0 \<le> rnd (100 - u) \<and> rnd (100 - u) \<le> 100"
  using rnd_le_int [of "100 - u" 100] rnd_ge_int [of "100 - u" 0] by auto

text \<open>Used and remaining percentage, both rounded, still sum to 100 within the tolerance.\<close>

lemma complement_sum:
  assumes "0 \<le> u" and "u \<le> 100"
  shows "\<bar>rnd (rnd (u + rnd (100 - u)) - 100)\<bar> < rnd (1 / 100)"
proof -
  let ?r = "rnd (100 - u)" and ?s = "rnd (u + rnd (100 - u))"
  have r: "\<bar>?r - (100 - u)\<bar> \<le> eps" by (rule rnd_err) (use assms in auto)
  have s: "\<bar>?s - (u + ?r)\<bar> \<le> eps"
    by (rule rnd_err) (use assms r eps_small in \<open>auto simp: abs_le_iff\<close>)
  have d: "\<bar>?s - 100\<bar> \<le> 2 * eps" using r s by (auto simp: abs_le_iff)
  have "\<bar>rnd (?s - 100) - (?s - 100)\<bar> \<le> eps"
    by (rule rnd_err) (use d eps_small in auto)
  with d have "\<bar>rnd (?s - 100)\<bar> \<le> 3 * eps" by (auto simp: abs_le_iff)
  moreover have "\<bar>rnd (1 / 100) - 1 / 100\<bar> \<le> eps" by (rule rnd_err) simp
  then have "1 / 100 - eps \<le> rnd (1 / 100)" by (auto simp: abs_le_iff)
  ultimately show ?thesis using eps_small by linarith
qed

end

interpretation f64: rounding rnd64 "2 powi (- 46)"
proof unfold_locales
  fix x :: rat and n :: int
  assume x: "\<bar>x\<bar> < 256"
  then have "\<bar>x\<bar> < 2 ^ 53" by simp
  then show "x \<le> of_int n \<Longrightarrow> rnd64 x \<le> of_int n"
    and "of_int n \<le> x \<Longrightarrow> of_int n \<le> rnd64 x"
    by (auto intro: rnd64_le_int rnd64_ge_int)
  from x show "\<bar>rnd64 x - x\<bar> \<le> 2 powi (- 46)"
    using rnd64_err [of x 8] by (simp add: power_int_def power_divide)
qed (simp_all add: power_int_def power_divide)

lemma rnd64_simps [simp]: "rnd64 0 = 0" "rnd64 100 = 100"
  using f64.rnd_int [of 0] f64.rnd_int [of 100] by simp_all

lemma f64_of_rat_small: "\<bar>x\<bar> < 255 \<Longrightarrow> f64_of_rat x = F64 (rnd64 x)"
proof -
  assume x: "\<bar>x\<bar> < 255"
  then have "rnd64 x \<le> 255" "- 255 \<le> rnd64 x"
    using f64.rnd_le_int [of x 255] f64.rnd_ge_int [of x "- 255"] by auto
  then have "\<bar>rnd64 x\<bar> < 2 ^ 1024" by simp
  then show ?thesis by (simp add: f64_of_rat_def Let_def)
qed

end
