(* ===== verification/Go_Strings.thy ===== *)
theory Go_Strings
  imports Prelude "HOL-Library.Char_ord" "HOL-Library.List_Lexorder"
begin

text \<open>
  Package \<open>strings\<close> on Go strings. A Go string is a sequence of bytes, a \<open>string\<close> of
  HOL; \<open>len\<close> is \<open>length\<close> and \<open><\<close> is the lexicographic order on bytes. Where Go works on
  runes the definitions below work on the UTF-8 encodings, which is exact for the sets of
  runes concerned (white space, ASCII classes, the runes that fold to ASCII letters).
\<close>

section \<open>Bytes and classes\<close>

definition byte :: "char \<Rightarrow> nat" where
  "byte c = of_char c"

definition is_lower :: "char \<Rightarrow> bool" where
  "is_lower c = (97 \<le> byte c \<and> byte c \<le> 122)"

definition is_upper :: "char \<Rightarrow> bool" where
  "is_upper c = (65 \<le> byte c \<and> byte c \<le> 90)"

definition is_digit :: "char \<Rightarrow> bool" where
  "is_digit c = (48 \<le> byte c \<and> byte c \<le> 57)"

definition is_hex_lower :: "char \<Rightarrow> bool" where
  "is_hex_lower c = (is_digit c \<or> (97 \<le> byte c \<and> byte c \<le> 102))"

lemmas byte_class_defs = byte_def is_lower_def is_upper_def is_digit_def is_hex_lower_def

section \<open>Searching\<close>

fun has_prefix :: "string \<Rightarrow> string \<Rightarrow> bool" where
  "has_prefix s [] = True"
| "has_prefix [] (p # ps) = False"
| "has_prefix (c # s) (p # ps) = (c = p \<and> has_prefix s ps)"

definition has_suffix :: "string \<Rightarrow> string \<Rightarrow> bool" where
  "has_suffix s p = has_prefix (rev s) (rev p)"

fun contains :: "string \<Rightarrow> string \<Rightarrow> bool" where
  "contains [] p = (p = [])"
| "contains (c # s) p = (has_prefix (c # s) p \<or> contains s p)"

text \<open>\<open>strings.Count\<close> for a non-empty pattern: non-overlapping occurrences from the left.\<close>

function count_sub :: "string \<Rightarrow> string \<Rightarrow> nat" where
  "count_sub s p =
     (if p = [] \<or> s = [] then 0
      else if has_prefix s p then Suc (count_sub (drop (length p) s) p)
      else count_sub (tl s) p)"
  by pat_completeness auto
termination
  by (relation "measure (\<lambda>(s, p). length s)") (auto simp: length_greater_0_conv [symmetric] simp del: length_greater_0_conv)

declare count_sub.simps [simp del]

definition trim_prefix :: "string \<Rightarrow> string \<Rightarrow> string" where
  "trim_prefix s p = (if has_prefix s p then drop (length p) s else s)"

definition trim_suffix :: "string \<Rightarrow> string \<Rightarrow> string" where
  "trim_suffix s p = (if has_suffix s p then take (length s - length p) s else s)"

section \<open>White space\<close>

text \<open>The UTF-8 encodings of the runes for which \<open>unicode.IsSpace\<close> holds.\<close>

definition space_encodings :: "string list" where
  "space_encodings =
     [[CHR 0x09], [CHR 0x0A], [CHR 0x0B], [CHR 0x0C], [CHR 0x0D], [CHR 0x20],
      [CHR 0xC2, CHR 0x85], [CHR 0xC2, CHR 0xA0], [CHR 0xE1, CHR 0x9A, CHR 0x80],
      [CHR 0xE2, CHR 0x80, CHR 0x80], [CHR 0xE2, CHR 0x80, CHR 0x81],
      [CHR 0xE2, CHR 0x80, CHR 0x82], [CHR 0xE2, CHR 0x80, CHR 0x83],
      [CHR 0xE2, CHR 0x80, CHR 0x84], [CHR 0xE2, CHR 0x80, CHR 0x85],
      [CHR 0xE2, CHR 0x80, CHR 0x86], [CHR 0xE2, CHR 0x80, CHR 0x87],
      [CHR 0xE2, CHR 0x80, CHR 0x88], [CHR 0xE2, CHR 0x80, CHR 0x89],
      [CHR 0xE2, CHR 0x80, CHR 0x8A], [CHR 0xE2, CHR 0x80, CHR 0xA8],
      [CHR 0xE2, CHR 0x80, CHR 0xA9], [CHR 0xE2, CHR 0x80, CHR 0xAF],
      [CHR 0xE2, CHR 0x81, CHR 0x9F], [CHR 0xE3, CHR 0x80, CHR 0x80]]"

text \<open>The number of bytes of the white-space rune a string starts with, 0 for none.\<close>

definition space_width :: "string list \<Rightarrow> string \<Rightarrow> nat" where
  "space_width encs s =
     (case find (has_prefix s) encs of None \<Rightarrow> 0 | Some e \<Rightarrow> length e)"

function strip_spaces :: "string list \<Rightarrow> string \<Rightarrow> string" where
  "strip_spaces encs s =
     (if space_width encs s = 0 \<or> s = [] then s
      else strip_spaces encs (drop (space_width encs s) s))"
  by pat_completeness auto
termination
  by (relation "measure (\<lambda>(encs, s). length s)") auto

declare strip_spaces.simps [simp del]

definition trim_left :: "string \<Rightarrow> string" where
  "trim_left s = strip_spaces space_encodings s"

definition trim_right :: "string \<Rightarrow> string" where
  "trim_right s = rev (strip_spaces (map rev space_encodings) (rev s))"

definition TrimSpace :: "string \<Rightarrow> string" where
  "TrimSpace s = trim_right (trim_left s)"

text \<open>\<open>strings.Fields\<close>: the maximal runs of bytes between white space.\<close>

function fields_from :: "string \<Rightarrow> string \<Rightarrow> string list" where
  "fields_from cur s =
     (if s = [] then (if cur = [] then [] else [cur])
      else if space_width space_encodings s = 0 then fields_from (cur @ [hd s]) (tl s)
      else (if cur = [] then [] else [cur]) @
           fields_from [] (drop (space_width space_encodings s) s))"
  by pat_completeness auto
termination
  by (relation "measure (\<lambda>(cur, s). length s)") auto

declare fields_from.simps [simp del]

definition Fields :: "string \<Rightarrow> string list" where
  "Fields s = fields_from [] s"

section \<open>Splitting and case\<close>

fun split_char :: "char \<Rightarrow> string \<Rightarrow> string list" where
  "split_char d [] = [[]]"
| "split_char d (c # s) =
     (if c = d then [] # split_char d s
      else case split_char d s of [] \<Rightarrow> [[c]] | w # ws \<Rightarrow> (c # w) # ws)"

fun join_char :: "char \<Rightarrow> string list \<Rightarrow> string" where
  "join_char d [] = []"
| "join_char d [w] = w"
| "join_char d (w # v # ws) = w @ d # join_char d (v # ws)"

definition lower_byte :: "char \<Rightarrow> char" where
  "lower_byte c = (if is_upper c then char_of (byte c + 32) else c)"

text \<open>
  \<open>strings.ToLower\<close>, exact wherever the result is ASCII: besides A--Z only U+212A (Kelvin sign)
  and U+0130 (I with dot) have an ASCII lower case. Other multi-byte runes keep their bytes;
  the program compares the result with ASCII text only.
\<close>

fun ToLower :: "string \<Rightarrow> string" where
  "ToLower [] = []"
| "ToLower (a # b # c # s) =
     (if a = CHR 0xE2 \<and> b = CHR 0x84 \<and> c = CHR 0xAA then CHR ''k'' # ToLower s
      else if a = CHR 0xC4 \<and> b = CHR 0xB0 then CHR ''i'' # ToLower (c # s)
      else lower_byte a # ToLower (b # c # s))"
| "ToLower [a, b] =
     (if a = CHR 0xC4 \<and> b = CHR 0xB0 then ''i'' else [lower_byte a, lower_byte b])"
| "ToLower [a] = [lower_byte a]"

text \<open>
  \<open>strings.EqualFold\<close> against an ASCII constant: letters match in either case, and the runes
  U+212A and U+017F fold to k and s.
\<close>

fun fold_eq :: "string \<Rightarrow> string \<Rightarrow> bool" where
  "fold_eq [] [] = True"
| "fold_eq (c # s) (p # ps) =
     (lower_byte c = lower_byte p \<and> fold_eq s ps \<or>
      lower_byte p = CHR ''k'' \<and> has_prefix (c # s) [CHR 0xE2, CHR 0x84, CHR 0xAA]
        \<and> fold_eq (drop 2 s) ps \<or>
      lower_byte p = CHR ''s'' \<and> has_prefix (c # s) [CHR 0xC5, CHR 0xBF]
        \<and> fold_eq (drop 1 s) ps)"
| "fold_eq s ps = False"

section \<open>Facts\<close>

lemma has_prefix_iff: "has_prefix s p \<longleftrightarrow> prefix p s"
  by (induction s p rule: has_prefix.induct) auto

lemma has_suffix_iff: "has_suffix s p \<longleftrightarrow> suffix p s"
  by (simp add: has_suffix_def has_prefix_iff suffix_to_prefix)

lemma contains_iff: "contains s p \<longleftrightarrow> sublist p s"
  by (induction s) (auto simp: has_prefix_iff sublist_Cons_right)

lemma trim_prefix_append [simp]: "trim_prefix (p @ s) p = s"
  by (simp add: trim_prefix_def has_prefix_iff)

lemma trim_suffix_append [simp]: "trim_suffix (s @ p) p = s"
  by (simp add: trim_suffix_def has_suffix_iff suffix_def)

text \<open>No byte of a string over the printable ASCII range begins white space.\<close>

definition graphic :: "char \<Rightarrow> bool" where
  "graphic c = (33 \<le> byte c \<and> byte c \<le> 126)"

lemma space_encodings_heads:
  "list_all (\<lambda>e. e \<noteq> [] \<and> \<not> graphic (hd e) \<and> \<not> graphic (last e)) space_encodings"
  by code_simp

lemma space_width_zero:
  assumes "s \<noteq> []" and "\<forall>e\<in>set encs. e \<noteq> [] \<and> hd e \<noteq> hd s"
  shows "space_width encs s = 0"
proof -
  have "\<not> has_prefix s e" if "e \<in> set encs" for e
    using assms that by (cases s; cases e) auto
  then have "find (has_prefix s) encs = None" by (simp add: find_None_iff)
  then show ?thesis by (simp add: space_width_def)
qed

lemma graphic_no_space:
  assumes "graphic (hd s)" and "s \<noteq> []"
  shows "space_width space_encodings s = 0" "space_width (map rev space_encodings) s = 0"
  using assms space_encodings_heads
  by (auto intro!: space_width_zero simp: list_all_iff hd_rev) metis+

lemma strip_spaces_graphic:
  assumes "s = [] \<or> graphic (hd s)"
  shows "strip_spaces space_encodings s = s" "strip_spaces (map rev space_encodings) s = s"
  using assms by (auto simp: strip_spaces.simps [of _ s] graphic_no_space)

lemma TrimSpace_graphic:
  assumes "\<forall>c\<in>set s. graphic c"
  shows "TrimSpace s = s"
proof (cases "s = []")
  case True
  then show ?thesis
    by (simp add: TrimSpace_def trim_left_def trim_right_def strip_spaces.simps)
next
  case False
  with assms have "graphic (hd s)" "graphic (hd (rev s))"
    using hd_in_set [of "rev s"] by auto
  then show ?thesis
    by (simp add: TrimSpace_def trim_left_def trim_right_def strip_spaces_graphic)
qed

lemma strip_spaces_done: "space_width encs (strip_spaces encs s) = 0 \<or> strip_spaces encs s = []"
proof (induction encs s rule: strip_spaces.induct)
  case (1 encs s)
  show ?case
  proof (cases "space_width encs s = 0 \<or> s = []")
    case True
    then have "strip_spaces encs s = s" by (simp add: strip_spaces.simps)
    with True show ?thesis by simp
  next
    case False
    then have "strip_spaces encs s = strip_spaces encs (drop (space_width encs s) s)"
      by (subst strip_spaces.simps) simp
    with 1 [OF False] show ?thesis by (simp only:)
  qed
qed

lemma strip_spaces_fix: "space_width encs s = 0 \<or> s = [] \<Longrightarrow> strip_spaces encs s = s"
  by (simp add: strip_spaces.simps)

lemma strip_spaces_suffix: "suffix (strip_spaces encs s) s"
proof (induction encs s rule: strip_spaces.induct)
  case (1 encs s)
  then show ?case
    by (subst strip_spaces.simps) (auto intro: suffix_order.trans suffix_drop)
qed

lemma space_width_prefix:
  assumes "prefix t s" and "space_width encs s = 0" and "[] \<notin> set encs"
  shows "space_width encs t = 0"
proof -
  have "find (has_prefix s) encs = None"
    using assms(2,3) by (auto simp: space_width_def find_Some_iff split: option.splits) (metis nth_mem)
  then have "find (has_prefix t) encs = None"
    using assms(1) by (auto simp: find_None_iff has_prefix_iff dest: prefix_order.trans)
  then show ?thesis by (simp add: space_width_def)
qed

lemma TrimSpace_idem: "TrimSpace (TrimSpace s) = TrimSpace s"
proof -
  let ?r = "map rev space_encodings"
  let ?a = "strip_spaces space_encodings s"
  let ?b = "strip_spaces ?r (rev ?a)"
  have ne: "[] \<notin> set space_encodings" by (simp add: space_encodings_def)
  have pre: "prefix (rev ?b) ?a" using strip_spaces_suffix [of ?r "rev ?a"] by (simp add: suffix_to_prefix)
  have "space_width space_encodings (rev ?b) = 0 \<or> rev ?b = []"
    using strip_spaces_done [of space_encodings s] space_width_prefix [OF pre _ ne] pre by auto
  then have "trim_left (rev ?b) = rev ?b" unfolding trim_left_def by (rule strip_spaces_fix)
  moreover have "trim_right (rev ?b) = rev ?b"
    unfolding trim_right_def using strip_spaces_fix [OF strip_spaces_done [of ?r "rev ?a"]] by simp
  ultimately show ?thesis by (simp add: TrimSpace_def trim_left_def trim_right_def)
qed

lemma TrimSpace_length: "length (TrimSpace s) \<le> length s"
proof -
  have "length (strip_spaces encs s) \<le> length s" for encs and s :: string
    using strip_spaces_suffix by (rule suffix_length_le)
  then show ?thesis unfolding TrimSpace_def trim_left_def trim_right_def
    by (metis le_trans length_rev)
qed

lemma fields_from_graphic:
  "\<forall>c\<in>set s. graphic c \<Longrightarrow> fields_from cur s = (if cur @ s = [] then [] else [cur @ s])"
proof (induction s arbitrary: cur)
  case (Cons c s)
  then show ?case by (subst fields_from.simps) (simp add: graphic_no_space)
qed (simp add: fields_from.simps)

lemma split_char_nonempty [simp]: "split_char d s \<noteq> []"
  by (induction s) (auto split: list.splits)

lemma split_join: "join_char d (split_char d s) = s"
proof (induction s)
  case (Cons c s)
  obtain w ws where "split_char d s = w # ws" by (cases "split_char d s") auto
  with Cons show ?case by (cases ws) auto
qed simp

lemma split_char_notin: "d \<notin> set s \<Longrightarrow> split_char d s = [s]"
  by (induction s) auto

lemma split_char_append: "d \<notin> set s \<Longrightarrow> split_char d (s @ d # t) = s # split_char d t"
  by (induction s) auto

lemma join_split:
  "ws \<noteq> [] \<Longrightarrow> \<forall>w\<in>set ws. d \<notin> set w \<Longrightarrow> split_char d (join_char d ws) = ws"
  by (induction d ws rule: join_char.induct) (auto simp: split_char_notin split_char_append)

lemma split_char_parts: "w \<in> set (split_char d s) \<Longrightarrow> d \<notin> set w"
  by (induction s arbitrary: w) (auto split: list.splits if_splits)

end
