(* ===== verification/Model.thy ===== *)
theory Model
  imports Go_Time Go_Float Go_Strings
begin

text \<open>
  \<open>internal/model\<close>: the versioned report and snapshot contract shared by agents, the server and
  the display, and the normalisation of percentages. Go's named string types stay strings, so
  that unknown providers and kinds can occur wherever the code has to reject them. A map field
  is an association list (its iteration order); a nil map or slice is \<open>None\<close>.
\<close>

section \<open>Constants and types (types.go)\<close>

type_synonym provider_name = string
type_synonym task_kind = string

definition SchemaVersion :: int where "SchemaVersion = 1"
definition ProviderCodex :: provider_name where "ProviderCodex = ''codex''"
definition ProviderClaude :: provider_name where "ProviderClaude = ''claude''"
definition TaskMain :: task_kind where "TaskMain = ''main''"
definition TaskSub :: task_kind where "TaskSub = ''sub''"

datatype freshness = FreshnessFresh | FreshnessStale | FreshnessUnavailable

fun freshness_text :: "freshness \<Rightarrow> string" where
  "freshness_text FreshnessFresh = ''fresh''"
| "freshness_text FreshnessStale = ''stale''"
| "freshness_text FreshnessUnavailable = ''unavailable''"

record limit_window =
  UsedPercent :: float64
  RemainingPercent :: float64
  ResetsAt :: "time option"

record provider_windows =
  FiveHour :: "limit_window option"
  SevenDay :: "limit_window option"

definition no_windows :: provider_windows where
  "no_windows = \<lparr>FiveHour = None, SevenDay = None\<rparr>"

record provider_report =
  ObservedAt :: time
  AuthState :: string
  Plan :: string
  Source :: string
  Windows :: provider_windows
  ErrorCode :: string

definition empty_report :: provider_report where
  "empty_report = \<lparr>ObservedAt = zero_time, AuthState = [], Plan = [], Source = [],
     Windows = no_windows, ErrorCode = []\<rparr>"

record active_task =
  Provider :: provider_name
  Kind :: task_kind
  SessionID :: string
  StartedAt :: time
  LastSeenAt :: time

record agent_report =
  ar_SchemaVersion :: int
  ar_AgentID :: string
  ar_SentAt :: time
  ar_Providers :: "(provider_name, provider_report) gomap option"
  ar_ActiveTasks :: "active_task list option"

record provider_snapshot =
  ps_ObservedAt :: "time option"
  ps_Freshness :: freshness
  ps_LoginRequired :: bool
  ps_Plan :: string
  ps_Source :: string
  ps_Windows :: provider_windows

record task_count =
  tc_Main :: nat
  tc_Sub :: nat

record task_summary =
  ts_Codex :: task_count
  ts_Claude :: task_count
  ts_Total :: task_count

record agent_summary =
  as_Online :: nat
  as_Total :: nat

record display_snapshot =
  ds_SchemaVersion :: int
  ds_GeneratedAt :: time
  ds_Providers :: "(provider_name, provider_snapshot) gomap"
  ds_Tasks :: task_summary
  ds_Agents :: agent_summary
  ds_Warnings :: "string list"

section \<open>Normalisation (normalize.go)\<close>

definition ClampPercent :: "float64 \<Rightarrow> float64" where
  "ClampPercent v =
     (if IsNaN v \<or> IsInf v \<or> f64_lt v (F64 0) then F64 0
      else if f64_gt v (F64 100) then F64 100
      else v)"

definition NewLimitWindow :: "float64 \<Rightarrow> time \<Rightarrow> limit_window" where
  "NewLimitWindow used resets =
     (let u = ClampPercent used in
      \<lparr>UsedPercent = u, RemainingPercent = f64_sub (F64 100) u, ResetsAt = Some resets\<rparr>)"

definition ValidProvider :: "provider_name \<Rightarrow> bool" where
  "ValidProvider p = (p = ProviderCodex \<or> p = ProviderClaude)"

definition ValidTaskKind :: "task_kind \<Rightarrow> bool" where
  "ValidTaskKind k = (k = TaskMain \<or> k = TaskSub)"

section \<open>Facts\<close>

lemmas name_defs = ProviderCodex_def ProviderClaude_def TaskMain_def TaskSub_def

lemma provider_names [simp]: "ProviderCodex \<noteq> ProviderClaude" "ProviderClaude \<noteq> ProviderCodex"
  by (simp_all add: name_defs)

lemma kind_names [simp]: "TaskMain \<noteq> TaskSub" "TaskSub \<noteq> TaskMain"
  by (simp_all add: name_defs)

text \<open>A percentage in range: what a window on the wire must hold.\<close>

definition percent_ok :: "float64 \<Rightarrow> bool" where
  "percent_ok v = (case v of F64 a \<Rightarrow> 0 \<le> a \<and> a \<le> 100 | _ \<Rightarrow> False)"

lemma percent_okE:
  assumes "percent_ok v"
  obtains a where "v = F64 a" "0 \<le> a" "a \<le> 100"
  using assms by (cases v) (auto simp: percent_ok_def)

lemma ClampPercent_ok: "percent_ok (ClampPercent v)"
  by (cases v) (auto simp: ClampPercent_def percent_ok_def IsNaN_def IsInf_def f64_gt_def)

lemma ClampPercent_id: "percent_ok v \<Longrightarrow> ClampPercent v = v"
  by (erule percent_okE) (auto simp: ClampPercent_def IsNaN_def IsInf_def f64_gt_def)

lemma f64_complement:
  assumes "0 \<le> a" and "a \<le> 100"
  shows "f64_sub (F64 100) (F64 a) = F64 (rnd64 (100 - a))"
  using assms by (simp add: f64_sub_def f64_of_rat_small)

lemma f64_complement_ok: "percent_ok u \<Longrightarrow> percent_ok (f64_sub (F64 100) u)"
  by (erule percent_okE) (simp add: f64_complement percent_ok_def f64.complement_range)

lemma f64_complement_sum:
  assumes "percent_ok u"
  shows "\<not> f64_gt (f64_abs (f64_sub (f64_add u (f64_sub (F64 100) u)) (F64 100)))
           (f64_of_rat (1 / 100))"
proof -
  from assms obtain a where a: "u = F64 a" "0 \<le> a" "a \<le> 100" by (rule percent_okE)
  let ?r = "rnd64 (100 - a)"
  have r: "0 \<le> ?r" "?r \<le> 100" using f64.complement_range a by auto
  have s: "0 \<le> rnd64 (a + ?r)" "rnd64 (a + ?r) \<le> 200"
    using f64.rnd_ge_int [of "a + ?r" 0] f64.rnd_le_int [of "a + ?r" 200] a r by auto
  have "f64_sub (f64_add u (f64_sub (F64 100) u)) (F64 100) = F64 (rnd64 (rnd64 (a + ?r) - 100))"
    using a r s by (simp add: f64_complement f64_of_rat_small f64_sub_def [of "F64 _" "F64 100"])
  then show ?thesis
    using f64.complement_sum [OF a(2,3)] by (simp add: f64_gt_def f64_of_rat_small)
qed

end
