(* ===== verification/Firmware.thy ===== *)
theory Firmware
  imports Go_Time Go_Strings
begin

text \<open>
  \<open>internal/firmware\<close>: strict versions, the manifest, the reader (\<open>LoadManifest\<close>,
  \<open>OpenVerifiedImage\<close>) and the publisher (\<open>Publish\<close>). The firmware directory is a map from names
  to entries. \<open>Publish\<close> yields the sequence of directory operations it performs, so that a crash
  is a prefix of the sequence. Arguments stand for SHA-256 (\<open>sha\<close>), for the JSON text of a
  manifest (\<open>enc\<close>) and for the strict decoder of that text (\<open>dec\<close>), and \<open>io i\<close> says whether the
  \<open>i\<close>-th system call succeeds.
\<close>

section \<open>Versions\<close>

datatype version = Version (Major: nat) (Minor: nat) (Patch: nat)

datatype fw_error =
    ErrNotFound | ErrInvalidManifest | ErrInvalidVersion | ErrVersionNotNewer
  | ErrImageTooLarge | ErrHashMismatch | ErrDirectoryRequired | ErrUnsupportedBoard
  | ErrFileRequired | ErrNotRegularFile | ErrEmptyFile | ErrTargetExists | ErrFileChanged
  | ErrEncodeManifest | ErrIO

definition digit_value :: "char \<Rightarrow> nat" where
  "digit_value c = byte c - 48"

definition decimal_value :: "string \<Rightarrow> nat" where
  "decimal_value s = foldl (\<lambda>n c. 10 * n + digit_value c) 0 s"

text \<open>\<open>strconv.ParseUint(s, 10, 32)\<close> on a non-empty string of digits.\<close>

definition ParseUint32 :: "string \<Rightarrow> nat option" where
  "ParseUint32 s = (if int (decimal_value s) < 2 ^ 32 then Some (decimal_value s) else None)"

definition parse_component :: "string \<Rightarrow> nat option" where
  "parse_component part =
     (if part = [] \<or> (length part > 1 \<and> hd part = CHR ''0'') then None
      else if \<not> list_all is_digit part then None
      else ParseUint32 part)"

definition ParseVersion :: "string \<Rightarrow> version option" where
  "ParseVersion value =
     (case split_char (CHR ''.'') value of
        [a, b, c] \<Rightarrow>
          (case parse_component a of None \<Rightarrow> None
           | Some x \<Rightarrow> (case parse_component b of None \<Rightarrow> None
             | Some y \<Rightarrow> (case parse_component c of None \<Rightarrow> None
               | Some z \<Rightarrow> Some (Version x y z))))
      | _ \<Rightarrow> None)"

fun compare_from :: "(nat \<times> nat) list \<Rightarrow> int" where
  "compare_from [] = 0"
| "compare_from ((l, r) # ps) = (if l < r then - 1 else if l > r then 1 else compare_from ps)"

definition version_Compare :: "version \<Rightarrow> version \<Rightarrow> int" where
  "version_Compare v w =
     compare_from [(Major v, Major w), (Minor v, Minor w), (Patch v, Patch w)]"

text \<open>Decimal notation, the inverse of the parser.\<close>

fun show_nat :: "nat \<Rightarrow> string" where
  "show_nat n = (if n < 10 then [char_of (48 + n)] else show_nat (n div 10) @ [char_of (48 + n mod 10)])"

declare show_nat.simps [simp del]

definition show_version :: "version \<Rightarrow> string" where
  "show_version v = join_char (CHR ''.'') [show_nat (Major v), show_nat (Minor v), show_nat (Patch v)]"

instantiation version :: linorder
begin

definition less_eq_version :: "version \<Rightarrow> version \<Rightarrow> bool" where
  "less_eq_version v w = (version_Compare v w \<le> 0)"

definition less_version :: "version \<Rightarrow> version \<Rightarrow> bool" where
  "less_version v w = (version_Compare v w < 0)"

instance
proof
  fix v w u :: version
  show "v < w \<longleftrightarrow> v \<le> w \<and> \<not> w \<le> v"
    by (cases v; cases w) (auto simp: less_eq_version_def less_version_def version_Compare_def)
  show "v \<le> v" by (cases v) (simp add: less_eq_version_def version_Compare_def)
  show "v \<le> w \<Longrightarrow> w \<le> u \<Longrightarrow> v \<le> u"
    by (cases v; cases w; cases u) (auto simp: less_eq_version_def version_Compare_def split: if_splits)
  show "v \<le> w \<Longrightarrow> w \<le> v \<Longrightarrow> v = w"
    by (cases v; cases w) (auto simp: less_eq_version_def version_Compare_def split: if_splits)
  show "v \<le> w \<or> w \<le> v"
    by (cases v; cases w) (auto simp: less_eq_version_def version_Compare_def split: if_splits)
qed

end

section \<open>The manifest\<close>

definition FirmwareSchemaVersion :: int where "FirmwareSchemaVersion = 1"
definition BoardE32R28T :: string where "BoardE32R28T = ''e32r28t''"
definition ManifestName :: string where "ManifestName = ''manifest.json''"
definition MaxImageSize :: int where "MaxImageSize = 1966080"
definition maxManifestSize :: int where "maxManifestSize = 4096"

record manifest =
  mf_SchemaVersion :: int
  mf_Board :: string
  mf_Version :: string
  mf_PublishedAt :: time
  mf_SizeBytes :: int
  mf_SHA256 :: string

definition validSHA256 :: "string \<Rightarrow> bool" where
  "validSHA256 v = (length v = 64 \<and> list_all is_hex_lower v)"

definition manifest_Validate :: "manifest \<Rightarrow> fw_error option" where
  "manifest_Validate m =
     (if mf_SchemaVersion m \<noteq> FirmwareSchemaVersion then Some ErrInvalidManifest
      else if mf_Board m \<noteq> BoardE32R28T then Some ErrInvalidManifest
      else if ParseVersion (mf_Version m) = None then Some ErrInvalidManifest
      else if IsZero (mf_PublishedAt m) then Some ErrInvalidManifest
      else if mf_SizeBytes m \<le> 0 \<or> mf_SizeBytes m > MaxImageSize then Some ErrInvalidManifest
      else if \<not> validSHA256 (mf_SHA256 m) then Some ErrInvalidManifest
      else None)"

definition ImageName :: "string \<Rightarrow> string \<Rightarrow> string" where
  "ImageName board version = board @ ''-'' @ version @ ''.bin''"

section \<open>The directory\<close>

datatype dir_entry = Regular string | Irregular

type_synonym directory = "string \<rightharpoonup> dir_entry"
type_synonym syscalls = "nat \<Rightarrow> bool"

definition hex_digit :: "nat \<Rightarrow> char" where
  "hex_digit n = (if n < 10 then char_of (48 + n) else char_of (87 + n))"

fun hex_encode :: "string \<Rightarrow> string" where
  "hex_encode [] = []"
| "hex_encode (c # s) = hex_digit (byte c div 16) # hex_digit (byte c mod 16) # hex_encode s"

text \<open>At most \<open>n\<close> bytes of a reader, and what is left after them.\<close>

definition read_upto :: "int \<Rightarrow> string \<Rightarrow> string" where
  "read_upto n s = (if int (length s) \<le> n then s else take (nat n) s)"

definition skip_upto :: "int \<Rightarrow> string \<Rightarrow> string" where
  "skip_upto n s = (if int (length s) \<le> n then [] else drop (nat n) s)"

lemma read_upto_take [simp]: "read_upto n s = take (nat n) s" "skip_upto n s = drop (nat n) s"
  by (auto simp: read_upto_def skip_upto_def)

text \<open>
  The loop of \<open>hashReader\<close>: \<open>good i\<close> says that round \<open>i\<close> finds the context alive and reads
  without error; a round reads at most 32 KiB and a read past the end reports the end.
\<close>

function hash_rounds :: "(nat \<Rightarrow> bool) \<Rightarrow> nat \<Rightarrow> string \<Rightarrow> string \<Rightarrow> string option" where
  "hash_rounds good i written rest =
     (if \<not> good i then None
      else if rest = [] then Some written
      else hash_rounds good (Suc i) (written @ read_upto 32768 rest) (skip_upto 32768 rest))"
  by pat_completeness auto
termination
  by (relation "measure (\<lambda>(good, i, written, rest). length rest)") auto

declare hash_rounds.simps [simp del]

definition hashReader ::
    "(string \<Rightarrow> string) \<Rightarrow> (nat \<Rightarrow> bool) \<Rightarrow> string \<Rightarrow> (fw_error, string \<times> int) result" where
  "hashReader sha good bytes =
     (case hash_rounds good 0 [] bytes of
        None \<Rightarrow> err ErrIO
      | Some w \<Rightarrow> ok (hex_encode (sha w), int (length w)))"

definition LoadManifest ::
    "(string \<Rightarrow> manifest option) \<Rightarrow> syscalls \<Rightarrow> string \<Rightarrow> directory \<Rightarrow> (fw_error, manifest) result" where
  "LoadManifest dec io path d =
     (if TrimSpace path = [] then err ErrNotFound
      else case d ManifestName of
             None \<Rightarrow> err ErrNotFound
           | Some e \<Rightarrow>
             if \<not> io 0 \<or> \<not> io 1 then err ErrIO
             else case e of
                    Irregular \<Rightarrow> err ErrInvalidManifest
                  | Regular text \<Rightarrow>
                    if length text = 0 \<or> int (length text) > maxManifestSize then err ErrInvalidManifest
                    else case dec text of
                           None \<Rightarrow> err ErrInvalidManifest
                         | Some m \<Rightarrow> (case manifest_Validate m of Some e \<Rightarrow> err e | None \<Rightarrow> ok m))"

definition OpenVerifiedImage ::
    "(string \<Rightarrow> manifest option) \<Rightarrow> (string \<Rightarrow> string) \<Rightarrow> syscalls \<Rightarrow> (nat \<Rightarrow> bool) \<Rightarrow> string \<Rightarrow> string \<Rightarrow>
     directory \<Rightarrow> (fw_error, string \<times> manifest) result" where
  "OpenVerifiedImage dec sha io good path version d =
     (if ParseVersion version = None then err ErrNotFound
      else case LoadManifest dec io path d of
             Inl e \<Rightarrow> err e
           | Inr m \<Rightarrow>
             if mf_Version m \<noteq> version then err ErrNotFound
             else case d (ImageName (mf_Board m) (mf_Version m)) of
                    None \<Rightarrow> err ErrInvalidManifest
                  | Some e \<Rightarrow>
                    if \<not> io 2 \<or> \<not> io 3 then err ErrIO
                    else case e of
                           Irregular \<Rightarrow> err ErrInvalidManifest
                         | Regular bytes \<Rightarrow>
                           if int (length bytes) \<noteq> mf_SizeBytes m then err ErrInvalidManifest
                           else case hashReader sha good bytes of
                                  Inl e \<Rightarrow> err e
                                | Inr (digest, sz) \<Rightarrow>
                                  if sz \<noteq> mf_SizeBytes m \<or> digest \<noteq> mf_SHA256 m then err ErrHashMismatch
                                  else if \<not> io 4 then err ErrIO
                                  else ok (bytes, m))"

section \<open>Publishing\<close>

datatype fs_op =
    OpLockFile
  | OpWrite string string
  | OpRemove string
  | OpRename string string
  | OpSyncDir

fun apply_op :: "fs_op \<Rightarrow> directory \<Rightarrow> directory" where
  "apply_op OpLockFile d =
     (case d ''.publish.lock'' of None \<Rightarrow> d(''.publish.lock'' \<mapsto> Regular []) | Some _ \<Rightarrow> d)"
| "apply_op (OpWrite n bytes) d = d(n \<mapsto> Regular bytes)"
| "apply_op (OpRemove n) d = d(n := None)"
| "apply_op (OpRename a b) d = (case d a of None \<Rightarrow> d | Some e \<Rightarrow> d(a := None, b \<mapsto> e))"
| "apply_op OpSyncDir d = d"

definition run_ops :: "fs_op list \<Rightarrow> directory \<Rightarrow> directory" where
  "run_ops ops d = fold apply_op ops d"

record publish_options =
  po_Directory :: string
  po_Board :: string
  po_Version :: string
  po_SourcePath :: string
  po_PublishedAt :: time

text \<open>
  What the publisher meets outside the directory: the source file (absent, irregular, or with a
  size at \<open>Stat\<close> and the bytes the copy reads), the random parts of the staging names, and what
  reading the staged image back gives.
\<close>

datatype source_file = NoSource | IrregularSource | SourceFile int string

record publish_env =
  pe_source :: source_file
  pe_rand1 :: string
  pe_rand2 :: string
  pe_readback :: "string \<Rightarrow> string"
  pe_good :: "nat \<Rightarrow> bool"
  pe_now :: time

definition image_temp :: "publish_env \<Rightarrow> string" where
  "image_temp env = ''.image-'' @ pe_rand1 env @ ''.tmp''"

definition manifest_temp :: "publish_env \<Rightarrow> string" where
  "manifest_temp env = ''.manifest-'' @ pe_rand2 env @ ''.tmp''"

definition truncate_second :: "time \<Rightarrow> time" where
  "truncate_second t = t - t mod second"

text \<open>From the installation of the image on: two renames with a directory sync between them.\<close>

definition publish_commit ::
    "syscalls \<Rightarrow> publish_env \<Rightarrow> string \<Rightarrow> manifest \<Rightarrow> (fw_error, manifest) result \<times> fs_op list" where
  "publish_commit io env target m =
     (let t1 = image_temp env; t2 = manifest_temp env;
          undo = [OpRemove t2, OpRemove t1];
          undo_image = undo @ [OpRemove target, OpSyncDir]
      in if \<not> io 20 then (err ErrIO, undo)
         else if \<not> io 21 then (err ErrIO, OpRename t1 target # undo_image)
         else if \<not> io 22 then (err ErrIO, [OpRename t1 target, OpSyncDir] @ undo_image)
         else if \<not> io 23 then (err ErrIO, [OpRename t1 target, OpSyncDir, OpRename t2 ManifestName] @ undo)
         else (ok m, [OpRename t1 target, OpSyncDir, OpRename t2 ManifestName, OpSyncDir] @ undo))"

text \<open>Staging of the manifest, after the image has been staged and verified.\<close>

definition publish_manifest ::
    "(manifest \<Rightarrow> string option) \<Rightarrow> syscalls \<Rightarrow> publish_env \<Rightarrow> string \<Rightarrow> manifest \<Rightarrow>
     (fw_error, manifest) result \<times> fs_op list" where
  "publish_manifest enc io env target m =
     (let t1 = image_temp env; t2 = manifest_temp env in
      case manifest_Validate m of
        Some e \<Rightarrow> (err e, [OpRemove t1])
      | None \<Rightarrow>
        (case enc m of
           None \<Rightarrow> (err ErrEncodeManifest, [OpRemove t1])
         | Some text \<Rightarrow>
           if \<not> io 15 then (err ErrIO, [OpRemove t1])
           else if \<not> io 16 then (err ErrIO, [OpWrite t2 [], OpRemove t2, OpRemove t1])
           else if \<not> io 17 then (err ErrIO, [OpWrite t2 [], OpRemove t2, OpRemove t1])
           else if \<not> io 18 \<or> \<not> io 19
           then (err ErrIO, [OpWrite t2 [], OpWrite t2 (text @ [CHR 0x0A]), OpRemove t2, OpRemove t1])
           else let (r, ops) = publish_commit io env target m
                in (r, [OpWrite t2 [], OpWrite t2 (text @ [CHR 0x0A])] @ ops)))"

text \<open>
  Staging of the image: copy, hash while copying, sync, read back and compare. A copy or write
  that fails half way leaves some bytes in the staging file, which the deferred clean-up removes;
  readers never open a staging file.
\<close>

definition new_manifest :: "(string \<Rightarrow> string) \<Rightarrow> publish_env \<Rightarrow> publish_options \<Rightarrow> string \<Rightarrow> manifest" where
  "new_manifest sha env opts data =
     \<lparr>mf_SchemaVersion = FirmwareSchemaVersion, mf_Board = po_Board opts, mf_Version = po_Version opts,
      mf_PublishedAt = truncate_second
        (if IsZero (po_PublishedAt opts) then pe_now env else po_PublishedAt opts),
      mf_SizeBytes = int (length data), mf_SHA256 = hex_encode (sha data)\<rparr>"

definition publish_image ::
    "(manifest \<Rightarrow> string option) \<Rightarrow> (string \<Rightarrow> string) \<Rightarrow> syscalls \<Rightarrow> publish_env \<Rightarrow> publish_options \<Rightarrow>
     int \<Rightarrow> string \<Rightarrow> (fw_error, manifest) result \<times> fs_op list" where
  "publish_image enc sha io env opts statSize bytes =
     (let t1 = image_temp env;
          target = ImageName (po_Board opts) (po_Version opts);
          data = read_upto (MaxImageSize + 1) bytes;
          written = int (length data);
          staged = hex_encode (sha data);
          fail = (\<lambda>e. (err e, [OpWrite t1 [], OpWrite t1 data, OpRemove t1]))
      in if \<not> io 9 then (err ErrIO, [])
         else if \<not> io 10 then (err ErrIO, [OpWrite t1 [], OpRemove t1])
         else if \<not> io 11 then fail ErrIO
         else if written > MaxImageSize then fail ErrImageTooLarge
         else if written \<le> 0 \<or> written \<noteq> statSize then fail ErrFileChanged
         else if \<not> io 12 \<or> \<not> io 13 then fail ErrIO
         else case hashReader sha (pe_good env) (pe_readback env data) of
                Inl e \<Rightarrow> fail e
              | Inr (verified, sz) \<Rightarrow>
                if sz \<noteq> written \<or> verified \<noteq> staged then fail ErrHashMismatch
                else if \<not> io 14 then fail ErrIO
                else let (r, ops) = publish_manifest enc io env target (new_manifest sha env opts data)
                     in (r, [OpWrite t1 [], OpWrite t1 data] @ ops))"

definition publish_locked ::
    "(manifest \<Rightarrow> string option) \<Rightarrow> (string \<Rightarrow> manifest option) \<Rightarrow> (string \<Rightarrow> string) \<Rightarrow> syscalls \<Rightarrow> publish_env \<Rightarrow>
     publish_options \<Rightarrow> version \<Rightarrow> directory \<Rightarrow> (fw_error, manifest) result \<times> fs_op list" where
  "publish_locked enc dec sha io env opts version d =
     (let proceed =
        (case pe_source env of
           NoSource \<Rightarrow> (err ErrIO, [])
         | IrregularSource \<Rightarrow> (if \<not> io 6 \<or> \<not> io 7 then (err ErrIO, []) else (err ErrNotRegularFile, []))
         | SourceFile sz bytes \<Rightarrow>
             if \<not> io 6 \<or> \<not> io 7 then (err ErrIO, [])
             else if sz \<le> 0 then (err ErrEmptyFile, [])
             else if sz > MaxImageSize then (err ErrImageTooLarge, [])
             else if d (ImageName (po_Board opts) (po_Version opts)) \<noteq> None then (err ErrTargetExists, [])
             else if \<not> io 8 then (err ErrIO, [])
             else publish_image enc sha io env opts sz bytes)
      in case LoadManifest dec (\<lambda>i. io (4 + i)) (po_Directory opts) d of
           Inr current \<Rightarrow>
             (case ParseVersion (mf_Version current) of
                None \<Rightarrow> (err ErrInvalidVersion, [])
              | Some cur \<Rightarrow> if version_Compare version cur \<le> 0 then (err ErrVersionNotNewer, []) else proceed)
         | Inl e \<Rightarrow> if e \<noteq> ErrNotFound then (err e, []) else proceed)"

definition Publish ::
    "(manifest \<Rightarrow> string option) \<Rightarrow> (string \<Rightarrow> manifest option) \<Rightarrow> (string \<Rightarrow> string) \<Rightarrow> syscalls \<Rightarrow> publish_env \<Rightarrow>
     publish_options \<Rightarrow> directory \<Rightarrow> (fw_error, manifest) result \<times> fs_op list" where
  "Publish enc dec sha io env opts d =
     (if TrimSpace (po_Directory opts) = [] then (err ErrDirectoryRequired, [])
      else if po_Board opts \<noteq> BoardE32R28T then (err ErrUnsupportedBoard, [])
      else case ParseVersion (po_Version opts) of
             None \<Rightarrow> (err ErrInvalidVersion, [])
           | Some version \<Rightarrow>
             if TrimSpace (po_SourcePath opts) = [] then (err ErrFileRequired, [])
             else if \<not> io 0 \<or> \<not> io 1 \<or> \<not> io 2 then (err ErrIO, [])
             else if \<not> io 3 then (err ErrIO, [OpLockFile])
             else let (r, ops) = publish_locked enc dec sha io env opts version (apply_op OpLockFile d)
                  in (r, OpLockFile # ops))"

section \<open>Decimal notation\<close>

lemma byte_char_of: "n < 256 \<Longrightarrow> byte (char_of n) = n"
  by (simp add: byte_def of_char_of)

lemma char_of_byte [simp]: "char_of (byte c) = c"
  by (simp add: byte_def)

lemma digit_value_char: "n < 10 \<Longrightarrow> digit_value (char_of (48 + n)) = n"
  by (simp add: digit_value_def byte_char_of)

lemma is_digit_char: "n < (10 :: nat) \<Longrightarrow> is_digit (char_of (48 + n))"
  by (simp add: is_digit_def byte_char_of)

lemma char_of_48: "char_of (48 :: nat) = CHR ''0''"
  by code_simp

lemma digit_char: "is_digit c \<Longrightarrow> char_of (48 + digit_value c) = c"
  by (auto simp: is_digit_def digit_value_def)

lemma digit_value_lt: "is_digit c \<Longrightarrow> digit_value c < 10"
  by (auto simp: is_digit_def digit_value_def)

lemma decimal_value_snoc: "decimal_value (s @ [c]) = 10 * decimal_value s + digit_value c"
  by (simp add: decimal_value_def)

lemma show_nat_digits: "list_all is_digit (show_nat n) \<and> show_nat n \<noteq> []"
proof (induction n rule: show_nat.induct)
  case (1 n)
  have d: "is_digit (char_of (48 + n mod 10))" by (rule is_digit_char) simp
  show ?case
  proof (cases "n < 10")
    case True
    then show ?thesis by (subst (1 2) show_nat.simps) (simp add: is_digit_char)
  next
    case False
    with 1 d show ?thesis by (subst (1 2) show_nat.simps) simp
  qed
qed

lemma show_nat_canonical: "length (show_nat n) > 1 \<Longrightarrow> hd (show_nat n) \<noteq> CHR ''0''"
proof (induction n rule: show_nat.induct)
  case (1 n)
  show ?case
  proof (cases "n < 10")
    case True
    with 1 show ?thesis by (simp add: show_nat.simps)
  next
    case False
    have ne: "show_nat (n div 10) \<noteq> []" using show_nat_digits by blast
    have "hd (show_nat (n div 10)) \<noteq> CHR ''0''"
    proof (cases "n div 10 < 10")
      case True
      then have "show_nat (n div 10) = [char_of (48 + n div 10)]" by (simp add: show_nat.simps)
      moreover have "digit_value (char_of (48 + n div 10)) = n div 10" by (rule digit_value_char [OF True])
      moreover have "digit_value (CHR ''0'') = 0" by (simp add: digit_value_def byte_def)
      ultimately show ?thesis using False by (metis div_eq_0_iff list.sel(1) not_less zero_neq_numeral)
    next
      case big: False
      then have "length (show_nat (n div 10)) > 1"
        using show_nat_digits [of "n div 10 div 10"] by (subst show_nat.simps) simp
      then show ?thesis using 1 False by simp
    qed
    with False ne show ?thesis by (subst show_nat.simps) simp
  qed
qed

lemma decimal_show: "decimal_value (show_nat n) = n"
proof (induction n rule: show_nat.induct)
  case (1 n)
  show ?case
  proof (cases "n < 10")
    case True
    then show ?thesis by (subst show_nat.simps) (simp add: decimal_value_def digit_value_char)
  next
    case False
    have "decimal_value (show_nat n) = 10 * decimal_value (show_nat (n div 10)) + n mod 10"
      using False digit_value_char [of "n mod 10"] by (subst show_nat.simps) (simp add: decimal_value_snoc)
    with 1 False show ?thesis by simp
  qed
qed

lemma decimal_pos:
  "list_all is_digit s \<Longrightarrow> s \<noteq> [] \<Longrightarrow> hd s \<noteq> CHR ''0'' \<Longrightarrow> 0 < decimal_value s"
proof (induction s rule: rev_induct)
  case (snoc c s)
  show ?case
  proof (cases "s = []")
    case True
    with snoc.prems have c: "is_digit c" "c \<noteq> CHR ''0''" by auto
    have "digit_value c \<noteq> 0"
      using digit_char [OF c(1)] c(2) char_of_48 by (metis add.right_neutral)
    with True show ?thesis by (simp add: decimal_value_def)
  next
    case False
    with snoc show ?thesis by (simp add: decimal_value_snoc)
  qed
qed simp

lemma show_decimal:
  "list_all is_digit s \<Longrightarrow> s \<noteq> [] \<Longrightarrow> length s > 1 \<longrightarrow> hd s \<noteq> CHR ''0'' \<Longrightarrow> show_nat (decimal_value s) = s"
proof (induction s rule: rev_induct)
  case (snoc c s)
  have c: "is_digit c" using snoc.prems by simp
  show ?case
  proof (cases "s = []")
    case True
    with c show ?thesis
      using digit_value_lt [OF c] digit_char [OF c]
      by (subst show_nat.simps) (simp add: decimal_value_snoc decimal_value_def)
  next
    case False
    with snoc.prems have s: "list_all is_digit s" "hd s \<noteq> CHR ''0''" by auto
    then have "0 < decimal_value s" using False by (intro decimal_pos)
    then show ?thesis
      using snoc.IH False s c digit_value_lt [OF c] digit_char [OF c]
      by (subst show_nat.simps) (simp add: decimal_value_snoc)
  qed
qed simp

lemma parse_component_iff: "parse_component s = Some n \<longleftrightarrow> s = show_nat n \<and> n < 2 ^ 32"
proof
  assume "parse_component s = Some n"
  then have s: "s \<noteq> []" "length s > 1 \<longrightarrow> hd s \<noteq> CHR ''0''" "list_all is_digit s"
    "decimal_value s = n" "n < 2 ^ 32"
    by (auto simp: parse_component_def ParseUint32_def split: if_splits)
  with show_decimal [OF s(3,1,2)] show "s = show_nat n \<and> n < 2 ^ 32" by simp
next
  assume a: "s = show_nat n \<and> n < 2 ^ 32"
  have "\<not> (length (show_nat n) > 1 \<and> hd (show_nat n) = CHR ''0'')" using show_nat_canonical by blast
  then show "parse_component s = Some n"
    using a show_nat_digits [of n] decimal_show [of n]
    by (simp add: parse_component_def ParseUint32_def)
qed

lemma digits_no_dot: "CHR ''.'' \<notin> set (show_nat n)"
proof -
  have "\<not> is_digit (CHR ''.'')" by code_simp
  then show ?thesis using show_nat_digits [of n] by (auto simp: list_all_iff)
qed

lemma ParseVersion_iff:
  "ParseVersion s = Some v \<longleftrightarrow>
     s = show_version v \<and> Major v < 2 ^ 32 \<and> Minor v < 2 ^ 32 \<and> Patch v < 2 ^ 32"
proof
  assume "ParseVersion s = Some v"
  then obtain a b c where "split_char (CHR ''.'') s = [a, b, c]"
    "parse_component a = Some (Major v)" "parse_component b = Some (Minor v)"
    "parse_component c = Some (Patch v)"
    by (auto simp: ParseVersion_def split: list.splits option.splits)
  then show "s = show_version v \<and> Major v < 2 ^ 32 \<and> Minor v < 2 ^ 32 \<and> Patch v < 2 ^ 32"
    using split_join [of "CHR ''.''" s] by (simp add: parse_component_iff show_version_def)
next
  assume a: "s = show_version v \<and> Major v < 2 ^ 32 \<and> Minor v < 2 ^ 32 \<and> Patch v < 2 ^ 32"
  have sp: "split_char (CHR ''.'') (show_version v) = [show_nat (Major v), show_nat (Minor v), show_nat (Patch v)]"
    unfolding show_version_def by (rule join_split) (auto simp: digits_no_dot)
  have "parse_component (show_nat n) = Some n" if "n < 2 ^ 32" for n
    using that by (simp add: parse_component_iff)
  with a sp show "ParseVersion s = Some v" by (cases v) (simp add: ParseVersion_def)
qed

lemma show_version_inj: "show_version v = show_version w \<Longrightarrow> v = w"
proof -
  assume e: "show_version v = show_version w"
  have sp: "split_char (CHR ''.'') (show_version u) = [show_nat (Major u), show_nat (Minor u), show_nat (Patch u)]" for u
    unfolding show_version_def by (rule join_split) (auto simp: digits_no_dot)
  have "show_nat (Major v) = show_nat (Major w)" "show_nat (Minor v) = show_nat (Minor w)"
    "show_nat (Patch v) = show_nat (Patch w)" using sp [of v] sp [of w] e by auto
  then show "v = w" by (metis decimal_show version.expand version.sel)
qed

section \<open>Reading\<close>

lemma hash_rounds_Some: "hash_rounds good i written rest = Some w \<Longrightarrow> w = written @ rest"
proof (induction good i written rest rule: hash_rounds.induct)
  case (1 good i written rest)
  then show ?case by (subst (asm) hash_rounds.simps) (auto split: if_splits)
qed

lemma hash_rounds_good: "hash_rounds (\<lambda>_. True) i written rest = Some (written @ rest)"
proof (induction "\<lambda>_ :: nat. True" i written rest rule: hash_rounds.induct)
  case (1 i written rest)
  then show ?case by (subst hash_rounds.simps) auto
qed

lemma hashReader_ok:
  "hashReader sha good bytes = ok (d, n) \<Longrightarrow> d = hex_encode (sha bytes) \<and> n = int (length bytes)"
  by (auto simp: hashReader_def dest: hash_rounds_Some split: option.splits)

lemma hashReader_good: "hashReader sha (\<lambda>_. True) bytes = ok (hex_encode (sha bytes), int (length bytes))"
  by (simp add: hashReader_def hash_rounds_good)

text \<open>
  The reader's interface: the answer of \<open>LoadManifest\<close> and of \<open>OpenVerifiedImage\<close> depends on two
  directory entries only.
\<close>

abbreviation calm :: syscalls where "calm \<equiv> \<lambda>_. True"

definition current_manifest :: "(string \<Rightarrow> manifest option) \<Rightarrow> directory \<Rightarrow> manifest option" where
  "current_manifest dec d =
     (case d ManifestName of
        Some (Regular text) \<Rightarrow>
          if length text = 0 \<or> int (length text) > maxManifestSize then None
          else (case dec text of None \<Rightarrow> None
                | Some m \<Rightarrow> if manifest_Validate m = None then Some m else None)
      | _ \<Rightarrow> None)"

definition image_matches :: "(string \<Rightarrow> string) \<Rightarrow> directory \<Rightarrow> manifest \<Rightarrow> bool" where
  "image_matches sha d m =
     (case d (ImageName (mf_Board m) (mf_Version m)) of
        Some (Regular bytes) \<Rightarrow> int (length bytes) = mf_SizeBytes m \<and> hex_encode (sha bytes) = mf_SHA256 m
      | _ \<Rightarrow> False)"

lemma LoadManifest_calm:
  "TrimSpace path \<noteq> [] \<Longrightarrow> LoadManifest dec calm path d = ok m \<longleftrightarrow> current_manifest dec d = Some m"
  by (auto simp: LoadManifest_def current_manifest_def split: option.splits dir_entry.splits if_splits)

lemma LoadManifest_ok:
  "LoadManifest dec io path d = ok m \<Longrightarrow> current_manifest dec d = Some m \<and> TrimSpace path \<noteq> []"
  by (auto simp: LoadManifest_def current_manifest_def split: option.splits dir_entry.splits if_splits)

lemma LoadManifest_not_found:
  "LoadManifest dec io path d = err ErrNotFound \<Longrightarrow> current_manifest dec d = None \<or> TrimSpace path = []"
  by (auto simp: LoadManifest_def current_manifest_def manifest_Validate_def
      split: option.splits dir_entry.splits if_splits)

lemma OpenVerifiedImage_ok:
  assumes "OpenVerifiedImage dec sha io good path v d = ok (bytes, m)"
  shows "current_manifest dec d = Some m" "mf_Version m = v"
    "d (ImageName (mf_Board m) v) = Some (Regular bytes)"
    "int (length bytes) = mf_SizeBytes m" "hex_encode (sha bytes) = mf_SHA256 m"
proof -
  have "LoadManifest dec io path d = ok m \<and> mf_Version m = v \<and>
      d (ImageName (mf_Board m) v) = Some (Regular bytes) \<and> int (length bytes) = mf_SizeBytes m \<and>
      hashReader sha good bytes = ok (mf_SHA256 m, mf_SizeBytes m)"
    using assms
    by (auto simp: OpenVerifiedImage_def split: if_splits sum.splits option.splits dir_entry.splits prod.splits)
  then show "current_manifest dec d = Some m" "mf_Version m = v"
    "d (ImageName (mf_Board m) v) = Some (Regular bytes)"
    "int (length bytes) = mf_SizeBytes m" "hex_encode (sha bytes) = mf_SHA256 m"
    by (auto dest: LoadManifest_ok hashReader_ok)
qed

lemma current_manifest_valid: "current_manifest dec d = Some m \<Longrightarrow> manifest_Validate m = None"
  by (auto simp: current_manifest_def split: option.splits dir_entry.splits if_splits)

lemma manifest_Validate_None:
  "manifest_Validate m = None \<longleftrightarrow>
     mf_SchemaVersion m = FirmwareSchemaVersion \<and> mf_Board m = BoardE32R28T \<and>
     ParseVersion (mf_Version m) \<noteq> None \<and> mf_PublishedAt m \<noteq> zero_time \<and>
     0 < mf_SizeBytes m \<and> mf_SizeBytes m \<le> MaxImageSize \<and> validSHA256 (mf_SHA256 m)"
  unfolding manifest_Validate_def go_simps IsZero_def by auto

lemma OpenVerifiedImage_calm:
  assumes "TrimSpace path \<noteq> []" and "current_manifest dec d = Some m" and "image_matches sha d m"
  shows "\<exists>bytes. OpenVerifiedImage dec sha calm calm path (mf_Version m) d = ok (bytes, m)"
proof -
  have "LoadManifest dec calm path d = ok m" using LoadManifest_calm [OF assms(1)] assms(2) by blast
  moreover have "ParseVersion (mf_Version m) \<noteq> None"
    using current_manifest_valid [OF assms(2)] by (simp add: manifest_Validate_None)
  ultimately show ?thesis
    using assms(3)
    by (auto simp: OpenVerifiedImage_def image_matches_def hashReader_good
        split: option.splits dir_entry.splits)
qed

section \<open>Every intermediate directory\<close>

fun all_states :: "(directory \<Rightarrow> bool) \<Rightarrow> directory \<Rightarrow> fs_op list \<Rightarrow> bool" where
  "all_states P d [] = P d"
| "all_states P d (op # ops) = (P d \<and> all_states P (apply_op op d) ops)"

lemma all_states_prefix: "all_states P d ops \<Longrightarrow> P (run_ops (take k ops) d)"
proof (induction ops arbitrary: d k)
  case (Cons op ops)
  then show ?case by (cases k) (auto simp: run_ops_def)
qed (simp add: run_ops_def)

lemma all_states_append:
  "all_states P d (xs @ ys) \<longleftrightarrow> all_states P d xs \<and> all_states P (run_ops xs d) ys"
proof (induction xs arbitrary: d)
  case Nil
  show ?case by (cases ys) (auto simp: run_ops_def)
qed (auto simp: run_ops_def)

text \<open>
  The two kinds of directory a reader can meet while a publication runs: the old one, up to
  staging files and the not yet announced image, and the new one.
\<close>

definition staging :: "publish_env \<Rightarrow> string set" where
  "staging env = {''.publish.lock'', image_temp env, manifest_temp env}"

definition old_dir :: "publish_env \<Rightarrow> string \<Rightarrow> directory \<Rightarrow> directory \<Rightarrow> bool" where
  "old_dir env target d0 d = (\<forall>n. n \<notin> staging env \<longrightarrow> n \<noteq> target \<longrightarrow> d n = d0 n)"

definition new_dir :: "publish_env \<Rightarrow> string \<Rightarrow> string \<Rightarrow> string \<Rightarrow> directory \<Rightarrow> directory \<Rightarrow> bool" where
  "new_dir env target data text d0 d =
     ((\<forall>n. n \<notin> staging env \<longrightarrow> n \<noteq> target \<longrightarrow> n \<noteq> ManifestName \<longrightarrow> d n = d0 n) \<and>
      d target = Some (Regular data) \<and> d ManifestName = Some (Regular text))"

lemma staging_names:
  "ManifestName \<notin> staging env" "image_temp env \<noteq> manifest_temp env"
  "image_temp env \<in> staging env" "manifest_temp env \<in> staging env" "''.publish.lock'' \<in> staging env"
  "image_temp env \<noteq> ''.publish.lock''" "manifest_temp env \<noteq> ''.publish.lock''"
  by (auto simp: staging_def image_temp_def manifest_temp_def ManifestName_def)

lemma target_names:
  assumes "target = ImageName BoardE32R28T v"
  shows "target \<notin> staging env" "target \<noteq> ManifestName" "target \<noteq> image_temp env"
    "target \<noteq> manifest_temp env" "target \<noteq> ''.publish.lock''"
  using assms by (auto simp: staging_def image_temp_def manifest_temp_def ManifestName_def
      ImageName_def BoardE32R28T_def)

lemmas name_facts = staging_names target_names

lemma old_dir_update [simp]:
  "n \<in> staging env \<Longrightarrow> old_dir env target d0 (d(n := e)) \<longleftrightarrow> old_dir env target d0 d"
  "old_dir env target d0 (d(target := e)) \<longleftrightarrow> old_dir env target d0 d"
  by (auto simp: old_dir_def)

lemma new_dir_update [simp]:
  "n \<in> staging env \<Longrightarrow> target = ImageName BoardE32R28T v \<Longrightarrow>
     new_dir env target data text d0 (d(n := e)) \<longleftrightarrow> new_dir env target data text d0 d"
  using staging_names(1) [of env] target_names(1) [of target v env]
  by (auto simp: new_dir_def)

definition served :: "publish_env \<Rightarrow> string \<Rightarrow> string \<Rightarrow> string \<Rightarrow> bool \<Rightarrow> directory \<Rightarrow> directory \<Rightarrow> bool" where
  "served env target data text ready d0 d =
     (old_dir env target d0 d \<or> ready \<and> new_dir env target data text d0 d)"

lemma publish_commit_states:
  assumes t: "target = ImageName BoardE32R28T v"
    and old: "old_dir env target d0 d"
    and staged: "d (image_temp env) = Some (Regular data)" "d (manifest_temp env) = Some (Regular text)"
  shows "all_states (served env target data text True d0) d (snd (publish_commit io env target m))"
    and "is_ok (fst (publish_commit io env target m)) \<Longrightarrow> fst (publish_commit io env target m) = ok m \<and>
       new_dir env target data text d0 (run_ops (snd (publish_commit io env target m)) d)"
    and "\<not> is_ok (fst (publish_commit io env target m)) \<Longrightarrow> io 23 \<Longrightarrow>
       old_dir env target d0 (run_ops (snd (publish_commit io env target m)) d)"
proof -
  note n = staging_names [of env] target_names [OF t]
  let ?t1 = "image_temp env" and ?t2 = "manifest_temp env"
  define d1 where "d1 = d(?t1 := None, target \<mapsto> Regular data)"
  define d2 where "d2 = d1(?t2 := None, ManifestName \<mapsto> Regular text)"
  have r1: "apply_op (OpRename ?t1 target) d = d1" using staged by (simp add: d1_def)
  have r2: "apply_op (OpRename ?t2 ManifestName) d1 = d2" using staged n by (auto simp: d1_def d2_def)
  have o1: "old_dir env target d0 d1" using old n by (simp add: d1_def)
  have n2: "new_dir env target data text d0 d2"
    using old n unfolding new_dir_def old_dir_def d1_def d2_def by auto
  have s: "served env target data text True d0 e \<longleftrightarrow> old_dir env target d0 e \<or> new_dir env target data text d0 e" for e
    by (simp add: served_def)
  note up = new_dir_update [OF _ t]
  show "all_states (served env target data text True d0) d (snd (publish_commit io env target m))"
    using old o1 n2 n
    by (simp add: publish_commit_def Let_def s r1 r2 up del: apply_op.simps(4))
  show "fst (publish_commit io env target m) = ok m \<and>
       new_dir env target data text d0 (run_ops (snd (publish_commit io env target m)) d)"
    if "is_ok (fst (publish_commit io env target m))"
    using that n2 n
    by (simp add: publish_commit_def Let_def run_ops_def r1 r2 up del: apply_op.simps(4) split: if_splits)
  show "old_dir env target d0 (run_ops (snd (publish_commit io env target m)) d)"
    if "\<not> is_ok (fst (publish_commit io env target m))" "io 23"
    using that old o1 n
    by (simp add: publish_commit_def Let_def run_ops_def r1 del: apply_op.simps(4) split: if_splits)
qed

text \<open>
  What each stage of the publisher guarantees from the directory \<open>d\<close> it starts in: readers only
  meet the old or the new directory, success ends in the new one, and a failure (other than of
  the very last sync) ends in the old one.
\<close>

definition publishes ::
    "(manifest \<Rightarrow> string option) \<Rightarrow> publish_env \<Rightarrow> string \<Rightarrow> string \<Rightarrow> string \<Rightarrow> directory \<Rightarrow> bool \<Rightarrow> manifest \<Rightarrow> directory \<Rightarrow>
     (fw_error, manifest) result \<times> fs_op list \<Rightarrow> bool" where
  "publishes enc env target data text d0 synced m d out =
     (all_states (served env target data text (manifest_Validate m = None \<and> enc m \<noteq> None) d0) d (snd out) \<and>
      (is_ok (fst out) \<longrightarrow> fst out = ok m \<and> manifest_Validate m = None \<and>
         new_dir env target data text d0 (run_ops (snd out) d)) \<and>
      (\<not> is_ok (fst out) \<longrightarrow> synced \<longrightarrow> old_dir env target d0 (run_ops (snd out) d)))"

lemma publishes_prepend:
  assumes "publishes enc env target data text d0 synced m (run_ops pre d) (r, ops)"
    and "all_states (old_dir env target d0) d pre"
  shows "publishes enc env target data text d0 synced m d (r, pre @ ops)"
proof -
  have "all_states (served env target data text (manifest_Validate m = None \<and> enc m \<noteq> None) d0) d pre"
    using assms(2) by (induction pre arbitrary: d) (auto simp: served_def)
  then show ?thesis
    using assms(1) by (simp add: publishes_def all_states_append run_ops_def)
qed

lemma publishes_error:
  assumes "all_states (old_dir env target d0) d ops"
  shows "publishes enc env target data text d0 synced m d (err e, ops)"
proof -
  have "all_states (served env target data text (manifest_Validate m = None \<and> enc m \<noteq> None) d0) d ops"
    using assms by (induction ops arbitrary: d) (auto simp: served_def)
  moreover have "old_dir env target d0 (run_ops ops d)"
    using all_states_prefix [OF assms, of "length ops"] by simp
  ultimately show ?thesis by (simp add: publishes_def)
qed

lemma publish_manifest_publishes:
  assumes t: "target = ImageName BoardE32R28T v" and old: "old_dir env target d0 d"
    and staged: "d (image_temp env) = Some (Regular data)"
    and tx: "\<And>x. enc m = Some x \<Longrightarrow> text = x @ [CHR 0x0A]"
  shows "publishes enc env target data text d0 (io 23) m d (publish_manifest enc io env target m)"
proof -
  note n = staging_names [of env] target_names [OF t]
  let ?t1 = "image_temp env" and ?t2 = "manifest_temp env"
  have err: "publishes enc env target data text d0 (io 23) m d (err e, ops)"
    if "ops \<in> {[OpRemove ?t1], [OpWrite ?t2 [], OpRemove ?t2, OpRemove ?t1],
      [OpWrite ?t2 [], OpWrite ?t2 z, OpRemove ?t2, OpRemove ?t1]}" for e ops z
    using that old n by (intro publishes_error) auto
  show ?thesis
  proof (cases "manifest_Validate m = None \<and> (\<exists>x. enc m = Some x) \<and> (\<forall>i\<in>{15,16,17,18,19}. io i)")
    case True
    then obtain x where x: "enc m = Some x" by blast
    let ?pre = "[OpWrite ?t2 [], OpWrite ?t2 (x @ [CHR 0x0A])]"
    let ?out = "publish_commit io env target m"
    have d: "old_dir env target d0 (run_ops ?pre d)"
      "run_ops ?pre d ?t1 = Some (Regular data)" "run_ops ?pre d ?t2 = Some (Regular text)"
      using old staged n tx [OF x] by (simp_all add: run_ops_def)
    have "publishes enc env target data text d0 (io 23) m (run_ops ?pre d) (fst ?out, snd ?out)"
      using publish_commit_states [OF t d, of io m] True x by (auto simp: publishes_def)
    then have "publishes enc env target data text d0 (io 23) m d (fst ?out, ?pre @ snd ?out)"
      using old n by (intro publishes_prepend) auto
    moreover have "publish_manifest enc io env target m = (fst ?out, ?pre @ snd ?out)"
      using True x by (simp add: publish_manifest_def Let_def case_prod_unfold)
    ultimately show ?thesis by simp
  next
    case False
    then show ?thesis
      by (auto simp: publish_manifest_def Let_def intro!: err split: option.splits)
  qed
qed

definition image_data :: "string \<Rightarrow> string" where
  "image_data bytes = read_upto (MaxImageSize + 1) bytes"

lemma publish_image_publishes:
  assumes board: "po_Board opts = BoardE32R28T"
    and old: "old_dir env (ImageName BoardE32R28T (po_Version opts)) d0 d"
    and tx: "\<And>x. enc (new_manifest sha env opts (image_data bytes)) = Some x \<Longrightarrow> text = x @ [CHR 0x0A]"
  shows "publishes enc env (ImageName BoardE32R28T (po_Version opts)) (image_data bytes) text d0 (io 23)
     (new_manifest sha env opts (image_data bytes)) d (publish_image enc sha io env opts n bytes)"
    (is "publishes enc env ?target ?data text d0 _ ?m d _")
proof -
  note nm = staging_names [of env]
  let ?t1 = "image_temp env"
  let ?pre = "[OpWrite ?t1 [], OpWrite ?t1 ?data]"
  have err: "publishes enc env ?target ?data text d0 (io 23) ?m d (err e, ops)"
    if "ops \<in> {[], [OpWrite ?t1 [], OpRemove ?t1], [OpWrite ?t1 [], OpWrite ?t1 ?data, OpRemove ?t1]}" for e ops
    using that old nm by (intro publishes_error) auto
  let ?out = "publish_manifest enc io env ?target ?m"
  have d: "old_dir env ?target d0 (run_ops ?pre d)" "run_ops ?pre d ?t1 = Some (Regular ?data)"
    using old nm by (simp_all add: run_ops_def)
  have "publishes enc env ?target ?data text d0 (io 23) ?m (run_ops ?pre d) (fst ?out, snd ?out)"
    using publish_manifest_publishes [OF refl d tx] by simp
  then have main: "publishes enc env ?target ?data text d0 (io 23) ?m d (fst ?out, ?pre @ snd ?out)"
    using old nm by (intro publishes_prepend) auto
  have "publish_image enc sha io env opts n bytes = (fst ?out, ?pre @ snd ?out) \<or>
      (\<exists>e ops. publish_image enc sha io env opts n bytes = (err e, ops) \<and>
        ops \<in> {[], [OpWrite ?t1 [], OpRemove ?t1], [OpWrite ?t1 [], OpWrite ?t1 ?data, OpRemove ?t1]})"
    unfolding publish_image_def Let_def image_data_def [symmetric] board case_prod_unfold
    by (auto split: sum.split)
  then show ?thesis using main err by fastforce
qed

text \<open>The version check under the lock.\<close>

lemma publish_locked_cases:
  assumes "po_Board opts = BoardE32R28T" and "TrimSpace (po_Directory opts) \<noteq> []"
  shows "(\<exists>e. publish_locked enc dec sha io env opts v d = (err e, [])) \<or>
    (\<exists>n bytes. pe_source env = SourceFile n bytes \<and>
       publish_locked enc dec sha io env opts v d = publish_image enc sha io env opts n bytes \<and>
       d (ImageName BoardE32R28T (po_Version opts)) = None \<and>
       (\<forall>m. current_manifest dec d = Some m \<longrightarrow>
          (\<exists>w. ParseVersion (mf_Version m) = Some w \<and> w < v)))"
proof -
  let ?load = "LoadManifest dec (\<lambda>i. io (4 + i)) (po_Directory opts) d"
  have newer: "\<exists>w. ParseVersion (mf_Version m) = Some w \<and> w < v"
    if "?load = ok c" "ParseVersion (mf_Version c) = Some cur" "\<not> version_Compare v cur \<le> 0"
      "current_manifest dec d = Some m" for c cur m
  proof -
    have "m = c" using LoadManifest_ok [OF that(1)] that(4) by simp
    moreover have "cur < v" using that(3) not_le less_eq_version_def by blast
    ultimately show ?thesis using that(2) by blast
  qed
  have none: "current_manifest dec d = None" if "?load = err ErrNotFound"
    using LoadManifest_not_found [OF that] assms(2) by blast
  show ?thesis
    using newer none
    by (auto simp: publish_locked_def Let_def assms(1) split: sum.split option.split source_file.split)
qed

definition codec_ok :: "(manifest \<Rightarrow> string option) \<Rightarrow> (string \<Rightarrow> manifest option) \<Rightarrow> bool" where
  "codec_ok enc dec =
     (\<forall>m x. enc m = Some x \<longrightarrow> dec (x @ [CHR 0x0A]) = Some m \<and> length x < 4096)"

text \<open>Readers of the old directory see what they saw before, readers of the new one the new image.\<close>

lemma old_dir_reads:
  assumes "old_dir env target d0 d" and "target = ImageName BoardE32R28T v" and "d0 target = None"
    and "current_manifest dec d0 = Some m \<Longrightarrow> image_matches sha d0 m"
  shows "current_manifest dec d = current_manifest dec d0"
    and "current_manifest dec d = Some m \<Longrightarrow> image_matches sha d m"
proof -
  have "d ManifestName = d0 ManifestName"
    using assms(1) staging_names(1) target_names(2) [OF assms(2)] unfolding old_dir_def by metis
  then show c: "current_manifest dec d = current_manifest dec d0" by (simp add: current_manifest_def)
  assume "current_manifest dec d = Some m"
  with c have cur: "current_manifest dec d0 = Some m" by simp
  then have b: "mf_Board m = BoardE32R28T"
    using current_manifest_valid by (auto simp: manifest_Validate_None)
  have im: "image_matches sha d0 m" using assms(4) cur .
  then have "ImageName (mf_Board m) (mf_Version m) \<noteq> target"
    using assms(3) by (auto simp: image_matches_def split: option.splits)
  moreover have "ImageName (mf_Board m) (mf_Version m) \<notin> staging env"
    using target_names(1) [OF refl] b by simp
  ultimately have "d (ImageName (mf_Board m) (mf_Version m)) = d0 (ImageName (mf_Board m) (mf_Version m))"
    using assms(1) by (simp add: old_dir_def)
  with im show "image_matches sha d m" by (simp add: image_matches_def)
qed

lemma new_dir_reads:
  assumes "new_dir env target data (x @ [CHR 0x0A]) d0 d" and "target = ImageName (mf_Board m) (mf_Version m)"
    and "manifest_Validate m = None" and "dec (x @ [CHR 0x0A]) = Some m" "length x < 4096"
    and "mf_SizeBytes m = int (length data)" "mf_SHA256 m = hex_encode (sha data)"
  shows "current_manifest dec d = Some m" and "image_matches sha d m"
  using assms by (auto simp: new_dir_def current_manifest_def image_matches_def maxManifestSize_def)

lemma lock_old_dir:
  "old_dir env target d (apply_op OpLockFile d)"
  "current_manifest dec (apply_op OpLockFile d) = current_manifest dec d"
  "apply_op OpLockFile d (ImageName BoardE32R28T v) = d (ImageName BoardE32R28T v)"
  by (auto simp: old_dir_def staging_def current_manifest_def ManifestName_def ImageName_def
      BoardE32R28T_def split: option.split)

text \<open>The shape of every publication: nothing but the lock file, or a verified image stage.\<close>

lemma Publish_cases:
  "(\<exists>e ops. Publish enc dec sha io env opts d = (err e, ops) \<and> ops \<in> {[], [OpLockFile]}) \<or>
   (\<exists>v data. po_Board opts = BoardE32R28T \<and> ParseVersion (po_Version opts) = Some v \<and>
      d (ImageName BoardE32R28T (po_Version opts)) = None \<and>
      (\<forall>m. current_manifest dec d = Some m \<longrightarrow> (\<exists>w. ParseVersion (mf_Version m) = Some w \<and> w < v)) \<and>
      (\<forall>text. (\<forall>x. enc (new_manifest sha env opts data) = Some x \<longrightarrow> text = x @ [CHR 0x0A]) \<longrightarrow>
         publishes enc env (ImageName BoardE32R28T (po_Version opts)) data text d (io 23)
           (new_manifest sha env opts data) d (Publish enc dec sha io env opts d)))"
proof (cases "TrimSpace (po_Directory opts) \<noteq> [] \<and> po_Board opts = BoardE32R28T \<and>
    TrimSpace (po_SourcePath opts) \<noteq> [] \<and> io 0 \<and> io 1 \<and> io 2 \<and> io 3 \<and> ParseVersion (po_Version opts) \<noteq> None")
  case False
  then show ?thesis
    by (auto simp: Publish_def split: option.split)
next
  case True
  then obtain v where v: "ParseVersion (po_Version opts) = Some v" by blast
  let ?d = "apply_op OpLockFile d"
  let ?out = "publish_locked enc dec sha io env opts v ?d"
  have P: "Publish enc dec sha io env opts d = (fst ?out, OpLockFile # snd ?out)"
    using True v by (simp add: Publish_def case_prod_unfold Let_def)
  have board: "po_Board opts = BoardE32R28T" and path: "TrimSpace (po_Directory opts) \<noteq> []" using True by auto
  from publish_locked_cases [OF board path, of enc dec sha io env v ?d]
  show ?thesis
  proof (elim disjE exE conjE)
    fix e assume "?out = (err e, [])"
    with P show ?thesis by simp
  next
    fix n bytes
    assume o: "?out = publish_image enc sha io env opts n bytes"
      "?d (ImageName BoardE32R28T (po_Version opts)) = None"
      "\<forall>m. current_manifest dec ?d = Some m \<longrightarrow> (\<exists>w. ParseVersion (mf_Version m) = Some w \<and> w < v)"
    have "publishes enc env (ImageName BoardE32R28T (po_Version opts)) (image_data bytes) tx d (io 23)
        (new_manifest sha env opts (image_data bytes)) d (Publish enc dec sha io env opts d)"
      if "\<forall>x. enc (new_manifest sha env opts (image_data bytes)) = Some x \<longrightarrow> tx = x @ [CHR 0x0A]" for tx
    proof -
      have "publishes enc env (ImageName BoardE32R28T (po_Version opts)) (image_data bytes) tx d (io 23)
          (new_manifest sha env opts (image_data bytes)) ?d (fst ?out, snd ?out)"
        unfolding o(1) prod.collapse using that
        by (intro publish_image_publishes [OF board lock_old_dir(1)]) blast
      then have "publishes enc env (ImageName BoardE32R28T (po_Version opts)) (image_data bytes) tx d (io 23)
          (new_manifest sha env opts (image_data bytes)) d (fst ?out, [OpLockFile] @ snd ?out)"
        using lock_old_dir(1) [of env _ d]
        by (intro publishes_prepend) (auto simp: run_ops_def old_dir_def simp del: apply_op.simps)
      then show ?thesis by (simp add: P)
    qed
    then show ?thesis using board v o(2,3) lock_old_dir(2,3) by metis
  qed
qed

text \<open>
  What a reader finds in a directory the publisher left at any point, on the level of the manifest
  that is current there: before the main part only the lock file can be new, and after it starts
  the directory is the old one or holds the new version completely.
\<close>

lemma lock_file_reads:
  assumes "current_manifest dec (apply_op OpLockFile d) = Some m"
    and "\<And>m'. current_manifest dec d = Some m' \<Longrightarrow> image_matches sha d m'"
  shows "current_manifest dec d = Some m \<and> image_matches sha (apply_op OpLockFile d) m"
proof -
  have c: "current_manifest dec d = Some m" using assms(1) lock_old_dir(2) by metis
  then have "mf_Board m = BoardE32R28T"
    using current_manifest_valid by (auto simp: manifest_Validate_None)
  with assms(2) [OF c] c show ?thesis
    using lock_old_dir(3) [of d "mf_Version m"] by (simp add: image_matches_def)
qed

lemma served_reads:
  assumes "served env t data (x @ [CHR 0x0A]) (manifest_Validate m' = None \<and> enc m' = Some x) d d'"
    and "codec_ok enc dec" and "d t = None" and "t = ImageName BoardE32R28T (po_Version opts)" and "po_Board opts = BoardE32R28T"
    and "m' = new_manifest sha env opts data" and "current_manifest dec d' = Some m"
    and "\<And>m'. current_manifest dec d = Some m' \<Longrightarrow> image_matches sha d m'"
  shows "(current_manifest dec d = Some m \<or> mf_Version m = po_Version opts) \<and> image_matches sha d' m"
proof (cases "old_dir env t d d'")
  case True
  from old_dir_reads [OF this assms(4,3), of dec m sha] assms(7,8) show ?thesis by auto
next
  case False
  with assms(1) have nd: "new_dir env t data (x @ [CHR 0x0A]) d d'" "manifest_Validate m' = None" "enc m' = Some x"
    by (auto simp: served_def)
  then have "current_manifest dec d' = Some m' \<and> image_matches sha d' m'"
    using new_dir_reads [OF nd(1) _ nd(2), of dec sha] assms(2,4,5,6)
    by (simp add: codec_ok_def new_manifest_def)
  moreover have "mf_Version m' = po_Version opts" by (simp add: assms(6) new_manifest_def)
  ultimately show ?thesis using assms(7) by auto
qed

lemma verified_matches:
  assumes "TrimSpace path \<noteq> []"
    and "\<And>m. LoadManifest dec calm path d = ok m \<Longrightarrow>
       \<exists>bytes. OpenVerifiedImage dec sha calm calm path (mf_Version m) d = ok (bytes, m)"
    and "current_manifest dec d = Some m"
  shows "image_matches sha d m"
proof -
  have "LoadManifest dec calm path d = ok m" using LoadManifest_calm [OF assms(1)] assms(3) by simp
  then obtain bytes where "OpenVerifiedImage dec sha calm calm path (mf_Version m) d = ok (bytes, m)"
    using assms(2) by blast
  from OpenVerifiedImage_ok [OF this] show ?thesis by (simp add: image_matches_def)
qed

lemma publish_prefix_reads:
  assumes "codec_ok enc dec"
    and im: "\<And>m'. current_manifest dec d = Some m' \<Longrightarrow> image_matches sha d m'"
    and cur: "current_manifest dec (run_ops (take k (snd (Publish enc dec sha io env opts d))) d) = Some m"
  shows "(current_manifest dec d = Some m \<or> mf_Version m = po_Version opts) \<and>
    image_matches sha (run_ops (take k (snd (Publish enc dec sha io env opts d))) d) m"
  using Publish_cases [of enc dec sha io env opts d]
proof (elim disjE exE conjE)
  fix e ops assume "Publish enc dec sha io env opts d = (err e, ops)" "ops \<in> {[], [OpLockFile]}"
  then have "run_ops (take k (snd (Publish enc dec sha io env opts d))) d \<in> {d, apply_op OpLockFile d}"
    by (cases k) (auto simp: run_ops_def simp del: apply_op.simps)
  with cur im lock_file_reads [OF _ im] show ?thesis by auto
next
  fix v data
  let ?t = "ImageName BoardE32R28T (po_Version opts)" and ?m = "new_manifest sha env opts data"
  define x where "x = (case enc ?m of Some x \<Rightarrow> x | None \<Rightarrow> [])"
  assume a: "po_Board opts = BoardE32R28T" "d ?t = None"
    and p: "\<forall>text. (\<forall>x. enc ?m = Some x \<longrightarrow> text = x @ [CHR 0x0A]) \<longrightarrow>
      publishes enc env ?t data text d (io 23) ?m d (Publish enc dec sha io env opts d)"
  have "publishes enc env ?t data (x @ [CHR 0x0A]) d (io 23) ?m d (Publish enc dec sha io env opts d)"
    using p by (simp add: x_def)
  then have "served env ?t data (x @ [CHR 0x0A]) (manifest_Validate ?m = None \<and> enc ?m \<noteq> None) d
      (run_ops (take k (snd (Publish enc dec sha io env opts d))) d)"
    unfolding publishes_def by (elim conjE all_states_prefix)
  moreover have "enc ?m \<noteq> None \<longleftrightarrow> enc ?m = Some x" by (auto simp: x_def)
  ultimately show ?thesis by (intro served_reads [OF _ assms(1) a(2) refl a(1) refl cur im]) simp
qed

lemma publish_ok_reads:
  assumes "codec_ok enc dec" and "Publish enc dec sha io env opts d = (ok m, ops)"
  shows "current_manifest dec (run_ops ops d) = Some m \<and> image_matches sha (run_ops ops d) m \<and> mf_Version m = po_Version opts \<and>
    (\<forall>m0. current_manifest dec d = Some m0 \<longrightarrow>
       (\<exists>v0 v. ParseVersion (mf_Version m0) = Some v0 \<and> ParseVersion (mf_Version m) = Some v \<and> v0 < v))"
proof -
  from Publish_cases [of enc dec sha io env opts d] assms(2)
  obtain v data where a: "po_Board opts = BoardE32R28T" "ParseVersion (po_Version opts) = Some v"
    "\<forall>m. current_manifest dec d = Some m \<longrightarrow> (\<exists>w. ParseVersion (mf_Version m) = Some w \<and> w < v)"
    and p: "\<And>text. (\<forall>x. enc (new_manifest sha env opts data) = Some x \<longrightarrow> text = x @ [CHR 0x0A]) \<Longrightarrow>
      publishes enc env (ImageName BoardE32R28T (po_Version opts)) data text d (io 23)
        (new_manifest sha env opts data) d (ok m, ops)"
    by auto
  define x where "x = (case enc (new_manifest sha env opts data) of Some x \<Rightarrow> x | None \<Rightarrow> [])"
  have pub: "publishes enc env (ImageName BoardE32R28T (po_Version opts)) data (x @ [CHR 0x0A]) d (io 23)
      (new_manifest sha env opts data) d (ok m, ops)"
    using p by (simp add: x_def)
  then have m: "m = new_manifest sha env opts data" and v: "manifest_Validate m = None"
    and nd: "new_dir env (ImageName BoardE32R28T (po_Version opts)) data (x @ [CHR 0x0A]) d (run_ops ops d)"
    by (auto simp: publishes_def)
  have "enc m \<noteq> None"
  proof
    assume n: "enc m = None"
    have "publishes enc env (ImageName BoardE32R28T (po_Version opts)) data t d (io 23) m d (ok m, ops)" for t
      using p n m by simp
    then have "run_ops ops d ManifestName = Some (Regular t)" for t by (auto simp: publishes_def new_dir_def)
    from this [of "[]"] this [of "[CHR 0x0A]"] show False by simp
  qed
  then have x: "enc m = Some x" by (auto simp: x_def m)
  have c: "current_manifest dec (run_ops ops d) = Some m \<and> image_matches sha (run_ops ops d) m"
    using new_dir_reads [OF nd _ v, of dec sha] assms(1) x a(1)
    by (simp add: codec_ok_def m new_manifest_def)
  have "\<exists>v0 v. ParseVersion (mf_Version m0) = Some v0 \<and> ParseVersion (mf_Version m) = Some v \<and> v0 < v"
    if "current_manifest dec d = Some m0" for m0
    using a(2,3) that by (simp add: m new_manifest_def)
  with c show ?thesis by (simp add: m new_manifest_def)
qed

section \<open>Properties\<close>


definition demo_fw_sha :: "string \<Rightarrow> string" where
  "demo_fw_sha bytes = take 32 (bytes @ replicate 32 (CHR ''x''))"

definition demo_options :: publish_options where
  "demo_options = \<lparr>po_Directory = ''/fw'', po_Board = ''e32r28t'', po_Version = ''1.2.0'',
     po_SourcePath = ''a.bin'', po_PublishedAt = 5 * second\<rparr>"

definition demo_env :: publish_env where
  "demo_env = \<lparr>pe_source = SourceFile 3 ''abc'', pe_rand1 = ''1'', pe_rand2 = ''2'',
     pe_readback = (\<lambda>b. b), pe_good = (\<lambda>_. True), pe_now = 9 * second\<rparr>"

definition demo_manifest :: manifest where
  "demo_manifest = new_manifest demo_fw_sha demo_env demo_options ''abc''"

definition demo_enc :: "manifest \<Rightarrow> string option" where
  "demo_enc m = (if m = demo_manifest then Some ''manifest'' else None)"

definition demo_dec :: "string \<Rightarrow> manifest option" where
  "demo_dec s = (if s = ''manifest'' @ [CHR 0x0A] then Some demo_manifest else None)"

lemma demo_codec: "codec_ok demo_enc demo_dec"
  by (simp add: codec_ok_def demo_enc_def demo_dec_def)

lemma demo_publish:
  "fst (Publish demo_enc demo_dec demo_fw_sha calm demo_env demo_options Map.empty) = ok demo_manifest"
  "LoadManifest demo_dec calm ''/fw'' (run_ops (snd
     (Publish demo_enc demo_dec demo_fw_sha calm demo_env demo_options Map.empty)) Map.empty) = ok demo_manifest"
  by code_simp+




text \<open>
  A failed publication is rolled back: unless only the last directory sync failed, readers
  find the same manifest as before and no file of the new version is left under its final name.
\<close>

theorem publish_failure_is_undone:
  assumes "Publish enc dec sha io env opts d = (err e, ops)" and "io 23"
  shows "LoadManifest dec calm path (run_ops ops d) = LoadManifest dec calm path d"
proof -
  have "run_ops ops d ManifestName = d ManifestName"
    using Publish_cases [of enc dec sha io env opts d]
  proof (elim disjE exE conjE)
    fix e' ops' assume "Publish enc dec sha io env opts d = (err e', ops')" "ops' \<in> {[], [OpLockFile]}"
    with assms(1) show ?thesis by (auto simp: run_ops_def ManifestName_def split: option.split)
  next
    fix v data
    let ?t = "ImageName BoardE32R28T (po_Version opts)"
    assume "\<forall>text. (\<forall>x. enc (new_manifest sha env opts data) = Some x \<longrightarrow> text = x @ [CHR 0x0A]) \<longrightarrow>
        publishes enc env ?t data text d (io 23) (new_manifest sha env opts data) d
          (Publish enc dec sha io env opts d)"
    then have "\<exists>text. publishes enc env ?t data text d (io 23) (new_manifest sha env opts data) d (err e, ops)"
      unfolding assms(1) by (cases "enc (new_manifest sha env opts data)") auto
    then have "old_dir env ?t d (run_ops ops d)" using assms(2) by (auto simp: publishes_def)
    then show ?thesis
      using staging_names(1) [of env] target_names(2) [OF refl, of "po_Version opts"] unfolding old_dir_def by metis
  qed
  then show ?thesis by (simp add: LoadManifest_def)
qed

theorem publish_failure_is_undone_witness:
  "\<exists>e ops. Publish demo_enc demo_dec demo_fw_sha (\<lambda>i. i \<noteq> 22) demo_env demo_options Map.empty = (err e, ops) \<and>
     OpRename ''.image-1.tmp'' ''e32r28t-1.2.0.bin'' \<in> set ops \<and>
     LoadManifest demo_dec calm ''/fw'' (run_ops ops Map.empty) = LoadManifest demo_dec calm ''/fw'' Map.empty"
proof -
  have "fst (Publish demo_enc demo_dec demo_fw_sha (\<lambda>i. i \<noteq> 22) demo_env demo_options Map.empty) = err ErrIO"
    "OpRename ''.image-1.tmp'' ''e32r28t-1.2.0.bin'' \<in>
      set (snd (Publish demo_enc demo_dec demo_fw_sha (\<lambda>i. i \<noteq> 22) demo_env demo_options Map.empty))"
    by code_simp+
  then show ?thesis
    using publish_failure_is_undone [of demo_enc demo_dec demo_fw_sha "\<lambda>i. i \<noteq> 22" demo_env demo_options
        Map.empty ErrIO _ "''/fw''"] by (metis numeral_eq_iff prod.collapse semiring_norm(88))
qed

text \<open>
  \<open>OpenVerifiedImage\<close> only ever hands out the image of the current, valid manifest, byte for
  byte: the requested version is the manifest's, the file has exactly the announced size within
  the OTA slot, and its SHA-256 in hexadecimal is the announced digest.
\<close>

theorem open_verified_image_sound:
  assumes "OpenVerifiedImage dec sha io good path v d = ok (bytes, m)"
  shows "mf_Version m = v \<and> manifest_Validate m = None \<and>
    d (ImageName BoardE32R28T v) = Some (Regular bytes) \<and>
    int (length bytes) = mf_SizeBytes m \<and> length bytes \<le> 1966080 \<and>
    mf_SHA256 m = hex_encode (sha bytes)"
proof -
  have valid: "manifest_Validate m = None"
    by (rule current_manifest_valid [OF OpenVerifiedImage_ok(1) [OF assms]])
  then show ?thesis
    using OpenVerifiedImage_ok [OF assms] by (simp add: manifest_Validate_None MaxImageSize_def)
qed

definition demo_directory :: directory where
  "demo_directory = [ManifestName \<mapsto> Regular (''manifest'' @ [CHR 0x0A]),
     ''e32r28t-1.2.0.bin'' \<mapsto> Regular ''abc'']"

theorem open_verified_image_sound_witness:
  "\<exists>m. OpenVerifiedImage demo_dec demo_fw_sha calm calm ''/fw'' ''1.2.0'' demo_directory = ok (''abc'', m) \<and>
     mf_SHA256 m = hex_encode (demo_fw_sha ''abc'')"
proof -
  have "OpenVerifiedImage demo_dec demo_fw_sha calm calm ''/fw'' ''1.2.0'' demo_directory = ok (''abc'', demo_manifest)"
    by code_simp
  from open_verified_image_sound [OF this] this show ?thesis by blast
qed

text \<open>
  Version strings and versions correspond one to one: \<open>ParseVersion\<close> accepts exactly the
  canonical decimal notation of three components below \<open>2 ^ 32\<close>, and \<open>Compare\<close> is the
  lexicographic order of the components (so it is total and antisymmetric on accepted strings).
\<close>

theorem parse_version_exact:
  "ParseVersion s = Some v \<longleftrightarrow>
     s = show_version v \<and> Major v < 2 ^ 32 \<and> Minor v < 2 ^ 32 \<and> Patch v < 2 ^ 32"
  and "version_Compare v w < 0 \<longleftrightarrow> Major v < Major w \<or> Major v = Major w \<and>
         (Minor v < Minor w \<or> Minor v = Minor w \<and> Patch v < Patch w)"
  and "version_Compare v w = 0 \<longleftrightarrow> v = w"
  and "version_Compare w v = - version_Compare v w"
proof -
  show "ParseVersion s = Some v \<longleftrightarrow>
      s = show_version v \<and> Major v < 2 ^ 32 \<and> Minor v < 2 ^ 32 \<and> Patch v < 2 ^ 32"
    by (rule ParseVersion_iff)
  show "version_Compare v w < 0 \<longleftrightarrow> Major v < Major w \<or> Major v = Major w \<and>
      (Minor v < Minor w \<or> Minor v = Minor w \<and> Patch v < Patch w)"
    by (auto simp: version_Compare_def)
  show "version_Compare v w = 0 \<longleftrightarrow> v = w"
    by (cases v; cases w) (auto simp: version_Compare_def)
  show "version_Compare w v = - version_Compare v w" by (auto simp: version_Compare_def)
qed

end
