(* ===== verification/Hook_Events.thy ===== *)
theory Hook_Events
  imports Model Firmware
begin

text \<open>
  \<open>internal/hooks/event.go\<close>: the normalised hook event and \<open>ParseEvent\<close>. A decoded JSON document
  is a value of \<open>json\<close>; \<open>payload\<close> is what \<open>json.Unmarshal\<close> makes of the bytes (an object, or
  \<open>None\<close> for an error). SHA-256 (\<open>sha\<close>) and \<open>time.Parse\<close> with the RFC 3339 layout (\<open>parse_time\<close>)
  are arguments.
\<close>

section \<open>JSON values\<close>

datatype json =
    JNull
  | JBool bool
  | JNumber float64
  | JString string
  | JArray "json list"
  | JObject "(string \<times> json) list"

type_synonym json_object = "(string, json) gomap"

text \<open>Indexing a map and asserting a type, with Go's comma-ok result.\<close>

definition string_field :: "json_object \<Rightarrow> string \<Rightarrow> string option" where
  "string_field obj key = (case gomap_get obj key of Some (JString s) \<Rightarrow> Some s | _ \<Rightarrow> None)"

definition object_field :: "json_object \<Rightarrow> string \<Rightarrow> json_object option" where
  "object_field obj key = (case gomap_get obj key of Some (JObject o') \<Rightarrow> Some o' | _ \<Rightarrow> None)"

definition bool_field :: "json_object \<Rightarrow> string \<Rightarrow> bool" where
  "bool_field obj key = (case gomap_get obj key of Some (JBool b) \<Rightarrow> b | _ \<Rightarrow> False)"

fun firstString :: "json_object \<Rightarrow> string list \<Rightarrow> string" where
  "firstString obj [] = []"
| "firstString obj (key # keys) =
     (case string_field obj key of
        Some v \<Rightarrow> if v \<noteq> [] then v else firstString obj keys
      | None \<Rightarrow> firstString obj keys)"

section \<open>Events\<close>

record event =
  ev_Provider :: provider_name
  ev_Name :: string
  ev_SessionID :: string
  ev_TaskID :: string
  ev_At :: time
  ev_Probe :: bool

datatype event_error = BadProvider | BadPayload | MissingName | MissingSession

definition opaqueID :: "(string \<Rightarrow> string) \<Rightarrow> provider_name \<Rightarrow> string \<Rightarrow> string" where
  "opaqueID sha provider raw = hex_encode (take 16 (sha (provider @ [CHR 0x00] @ raw)))"

definition event_names :: "(string \<times> string) list" where
  "event_names =
     [(''userpromptsubmit'', ''UserPromptSubmit''), (''stop'', ''Stop''), (''stopfailure'', ''StopFailure''),
      (''sessionend'', ''SessionEnd''), (''subagentstart'', ''SubagentStart''),
      (''subagentstop'', ''SubagentStop''), (''posttooluse'', ''PostToolUse'')]"

definition canonicalEventName :: "string \<Rightarrow> string" where
  "canonicalEventName value =
     (let compact = filter (\<lambda>c. c \<noteq> CHR ''_'' \<and> c \<noteq> CHR ''-'' \<and> c \<noteq> CHR '' '') (ToLower (TrimSpace value))
      in case map_of event_names compact of Some n \<Rightarrow> n | None \<Rightarrow> [])"

fun first_time :: "(string \<Rightarrow> time option) \<Rightarrow> json_object \<Rightarrow> string list \<Rightarrow> time \<Rightarrow> time" where
  "first_time parse_time obj [] now = now"
| "first_time parse_time obj (key # keys) now =
     (case string_field obj key of
        None \<Rightarrow> first_time parse_time obj keys now
      | Some s \<Rightarrow> (case parse_time s of Some t \<Rightarrow> t | None \<Rightarrow> first_time parse_time obj keys now))"

definition event_name :: "string \<Rightarrow> json_object \<Rightarrow> string" where
  "event_name overrideName raw =
     canonicalEventName
       (if overrideName = [] then firstString raw [''hook_event_name'', ''hookEventName'', ''event_name'',
          ''eventName'', ''event''] else overrideName)"

definition event_session :: "json_object \<Rightarrow> string" where
  "event_session raw = firstString raw [''session_id'', ''sessionId'', ''conversation_id'',
     ''conversationId'', ''thread_id'', ''threadId'']"

definition event_task :: "json_object \<Rightarrow> string" where
  "event_task raw =
     (let rawTaskID = firstString raw [''agent_id'', ''agentId'', ''subagent_id'', ''subagentId'',
            ''task_id'', ''taskId'']
      in case object_field raw ''agent'' of
           Some input \<Rightarrow>
             if rawTaskID = [] then firstString input [''id'', ''agent_id'', ''agentId''] else rawTaskID
         | None \<Rightarrow> rawTaskID)"

definition opaque_task :: "(string \<Rightarrow> string) \<Rightarrow> provider_name \<Rightarrow> string \<Rightarrow> string" where
  "opaque_task sha provider raw = (if raw \<noteq> [] then opaqueID sha provider raw else [])"

definition ParseEvent ::
    "(string \<Rightarrow> string) \<Rightarrow> (string \<Rightarrow> time option) \<Rightarrow> bool \<Rightarrow> provider_name \<Rightarrow> string \<Rightarrow>
     json_object option \<Rightarrow> time \<Rightarrow> (event_error, event) result" where
  "ParseEvent sha parse_time probe_env provider overrideName payload now =
     (if provider \<noteq> ProviderCodex \<and> provider \<noteq> ProviderClaude then err BadProvider
      else case payload of
        None \<Rightarrow> err BadPayload
      | Some raw \<Rightarrow>
        if event_name overrideName raw = [] then err MissingName
        else if event_session raw = [] then err MissingSession
        else ok \<lparr>ev_Provider = provider, ev_Name = event_name overrideName raw,
               ev_SessionID = opaqueID sha provider (event_session raw),
               ev_TaskID = opaque_task sha provider (event_task raw),
               ev_At = first_time parse_time raw [''timestamp'', ''at'', ''created_at'', ''createdAt''] now,
               ev_Probe = (bool_field raw ''quota_monitor_probe'' \<or> probe_env)\<rparr>)"

section \<open>Identifiers leave the machine only as digests\<close>

lemma hex_digit_ok: "n < 16 \<Longrightarrow> is_hex_lower (hex_digit n)"
  by (auto simp: hex_digit_def is_hex_lower_def is_digit_def byte_char_of)

lemma hex_encode_chars: "list_all is_hex_lower (hex_encode s)"
proof (induction s)
  case (Cons c s)
  have "byte c < 256" by (simp add: byte_def)
  then show ?case using Cons by (simp add: hex_digit_ok)
qed simp

lemma length_hex_encode: "length (hex_encode s) = 2 * length s"
  by (induction s) simp_all

definition opaque :: "string \<Rightarrow> bool" where
  "opaque s = (length s = 32 \<and> list_all is_hex_lower s)"

lemma opaqueID_opaque: "(\<And>x. length (sha x) = 32) \<Longrightarrow> opaque (opaqueID sha p raw)"
  by (simp add: opaque_def opaqueID_def length_hex_encode hex_encode_chars)

lemma event_names_range:
  "n \<in> set (map snd event_names) \<Longrightarrow> canonicalEventName n = n \<and> n \<noteq> []"
proof -
  have "list_all (\<lambda>n. canonicalEventName n = n \<and> n \<noteq> []) (map snd event_names)" by code_simp
  then show "n \<in> set (map snd event_names) \<Longrightarrow> canonicalEventName n = n \<and> n \<noteq> []"
    by (auto simp: list_all_iff)
qed

lemma canonicalEventName_range:
  "canonicalEventName s = [] \<or> canonicalEventName s \<in> set (map snd event_names)"
proof -
  have "map_of event_names k = Some n \<Longrightarrow> n \<in> set (map snd event_names)" for k n
    by (drule map_of_SomeD) force
  then show ?thesis by (auto simp: canonicalEventName_def Let_def split: option.split)
qed

lemma canonicalEventName_idem: "canonicalEventName (canonicalEventName s) = canonicalEventName s"
proof -
  have "canonicalEventName [] = []" by code_simp
  then show ?thesis using canonicalEventName_range [of s] event_names_range by metis
qed

section \<open>Properties\<close>

text \<open>
  A parsed event exposes nothing of the provider payload but its kind and time. Every accepted
  event has one of the seven known names, a session identifier of 32 lower-case hexadecimal
  digits and a task identifier that is empty or of that form, whatever the payload contains; and
  naming an event by its canonical name gives the same name back.
\<close>

theorem parsed_event_is_opaque:
  assumes "\<And>x. length (sha x) = 32"
    and "ParseEvent sha parse_time probe_env provider overrideName payload now = ok e"
  shows "ValidProvider (ev_Provider e) \<and> ev_Name e \<in> set (map snd event_names) \<and>
    canonicalEventName (ev_Name e) = ev_Name e \<and> opaque (ev_SessionID e) \<and>
    (ev_TaskID e = [] \<or> opaque (ev_TaskID e))"
proof -
  obtain raw where p: "ev_Provider e = provider" "provider = ProviderCodex \<or> provider = ProviderClaude"
    "ev_Name e = event_name overrideName raw" "event_name overrideName raw \<noteq> []"
    "ev_SessionID e = opaqueID sha provider (event_session raw)"
    "ev_TaskID e = opaque_task sha provider (event_task raw)"
    using assms(2) by (auto simp: ParseEvent_def split: if_splits option.splits)
  have "ev_Name e \<in> set (map snd event_names)"
    using p(3,4) canonicalEventName_range unfolding event_name_def by metis
  moreover have "canonicalEventName (ev_Name e) = ev_Name e"
    unfolding p(3) event_name_def by (rule canonicalEventName_idem)
  ultimately show ?thesis
    using p opaqueID_opaque [OF assms(1)] by (simp add: ValidProvider_def opaque_task_def)
qed

definition demo_event_sha :: "string \<Rightarrow> string" where
  "demo_event_sha s = take 32 (s @ replicate 32 (CHR ''0''))"

definition demo_payload :: json_object where
  "demo_payload = [(''hook_event_name'', JString ''subagent_start''), (''session_id'', JString ''s''),
     (''agent'', JObject [(''id'', JString ''t'')])]"

theorem parsed_event_is_opaque_witness:
  "\<exists>e. ParseEvent demo_event_sha (\<lambda>_. None) False ProviderClaude [] (Some demo_payload) 7 = ok e \<and>
     ev_Name e = ''SubagentStart'' \<and> opaque (ev_SessionID e) \<and> opaque (ev_TaskID e)"
proof -
  have c: "is_ok (ParseEvent demo_event_sha (\<lambda>_. None) False ProviderClaude [] (Some demo_payload) 7)"
    "map_option ev_Name (case ParseEvent demo_event_sha (\<lambda>_. None) False ProviderClaude [] (Some demo_payload) 7 of
       Inr e \<Rightarrow> Some e | Inl _ \<Rightarrow> None) = Some ''SubagentStart''"
    "map_option (\<lambda>e. ev_TaskID e = []) (case ParseEvent demo_event_sha (\<lambda>_. None) False ProviderClaude []
       (Some demo_payload) 7 of Inr e \<Rightarrow> Some e | Inl _ \<Rightarrow> None) = Some False"
    by code_simp+
  from c(1) obtain e where e: "ParseEvent demo_event_sha (\<lambda>_. None) False ProviderClaude [] (Some demo_payload) 7 = ok e"
    by (auto simp: is_ok_def split: sum.splits)
  have "length (demo_event_sha x) = 32" for x by (simp add: demo_event_sha_def)
  from parsed_event_is_opaque [OF this e] e c(2,3) show ?thesis by auto
qed

end
