(* ===== verification/Validation.thy ===== *)
theory Validation
  imports Model
begin

text \<open>
  The server-side contract of a report: \<open>ValidateAgentReport\<close> and its helpers from
  \<open>internal/server/server.go\<close>, with one constructor of \<open>report_error\<close> per message. The
  declarative predicate \<open>report_wf\<close> says what an accepted report satisfies; the theorems
  show that the checks decide exactly that predicate.
\<close>

section \<open>Limits\<close>

definition MaxReportBodySize :: int where "MaxReportBodySize = 65536"
definition MaxFutureSkew :: duration where "MaxFutureSkew = 5 * minute"
definition MaxReportAge :: duration where "MaxReportAge = 15 * minute"

section \<open>Identifiers\<close>

definition agent_id_char :: "char \<Rightarrow> bool" where
  "agent_id_char c =
     (is_lower c \<or> is_upper c \<or> is_digit c \<or> c = CHR ''.'' \<or> c = CHR ''_'' \<or> c = CHR ''-'')"

definition validAgentID :: "string \<Rightarrow> bool" where
  "validAgentID v = (\<not> (length v = 0 \<or> length v > 64) \<and> list_all agent_id_char v)"

text \<open>
  \<open>unicode.IsControl\<close> holds for U+0000--U+001F and U+007F--U+009F; the latter half is encoded
  as the byte C2 and a second byte 80--9F.
\<close>

fun has_control :: "string \<Rightarrow> bool" where
  "has_control [] = False"
| "has_control (c # s) =
     (byte c < 32 \<or> byte c = 127 \<or>
      (byte c = 194 \<and> (case s of [] \<Rightarrow> False | d # _ \<Rightarrow> 128 \<le> byte d \<and> byte d \<le> 159)) \<or>
      has_control s)"

definition validSessionID :: "string \<Rightarrow> bool" where
  "validSessionID v = (\<not> (length v = 0 \<or> length v > 256) \<and> \<not> has_control v)"

section \<open>Windows\<close>

datatype window_error =
    UsedOutOfRange string
  | RemainingOutOfRange string
  | PercentSum string
  | ResetNullUsed string
  | ResetZero string

definition out_of_range :: "float64 \<Rightarrow> bool" where
  "out_of_range v = (IsNaN v \<or> IsInf v \<or> f64_lt v (F64 0) \<or> f64_gt v (F64 100))"

definition validateWindow :: "limit_window option \<Rightarrow> string \<Rightarrow> window_error option" where
  "validateWindow window name =
     (case window of
        None \<Rightarrow> None
      | Some w \<Rightarrow>
          if out_of_range (UsedPercent w) then Some (UsedOutOfRange name)
          else if out_of_range (RemainingPercent w) then Some (RemainingOutOfRange name)
          else if f64_gt (f64_abs (f64_sub (f64_add (UsedPercent w) (RemainingPercent w)) (F64 100)))
                    (f64_of_rat (1 / 100))
          then Some (PercentSum name)
          else (case ResetsAt w of
                  None \<Rightarrow>
                    if \<not> f64_eq (UsedPercent w) (F64 0) \<or> \<not> f64_eq (RemainingPercent w) (F64 100)
                    then Some (ResetNullUsed name) else None
                | Some t \<Rightarrow> if IsZero t then Some (ResetZero name) else None))"

section \<open>Reports\<close>

datatype report_error =
    UnsupportedSchemaVersion int
  | InvalidAgentID
  | SentAtRequired
  | SentAtFuture
  | SentAtOld
  | ProvidersRequired
  | ActiveTasksRequired
  | TooManyTasks
  | UnsupportedProvider string
  | MetadataTooLong string
  | ObservedAtRequired string
  | ObservedAtFuture string
  | BadWindow window_error
  | TaskProvider nat
  | TaskKindUnsupported nat
  | TaskSessionID nat
  | TaskTimesRequired nat
  | TaskTimesOrder nat
  | TaskTimesFuture nat
  | TaskDuplicate nat

definition validate_provider ::
    "time \<Rightarrow> time \<Rightarrow> provider_name \<Rightarrow> provider_report \<Rightarrow> report_error option" where
  "validate_provider sentAt now p r =
     (if p \<noteq> ProviderCodex \<and> p \<noteq> ProviderClaude then Some (UnsupportedProvider p)
      else if length (AuthState r) > 64 \<or> length (Plan r) > 128 \<or> length (Source r) > 128 \<or>
              length (ErrorCode r) > 128 then Some (MetadataTooLong p)
      else if IsZero (ObservedAt r) \<and>
              (FiveHour (Windows r) \<noteq> None \<or> SevenDay (Windows r) \<noteq> None)
           then Some (ObservedAtRequired p)
      else if \<not> IsZero (ObservedAt r) \<and>
              (After (ObservedAt r) (Add sentAt MaxFutureSkew) \<or>
               After (ObservedAt r) (Add now MaxFutureSkew))
           then Some (ObservedAtFuture p)
      else case validateWindow (FiveHour (Windows r)) (p @ '' fiveHour'') of
             Some e \<Rightarrow> Some (BadWindow e)
           | None \<Rightarrow>
               (case validateWindow (SevenDay (Windows r)) (p @ '' sevenDay'') of
                  Some e \<Rightarrow> Some (BadWindow e)
                | None \<Rightarrow> None))"

fun validate_providers ::
    "time \<Rightarrow> time \<Rightarrow> (provider_name, provider_report) gomap \<Rightarrow> report_error option" where
  "validate_providers sentAt now [] = None"
| "validate_providers sentAt now ((p, r) # ps) =
     (case validate_provider sentAt now p r of
        Some e \<Rightarrow> Some e
      | None \<Rightarrow> validate_providers sentAt now ps)"

definition task_pair_key :: "active_task \<Rightarrow> string" where
  "task_pair_key t = Provider t @ [CHR 0x00] @ SessionID t"

definition validate_task ::
    "time \<Rightarrow> time \<Rightarrow> nat \<Rightarrow> active_task \<Rightarrow> report_error option" where
  "validate_task sentAt now i t =
     (if Provider t \<noteq> ProviderCodex \<and> Provider t \<noteq> ProviderClaude then Some (TaskProvider i)
      else if Kind t \<noteq> TaskMain \<and> Kind t \<noteq> TaskSub then Some (TaskKindUnsupported i)
      else if \<not> validSessionID (SessionID t) then Some (TaskSessionID i)
      else if IsZero (StartedAt t) \<or> IsZero (LastSeenAt t) then Some (TaskTimesRequired i)
      else if Before (LastSeenAt t) (StartedAt t) then Some (TaskTimesOrder i)
      else if After (StartedAt t) (Add now MaxFutureSkew) \<or> After (LastSeenAt t) (Add now MaxFutureSkew) \<or>
              After (StartedAt t) (Add sentAt MaxFutureSkew) \<or>
              After (LastSeenAt t) (Add sentAt MaxFutureSkew)
           then Some (TaskTimesFuture i)
      else None)"

fun validate_tasks ::
    "time \<Rightarrow> time \<Rightarrow> nat \<Rightarrow> string list \<Rightarrow> active_task list \<Rightarrow> report_error option" where
  "validate_tasks sentAt now i seen [] = None"
| "validate_tasks sentAt now i seen (t # ts) =
     (case validate_task sentAt now i t of
        Some e \<Rightarrow> Some e
      | None \<Rightarrow>
          if task_pair_key t \<in> set seen then Some (TaskDuplicate i)
          else validate_tasks sentAt now (Suc i) (task_pair_key t # seen) ts)"

definition ValidateAgentReport :: "agent_report \<Rightarrow> time \<Rightarrow> report_error option" where
  "ValidateAgentReport report now =
     (if ar_SchemaVersion report \<noteq> SchemaVersion
      then Some (UnsupportedSchemaVersion (ar_SchemaVersion report))
      else if \<not> validAgentID (ar_AgentID report) then Some InvalidAgentID
      else if IsZero (ar_SentAt report) then Some SentAtRequired
      else if After (ar_SentAt report) (Add now MaxFutureSkew) then Some SentAtFuture
      else if Before (ar_SentAt report) (Add now (- MaxReportAge)) then Some SentAtOld
      else case ar_Providers report of
             None \<Rightarrow> Some ProvidersRequired
           | Some ps \<Rightarrow>
             (case ar_ActiveTasks report of
                None \<Rightarrow> Some ActiveTasksRequired
              | Some ts \<Rightarrow>
                if length ts > 256 then Some TooManyTasks
                else case validate_providers (ar_SentAt report) now ps of
                       Some e \<Rightarrow> Some e
                     | None \<Rightarrow> validate_tasks (ar_SentAt report) now 0 [] ts))"

section \<open>What the checks decide\<close>

definition window_wf :: "limit_window \<Rightarrow> bool" where
  "window_wf w =
     (percent_ok (UsedPercent w) \<and> percent_ok (RemainingPercent w) \<and>
      \<not> f64_gt (f64_abs (f64_sub (f64_add (UsedPercent w) (RemainingPercent w)) (F64 100)))
          (f64_of_rat (1 / 100)) \<and>
      (case ResetsAt w of
         None \<Rightarrow> UsedPercent w = F64 0 \<and> RemainingPercent w = F64 100
       | Some t \<Rightarrow> t \<noteq> zero_time))"

definition windows_wf :: "provider_windows \<Rightarrow> bool" where
  "windows_wf ws = (pred_option window_wf (FiveHour ws) \<and> pred_option window_wf (SevenDay ws))"

definition provider_wf :: "time \<Rightarrow> time \<Rightarrow> provider_name \<times> provider_report \<Rightarrow> bool" where
  "provider_wf sentAt now pr =
     (case pr of (p, r) \<Rightarrow>
        ValidProvider p \<and>
        length (AuthState r) \<le> 64 \<and> length (Plan r) \<le> 128 \<and> length (Source r) \<le> 128 \<and>
        length (ErrorCode r) \<le> 128 \<and>
        (if ObservedAt r = zero_time then Windows r = no_windows
         else ObservedAt r \<le> sentAt + MaxFutureSkew \<and> ObservedAt r \<le> now + MaxFutureSkew) \<and>
        windows_wf (Windows r))"

definition task_wf :: "time \<Rightarrow> time \<Rightarrow> active_task \<Rightarrow> bool" where
  "task_wf sentAt now t =
     (ValidProvider (Provider t) \<and> ValidTaskKind (Kind t) \<and> validSessionID (SessionID t) \<and>
      StartedAt t \<noteq> zero_time \<and> LastSeenAt t \<noteq> zero_time \<and> StartedAt t \<le> LastSeenAt t \<and>
      LastSeenAt t \<le> now + MaxFutureSkew \<and> LastSeenAt t \<le> sentAt + MaxFutureSkew)"

definition report_wf :: "agent_report \<Rightarrow> time \<Rightarrow> bool" where
  "report_wf r now =
     (ar_SchemaVersion r = SchemaVersion \<and> validAgentID (ar_AgentID r) \<and>
      ar_SentAt r \<noteq> zero_time \<and>
      now - MaxReportAge \<le> ar_SentAt r \<and> ar_SentAt r \<le> now + MaxFutureSkew \<and>
      (case (ar_Providers r, ar_ActiveTasks r) of
         (Some ps, Some ts) \<Rightarrow>
           (\<forall>pr\<in>set ps. provider_wf (ar_SentAt r) now pr) \<and>
           length ts \<le> 256 \<and>
           (\<forall>t\<in>set ts. task_wf (ar_SentAt r) now t) \<and>
           distinct (map (\<lambda>t. (Provider t, SessionID t)) ts)
       | _ \<Rightarrow> False))"

lemma out_of_range_iff: "out_of_range v \<longleftrightarrow> \<not> percent_ok v"
  by (cases v) (auto simp: out_of_range_def percent_ok_def IsNaN_def IsInf_def f64_gt_def)

lemma f64_eq_F64 [simp]: "f64_eq v (F64 a) \<longleftrightarrow> v = F64 a"
  by (cases v) auto

lemma validateWindow_None_iff:
  "validateWindow w name = None \<longleftrightarrow> pred_option window_wf w"
  by (cases w) (auto simp: validateWindow_def window_wf_def out_of_range_iff IsZero_def
      split: option.splits)

lemma no_windows_iff: "ws = no_windows \<longleftrightarrow> FiveHour ws = None \<and> SevenDay ws = None"
  by (cases ws) (auto simp: no_windows_def)

lemma validate_provider_None_iff:
  "validate_provider sentAt now p r = None \<longleftrightarrow> provider_wf sentAt now (p, r)"
  unfolding validate_provider_def provider_wf_def ValidProvider_def windows_wf_def
  by (auto simp: go_simps validateWindow_None_iff no_windows_iff time_defs)

lemma validate_providers_None_iff:
  "validate_providers sentAt now ps = None \<longleftrightarrow> (\<forall>pr\<in>set ps. provider_wf sentAt now pr)"
  by (induction ps) (auto simp: go_simps validate_provider_None_iff)

lemma validate_task_None_iff: "validate_task sentAt now i t = None \<longleftrightarrow> task_wf sentAt now t"
  unfolding validate_task_def task_wf_def ValidProvider_def ValidTaskKind_def
  by (auto simp: go_simps time_defs)

lemma task_pair_key_inj:
  assumes "ValidProvider (Provider t)" and "ValidProvider (Provider u)"
  shows "task_pair_key t = task_pair_key u \<longleftrightarrow> (Provider t, SessionID t) = (Provider u, SessionID u)"
  using assms by (auto simp: task_pair_key_def ValidProvider_def name_defs)

lemma validate_tasks_None_iff:
  "validate_tasks sentAt now i seen ts = None \<longleftrightarrow>
     (\<forall>t\<in>set ts. task_wf sentAt now t) \<and> distinct (map task_pair_key ts) \<and>
     (\<forall>t\<in>set ts. task_pair_key t \<notin> set seen)"
proof (induction ts arbitrary: i seen)
  case (Cons t ts)
  have "(\<forall>u\<in>set ts. task_pair_key u \<notin> set (task_pair_key t # seen)) \<longleftrightarrow>
      task_pair_key t \<notin> task_pair_key ` set ts \<and> (\<forall>u\<in>set ts. task_pair_key u \<notin> set seen)"
    by (auto simp: image_iff)
  then show ?case unfolding validate_tasks.simps go_simps validate_task_None_iff Cons.IH
    by auto
qed simp

lemma task_wf_provider: "task_wf sentAt now t \<Longrightarrow> ValidProvider (Provider t)"
  by (simp add: task_wf_def)

lemma distinct_task_keys:
  assumes "\<forall>t\<in>set ts. ValidProvider (Provider t)"
  shows "distinct (map task_pair_key ts) \<longleftrightarrow> distinct (map (\<lambda>t. (Provider t, SessionID t)) ts)"
  using assms
proof (induction ts)
  case (Cons t ts)
  then have "task_pair_key t \<in> task_pair_key ` set ts \<longleftrightarrow>
      (Provider t, SessionID t) \<in> (\<lambda>t. (Provider t, SessionID t)) ` set ts"
    by (force simp: task_pair_key_inj image_iff)
  with Cons show ?case by simp
qed simp

lemma accepted_tasks:
  "validate_tasks sentAt now i [] ts = None \<longleftrightarrow>
     (\<forall>t\<in>set ts. task_wf sentAt now t) \<and> distinct (map (\<lambda>t. (Provider t, SessionID t)) ts)"
  using distinct_task_keys [of ts] by (auto simp: validate_tasks_None_iff task_wf_def)

lemma ValidateAgentReport_iff: "ValidateAgentReport r now = None \<longleftrightarrow> report_wf r now"
proof -
  have "ValidateAgentReport r now = None \<longleftrightarrow>
      ar_SchemaVersion r = SchemaVersion \<and> validAgentID (ar_AgentID r) \<and>
      ar_SentAt r \<noteq> zero_time \<and>
      now - MaxReportAge \<le> ar_SentAt r \<and> ar_SentAt r \<le> now + MaxFutureSkew \<and>
      (\<exists>ps. ar_Providers r = Some ps \<and> (\<exists>ts. ar_ActiveTasks r = Some ts \<and> \<not> length ts > 256 \<and>
        validate_providers (ar_SentAt r) now ps = None \<and>
        validate_tasks (ar_SentAt r) now 0 [] ts = None))"
    unfolding ValidateAgentReport_def go_simps time_defs by auto
  also have "\<dots> \<longleftrightarrow> report_wf r now"
    unfolding report_wf_def validate_providers_None_iff accepted_tasks
    by (cases "ar_Providers r"; cases "ar_ActiveTasks r") auto
  finally show ?thesis .
qed

end
