(* ===== verification/Ledger.thy ===== *)
theory Ledger
  imports Hook_Events Validation
begin

text \<open>
  \<open>internal/agent/ledger.go\<close>: the in-memory ledger of active tasks. The map from keys to records is
  an association list; \<open>Apply\<close> and \<open>Snapshot\<close> take the clock reading they make. Each operation
  runs under the ledger's mutex, so a run is a sequence of operations.
\<close>

section \<open>Operations\<close>

definition DefaultTaskTTL :: duration where "DefaultTaskTTL = 15 * minute"

record taskRecord =
  rec_Task :: active_task
  rec_Parent :: string

record ledger =
  lg_ttl :: duration
  lg_tasks :: "(string, taskRecord) gomap"

definition NewLedger :: "duration \<Rightarrow> ledger" where
  "NewLedger ttl = \<lparr>lg_ttl = (if ttl \<le> 0 then DefaultTaskTTL else ttl), lg_tasks = []\<rparr>"

definition ledgerKey :: "provider_name \<Rightarrow> task_kind \<Rightarrow> string \<Rightarrow> string" where
  "ledgerKey provider kind i = provider @ [CHR 0x00] @ kind @ [CHR 0x00] @ i"

definition subTaskID :: "event \<Rightarrow> string" where
  "subTaskID e =
     (let i = TrimSpace (ev_TaskID e)
      in ev_SessionID e @ '':'' @ (if i = [] then ''unknown'' else i))"

definition pruneLocked :: "time \<Rightarrow> ledger \<Rightarrow> ledger" where
  "pruneLocked now l =
     l\<lparr>lg_tasks := gomap_drop (\<lambda>key r. Before (LastSeenAt (rec_Task r)) (Add now (- lg_ttl l))) (lg_tasks l)\<rparr>"

text \<open>The common step "refresh the record if it exists".\<close>

definition refresh :: "string \<Rightarrow> time \<Rightarrow> ledger \<Rightarrow> ledger" where
  "refresh key now l =
     (case gomap_get (lg_tasks l) key of
        None \<Rightarrow> l
      | Some r \<Rightarrow> l\<lparr>lg_tasks := gomap_put key (r\<lparr>rec_Task := (rec_Task r)\<lparr>LastSeenAt := now\<rparr>\<rparr>) (lg_tasks l)\<rparr>)"

definition refresh_or_start :: "provider_name \<Rightarrow> task_kind \<Rightarrow> string \<Rightarrow> string \<Rightarrow> time \<Rightarrow> ledger \<Rightarrow> ledger" where
  "refresh_or_start provider kind i parent now l =
     (let key = ledgerKey provider kind i in
      case gomap_get (lg_tasks l) key of
        Some _ \<Rightarrow> refresh key now l
      | None \<Rightarrow> l\<lparr>lg_tasks := gomap_put key
          \<lparr>rec_Task = \<lparr>Provider = provider, Kind = kind, SessionID = i, StartedAt = now, LastSeenAt = now\<rparr>,
           rec_Parent = parent\<rparr> (lg_tasks l)\<rparr>)"

definition end_tasks :: "(taskRecord \<Rightarrow> bool) \<Rightarrow> ledger \<Rightarrow> ledger" where
  "end_tasks P l = l\<lparr>lg_tasks := gomap_drop (\<lambda>key r. P r) (lg_tasks l)\<rparr>"

text \<open>The time an event is accounted at; \<open>None\<close> for an event that is too old to replay.\<close>

definition event_time :: "duration \<Rightarrow> time \<Rightarrow> event \<Rightarrow> time option" where
  "event_time ttl now e =
     (if \<not> IsZero (ev_At e) then
        (if Before (ev_At e) (Add now (- ttl)) then None
         else if Before (ev_At e) (Add now minute) then Some (ev_At e) else Some now)
      else Some now)"

definition apply_named :: "event \<Rightarrow> time \<Rightarrow> ledger \<Rightarrow> ledger" where
  "apply_named e now l =
     (let mainKey = ledgerKey (ev_Provider e) TaskMain (ev_SessionID e);
          subKey = ledgerKey (ev_Provider e) TaskSub (subTaskID e)
      in if ev_Name e = ''UserPromptSubmit'' then
           (if ev_SessionID e = [] then l
            else refresh_or_start (ev_Provider e) TaskMain (ev_SessionID e) (ev_SessionID e) now l)
         else if ev_Name e = ''PostToolUse'' then
           (let l1 = refresh mainKey now l
            in if TrimSpace (ev_TaskID e) \<noteq> [] then refresh subKey now l1 else l1)
         else if ev_Name e = ''Stop'' \<or> ev_Name e = ''StopFailure'' then
           l\<lparr>lg_tasks := gomap_del mainKey (lg_tasks l)\<rparr>
         else if ev_Name e = ''SessionEnd'' then
           end_tasks (\<lambda>r. Provider (rec_Task r) = ev_Provider e \<and> rec_Parent r = ev_SessionID e) l
         else if ev_Name e = ''SubagentStart'' then
           (if ev_SessionID e = [] then l
            else refresh_or_start (ev_Provider e) TaskSub (subTaskID e) (ev_SessionID e) now l)
         else if ev_Name e = ''SubagentStop'' then
           (if TrimSpace (ev_TaskID e) \<noteq> [] then l\<lparr>lg_tasks := gomap_del subKey (lg_tasks l)\<rparr>
            else end_tasks (\<lambda>r. Provider (rec_Task r) = ev_Provider e \<and> Kind (rec_Task r) = TaskSub \<and>
                   rec_Parent r = ev_SessionID e) l)
         else l)"

definition Apply :: "time \<Rightarrow> event \<Rightarrow> ledger \<Rightarrow> ledger" where
  "Apply now e l =
     (if ev_Probe e \<or> (ev_Provider e \<noteq> ProviderCodex \<and> ev_Provider e \<noteq> ProviderClaude) then l
      else case event_time (lg_ttl l) now e of
             None \<Rightarrow> l
           | Some t \<Rightarrow> apply_named e t (pruneLocked t l))"

definition task_order_key :: "active_task \<Rightarrow> string" where
  "task_order_key t = Provider t @ [CHR 0x00] @ Kind t @ [CHR 0x00] @ SessionID t"

definition Snapshot :: "time \<Rightarrow> ledger \<Rightarrow> active_task list \<times> ledger" where
  "Snapshot now l =
     (let l1 = pruneLocked now l
      in (sort_key task_order_key (map (\<lambda>(key, r). rec_Task r) (lg_tasks l1)), l1))"

text \<open>Keys of known providers and kinds determine the task.\<close>

lemma ledgerKey_inj:
  assumes "ValidProvider p" "ValidProvider q" "ValidTaskKind k" "ValidTaskKind j"
  shows "ledgerKey p k i = ledgerKey q j i' \<longleftrightarrow> p = q \<and> k = j \<and> i = i'"
  using assms by (auto simp: ledgerKey_def ValidProvider_def ValidTaskKind_def name_defs)

lemma ValidTaskKind_names [simp]: "ValidTaskKind TaskMain" "ValidTaskKind TaskSub"
  by (simp_all add: ValidTaskKind_def)

section \<open>The invariant\<close>

text \<open>
  A record is filed under the key of its task; a main task is its own parent and a subagent's
  identifier extends its parent's.
\<close>

definition record_ok :: "string \<times> taskRecord \<Rightarrow> bool" where
  "record_ok kr =
     (case kr of (k, r) \<Rightarrow>
        let t = rec_Task r in
        k = ledgerKey (Provider t) (Kind t) (SessionID t) \<and> ValidProvider (Provider t) \<and>
        rec_Parent r \<noteq> [] \<and>
        (Kind t = TaskMain \<and> SessionID t = rec_Parent r \<or>
         Kind t = TaskSub \<and> prefix (rec_Parent r @ '':'') (SessionID t)))"

definition ledger_wf :: "ledger \<Rightarrow> bool" where
  "ledger_wf l = (gomap_wf (lg_tasks l) \<and> 0 < lg_ttl l \<and> list_all record_ok (lg_tasks l))"

lemma ledger_wf_new: "ledger_wf (NewLedger ttl)"
  by (simp add: ledger_wf_def NewLedger_def gm.wf_empty DefaultTaskTTL_def duration_defs)

lemma list_all_drop: "list_all P m \<Longrightarrow> list_all P (gomap_drop Q m)"
  by (auto simp: list_all_iff gomap_drop_def)

lemma list_all_put: "gomap_wf m \<Longrightarrow> list_all P m \<Longrightarrow> P (k, v) \<Longrightarrow> list_all P (gomap_put k v m)"
  by (auto simp: list_all_iff set_gomap_put)

lemma ledger_wf_drop:
  "ledger_wf l \<Longrightarrow> ledger_wf (l\<lparr>lg_tasks := gomap_drop P (lg_tasks l)\<rparr>)"
  by (simp add: ledger_wf_def gomap_wfs list_all_drop)

lemma ledger_wf_prune [inv_intros]: "ledger_wf l \<Longrightarrow> ledger_wf (pruneLocked now l)"
  by (simp add: pruneLocked_def ledger_wf_drop)

lemma ledger_wf_end [inv_intros]: "ledger_wf l \<Longrightarrow> ledger_wf (end_tasks P l)"
  by (simp add: end_tasks_def ledger_wf_drop)

lemma ledger_wf_del [inv_intros]:
  "ledger_wf l \<Longrightarrow> ledger_wf (l\<lparr>lg_tasks := gomap_del k (lg_tasks l)\<rparr>)"
  by (simp add: gomap_del_drop ledger_wf_drop)

lemma ledger_wf_put:
  "ledger_wf l \<Longrightarrow> record_ok (k, r) \<Longrightarrow> ledger_wf (l\<lparr>lg_tasks := gomap_put k r (lg_tasks l)\<rparr>)"
  by (simp add: ledger_wf_def gomap_wfs list_all_put)

lemma ledger_wf_get: "ledger_wf l \<Longrightarrow> gomap_get (lg_tasks l) k = Some r \<Longrightarrow> record_ok (k, r)"
  by (auto simp: ledger_wf_def list_all_iff dest: gomap_get_in_set)

lemma ledger_wf_refresh [inv_intros]: "ledger_wf l \<Longrightarrow> ledger_wf (refresh k now l)"
  using ledger_wf_get [of l k]
  by (auto simp: refresh_def record_ok_def Let_def intro!: ledger_wf_put split: option.split)

lemma ledger_wf_refresh_or_start:
  assumes "ledger_wf l" and "ValidProvider p" and "parent \<noteq> []"
    and "k = TaskMain \<and> i = parent \<or> k = TaskSub \<and> prefix (parent @ '':'') i"
  shows "ledger_wf (refresh_or_start p k i parent now l)"
  using assms
  by (auto simp: refresh_or_start_def Let_def record_ok_def intro!: ledger_wf_put ledger_wf_refresh split: option.split)

lemma subTaskID_prefix: "prefix (ev_SessionID e @ '':'') (subTaskID e)"
  by (simp add: subTaskID_def Let_def)

lemma ledger_wf_named:
  assumes "ledger_wf l" and "ValidProvider (ev_Provider e)"
  shows "ledger_wf (apply_named e now l)"
  using assms subTaskID_prefix [of e]
  by (auto simp: apply_named_def Let_def inv_intros intro!: ledger_wf_refresh_or_start)

lemma ledger_wf_apply [inv_intros]: "ledger_wf l \<Longrightarrow> ledger_wf (Apply now e l)"
  by (auto simp: Apply_def ValidProvider_def inv_intros intro!: ledger_wf_named split: option.split)

lemma ledger_wf_snapshot [inv_intros]: "ledger_wf l \<Longrightarrow> ledger_wf (snd (Snapshot now l))"
  by (simp add: Snapshot_def Let_def inv_intros)

text \<open>One operation on the ledger.\<close>

inductive ledger_step :: "ledger \<Rightarrow> ledger \<Rightarrow> bool" where
  apply_event: "ledger_step l (Apply now e l)"
| take_snapshot: "ledger_step l (snd (Snapshot now l))"

inductive_cases ledger_stepE: "ledger_step l l'"

lemma ledger_steps_wf: "ledger_step\<^sup>*\<^sup>* l l' \<Longrightarrow> ledger_wf l \<Longrightarrow> ledger_wf l'"
  by (induction rule: rtranclp_induct) (auto elim!: ledger_stepE simp: inv_intros)

section \<open>What a snapshot holds\<close>

lemma task_order_key_ledgerKey: "task_order_key t = ledgerKey (Provider t) (Kind t) (SessionID t)"
  by (simp add: task_order_key_def ledgerKey_def)

lemma ledger_keys:
  "ledger_wf l \<Longrightarrow> map (\<lambda>(k, r). task_order_key (rec_Task r)) (lg_tasks l) = map fst (lg_tasks l)"
  by (auto simp: ledger_wf_def list_all_iff record_ok_def Let_def task_order_key_ledgerKey)

lemma snapshot_keys_distinct:
  assumes "ledger_wf l"
  shows "distinct (map task_order_key (map (\<lambda>(k, r). rec_Task r) (lg_tasks l)))"
proof -
  have "map task_order_key (map (\<lambda>(k, r). rec_Task r) (lg_tasks l)) = map fst (lg_tasks l)"
    using ledger_keys [OF assms] by (simp add: o_def case_prod_unfold)
  moreover have "distinct (map fst (lg_tasks l))" using assms by (simp add: ledger_wf_def gomap_wf_def)
  ultimately show ?thesis by (simp only:)
qed

lemma distinct_sort_key: "distinct (map f ts) \<Longrightarrow> distinct (map f (sort_key f ts))"
  by (metis distinct_map distinct_sort set_sort)

lemma snapshot_distinct:
  assumes "ledger_wf l"
  shows "distinct (map task_order_key (fst (Snapshot now l)))"
proof -
  let ?ts = "map (\<lambda>(k, r). rec_Task r) (lg_tasks (pruneLocked now l))"
  have d: "distinct (map task_order_key ?ts)"
    by (rule snapshot_keys_distinct) (rule ledger_wf_prune [OF assms])
  then have "distinct (map task_order_key (sort_key task_order_key ?ts))" by (rule distinct_sort_key)
  then show ?thesis by (simp add: Snapshot_def Let_def)
qed

lemma set_snapshot:
  "set (fst (Snapshot now l)) =
     {rec_Task r | k r. (k, r) \<in> set (lg_tasks l) \<and> now - lg_ttl l \<le> LastSeenAt (rec_Task r)}"
  by (force simp: Snapshot_def Let_def pruneLocked_def set_gomap_drop Before_def Add_def)

lemma Apply_accepted:
  "ValidProvider (ev_Provider e) \<Longrightarrow> \<not> ev_Probe e \<Longrightarrow> event_time (lg_ttl l) now e = Some t \<Longrightarrow>
     Apply now e l = apply_named e t (pruneLocked t l)"
  by (auto simp: Apply_def ValidProvider_def)

lemma snapshotI:
  "(k, r) \<in> set (lg_tasks l) \<Longrightarrow> now - lg_ttl l \<le> LastSeenAt (rec_Task r) \<Longrightarrow>
     rec_Task r \<in> set (fst (Snapshot now l))"
  by (auto simp: set_snapshot)

lemma snapshot_member:
  assumes "ledger_wf l" and "t \<in> set (fst (Snapshot now l))"
  shows "\<exists>r. gomap_get (lg_tasks l) (task_order_key t) = Some r \<and> rec_Task r = t"
proof -
  obtain k r where kr: "(k, r) \<in> set (lg_tasks l)" "t = rec_Task r" using assms(2) by (auto simp: set_snapshot)
  then have "k = task_order_key t"
    using assms(1) by (auto simp: ledger_wf_def list_all_iff record_ok_def Let_def task_order_key_ledgerKey)
  with kr show ?thesis
    using assms(1) gomap_in_set_get [of "lg_tasks l" k r] by (auto simp: ledger_wf_def)
qed

text \<open>Two lists sorted by an injective key with the same elements are equal.\<close>

lemma sorted_key_unique:
  assumes "distinct (map f xs)" "sorted (map f xs)" "set xs = set ys" "distinct (map f ys)" "sorted (map f ys)"
  shows "xs = ys"
proof -
  have "map f xs = map f ys"
    using assms by (intro sorted_distinct_set_unique) auto
  moreover have "inj_on f (set xs \<union> set ys)" using assms(1,3) by (simp add: distinct_map)
  ultimately show ?thesis by (rule map_inj_on)
qed

section \<open>Timestamps\<close>

text \<open>No task was started after it was last seen, and none was seen after \<open>limit\<close>.\<close>

definition times_ok :: "time \<Rightarrow> ledger \<Rightarrow> bool" where
  "times_ok limit l =
     (\<forall>(k, r)\<in>set (lg_tasks l). StartedAt (rec_Task r) \<le> LastSeenAt (rec_Task r) \<and>
        LastSeenAt (rec_Task r) \<le> limit \<and> zero_time < StartedAt (rec_Task r))"

lemma times_ok_mono: "times_ok a l \<Longrightarrow> a \<le> b \<Longrightarrow> times_ok b l"
  by (fastforce simp: times_ok_def)

lemma times_ok_drop: "times_ok a l \<Longrightarrow> times_ok a (l\<lparr>lg_tasks := gomap_drop P (lg_tasks l)\<rparr>)"
  by (auto simp: times_ok_def set_gomap_drop)

lemma times_ok_put:
  "ledger_wf l \<Longrightarrow> times_ok a l \<Longrightarrow> StartedAt (rec_Task r) \<le> LastSeenAt (rec_Task r) \<Longrightarrow>
     LastSeenAt (rec_Task r) \<le> a \<Longrightarrow> zero_time < StartedAt (rec_Task r) \<Longrightarrow>
     times_ok a (l\<lparr>lg_tasks := gomap_put k r (lg_tasks l)\<rparr>)"
  by (auto simp: times_ok_def set_gomap_put ledger_wf_def)

lemma times_ok_get:
  "times_ok a l \<Longrightarrow> gomap_get (lg_tasks l) k = Some r \<Longrightarrow>
     StartedAt (rec_Task r) \<le> a \<and> zero_time < StartedAt (rec_Task r)"
  by (fastforce simp: times_ok_def dest: gomap_get_in_set)

lemma times_ok_refresh: "ledger_wf l \<Longrightarrow> times_ok now l \<Longrightarrow> times_ok now (refresh k now l)"
  using times_ok_get [of now l k] by (auto simp: refresh_def intro!: times_ok_put split: option.split)

lemma times_ok_refresh_or_start:
  "ledger_wf l \<Longrightarrow> times_ok now l \<Longrightarrow> zero_time < now \<Longrightarrow> times_ok now (refresh_or_start p k i parent now l)"
  by (auto simp: refresh_or_start_def Let_def intro!: times_ok_put times_ok_refresh split: option.split)

text \<open>An event accounted no earlier than everything seen so far keeps the times in order.\<close>

lemma times_ok_apply:
  assumes "ledger_wf l" and "times_ok a l" and "event_time (lg_ttl l) now e = Some t" and "a \<le> t" "zero_time < t"
  shows "times_ok t (Apply now e l)"
proof (cases "ev_Probe e \<or> (ev_Provider e \<noteq> ProviderCodex \<and> ev_Provider e \<noteq> ProviderClaude)")
  case True
  then show ?thesis using times_ok_mono [OF assms(2,4)] by (auto simp: Apply_def)
next
  case False
  have wf: "ledger_wf (pruneLocked t l)" by (rule ledger_wf_prune [OF assms(1)])
  have ok: "times_ok t (pruneLocked t l)"
    using times_ok_mono [OF assms(2,4)] by (simp add: pruneLocked_def times_ok_drop)
  have "times_ok t (apply_named e t (pruneLocked t l))"
    using wf ok assms(5)
    by (auto simp: apply_named_def Let_def end_tasks_def gomap_del_drop times_ok_drop
        intro!: times_ok_refresh_or_start times_ok_refresh ledger_wf_refresh)
  with False assms(3) show ?thesis by (auto simp: Apply_def)
qed

section \<open>Properties\<close>

text \<open>
  The ledger never mixes tasks up. In every state reachable by events and snapshots in any
  order, with any clock, each record is filed under the key of its own task, providers and kinds
  are known, a main task belongs to its own session, and a subagent's identifier starts with that
  of its parent session.
\<close>

theorem reachable_ledger_wf:
  assumes "ledger_step\<^sup>*\<^sup>* (NewLedger ttl) l" and "gomap_get (lg_tasks l) k = Some r"
  shows "k = ledgerKey (Provider (rec_Task r)) (Kind (rec_Task r)) (SessionID (rec_Task r)) \<and>
    ValidProvider (Provider (rec_Task r)) \<and> ValidTaskKind (Kind (rec_Task r)) \<and> rec_Parent r \<noteq> [] \<and>
    (if Kind (rec_Task r) = TaskMain then SessionID (rec_Task r) = rec_Parent r
     else prefix (rec_Parent r @ '':'') (SessionID (rec_Task r)))"
proof -
  have "record_ok (k, r)" using ledger_wf_get [OF ledger_steps_wf [OF assms(1) ledger_wf_new] assms(2)] .
  then show ?thesis by (auto simp: record_ok_def Let_def ValidTaskKind_def)
qed

definition demo_event :: "string \<Rightarrow> time \<Rightarrow> event" where
  "demo_event name t = \<lparr>ev_Provider = ProviderCodex, ev_Name = name, ev_SessionID = ''s1'', ev_TaskID = ''t1'',
     ev_At = t, ev_Probe = False\<rparr>"

definition demo_ledger :: ledger where
  "demo_ledger = Apply (1000 * second) (demo_event ''SubagentStart'' (1000 * second))
     (Apply (1000 * second) (demo_event ''UserPromptSubmit'' (1000 * second)) (NewLedger 0))"

lemma demo_ledger_steps: "ledger_step\<^sup>*\<^sup>* (NewLedger 0) demo_ledger"
  unfolding demo_ledger_def by (meson converse_rtranclp_into_rtranclp ledger_step.apply_event rtranclp.rtrancl_refl)

theorem reachable_ledger_wf_witness:
  "\<exists>r. gomap_get (lg_tasks demo_ledger) (ledgerKey ProviderCodex TaskSub ''s1:t1'') = Some r \<and>
     prefix (rec_Parent r @ '':'') (SessionID (rec_Task r))"
proof -
  have "map_option (\<lambda>r. Kind (rec_Task r)) (gomap_get (lg_tasks demo_ledger) (ledgerKey ProviderCodex TaskSub ''s1:t1''))
      = Some TaskSub" by code_simp
  then obtain r where r: "gomap_get (lg_tasks demo_ledger) (ledgerKey ProviderCodex TaskSub ''s1:t1'') = Some r"
    "Kind (rec_Task r) = TaskSub" by auto
  from reachable_ledger_wf [OF demo_ledger_steps r(1)] r show ?thesis by auto
qed

text \<open>
  A snapshot is determined by the set of records, not by Go's random map order: it is sorted
  by provider, kind and identifier, lists each live task exactly once (a task is live if it was
  seen within the time to live) and two ledgers that hold the same records give the same list.
\<close>

theorem snapshot_is_deterministic:
  assumes "ledger_wf l"
  shows "sorted (map task_order_key (fst (Snapshot now l)))"
    and "distinct (map task_order_key (fst (Snapshot now l)))"
    and "set (fst (Snapshot now l)) =
      {rec_Task r | k r. gomap_get (lg_tasks l) k = Some r \<and> now - lg_ttl l \<le> LastSeenAt (rec_Task r)}"
    and "lg_ttl l' = lg_ttl l \<Longrightarrow> mset (lg_tasks l') = mset (lg_tasks l) \<Longrightarrow>
      fst (Snapshot now l') = fst (Snapshot now l)"
proof -
  show sl: "sorted (map task_order_key (fst (Snapshot now l)))" by (simp add: Snapshot_def Let_def)
  show dl: "distinct (map task_order_key (fst (Snapshot now l)))" by (rule snapshot_distinct [OF assms])
  have "gomap_wf (lg_tasks l)" using assms by (simp add: ledger_wf_def)
  then have "(k, r) \<in> set (lg_tasks l) \<longleftrightarrow> gomap_get (lg_tasks l) k = Some r" for k r
    using gomap_get_in_set gomap_in_set_get by metis
  then show "set (fst (Snapshot now l)) =
      {rec_Task r | k r. gomap_get (lg_tasks l) k = Some r \<and> now - lg_ttl l \<le> LastSeenAt (rec_Task r)}"
    by (simp add: set_snapshot)
  assume e: "lg_ttl l' = lg_ttl l" "mset (lg_tasks l') = mset (lg_tasks l)"
  have "ledger_wf l'"
    using assms e unfolding ledger_wf_def gomap_wf_def list_all_iff
    by (metis mset_eq_imp_distinct_iff mset_map set_mset_mset)
  then have "distinct (map task_order_key (fst (Snapshot now l')))" by (rule snapshot_distinct)
  moreover have "sorted (map task_order_key (fst (Snapshot now l')))" by (simp add: Snapshot_def Let_def)
  moreover have "set (fst (Snapshot now l')) = set (fst (Snapshot now l))"
    using e mset_eq_setD [OF e(2)] by (simp add: set_snapshot)
  ultimately show "fst (Snapshot now l') = fst (Snapshot now l)"
    using sl dl by (intro sorted_key_unique)
qed

theorem snapshot_is_deterministic_witness:
  "sorted (map task_order_key (fst (Snapshot (1001 * second) demo_ledger))) \<and>
   fst (Snapshot (1001 * second) (demo_ledger\<lparr>lg_tasks := rev (lg_tasks demo_ledger)\<rparr>)) =
     fst (Snapshot (1001 * second) demo_ledger)"
proof -
  have wf: "ledger_wf demo_ledger" by (rule ledger_steps_wf [OF demo_ledger_steps ledger_wf_new])
  show ?thesis
    by (intro conjI snapshot_is_deterministic(1) [OF wf] snapshot_is_deterministic(4) [OF wf]) simp_all
qed

lemma task_event_effects:
  assumes "ledger_wf l" and "ValidProvider (ev_Provider e)" and "\<not> ev_Probe e"
    and "event_time (lg_ttl l) now e = Some t" and "ev_SessionID e \<noteq> []"
  shows "ev_Name e = ''UserPromptSubmit'' \<Longrightarrow> \<exists>task\<in>set (fst (Snapshot t (Apply now e l))).
      Provider task = ev_Provider e \<and> Kind task = TaskMain \<and> SessionID task = ev_SessionID e \<and> LastSeenAt task = t"
    and "ev_Name e \<in> {''Stop'', ''StopFailure''} \<Longrightarrow> \<forall>task\<in>set (fst (Snapshot now' (Apply now e l))).
      \<not> (Provider task = ev_Provider e \<and> Kind task = TaskMain \<and> SessionID task = ev_SessionID e)"
    and "ev_Name e = ''SessionEnd'' \<Longrightarrow> \<forall>(k, r)\<in>set (lg_tasks (Apply now e l)).
      \<not> (Provider (rec_Task r) = ev_Provider e \<and> rec_Parent r = ev_SessionID e)"
proof -
  note ap = Apply_accepted [OF assms(2-4)]
  let ?l = "pruneLocked t l" and ?k = "ledgerKey (ev_Provider e) TaskMain (ev_SessionID e)"
  have wf: "ledger_wf ?l" by (rule ledger_wf_prune [OF assms(1)])
  {
    assume n: "ev_Name e = ''UserPromptSubmit''"
    let ?a = "Apply now e l"
    obtain r where r: "gomap_get (lg_tasks ?a) ?k = Some r" "LastSeenAt (rec_Task r) = t"
      using assms(5)
      by (cases "gomap_get (lg_tasks ?l) ?k")
        (auto simp: ap apply_named_def n refresh_or_start_def refresh_def Let_def gm.put_same)
    have "ledger_wf ?a" by (rule ledger_wf_apply [OF assms(1)])
    then have "record_ok (?k, r)" "0 < lg_ttl ?a" using ledger_wf_get [OF _ r(1)] by (auto simp: ledger_wf_def)
    moreover have "rec_Task r \<in> set (fst (Snapshot t ?a))"
      using snapshotI [OF gomap_get_in_set [OF r(1)]] r(2) calculation(2) by simp
    ultimately have "rec_Task r \<in> set (fst (Snapshot t ?a))" "ledgerKey (Provider (rec_Task r)) (Kind (rec_Task r))
        (SessionID (rec_Task r)) = ?k" "ValidProvider (Provider (rec_Task r))" "ValidTaskKind (Kind (rec_Task r))"
      by (auto simp: record_ok_def Let_def)
    with r(2) assms(2) show "\<exists>task\<in>set (fst (Snapshot t ?a)). Provider task = ev_Provider e \<and>
        Kind task = TaskMain \<and> SessionID task = ev_SessionID e \<and> LastSeenAt task = t"
      by (intro bexI [of _ "rec_Task r"]) (auto simp: ledgerKey_inj)
  next
    assume n: "ev_Name e \<in> {''Stop'', ''StopFailure''}"
    have "gomap_get (lg_tasks (Apply now e l)) ?k = None"
      using n wf by (auto simp: ap apply_named_def Let_def gm.get_del ledger_wf_def)
    then show "\<forall>task\<in>set (fst (Snapshot now' (Apply now e l))).
        \<not> (Provider task = ev_Provider e \<and> Kind task = TaskMain \<and> SessionID task = ev_SessionID e)"
      using snapshot_member [OF ledger_wf_apply [OF assms(1)]]
      by (fastforce simp: task_order_key_ledgerKey)
  next
    assume n: "ev_Name e = ''SessionEnd''"
    then show "\<forall>(k, r)\<in>set (lg_tasks (Apply now e l)).
        \<not> (Provider (rec_Task r) = ev_Provider e \<and> rec_Parent r = ev_SessionID e)"
      by (auto simp: ap apply_named_def Let_def end_tasks_def set_gomap_drop)
  }
qed



section \<open>Reports the server accepts\<close>

text \<open>Identifiers as \<open>ParseEvent\<close> produces them.\<close>

definition ids_ok :: "ledger \<Rightarrow> bool" where
  "ids_ok l =
     (\<forall>(k, r)\<in>set (lg_tasks l). opaque (rec_Parent r) \<and>
        (Kind (rec_Task r) = TaskSub \<longrightarrow>
           (\<exists>x. SessionID (rec_Task r) = rec_Parent r @ '':'' @ x \<and> (opaque x \<or> x = ''unknown''))))"

lemma ids_ok_drop: "ids_ok l \<Longrightarrow> ids_ok (l\<lparr>lg_tasks := gomap_drop P (lg_tasks l)\<rparr>)"
  by (auto simp: ids_ok_def set_gomap_drop)

lemma ids_ok_put:
  "ledger_wf l \<Longrightarrow> ids_ok l \<Longrightarrow> opaque (rec_Parent r) \<Longrightarrow>
     (Kind (rec_Task r) = TaskSub \<longrightarrow>
        (\<exists>x. SessionID (rec_Task r) = rec_Parent r @ '':'' @ x \<and> (opaque x \<or> x = ''unknown''))) \<Longrightarrow>
     ids_ok (l\<lparr>lg_tasks := gomap_put k r (lg_tasks l)\<rparr>)"
  by (auto simp: ids_ok_def set_gomap_put ledger_wf_def)

lemma ids_ok_get:
  "ids_ok l \<Longrightarrow> gomap_get (lg_tasks l) k = Some r \<Longrightarrow> opaque (rec_Parent r) \<and>
     (Kind (rec_Task r) = TaskSub \<longrightarrow>
        (\<exists>x. SessionID (rec_Task r) = rec_Parent r @ '':'' @ x \<and> (opaque x \<or> x = ''unknown'')))"
  by (auto simp: ids_ok_def dest!: gomap_get_in_set)

lemma ids_ok_refresh: "ledger_wf l \<Longrightarrow> ids_ok l \<Longrightarrow> ids_ok (refresh k now l)"
  using ids_ok_get [of l k] by (auto simp: refresh_def intro!: ids_ok_put split: option.split)

lemma hex_graphic: "is_hex_lower c \<Longrightarrow> graphic c"
  by (auto simp: is_hex_lower_def is_digit_def graphic_def)

lemma opaque_graphic: "opaque s \<Longrightarrow> \<forall>c\<in>set s. graphic c"
  by (auto simp: opaque_def list_all_iff hex_graphic)

lemma opaque_nonempty: "opaque s \<Longrightarrow> s \<noteq> []"
  by (auto simp: opaque_def)

lemma subTaskID_opaque:
  assumes "ev_TaskID e = [] \<or> opaque (ev_TaskID e)"
  shows "\<exists>x. subTaskID e = ev_SessionID e @ '':'' @ x \<and> (opaque x \<or> x = ''unknown'')"
proof -
  have "TrimSpace (ev_TaskID e) = ev_TaskID e"
    using assms opaque_graphic by (intro TrimSpace_graphic) auto
  with assms show ?thesis by (auto simp: subTaskID_def Let_def)
qed

lemma ids_ok_start:
  assumes "ledger_wf l" and "ids_ok l" and "opaque parent"
    and "k = TaskSub \<longrightarrow> (\<exists>x. i = parent @ '':'' @ x \<and> (opaque x \<or> x = ''unknown''))"
  shows "ids_ok (refresh_or_start p k i parent now l)"
  using assms
  by (auto simp: refresh_or_start_def Let_def intro!: ids_ok_put ids_ok_refresh split: option.split)

lemma ids_ok_apply:
  assumes "ledger_wf l" and "ids_ok l" and "opaque (ev_SessionID e)"
    and "ev_TaskID e = [] \<or> opaque (ev_TaskID e)"
  shows "ids_ok (Apply now e l)"
proof -
  have wf: "ledger_wf (pruneLocked t l)" and ids: "ids_ok (pruneLocked t l)" for t
    using assms ledger_wf_prune by (auto simp: pruneLocked_def ids_ok_drop)
  have "ids_ok (apply_named e t (pruneLocked t l))" for t
    unfolding apply_named_def Let_def
    using wf ids assms(3) subTaskID_opaque [OF assms(4)]
    by (auto simp: end_tasks_def gomap_del_drop ids_ok_drop
        intro!: ids_ok_start ids_ok_refresh ledger_wf_refresh)
  then show ?thesis using assms(2) by (simp add: Apply_def split: option.split)
qed

lemma graphic_no_control: "\<forall>c\<in>set s. graphic c \<Longrightarrow> \<not> has_control s"
  by (induction s) (auto simp: graphic_def)

lemma record_session_valid:
  assumes "record_ok (k, r)" and "opaque (rec_Parent r)"
    and "Kind (rec_Task r) = TaskSub \<longrightarrow>
      (\<exists>x. SessionID (rec_Task r) = rec_Parent r @ '':'' @ x \<and> (opaque x \<or> x = ''unknown''))"
  shows "validSessionID (SessionID (rec_Task r))"
proof -
  have g: "graphic (CHR '':'')" "\<forall>c\<in>set ''unknown''. graphic c" by code_simp+
  have "\<forall>c\<in>set (SessionID (rec_Task r)). graphic c" "length (SessionID (rec_Task r)) \<le> 256"
    "SessionID (rec_Task r) \<noteq> []"
    using assms g opaque_graphic opaque_nonempty by (auto simp: record_ok_def Let_def opaque_def)
  then show ?thesis by (simp add: validSessionID_def graphic_no_control)
qed

text \<open>A main task and a subagent never share an identifier: only the latter contains a colon.\<close>

lemma session_pairs_distinct:
  assumes "ledger_wf l" and "ids_ok l"
  shows "distinct (map (\<lambda>t. (Provider t, SessionID t)) (fst (Snapshot now l)))"
proof -
  have no_colon: "CHR '':'' \<notin> set s" if "opaque s" for s
  proof -
    have "\<not> is_hex_lower (CHR '':'')" by code_simp
    then show ?thesis using that by (auto simp: opaque_def list_all_iff)
  qed
  have key: "task_order_key t = task_order_key u"
    if mem: "t \<in> set (fst (Snapshot now l))" "u \<in> set (fst (Snapshot now l))"
      "Provider t = Provider u" "SessionID t = SessionID u" for t u
  proof -
    obtain k r j q where kr: "(k, r) \<in> set (lg_tasks l)" "t = rec_Task r" "(j, q) \<in> set (lg_tasks l)" "u = rec_Task q"
      using mem(1,2) by (auto simp: set_snapshot)
    have r: "record_ok (k, r)" "record_ok (j, q)" using kr assms(1) by (auto simp: ledger_wf_def list_all_iff)
    have "opaque (rec_Parent r)" "opaque (rec_Parent q)" using kr assms(2) by (auto simp: ids_ok_def)
    then have "Kind (rec_Task r) = TaskMain \<longleftrightarrow> CHR '':'' \<notin> set (SessionID (rec_Task r))"
      "Kind (rec_Task q) = TaskMain \<longleftrightarrow> CHR '':'' \<notin> set (SessionID (rec_Task q))"
      using r no_colon by (auto simp: record_ok_def Let_def prefix_def)
    moreover have "ValidTaskKind (Kind (rec_Task r))" "ValidTaskKind (Kind (rec_Task q))"
      using r by (auto simp: record_ok_def Let_def)
    ultimately have "Kind t = Kind u" using kr(2,4) mem(4) unfolding ValidTaskKind_def by metis
    with mem show ?thesis by (simp add: task_order_key_def)
  qed
  have d: "distinct (fst (Snapshot now l))" "inj_on task_order_key (set (fst (Snapshot now l)))"
    using snapshot_distinct [OF assms(1), of now] by (simp_all add: distinct_map)
  have "inj_on (\<lambda>t. (Provider t, SessionID t)) (set (fst (Snapshot now l)))"
  proof (rule inj_onI)
    fix t u assume "t \<in> set (fst (Snapshot now l))" "u \<in> set (fst (Snapshot now l))"
      "(Provider t, SessionID t) = (Provider u, SessionID u)"
    then show "t = u" using key [of t u] inj_onD [OF d(2), of t u] by blast
  qed
  with d(1) show ?thesis by (simp add: distinct_map)
qed

lemma snapshot_accepted:
  assumes "ledger_wf l" and "ids_ok l" and "times_ok T l" and "zero_time < T"
    and "T \<le> sentAt + MaxFutureSkew" and "T \<le> recv + MaxFutureSkew"
  shows "validate_tasks sentAt recv i [] (fst (Snapshot now l)) = None"
proof -
  have "task_wf sentAt recv t" if "t \<in> set (fst (Snapshot now l))" for t
  proof -
    obtain k r where kr: "(k, r) \<in> set (lg_tasks l)" "t = rec_Task r" using \<open>t \<in> _\<close> by (auto simp: set_snapshot)
    have rok: "record_ok (k, r)" using kr assms(1) by (auto simp: ledger_wf_def list_all_iff)
    have ids: "opaque (rec_Parent r)" "Kind (rec_Task r) = TaskSub \<longrightarrow>
        (\<exists>x. SessionID (rec_Task r) = rec_Parent r @ '':'' @ x \<and> (opaque x \<or> x = ''unknown''))"
      using kr assms(2) by (auto simp: ids_ok_def)
    have "StartedAt t \<le> LastSeenAt t" "LastSeenAt t \<le> T" "zero_time < StartedAt t"
      using kr assms(3) by (auto simp: times_ok_def)
    moreover have "ValidProvider (Provider t)" "ValidTaskKind (Kind t)"
      using rok kr(2) by (auto simp: record_ok_def Let_def)
    ultimately show ?thesis
      using record_session_valid [OF rok ids] kr(2) assms(5,6) by (auto simp: task_wf_def)
  qed
  with session_pairs_distinct [OF assms(1,2)] show ?thesis by (simp add: accepted_tasks)
qed

text \<open>A run of events, each with the clock reading of its arrival.\<close>

definition apply_events :: "(time \<times> event) list \<Rightarrow> ledger \<Rightarrow> ledger" where
  "apply_events es l = fold (\<lambda>(now, e). Apply now e) es l"

text \<open>The accounted times of a run do not go back, from \<open>a\<close> on and up to \<open>b\<close>.\<close>

fun times_ordered :: "duration \<Rightarrow> time \<Rightarrow> (time \<times> event) list \<Rightarrow> time \<Rightarrow> bool" where
  "times_ordered ttl a [] b = (a \<le> b)"
| "times_ordered ttl a ((now, e) # es) b =
     (case event_time ttl now e of
        None \<Rightarrow> times_ordered ttl a es b
      | Some t \<Rightarrow> a \<le> t \<and> times_ordered ttl t es b)"

lemma Apply_ttl [frame_simps]: "lg_ttl (Apply now e l) = lg_ttl l"
  by (auto simp: Apply_def apply_named_def Let_def refresh_def refresh_or_start_def end_tasks_def
      pruneLocked_def split: option.split)

lemma apply_events_ok:
  assumes "ledger_wf l" "ids_ok l" "times_ok a l" "zero_time < a" and "times_ordered (lg_ttl l) a es b"
    and "\<forall>(now, e)\<in>set es. opaque (ev_SessionID e) \<and> (ev_TaskID e = [] \<or> opaque (ev_TaskID e))"
  shows "ledger_wf (apply_events es l) \<and> ids_ok (apply_events es l) \<and> times_ok b (apply_events es l)"
  using assms
proof (induction es arbitrary: l a)
  case Nil
  then show ?case using times_ok_mono by (auto simp: apply_events_def)
next
  case (Cons x es)
  obtain now e where x: "x = (now, e)" by (cases x)
  let ?l = "Apply now e l"
  have ev: "opaque (ev_SessionID e)" "ev_TaskID e = [] \<or> opaque (ev_TaskID e)"
    using Cons.prems(6) by (auto simp: x)
  have inv: "ledger_wf ?l" "ids_ok ?l"
    using ledger_wf_apply [OF Cons.prems(1)] ids_ok_apply [OF Cons.prems(1,2) ev] by auto
  have step: "apply_events (x # es) l = apply_events es ?l" by (simp add: apply_events_def x)
  show ?case
  proof (cases "event_time (lg_ttl l) now e")
    case None
    then have "times_ok a ?l" using Cons.prems(3) by (simp add: Apply_def)
    with None Cons.prems inv show ?thesis
      unfolding step by (intro Cons.IH [of ?l a]) (auto simp: x frame_simps)
  next
    case (Some t)
    then have t: "a \<le> t" "times_ordered (lg_ttl l) t es b" using Cons.prems(5) by (auto simp: x)
    have "times_ok t ?l" using times_ok_apply [OF Cons.prems(1,3) Some t(1)] t(1) Cons.prems(4) by simp
    with t Cons.prems inv show ?thesis
      unfolding step by (intro Cons.IH [of ?l t]) (auto simp: x frame_simps)
  qed
qed

text \<open>
  The task list an agent uploads is one the server accepts. If the events carry the opaque
  identifiers \<open>ParseEvent\<close> produces and their accounted times do not go back, then every snapshot
  passes all per-task checks of \<open>ValidateAgentReport\<close> (known provider and kind, identifier,
  ordered times not in the future, no duplicate pair), whatever was started, refreshed, stopped
  or expired before.
\<close>

theorem ledger_snapshot_is_accepted:
  assumes "times_ordered (lg_ttl (NewLedger ttl)) a es b" and "zero_time < a"
    and "\<forall>(now, e)\<in>set es. opaque (ev_SessionID e) \<and> (ev_TaskID e = [] \<or> opaque (ev_TaskID e))"
    and "b \<le> sentAt + 5 * minute" and "b \<le> recv + 5 * minute"
  shows "validate_tasks sentAt recv 0 [] (fst (Snapshot now (apply_events es (NewLedger ttl)))) = None"
proof -
  have "times_ok a (NewLedger ttl)" "ids_ok (NewLedger ttl)"
    by (simp_all add: times_ok_def ids_ok_def NewLedger_def)
  from apply_events_ok [OF ledger_wf_new this(2,1) assms(2,1,3)]
  have l: "ledger_wf (apply_events es (NewLedger ttl))" "ids_ok (apply_events es (NewLedger ttl))"
    "times_ok b (apply_events es (NewLedger ttl))" by auto
  have "zero_time < b"
    using assms(1,2) by (induction "lg_ttl (NewLedger ttl)" a es b rule: times_ordered.induct)
      (auto split: option.splits)
  then show ?thesis
    using snapshot_accepted [OF l] assms(4,5) by (simp add: MaxFutureSkew_def)
qed

definition hex_session :: string where "hex_session = replicate 32 (CHR ''a'')"

definition prompt_event :: "string \<Rightarrow> time \<Rightarrow> event" where
  "prompt_event name t = \<lparr>ev_Provider = ProviderClaude, ev_Name = name, ev_SessionID = hex_session, ev_TaskID = [],
     ev_At = t, ev_Probe = False\<rparr>"

theorem ledger_snapshot_is_accepted_witness:
  "validate_tasks (1002 * second) (1002 * second) 0 [] (fst (Snapshot (1001 * second) (apply_events
     [(1000 * second, prompt_event ''UserPromptSubmit'' (1000 * second)),
      (1001 * second, prompt_event ''PostToolUse'' (1001 * second))] (NewLedger 0)))) = None"
proof (rule ledger_snapshot_is_accepted [of 0 "1000 * second" _ "1001 * second"])
  show "times_ordered (lg_ttl (NewLedger 0)) (1000 * second)
     [(1000 * second, prompt_event ''UserPromptSubmit'' (1000 * second)),
      (1001 * second, prompt_event ''PostToolUse'' (1001 * second))] (1001 * second)"
    by code_simp
  have "opaque hex_session" by code_simp
  then show "\<forall>(now, e)\<in>set [(1000 * second, prompt_event ''UserPromptSubmit'' (1000 * second)),
      (1001 * second, prompt_event ''PostToolUse'' (1001 * second))].
      opaque (ev_SessionID e) \<and> (ev_TaskID e = [] \<or> opaque (ev_TaskID e))"
    by (simp add: prompt_event_def)
qed (simp_all add: zero_time_def duration_defs)

text \<open>
  A late event makes the server refuse the agent's whole report. Events carry the time stamp
  of their payload, and the ledger overwrites the time a task was last seen with it even when the
  task started later: after a prompt at second 1000 and a tool event stamped ten seconds earlier
  the uploaded task was last seen before it started, and validation rejects it.
\<close>

theorem late_event_rejects_report:
  "validate_tasks (1002 * second) (1002 * second) 0 [] (fst (Snapshot (1001 * second) (apply_events
     [(1000 * second, prompt_event ''UserPromptSubmit'' (1000 * second)),
      (1001 * second, prompt_event ''PostToolUse'' (990 * second))] (NewLedger 0)))) = Some (TaskTimesOrder 0)"
  by code_simp

end
