(* ===== verification/Codex_Normalize.thy ===== *)
theory Codex_Normalize
  imports Validation
begin

text \<open>
  \<open>internal/collector/codex.go\<close>, the pure part: the app-server's account and rate-limit answers as
  the structs \<open>json.Unmarshal\<close> fills, the choice among several windows of one duration, the plan
  labels, and \<open>normalizeCodex\<close>. The per-limit snapshots are a Go map; the theorems show that its
  random iteration order never reaches the report, through two instances of the locale
  \<open>preference\<close>.
\<close>

section \<open>Wire structs\<close>

definition FiveHourMinutes :: int where "FiveHourMinutes = 300"
definition SevenDayMinutes :: int where "SevenDayMinutes = 10080"

record account_info =
  ac_Type :: string
  ac_PlanType :: string

record account_response =
  Account :: "account_info option"
  RequiresOpenAIAuth :: bool

record rate_limit_window =
  rl_UsedPercent :: float64
  rl_WindowDurationMin :: "int option"
  rl_ResetsAt :: "int option"

record rate_limit_snapshot =
  rs_LimitID :: "string option"
  rs_PlanType :: "string option"
  rs_Primary :: "rate_limit_window option"
  rs_Secondary :: "rate_limit_window option"

record rate_limits_response =
  RateLimits :: rate_limit_snapshot
  RateLimitsByLimitID :: "(string, rate_limit_snapshot) gomap"

section \<open>Windows\<close>

definition normalizeWindow :: "float64 \<Rightarrow> time \<Rightarrow> limit_window" where
  "normalizeWindow used resetsAt =
     (let used1 = (if f64_lt used (F64 0) then F64 0 else used);
          used2 = (if f64_gt used1 (F64 100) then F64 100 else used1)
      in \<lparr>UsedPercent = used2, RemainingPercent = f64_sub (F64 100) used2, ResetsAt = Some resetsAt\<rparr>)"

record codexWindowChoice =
  cw_window :: limit_window
  cw_canonical :: bool
  cw_set :: bool

text \<open>The zero value the two destinations start from.\<close>

definition no_choice :: codexWindowChoice where
  "no_choice = \<lparr>cw_window = \<lparr>UsedPercent = F64 0, RemainingPercent = F64 0, ResetsAt = None\<rparr>,
     cw_canonical = False, cw_set = False\<rparr>"

text \<open>
  A choice that is set was built by \<open>normalizeWindow\<close> and has a reset time; the code would
  dereference nil on a pair without, which no execution reaches.
\<close>

definition preferCodexWindow :: "codexWindowChoice \<Rightarrow> codexWindowChoice \<Rightarrow> bool" where
  "preferCodexWindow candidate current =
     (if \<not> cw_set current then True
      else if cw_canonical candidate \<noteq> cw_canonical current then cw_canonical candidate
      else if \<not> f64_eq (UsedPercent (cw_window candidate)) (UsedPercent (cw_window current))
      then f64_gt (UsedPercent (cw_window candidate)) (UsedPercent (cw_window current))
      else case (ResetsAt (cw_window candidate), ResetsAt (cw_window current)) of
             (Some t, Some u) \<Rightarrow> Before t u
           | _ \<Rightarrow> False)"

definition replace_if_preferred :: "codexWindowChoice \<Rightarrow> codexWindowChoice \<Rightarrow> codexWindowChoice" where
  "replace_if_preferred destination candidate =
     (if preferCodexWindow candidate destination then candidate else destination)"

definition consider_window ::
    "bool \<Rightarrow> codexWindowChoice \<times> codexWindowChoice \<Rightarrow> rate_limit_window option \<Rightarrow>
     codexWindowChoice \<times> codexWindowChoice" where
  "consider_window canonical dest window =
     (case window of
        None \<Rightarrow> dest
      | Some w \<Rightarrow>
        (case (rl_WindowDurationMin w, rl_ResetsAt w) of
           (Some minutes, Some resets) \<Rightarrow>
             (let candidate = \<lparr>cw_window = normalizeWindow (rl_UsedPercent w) (FromUnix resets),
                    cw_canonical = canonical, cw_set = True\<rparr>
              in if minutes = FiveHourMinutes then (replace_if_preferred (fst dest) candidate, snd dest)
                 else if minutes = SevenDayMinutes then (fst dest, replace_if_preferred (snd dest) candidate)
                 else dest)
         | _ \<Rightarrow> dest))"

definition considerCodexSnapshot ::
    "codexWindowChoice \<times> codexWindowChoice \<Rightarrow> rate_limit_snapshot \<Rightarrow> bool \<Rightarrow>
     codexWindowChoice \<times> codexWindowChoice" where
  "considerCodexSnapshot dest snapshot canonical =
     foldl (consider_window canonical) dest [rs_Primary snapshot, rs_Secondary snapshot]"

section \<open>Plans\<close>

definition plan_step :: "string \<Rightarrow> rate_limit_snapshot \<Rightarrow> string" where
  "plan_step plan snapshot =
     (case rs_PlanType snapshot of
        None \<Rightarrow> plan
      | Some p \<Rightarrow> if p = [] then plan else if plan = [] \<or> p < plan then p else plan)"

definition stableCodexPlan :: "rate_limits_response \<Rightarrow> string" where
  "stableCodexPlan limits =
     (case rs_PlanType (RateLimits limits) of
        Some p \<Rightarrow> if p \<noteq> [] then p else foldl plan_step [] (map snd (RateLimitsByLimitID limits))
      | None \<Rightarrow> foldl plan_step [] (map snd (RateLimitsByLimitID limits)))"

definition compactPlan :: "string \<Rightarrow> string" where
  "compactPlan plan = filter (\<lambda>c. is_lower c \<or> is_digit c) (ToLower (TrimSpace plan))"

definition isCodexProPlan :: "string \<Rightarrow> bool" where
  "isCodexProPlan plan =
     (compactPlan plan \<in> set [''pro'', ''chatgptpro'', ''prolite'', ''pro5'', ''pro5x'', ''pro20'', ''pro20x''])"

definition canonicalCodexPlan :: "string \<Rightarrow> string" where
  "canonicalCodexPlan plan =
     (if compactPlan plan \<in> set [''prolite'', ''pro5'', ''pro5x''] then ''pro5''
      else if compactPlan plan \<in> set [''pro'', ''chatgptpro'', ''pro20'', ''pro20x''] then ''pro20''
      else TrimSpace plan)"

definition selectCodexPlan :: "string \<Rightarrow> string \<Rightarrow> string" where
  "selectCodexPlan account limits =
     (let accountPlan = TrimSpace account; rateLimitsPlan = TrimSpace limits in
      if accountPlan = [] then canonicalCodexPlan rateLimitsPlan
      else if rateLimitsPlan \<noteq> [] \<and> isCodexProPlan accountPlan \<and> isCodexProPlan rateLimitsPlan
      then canonicalCodexPlan rateLimitsPlan
      else canonicalCodexPlan accountPlan)"

section \<open>Reports\<close>

definition codex_auth_state :: "account_response \<Rightarrow> string" where
  "codex_auth_state account =
     (if Account account \<noteq> None then ''authenticated''
      else if \<not> RequiresOpenAIAuth account then ''not-required''
      else ''unauthenticated'')"

definition codex_choices :: "rate_limits_response \<Rightarrow> codexWindowChoice \<times> codexWindowChoice" where
  "codex_choices limits =
     foldl (\<lambda>dest snapshot. considerCodexSnapshot dest snapshot False)
       (considerCodexSnapshot (no_choice, no_choice) (RateLimits limits) True)
       (map snd (RateLimitsByLimitID limits))"

definition chosen_window :: "codexWindowChoice \<Rightarrow> limit_window option" where
  "chosen_window c = (if cw_set c then Some (cw_window c) else None)"

definition normalizeCodex ::
    "account_response \<Rightarrow> rate_limits_response \<Rightarrow> time \<Rightarrow> provider_report" where
  "normalizeCodex account limits observedAt =
     \<lparr>ObservedAt = observedAt, AuthState = codex_auth_state account,
      Plan = selectCodexPlan (case Account account of Some a \<Rightarrow> ac_PlanType a | None \<Rightarrow> [])
               (stableCodexPlan limits),
      Source = ''codex-app-server'',
      Windows = \<lparr>FiveHour = chosen_window (fst (codex_choices limits)),
                 SevenDay = chosen_window (snd (codex_choices limits))\<rparr>,
      ErrorCode = []\<rparr>"

definition unavailableReport :: "string \<Rightarrow> string \<Rightarrow> time \<Rightarrow> provider_report" where
  "unavailableReport source code now =
     \<lparr>ObservedAt = now, AuthState = ''unknown'', Plan = [], Source = source, Windows = no_windows,
      ErrorCode = code\<rparr>"

definition codexLoginRequiredReport :: "time \<Rightarrow> provider_report" where
  "codexLoginRequiredReport now =
     \<lparr>ObservedAt = now, AuthState = ''unauthenticated'', Plan = [], Source = ''codex-app-server'',
      Windows = no_windows, ErrorCode = ''not_authenticated''\<rparr>"

section \<open>Normalised windows\<close>

lemma normalizeWindow_used:
  "\<not> IsNaN u \<Longrightarrow> percent_ok (UsedPercent (normalizeWindow u t))"
  by (cases u) (auto simp: normalizeWindow_def Let_def percent_ok_def IsNaN_def f64_gt_def)

lemma normalizeWindow_sel [simp]:
  "RemainingPercent (normalizeWindow u t) = f64_sub (F64 100) (UsedPercent (normalizeWindow u t))"
  "ResetsAt (normalizeWindow u t) = Some t"
  by (simp_all add: normalizeWindow_def Let_def)

lemma normalizeWindow_wf:
  "\<not> IsNaN u \<Longrightarrow> t \<noteq> zero_time \<Longrightarrow> window_wf (normalizeWindow u t)"
  using normalizeWindow_used [of u t]
  by (simp add: window_wf_def f64_complement_ok f64_complement_sum)

text \<open>On finite percentages the collector's clamp is the one of the shared model.\<close>

lemma normalizeWindow_finite: "normalizeWindow (F64 a) t = NewLimitWindow (F64 a) t"
  by (auto simp: normalizeWindow_def NewLimitWindow_def ClampPercent_def IsNaN_def IsInf_def Let_def
      f64_gt_def)

section \<open>The choice of a window\<close>

text \<open>The candidates of one duration, in the order the code meets them.\<close>

definition candidate :: "bool \<Rightarrow> float64 \<Rightarrow> int \<Rightarrow> codexWindowChoice" where
  "candidate canonical used resets =
     \<lparr>cw_window = normalizeWindow used (FromUnix resets), cw_canonical = canonical, cw_set = True\<rparr>"

definition window_candidates ::
    "int \<Rightarrow> bool \<Rightarrow> rate_limit_window option \<Rightarrow> codexWindowChoice list" where
  "window_candidates minutes canonical window =
     (case window of
        None \<Rightarrow> []
      | Some w \<Rightarrow>
        (case (rl_WindowDurationMin w, rl_ResetsAt w) of
           (Some m, Some resets) \<Rightarrow>
             if m = minutes then [candidate canonical (rl_UsedPercent w) resets] else []
         | _ \<Rightarrow> []))"

definition snapshot_candidates ::
    "int \<Rightarrow> bool \<Rightarrow> rate_limit_snapshot \<Rightarrow> codexWindowChoice list" where
  "snapshot_candidates minutes canonical s =
     window_candidates minutes canonical (rs_Primary s) @
     window_candidates minutes canonical (rs_Secondary s)"

definition all_candidates :: "int \<Rightarrow> rate_limits_response \<Rightarrow> codexWindowChoice list" where
  "all_candidates minutes limits =
     snapshot_candidates minutes True (RateLimits limits) @
     concat (map (snapshot_candidates minutes False) (map snd (RateLimitsByLimitID limits)))"

lemma consider_window_slots:
  "consider_window canonical (x, y) w =
     (foldl replace_if_preferred x (window_candidates FiveHourMinutes canonical w),
      foldl replace_if_preferred y (window_candidates SevenDayMinutes canonical w))"
  by (auto simp: consider_window_def window_candidates_def candidate_def FiveHourMinutes_def
      SevenDayMinutes_def Let_def split: option.splits)

lemma considerCodexSnapshot_slots:
  "considerCodexSnapshot (x, y) s canonical =
     (foldl replace_if_preferred x (snapshot_candidates FiveHourMinutes canonical s),
      foldl replace_if_preferred y (snapshot_candidates SevenDayMinutes canonical s))"
  by (simp add: considerCodexSnapshot_def consider_window_slots snapshot_candidates_def)

lemma consider_all_slots:
  "foldl (\<lambda>dest s. considerCodexSnapshot dest s False) (x, y) ss =
     (foldl replace_if_preferred x (concat (map (snapshot_candidates FiveHourMinutes False) ss)),
      foldl replace_if_preferred y (concat (map (snapshot_candidates SevenDayMinutes False) ss)))"
  by (induction ss arbitrary: x y) (simp_all add: considerCodexSnapshot_slots)

definition best_window :: "codexWindowChoice list \<Rightarrow> limit_window option" where
  "best_window cs = map_option cw_window (keep_best preferCodexWindow cs)"

lemma replace_is_keep_best:
  "foldl replace_if_preferred (case acc of None \<Rightarrow> no_choice | Some c \<Rightarrow> c) cs =
     (case foldl (keep_step preferCodexWindow) acc cs of None \<Rightarrow> no_choice | Some c \<Rightarrow> c)"
proof (induction cs arbitrary: acc)
  case (Cons c cs)
  have "replace_if_preferred (case acc of None \<Rightarrow> no_choice | Some c \<Rightarrow> c) c =
      (case keep_step preferCodexWindow acc c of None \<Rightarrow> no_choice | Some c \<Rightarrow> c)"
    by (cases acc) (simp_all add: replace_if_preferred_def keep_step_def preferCodexWindow_def no_choice_def)
  with Cons.IH [of "keep_step preferCodexWindow acc c"] show ?case by simp
qed simp

lemma keep_step_member:
  "foldl (keep_step b) acc cs = Some c \<Longrightarrow> acc = Some c \<or> c \<in> set cs"
proof (induction cs arbitrary: acc)
  case (Cons d cs)
  then have "keep_step b acc d = Some c \<or> c \<in> set cs" by simp
  then show ?case by (cases acc) (auto simp: keep_step_def split: if_splits)
qed simp

lemma chosen_is_best:
  assumes "\<And>c. c \<in> set cs \<Longrightarrow> cw_set c"
  shows "chosen_window (foldl replace_if_preferred no_choice cs) = best_window cs"
proof -
  have "foldl replace_if_preferred no_choice cs =
      (case keep_best preferCodexWindow cs of None \<Rightarrow> no_choice | Some c \<Rightarrow> c)"
    using replace_is_keep_best [of None cs] by (simp add: keep_best_def)
  moreover have "keep_best preferCodexWindow cs = Some c \<Longrightarrow> cw_set c" for c
    using keep_step_member [of preferCodexWindow None cs c] assms by (auto simp: keep_best_def)
  ultimately show ?thesis
    by (auto simp: chosen_window_def best_window_def no_choice_def split: option.splits)
qed

lemma window_candidates_set: "c \<in> set (window_candidates m k w) \<Longrightarrow> cw_set c \<and> cw_canonical c = k"
  by (auto simp: window_candidates_def candidate_def split: option.splits if_splits)

lemma snapshot_candidates_set:
  "c \<in> set (snapshot_candidates m k s) \<Longrightarrow> cw_set c \<and> cw_canonical c = k"
  using window_candidates_set by (fastforce simp: snapshot_candidates_def)

lemma all_candidates_set: "c \<in> set (all_candidates m limits) \<Longrightarrow> cw_set c"
  using snapshot_candidates_set by (fastforce simp: all_candidates_def)

text \<open>Both windows of a report are the preferred candidates of their duration.\<close>

lemma normalizeCodex_windows:
  "Windows (normalizeCodex account limits t) =
     \<lparr>FiveHour = best_window (all_candidates FiveHourMinutes limits),
      SevenDay = best_window (all_candidates SevenDayMinutes limits)\<rparr>"
proof -
  have "codex_choices limits =
      (foldl replace_if_preferred no_choice (all_candidates FiveHourMinutes limits),
       foldl replace_if_preferred no_choice (all_candidates SevenDayMinutes limits))"
    by (simp add: codex_choices_def considerCodexSnapshot_slots consider_all_slots all_candidates_def)
  then show ?thesis
    by (simp add: normalizeCodex_def chosen_is_best all_candidates_set)
qed

section \<open>The preference is a total order on what the app-server can send\<close>

definition ok_choice :: "codexWindowChoice \<Rightarrow> bool" where
  "ok_choice c = (cw_set c \<and> percent_ok (UsedPercent (cw_window c)) \<and>
     RemainingPercent (cw_window c) = f64_sub (F64 100) (UsedPercent (cw_window c)) \<and>
     ResetsAt (cw_window c) \<noteq> None)"

lemma preferCodexWindow_ok:
  assumes "ok_choice x" and "ok_choice y"
    and "UsedPercent (cw_window x) = F64 a" "UsedPercent (cw_window y) = F64 b"
    and "ResetsAt (cw_window x) = Some t" "ResetsAt (cw_window y) = Some u"
  shows "preferCodexWindow x y \<longleftrightarrow>
     (if cw_canonical x \<noteq> cw_canonical y then cw_canonical x else a > b \<or> (a = b \<and> t < u))"
  using assms by (auto simp: preferCodexWindow_def ok_choice_def f64_gt_def Before_def)

lemma ok_choiceE:
  assumes "ok_choice x"
  obtains a t where "UsedPercent (cw_window x) = F64 a" "ResetsAt (cw_window x) = Some t"
    "x = \<lparr>cw_window = \<lparr>UsedPercent = F64 a, RemainingPercent = f64_sub (F64 100) (F64 a),
            ResetsAt = Some t\<rparr>, cw_canonical = cw_canonical x, cw_set = True\<rparr>"
proof -
  obtain w k s where x: "x = \<lparr>cw_window = w, cw_canonical = k, cw_set = s\<rparr>" by (cases x)
  obtain u r z where w: "w = \<lparr>UsedPercent = u, RemainingPercent = r, ResetsAt = z\<rparr>" by (cases w)
  show ?thesis
    using assms that by (auto simp: x w ok_choice_def elim!: percent_okE)
qed

interpretation window_pref: preference preferCodexWindow ok_choice
proof unfold_locales
  fix x y z
  assume x: "ok_choice x"
  then obtain a t where xa: "UsedPercent (cw_window x) = F64 a" "ResetsAt (cw_window x) = Some t"
    "x = \<lparr>cw_window = \<lparr>UsedPercent = F64 a, RemainingPercent = f64_sub (F64 100) (F64 a),
            ResetsAt = Some t\<rparr>, cw_canonical = cw_canonical x, cw_set = True\<rparr>"
    by (rule ok_choiceE)
  show "\<not> preferCodexWindow x x" using preferCodexWindow_ok [OF x x xa(1,1,2,2)] by simp
  assume y: "ok_choice y"
  then obtain b u where yb: "UsedPercent (cw_window y) = F64 b" "ResetsAt (cw_window y) = Some u"
    "y = \<lparr>cw_window = \<lparr>UsedPercent = F64 b, RemainingPercent = f64_sub (F64 100) (F64 b),
            ResetsAt = Some u\<rparr>, cw_canonical = cw_canonical y, cw_set = True\<rparr>"
    by (rule ok_choiceE)
  note xy = preferCodexWindow_ok [OF x y xa(1) yb(1) xa(2) yb(2)]
    preferCodexWindow_ok [OF y x yb(1) xa(1) yb(2) xa(2)]
  show "x \<noteq> y \<Longrightarrow> preferCodexWindow x y \<or> preferCodexWindow y x"
    unfolding xy using xa(3) yb(3) by (metis linorder_neqE_linordered_idom)
  assume z: "ok_choice z"
  then obtain c v where zc: "UsedPercent (cw_window z) = F64 c" "ResetsAt (cw_window z) = Some v"
    by (rule ok_choiceE)
  show "preferCodexWindow x y \<Longrightarrow> preferCodexWindow y z \<Longrightarrow> preferCodexWindow x z"
    unfolding xy preferCodexWindow_ok [OF y z yb(1) zc(1) yb(2) zc(2)]
      preferCodexWindow_ok [OF x z xa(1) zc(1) xa(2) zc(2)]
    by (auto split: if_splits)
qed

interpretation plan_pref: preference "(<) :: string \<Rightarrow> string \<Rightarrow> bool" "\<lambda>_. True"
  by unfold_locales auto

lemma plan_step_keep_best:
  "acc \<noteq> Some [] \<Longrightarrow> foldl plan_step (case acc of None \<Rightarrow> [] | Some p \<Rightarrow> p) ss =
     (case foldl (keep_step (<)) acc (filter (\<lambda>p. p \<noteq> []) (List.map_filter rs_PlanType ss)) of
        None \<Rightarrow> [] | Some p \<Rightarrow> p)"
proof (induction ss arbitrary: acc)
  case (Cons s ss)
  show ?case
  proof (cases "\<exists>p. rs_PlanType s = Some p \<and> p \<noteq> []")
    case True
    then obtain p where p: "rs_PlanType s = Some p" "p \<noteq> []" by blast
    then have "plan_step (case acc of None \<Rightarrow> [] | Some p \<Rightarrow> p) s =
        (case keep_step (<) acc p of None \<Rightarrow> [] | Some p \<Rightarrow> p)"
      and "keep_step (<) acc p \<noteq> Some []"
      using Cons.prems by (auto simp: plan_step_def keep_step_def split: option.splits)
    with Cons.IH p show ?thesis by (simp add: map_filter_simps)
  next
    case False
    then have "plan_step pl s = pl" for pl by (auto simp: plan_step_def split: option.splits)
    with False Cons show ?thesis by (auto simp: map_filter_simps split: option.splits)
  qed
qed (simp add: map_filter_simps)

definition snapshot_plans :: "rate_limits_response \<Rightarrow> string list" where
  "snapshot_plans limits =
     filter (\<lambda>p. p \<noteq> []) (List.map_filter rs_PlanType (map snd (RateLimitsByLimitID limits)))"

lemma stableCodexPlan_best:
  "stableCodexPlan limits =
     (case rs_PlanType (RateLimits limits) of
        Some (c # p) \<Rightarrow> c # p
      | _ \<Rightarrow> (case keep_best (<) (snapshot_plans limits) of None \<Rightarrow> [] | Some p \<Rightarrow> p))"
  using plan_step_keep_best [of None "map snd (RateLimitsByLimitID limits)"]
  by (auto simp: stableCodexPlan_def keep_best_def snapshot_plans_def split: option.splits list.splits)

section \<open>What the app-server can send\<close>

text \<open>
  JSON numbers are finite, so no decoded percentage is NaN; a reset time is a Unix time after
  the epoch; a plan fits the wire contract.
\<close>

definition window_plausible :: "rate_limit_window \<Rightarrow> bool" where
  "window_plausible w = (\<not> IsNaN (rl_UsedPercent w) \<and>
     pred_option (\<lambda>r. 0 \<le> r \<and> r + unix_to_internal \<le> max_int64) (rl_ResetsAt w))"

definition snapshot_plausible :: "rate_limit_snapshot \<Rightarrow> bool" where
  "snapshot_plausible s = (pred_option window_plausible (rs_Primary s) \<and>
     pred_option window_plausible (rs_Secondary s) \<and>
     pred_option (\<lambda>p. length p \<le> 128) (rs_PlanType s))"

definition limits_plausible :: "rate_limits_response \<Rightarrow> bool" where
  "limits_plausible limits = (snapshot_plausible (RateLimits limits) \<and>
     list_all snapshot_plausible (map snd (RateLimitsByLimitID limits)))"

lemma candidate_ok:
  "\<not> IsNaN u \<Longrightarrow> ok_choice (candidate k u r)"
  by (simp add: ok_choice_def candidate_def normalizeWindow_used)

lemma FromUnix_nonzero:
  "0 \<le> r \<Longrightarrow> r + unix_to_internal \<le> max_int64 \<Longrightarrow> FromUnix r \<noteq> zero_time"
  using FromUnix_exact [of r]
  by (simp add: in_int64_def min_int64_def max_int64_def unix_to_internal_def zero_time_def second_def)

lemma candidate_wf:
  assumes "\<not> IsNaN u" and "0 \<le> r" "r + unix_to_internal \<le> max_int64"
  shows "window_wf (cw_window (candidate k u r))"
  using assms by (simp add: candidate_def normalizeWindow_wf FromUnix_nonzero)

lemma window_candidates_plausible:
  assumes "pred_option window_plausible w" and "c \<in> set (window_candidates m k w)"
  shows "ok_choice c \<and> window_wf (cw_window c)"
proof -
  obtain v r where "w = Some v" "rl_ResetsAt v = Some r" "c = candidate k (rl_UsedPercent v) r"
    using assms(2) by (auto simp: window_candidates_def split: option.splits if_splits) metis
  then show ?thesis
    using assms(1) candidate_ok candidate_wf by (simp add: window_plausible_def)
qed

lemma all_candidates_plausible:
  assumes "limits_plausible limits" and "c \<in> set (all_candidates m limits)"
  shows "ok_choice c \<and> window_wf (cw_window c)"
proof -
  obtain s k where s: "snapshot_plausible s" "c \<in> set (snapshot_candidates m k s)"
    using assms by (auto simp: all_candidates_def limits_plausible_def list_all_iff)
  then show ?thesis
    using window_candidates_plausible [of "rs_Primary s" c m k]
      window_candidates_plausible [of "rs_Secondary s" c m k]
    by (auto simp: snapshot_plausible_def snapshot_candidates_def)
qed

section \<open>Properties\<close>

lemma snapshot_sets:
  assumes "set (RateLimitsByLimitID l1) = set (RateLimitsByLimitID l2)" and "RateLimits l1 = RateLimits l2"
  shows "set (all_candidates m l1) = set (all_candidates m l2)"
    and "set (snapshot_plans l1) = set (snapshot_plans l2)"
  using assms by (simp_all add: all_candidates_def snapshot_plans_def List.map_filter_def)

text \<open>
  C14: Go's random map order never reaches a report. Whatever order the per-limit snapshots are
  visited in, the report built from them (both windows and the plan) is the same.
\<close>

theorem codex_map_order_irrelevant:
  assumes "limits_plausible limits" and "set m = set (RateLimitsByLimitID limits)"
  shows "normalizeCodex account (limits\<lparr>RateLimitsByLimitID := m\<rparr>) observedAt =
    normalizeCodex account limits observedAt"
proof -
  let ?l = "limits\<lparr>RateLimitsByLimitID := m\<rparr>"
  have sets: "set (all_candidates k limits) = set (all_candidates k ?l)"
    "set (snapshot_plans limits) = set (snapshot_plans ?l)" for k
    using snapshot_sets [of limits ?l] assms(2) by simp_all
  have "keep_best preferCodexWindow (all_candidates k limits) =
      keep_best preferCodexWindow (all_candidates k ?l)" for k
    by (rule window_pref.keep_best_set_cong [OF sets(1)])
      (use all_candidates_plausible [OF assms(1)] in blast)
  then have w: "Windows (normalizeCodex account ?l observedAt) = Windows (normalizeCodex account limits observedAt)"
    by (simp add: normalizeCodex_windows best_window_def)
  have plans: "keep_best (<) (snapshot_plans ?l) = keep_best (<) (snapshot_plans limits)"
    using plan_pref.keep_best_set_cong [OF sets(2)] by simp
  have "stableCodexPlan ?l = stableCodexPlan limits"
    unfolding stableCodexPlan_best plans by simp
  with w show ?thesis by (simp add: normalizeCodex_def)
qed

definition demo_window :: "rat \<Rightarrow> int \<Rightarrow> int \<Rightarrow> rate_limit_window" where
  "demo_window used minutes resets =
     \<lparr>rl_UsedPercent = F64 used, rl_WindowDurationMin = Some minutes, rl_ResetsAt = Some resets\<rparr>"

definition demo_snapshot :: "string option \<Rightarrow> rate_limit_window list \<Rightarrow> rate_limit_snapshot" where
  "demo_snapshot plan ws = \<lparr>rs_LimitID = None, rs_PlanType = plan,
     rs_Primary = (if ws = [] then None else Some (hd ws)),
     rs_Secondary = (if tl ws = [] then None else Some (hd (tl ws)))\<rparr>"

definition demo_limits :: rate_limits_response where
  "demo_limits = \<lparr>RateLimits = demo_snapshot None [demo_window 20 10080 2000],
     RateLimitsByLimitID =
       [(''a'', demo_snapshot (Some ''pro'') [demo_window 30 300 900, demo_window 90 10080 3000]),
        (''b'', demo_snapshot (Some ''plus'') [demo_window 130 300 800, demo_window 130 300 700])]\<rparr>"

definition demo_account :: account_response where
  "demo_account = \<lparr>Account = Some \<lparr>ac_Type = ''chatgpt'', ac_PlanType = [] \<rparr>, RequiresOpenAIAuth = True\<rparr>"

lemma demo_limits_plausible: "limits_plausible demo_limits"
  by code_simp

theorem codex_map_order_irrelevant_witness:
  "normalizeCodex demo_account (demo_limits\<lparr>RateLimitsByLimitID := rev (RateLimitsByLimitID demo_limits)\<rparr>) 7 =
     normalizeCodex demo_account demo_limits 7 \<and>
   RateLimitsByLimitID demo_limits \<noteq> rev (RateLimitsByLimitID demo_limits)"
proof
  show "normalizeCodex demo_account (demo_limits\<lparr>RateLimitsByLimitID := rev (RateLimitsByLimitID demo_limits)\<rparr>) 7 =
     normalizeCodex demo_account demo_limits 7"
    by (rule codex_map_order_irrelevant [OF demo_limits_plausible]) simp
qed (simp add: demo_limits_def)

text \<open>
  What the choice between several windows of one duration promises: no window exactly if there is
  no candidate, otherwise one of the candidates, from the top-level aggregate if it has one, and
  within its class none is more used, nor equally used with an earlier reset.
\<close>

definition most_restrictive :: "codexWindowChoice list \<Rightarrow> limit_window option \<Rightarrow> bool" where
  "most_restrictive cs shown =
     (case shown of
        None \<Rightarrow> cs = []
      | Some w \<Rightarrow>
        \<exists>c\<in>set cs. cw_window c = w \<and> (cw_canonical c \<or> (\<forall>d\<in>set cs. \<not> cw_canonical d)) \<and>
          (\<forall>d\<in>set cs. cw_canonical d = cw_canonical c \<longrightarrow>
             \<not> f64_gt (UsedPercent (cw_window d)) (UsedPercent w) \<and>
             (UsedPercent (cw_window d) = UsedPercent w \<longrightarrow>
                the (ResetsAt w) \<le> the (ResetsAt (cw_window d)))))"

lemma best_window_most_restrictive:
  assumes ok: "\<And>c. c \<in> set cs \<Longrightarrow> ok_choice c"
  shows "most_restrictive cs (best_window cs)"
proof (cases "cs = []")
  case True
  then show ?thesis by (simp add: most_restrictive_def best_window_def keep_best_def)
next
  case False
  from window_pref.keep_best_is_best [OF False ok] obtain c where
    c: "keep_best preferCodexWindow cs = Some c" "c \<in> set cs"
      "\<And>d. d \<in> set cs \<Longrightarrow> d \<noteq> c \<Longrightarrow> preferCodexWindow c d"
    by (auto simp: window_pref.is_best_def)
  from ok [OF c(2)] obtain a t where
    ca: "UsedPercent (cw_window c) = F64 a" "ResetsAt (cw_window c) = Some t" by (rule ok_choiceE)
  have "(cw_canonical d \<longrightarrow> cw_canonical c) \<and> (cw_canonical d = cw_canonical c \<longrightarrow>
      \<not> f64_gt (UsedPercent (cw_window d)) (F64 a) \<and>
      (UsedPercent (cw_window d) = F64 a \<longrightarrow> t \<le> the (ResetsAt (cw_window d))))"
    if d: "d \<in> set cs" for d
  proof (cases "d = c")
    case True
    with ca show ?thesis by (simp add: f64_gt_def)
  next
    case False
    from ok [OF d(1)] obtain b u where
      db: "UsedPercent (cw_window d) = F64 b" "ResetsAt (cw_window d) = Some u" by (rule ok_choiceE)
    show ?thesis
      using c(3) [OF d False] db preferCodexWindow_ok [OF ok [OF c(2)] ok [OF d(1)] ca(1) db(1) ca(2) db(2)]
      by (auto simp: f64_gt_def split: if_splits)
  qed
  then show ?thesis
    using c(1,2) ca by (auto simp: most_restrictive_def best_window_def intro!: bexI [of _ c])
qed

text \<open>
  C32: The displayed Codex windows are the right ones. Each of the two windows of the report is
  present exactly when the app-server reported a window of that duration; it is taken from the
  aggregate snapshot whenever that has one, and within its class it is the most used window,
  the earliest reset deciding ties.
\<close>

theorem codex_windows_most_restrictive:
  assumes "limits_plausible limits"
  shows "most_restrictive (all_candidates FiveHourMinutes limits)
      (FiveHour (Windows (normalizeCodex account limits observedAt))) \<and>
    most_restrictive (all_candidates SevenDayMinutes limits)
      (SevenDay (Windows (normalizeCodex account limits observedAt)))"
  using all_candidates_plausible [OF assms]
  by (simp add: normalizeCodex_windows best_window_most_restrictive)

theorem codex_windows_most_restrictive_witness:
  "most_restrictive (all_candidates FiveHourMinutes demo_limits)
      (FiveHour (Windows (normalizeCodex demo_account demo_limits 7))) \<and>
   most_restrictive (all_candidates SevenDayMinutes demo_limits)
      (SevenDay (Windows (normalizeCodex demo_account demo_limits 7))) \<and>
   map_option UsedPercent (FiveHour (Windows (normalizeCodex demo_account demo_limits 7))) = Some (F64 100) \<and>
   map_option UsedPercent (SevenDay (Windows (normalizeCodex demo_account demo_limits 7))) = Some (F64 20)"
proof (intro conjI)
  show "map_option UsedPercent (FiveHour (Windows (normalizeCodex demo_account demo_limits 7))) = Some (F64 100)"
    "map_option UsedPercent (SevenDay (Windows (normalizeCodex demo_account demo_limits 7))) = Some (F64 20)"
    by (simp_all add: normalizeCodex_windows best_window_def all_candidates_def snapshot_candidates_def
        window_candidates_def candidate_def demo_limits_def demo_snapshot_def demo_window_def
        FiveHourMinutes_def SevenDayMinutes_def keep_best_def keep_step_def preferCodexWindow_def
        normalizeWindow_def f64_gt_def Let_def Before_def FromUnix_def unix_to_internal_def
        second_def wrap_int64_def)
qed (use codex_windows_most_restrictive [OF demo_limits_plausible] in blast)+

section \<open>Codex reports pass the server's validation\<close>

lemma canonicalCodexPlan_length: "length p \<le> 128 \<Longrightarrow> length (canonicalCodexPlan p) \<le> 128"
  using TrimSpace_length [of p] by (simp add: canonicalCodexPlan_def)

lemma selectCodexPlan_length:
  "length a \<le> 128 \<Longrightarrow> length l \<le> 128 \<Longrightarrow> length (selectCodexPlan a l) \<le> 128"
  using TrimSpace_length [of a] TrimSpace_length [of l]
  by (simp add: selectCodexPlan_def Let_def canonicalCodexPlan_length)

lemma stableCodexPlan_length:
  assumes "limits_plausible limits"
  shows "length (stableCodexPlan limits) \<le> 128"
proof -
  have "length p \<le> 128" if "keep_best (<) (snapshot_plans limits) = Some p" for p
    using keep_step_member [of "(<)" None "snapshot_plans limits" p] that assms
    by (auto simp: keep_best_def snapshot_plans_def List.map_filter_def limits_plausible_def
        snapshot_plausible_def list_all_iff)
  moreover have "length p \<le> 128" if "rs_PlanType (RateLimits limits) = Some p" for p
    using that assms by (simp add: limits_plausible_def snapshot_plausible_def)
  ultimately show ?thesis
    by (auto simp: stableCodexPlan_best split: option.splits list.splits)
qed

lemma normalizeCodex_windows_wf:
  assumes "limits_plausible limits"
  shows "windows_wf (Windows (normalizeCodex account limits observedAt))"
proof -
  have "window_wf w" if "best_window (all_candidates m limits) = Some w" for m w
    using that all_candidates_plausible [OF assms]
      keep_step_member [of preferCodexWindow None "all_candidates m limits"]
    by (auto simp: best_window_def keep_best_def)
  then show ?thesis by (auto simp: normalizeCodex_windows windows_wf_def option.pred_set)
qed

text \<open>
  A Codex report always passes the server. Any answer of the app-server with finite
  percentages, reset times after the epoch and plans of at most 128 bytes yields a provider
  report that the server's validation accepts, for every observation time that is not ahead of
  the two clocks by more than the tolerance.
\<close>

theorem codex_report_is_valid:
  assumes "limits_plausible limits"
    and "pred_option (\<lambda>a. length (ac_PlanType a) \<le> 128) (Account account)"
    and "observedAt \<noteq> zero_time"
    and "observedAt \<le> sentAt + MaxFutureSkew" "observedAt \<le> now + MaxFutureSkew"
  shows "validate_provider sentAt now ProviderCodex (normalizeCodex account limits observedAt) = None"
proof -
  have "length (Plan (normalizeCodex account limits observedAt)) \<le> 128"
    using assms(2) stableCodexPlan_length [OF assms(1)]
    by (auto simp: normalizeCodex_def intro!: selectCodexPlan_length split: option.splits)
  moreover have "ObservedAt (normalizeCodex account limits observedAt) = observedAt"
    "Source (normalizeCodex account limits observedAt) = ''codex-app-server''"
    "ErrorCode (normalizeCodex account limits observedAt) = []"
    "length (AuthState (normalizeCodex account limits observedAt)) \<le> 64"
    by (simp_all add: normalizeCodex_def codex_auth_state_def)
  ultimately show ?thesis
    using assms(3-) normalizeCodex_windows_wf [OF assms(1)]
    by (simp add: validate_provider_None_iff provider_wf_def ValidProvider_def)
qed

theorem codex_report_is_valid_witness:
  "validate_provider 100 100 ProviderCodex (normalizeCodex demo_account demo_limits 90) = None"
  by (rule codex_report_is_valid [OF demo_limits_plausible])
    (simp_all add: demo_account_def zero_time_def second_def MaxFutureSkew_def minute_def)

section \<open>Plan labels\<close>

lemma compactPlan_trim [simp]: "compactPlan (TrimSpace p) = compactPlan p"
  by (simp add: compactPlan_def TrimSpace_idem)

lemma isCodexProPlan_trim [simp]: "isCodexProPlan (TrimSpace p) = isCodexProPlan p"
  by (simp add: isCodexProPlan_def)

lemma canonicalCodexPlan_trim [simp]: "canonicalCodexPlan (TrimSpace p) = canonicalCodexPlan p"
  by (simp add: canonicalCodexPlan_def TrimSpace_idem)

text \<open>An account plan outside the Pro family is authoritative; inside it the entitlement wins.\<close>

lemma selectCodexPlan_not_pro:
  "TrimSpace a \<noteq> [] \<Longrightarrow> \<not> isCodexProPlan a \<Longrightarrow> selectCodexPlan a l = TrimSpace a"
  by (auto simp: selectCodexPlan_def canonicalCodexPlan_def isCodexProPlan_def Let_def TrimSpace_idem)

lemma selectCodexPlan_pro:
  "isCodexProPlan a \<Longrightarrow> isCodexProPlan l \<Longrightarrow> TrimSpace l \<noteq> [] \<Longrightarrow>
     selectCodexPlan a l = canonicalCodexPlan l"
  by (auto simp: selectCodexPlan_def Let_def)

end
