(* ===== verification/Claude_Limits.thy ===== *)
theory Claude_Limits
  imports Codex_Normalize Hook_Events
begin

text \<open>
  \<open>internal/collector/claude.go\<close>, the structured part: the authentication status, the
  \<open>rate_limits\<close> object of the status line and of \<open>/usage\<close>, and \<open>MergeProviderReports\<close>. A payload is
  the JSON value \<open>json.Unmarshal\<close> makes of it, \<open>None\<close> for a syntax error. The functions of the
  standard library that depend on tables or on the platform are in the record \<open>claude_lib\<close>:
  \<open>time.Parse\<close> with RFC 3339, \<open>strconv.ParseFloat\<close>, and the conversion of a \<open>float64\<close> outside the
  range of \<open>int64\<close>, which Go leaves to the implementation.
\<close>

section \<open>Library functions\<close>

record claude_lib =
  cl_time :: "string \<Rightarrow> time option"
  cl_float :: "string \<Rightarrow> float64 option"
  cl_convert :: "float64 \<Rightarrow> int"

text \<open>\<open>strconv.ParseInt(s, 10, 64)\<close>.\<close>

definition ParseInt64 :: "string \<Rightarrow> int option" where
  "ParseInt64 s =
     (let neg = has_prefix s ''-'';
          digits = (if neg \<or> has_prefix s ''+'' then tl s else s);
          v = (if neg then - int (decimal_value digits) else int (decimal_value digits))
      in if digits \<noteq> [] \<and> list_all is_digit digits \<and> in_int64 v then Some v else None)"

definition f64_trunc :: "rat \<Rightarrow> int" where
  "f64_trunc a = (if 0 \<le> a then \<lfloor>a\<rfloor> else \<lceil>a\<rceil>)"

definition int64_of_f64 :: "claude_lib \<Rightarrow> float64 \<Rightarrow> int" where
  "int64_of_f64 lib v =
     (case v of
        F64 a \<Rightarrow> if in_int64 (f64_trunc a) then f64_trunc a else cl_convert lib v
      | _ \<Rightarrow> cl_convert lib v)"

text \<open>\<open>time.UnixMilli\<close> for a non-negative argument.\<close>

definition FromUnixMilli :: "int \<Rightarrow> time" where
  "FromUnixMilli ms = FromUnix (ms div 1000) + (ms mod 1000) * 1000000"

section \<open>Reading values out of objects\<close>

text \<open>The first key that is present decides, even when its value is null.\<close>

fun objectValue :: "json_object \<Rightarrow> string list \<Rightarrow> json" where
  "objectValue obj [] = JNull"
| "objectValue obj (key # keys) =
     (case gomap_get obj key of Some v \<Rightarrow> v | None \<Rightarrow> objectValue obj keys)"

definition numberValue :: "claude_lib \<Rightarrow> json_object \<Rightarrow> string list \<Rightarrow> float64 option" where
  "numberValue lib obj keys =
     (case objectValue obj keys of
        JNumber n \<Rightarrow> Some n
      | JString s \<Rightarrow> cl_float lib (trim_suffix (TrimSpace s) ''%'')
      | _ \<Rightarrow> None)"

definition boolValue :: "json_object \<Rightarrow> string list \<Rightarrow> bool option" where
  "boolValue obj keys = (case objectValue obj keys of JBool b \<Rightarrow> Some b | _ \<Rightarrow> None)"

definition stringValue :: "json_object \<Rightarrow> string list \<Rightarrow> string option" where
  "stringValue obj keys = (case objectValue obj keys of JString s \<Rightarrow> Some s | _ \<Rightarrow> None)"

fun value_at :: "json \<Rightarrow> string list \<Rightarrow> json" where
  "value_at v [] = v"
| "value_at (JObject obj) (key # keys) =
     value_at (case gomap_get obj key of Some v \<Rightarrow> v | None \<Rightarrow> JNull) keys"
| "value_at v (key # keys) = JNull"

fun stringValueNested :: "json_object \<Rightarrow> string list list \<Rightarrow> string option" where
  "stringValueNested obj [] = None"
| "stringValueNested obj (path # paths) =
     (case value_at (JObject obj) path of JString s \<Rightarrow> Some s | _ \<Rightarrow> stringValueNested obj paths)"

section \<open>Authentication status\<close>

datatype claude_error =
    DecodeError
  | ExpectedObject
  | MissingLoginState
  | LimitsNotFound
  | BadFiveHour claude_error
  | BadSevenDay claude_error
  | NoWindows
  | WindowNotObject
  | UsedMissing
  | BadResetTime
  | NoQuotaText
  | CommandFailed string
  | LogoutUnconfirmed

definition ParseClaudeAuthStatus :: "time \<Rightarrow> json option \<Rightarrow> (claude_error, provider_report) result" where
  "ParseClaudeAuthStatus now payload =
     (case payload of
        Some JNull \<Rightarrow> err ExpectedObject
      | Some (JObject raw) \<Rightarrow>
        (case boolValue raw [''loggedIn'', ''logged_in'', ''authenticated''] of
           None \<Rightarrow> err MissingLoginState
         | Some loggedIn \<Rightarrow>
           (let plan1 = (case stringValue raw [''subscriptionType'', ''subscription_type'', ''plan'', ''planType'']
                  of Some p \<Rightarrow> p | None \<Rightarrow> []);
                plan2 = (if plan1 = [] then
                  (case stringValueNested raw [[''account'', ''subscriptionType''], [''account'', ''plan'']]
                   of Some p \<Rightarrow> p | None \<Rightarrow> []) else plan1)
            in ok \<lparr>ObservedAt = now,
                  AuthState = (if loggedIn then ''authenticated'' else ''unauthenticated''),
                  Plan = plan2, Source = ''claude-auth-status'', Windows = no_windows, ErrorCode = []\<rparr>))
      | _ \<Rightarrow> err DecodeError)"

section \<open>Rate limits\<close>

definition unixTimestamp :: "int \<Rightarrow> time" where
  "unixTimestamp v = (if v > 1000000000000 then FromUnixMilli v else FromUnix v)"

definition parseTimestamp :: "claude_lib \<Rightarrow> json \<Rightarrow> time option" where
  "parseTimestamp lib v =
     (case v of
        JString s \<Rightarrow>
          (case cl_time lib s of
             Some t \<Rightarrow> Some t
           | None \<Rightarrow> (case ParseInt64 s of Some n \<Rightarrow> Some (unixTimestamp n) | None \<Rightarrow> None))
      | JNumber n \<Rightarrow> Some (unixTimestamp (int64_of_f64 lib n))
      | _ \<Rightarrow> None)"

definition parseClaudeWindow :: "claude_lib \<Rightarrow> json \<Rightarrow> (claude_error, limit_window) result" where
  "parseClaudeWindow lib v =
     (case v of
        JObject obj \<Rightarrow>
          (case numberValue lib obj [''used_percentage'', ''usedPercent'', ''used_percent'', ''utilization''] of
             None \<Rightarrow> err UsedMissing
           | Some used \<Rightarrow>
             (case parseTimestamp lib (objectValue obj [''resets_at'', ''resetsAt'', ''reset_at'', ''resetAt'']) of
                None \<Rightarrow> err BadResetTime
              | Some reset \<Rightarrow> ok (normalizeWindow used reset)))
      | _ \<Rightarrow> err WindowNotObject)"

text \<open>
  The search for the \<open>rate_limits\<close> object: the two keys of the object itself, then its members in
  map order, then the elements of an array.
\<close>

definition own_limits :: "json_object \<Rightarrow> json_object option" where
  "own_limits obj =
     (case object_field obj ''rate_limits'' of
        Some l \<Rightarrow> Some l
      | None \<Rightarrow> object_field obj ''rateLimits'')"

fun first_some :: "'a option list \<Rightarrow> 'a option" where
  "first_some [] = None"
| "first_some (None # xs) = first_some xs"
| "first_some (Some x # xs) = Some x"

fun findRateLimits :: "json \<Rightarrow> json_object option" where
  "findRateLimits (JObject obj) =
     (case own_limits obj of
        Some l \<Rightarrow> Some l
      | None \<Rightarrow> first_some (map (\<lambda>(_, child). findRateLimits child) obj))"
| "findRateLimits (JArray vs) = first_some (map findRateLimits vs)"
| "findRateLimits _ = None"

definition optional_window ::
    "claude_lib \<Rightarrow> json \<Rightarrow> (claude_error, limit_window option) result" where
  "optional_window lib v =
     (if v = JNull then ok None
      else case parseClaudeWindow lib v of Inl e \<Rightarrow> err e | Inr w \<Rightarrow> ok (Some w))"

definition limits_report ::
    "claude_lib \<Rightarrow> json_object \<Rightarrow> time \<Rightarrow> string \<Rightarrow> (claude_error, provider_report) result" where
  "limits_report lib limits observedAt source =
     (case optional_window lib (objectValue limits [''five_hour'', ''fiveHour'', ''5h'']) of
        Inl e \<Rightarrow> err (BadFiveHour e)
      | Inr five \<Rightarrow>
        (case optional_window lib (objectValue limits [''seven_day'', ''sevenDay'', ''7d'']) of
           Inl e \<Rightarrow> err (BadSevenDay e)
         | Inr seven \<Rightarrow>
           if five = None \<and> seven = None then err NoWindows
           else ok \<lparr>ObservedAt = observedAt, AuthState = ''authenticated'', Plan = [], Source = source,
                  Windows = \<lparr>FiveHour = five, SevenDay = seven\<rparr>, ErrorCode = []\<rparr>))"

definition parseClaudeRateLimits ::
    "claude_lib \<Rightarrow> json option \<Rightarrow> time \<Rightarrow> string \<Rightarrow> (claude_error, provider_report) result" where
  "parseClaudeRateLimits lib payload observedAt source =
     (case payload of
        None \<Rightarrow> err DecodeError
      | Some doc \<Rightarrow>
        (case findRateLimits doc of
           None \<Rightarrow> err LimitsNotFound
         | Some limits \<Rightarrow> limits_report lib limits observedAt source))"

definition ParseClaudeStatusLine ::
    "claude_lib \<Rightarrow> json option \<Rightarrow> time \<Rightarrow> (claude_error, provider_report) result" where
  "ParseClaudeStatusLine lib payload observedAt =
     parseClaudeRateLimits lib payload observedAt ''claude-statusline''"

section \<open>Merging\<close>

definition reusableWindow :: "limit_window option \<Rightarrow> time \<Rightarrow> bool" where
  "reusableWindow window observedAt =
     (case window of
        None \<Rightarrow> False
      | Some w \<Rightarrow>
        (case ResetsAt w of
           None \<Rightarrow> f64_eq (UsedPercent w) (F64 0) \<and> f64_eq (RemainingPercent w) (F64 100)
         | Some t \<Rightarrow> \<not> IsZero t \<and> After t observedAt))"

definition fill_window :: "limit_window option \<Rightarrow> limit_window option \<Rightarrow> time \<Rightarrow> limit_window option" where
  "fill_window newer older observedAt =
     (if newer = None \<and> reusableWindow older observedAt then older else newer)"

definition merge_into :: "provider_report \<Rightarrow> provider_report \<Rightarrow> provider_report" where
  "merge_into newer older =
     (if AuthState newer = ''unauthenticated'' then newer\<lparr>Windows := no_windows\<rparr>
      else newer\<lparr>
        Windows := \<lparr>FiveHour = fill_window (FiveHour (Windows newer)) (FiveHour (Windows older)) (ObservedAt newer),
                    SevenDay = fill_window (SevenDay (Windows newer)) (SevenDay (Windows older)) (ObservedAt newer)\<rparr>,
        Plan := (if Plan newer = [] then Plan older else Plan newer),
        AuthState := (if AuthState newer = [] then AuthState older else AuthState newer)\<rparr>)"

definition MergeProviderReports :: "provider_report \<Rightarrow> provider_report \<Rightarrow> provider_report" where
  "MergeProviderReports a b =
     (if After (ObservedAt b) (ObservedAt a) then merge_into b a else merge_into a b)"

section \<open>What a parsed report contains\<close>

lemma parseClaudeWindow_shape:
  "parseClaudeWindow lib v = ok w \<Longrightarrow> \<exists>u t. w = normalizeWindow u t"
  by (auto simp: parseClaudeWindow_def split: json.splits option.splits)

lemma optional_window_shape:
  "optional_window lib v = ok (Some w) \<Longrightarrow> \<exists>u t. w = normalizeWindow u t"
  by (auto simp: optional_window_def split: if_splits sum.splits dest: parseClaudeWindow_shape)

text \<open>A window made by \<open>normalizeWindow\<close> is valid unless its inputs were NaN or the zero time.\<close>

definition window_sane :: "limit_window \<Rightarrow> bool" where
  "window_sane w = (\<not> IsNaN (UsedPercent w) \<and> ResetsAt w \<noteq> Some zero_time)"

lemma normalizeWindow_NaN: "IsNaN u \<Longrightarrow> UsedPercent (normalizeWindow u t) = F64NaN"
  by (cases u) (auto simp: normalizeWindow_def IsNaN_def f64_gt_def Let_def)

lemma normalizeWindow_sane:
  assumes "w = normalizeWindow u t" and "window_sane w"
  shows "window_wf w"
proof -
  have "\<not> IsNaN u" using assms normalizeWindow_NaN [of u t] by (auto simp: window_sane_def IsNaN_def)
  moreover have "t \<noteq> zero_time" using assms by (auto simp: window_sane_def)
  ultimately show ?thesis using assms(1) normalizeWindow_wf by simp
qed

lemma limits_report_shape:
  assumes "limits_report lib limits t src = ok r"
  shows "ObservedAt r = t" "AuthState r = ''authenticated''" "Plan r = []" "Source r = src"
    "ErrorCode r = []" "Windows r \<noteq> no_windows"
    "FiveHour (Windows r) = Some w \<Longrightarrow> \<exists>u z. w = normalizeWindow u z"
    "SevenDay (Windows r) = Some v \<Longrightarrow> \<exists>u z. v = normalizeWindow u z"
proof -
  obtain five seven where fs:
    "optional_window lib (objectValue limits [''five_hour'', ''fiveHour'', ''5h'']) = ok five"
    "optional_window lib (objectValue limits [''seven_day'', ''sevenDay'', ''7d'']) = ok seven"
    "\<not> (five = None \<and> seven = None)"
    "r = \<lparr>ObservedAt = t, AuthState = ''authenticated'', Plan = [], Source = src,
          Windows = \<lparr>FiveHour = five, SevenDay = seven\<rparr>, ErrorCode = []\<rparr>"
    using assms by (auto simp: limits_report_def split: sum.splits if_splits)
  show "ObservedAt r = t" "AuthState r = ''authenticated''" "Plan r = []" "Source r = src"
    "ErrorCode r = []" "Windows r \<noteq> no_windows"
    using fs(3,4) by (simp_all add: no_windows_def)
  show "FiveHour (Windows r) = Some w \<Longrightarrow> \<exists>u z. w = normalizeWindow u z"
    using fs(1,4) optional_window_shape [of lib _ w] by simp
  show "SevenDay (Windows r) = Some v \<Longrightarrow> \<exists>u z. v = normalizeWindow u z"
    using fs(2,4) optional_window_shape [of lib _ v] by simp
qed

definition windows_sane :: "provider_windows \<Rightarrow> bool" where
  "windows_sane ws = (pred_option window_sane (FiveHour ws) \<and> pred_option window_sane (SevenDay ws))"

lemma limits_report_windows_wf:
  assumes "limits_report lib limits t src = ok r" and "windows_sane (Windows r)"
  shows "windows_wf (Windows r)"
proof -
  have "window_wf w" if "FiveHour (Windows r) = Some w \<or> SevenDay (Windows r) = Some w" for w
  proof -
    have "window_sane w" using that assms(2) by (auto simp: windows_sane_def)
    then show ?thesis
      using limits_report_shape(7,8) [OF assms(1), of w] that normalizeWindow_sane by blast
  qed
  then show ?thesis by (auto simp: windows_wf_def option.pred_set)
qed

section \<open>Properties\<close>

text \<open>
  A parsed status line is a valid provider report. Whatever the payload, a status line that is
  accepted yields at least one window, and if its percentages are numbers and its reset times
  are not the zero time, the server's validation accepts the report.
\<close>

theorem claude_statusline_is_valid:
  assumes "ParseClaudeStatusLine lib payload observedAt = ok r" and "windows_sane (Windows r)"
    and "observedAt \<noteq> zero_time"
    and "observedAt \<le> sentAt + MaxFutureSkew" "observedAt \<le> now + MaxFutureSkew"
  shows "Windows r \<noteq> no_windows \<and> validate_provider sentAt now ProviderClaude r = None"
proof -
  obtain limits where l: "limits_report lib limits observedAt ''claude-statusline'' = ok r"
    using assms(1) by (auto simp: ParseClaudeStatusLine_def parseClaudeRateLimits_def split: option.splits)
  show ?thesis
    using limits_report_shape(1-6) [OF l] limits_report_windows_wf [OF l assms(2)] assms(3-)
    by (simp add: validate_provider_None_iff provider_wf_def ValidProvider_def)
qed

definition demo_lib :: claude_lib where
  "demo_lib = \<lparr>cl_time = (\<lambda>_. None),
     cl_float = (\<lambda>s. if s = ''NaN'' then Some F64NaN else if s = ''7'' then Some (F64 7) else None),
     cl_convert = (\<lambda>_. 0)\<rparr>"

definition demo_status :: "string \<Rightarrow> json" where
  "demo_status used = JArray [JObject [(''rate_limits'', JObject [(''five_hour'',
     JObject [(''used_percentage'', JString used), (''resets_at'', JNumber (F64 2000))])])]]"

lemmas demo_status_eval = ParseClaudeStatusLine_def parseClaudeRateLimits_def demo_status_def
  own_limits_def object_field_def gomap_get_def limits_report_def optional_window_def
  parseClaudeWindow_def numberValue_def parseTimestamp_def demo_lib_def

lemma demo_trim:
  "trim_suffix (TrimSpace ''7 %'') ''%'' = ''7 ''" "trim_suffix (TrimSpace '' 7%'') ''%'' = ''7''"
  "trim_suffix (TrimSpace ''NaN'') ''%'' = ''NaN''"
  by code_simp+

lemma demo_reset: "unixTimestamp (int64_of_f64 l (F64 2000)) = 2000000000000"
  by (simp add: unixTimestamp_def int64_of_f64_def f64_trunc_def int64_defs FromUnix_def
      unix_to_internal_def second_def)

definition demo_statusline :: "float64 \<Rightarrow> provider_report" where
  "demo_statusline used = \<lparr>ObservedAt = 9, AuthState = ''authenticated'', Plan = [],
     Source = ''claude-statusline'',
     Windows = \<lparr>FiveHour = Some (normalizeWindow used 2000000000000), SevenDay = None\<rparr>, ErrorCode = []\<rparr>"

lemma demo_statusline_parsed:
  "ParseClaudeStatusLine demo_lib (Some (demo_status '' 7%'')) 9 = ok (demo_statusline (F64 7))"
  "ParseClaudeStatusLine demo_lib (Some (demo_status ''NaN'')) 9 = ok (demo_statusline F64NaN)"
  by (simp_all add: demo_status_eval demo_trim demo_reset [unfolded demo_lib_def] demo_statusline_def)

theorem claude_statusline_is_valid_witness:
  "ParseClaudeStatusLine demo_lib (Some (demo_status '' 7%'')) 9 = ok (demo_statusline (F64 7)) \<and>
   validate_provider 10 10 ProviderClaude (demo_statusline (F64 7)) = None"
proof -
  have "windows_sane (Windows (demo_statusline (F64 7)))"
    by (simp add: windows_sane_def window_sane_def demo_statusline_def normalizeWindow_def IsNaN_def
        f64_gt_def Let_def zero_time_def second_def)
  from claude_statusline_is_valid [OF demo_statusline_parsed(1) this, of 10 10] demo_statusline_parsed(1)
  show ?thesis by (simp add: zero_time_def second_def MaxFutureSkew_def minute_def)
qed

text \<open>
  A percentage that is not a number is neither rejected nor clamped. \<open>strconv.ParseFloat\<close>
  accepts the text \<open>NaN\<close>; the two comparisons of \<open>normalizeWindow\<close> are false on it, so the report
  carries NaN, although the shared \<open>ClampPercent\<close> would make it 0, and the server's validation
  refuses the whole report.
\<close>

theorem nan_percentage_is_not_clamped:
  "\<exists>lib payload r w. ParseClaudeStatusLine lib (Some payload) 9 = ok r \<and>
     FiveHour (Windows r) = Some w \<and> UsedPercent w = F64NaN \<and>
     ClampPercent (UsedPercent w) = F64 0 \<and>
     validate_provider 10 10 ProviderClaude r = Some (BadWindow (UsedOutOfRange ''claude fiveHour''))"
proof -
  have "UsedPercent (normalizeWindow F64NaN t) = F64NaN" for t
    using normalizeWindow_NaN by (simp add: IsNaN_def)
  then show ?thesis
    using demo_statusline_parsed(2)
    by (intro exI [of _ demo_lib] exI [of _ "demo_status ''NaN''"] exI [of _ "demo_statusline F64NaN"]
        exI [of _ "normalizeWindow F64NaN 2000000000000"])
      (simp add: demo_statusline_def ClampPercent_def IsNaN_def validate_provider_def name_defs
        validateWindow_def out_of_range_def time_defs zero_time_def second_def MaxFutureSkew_def minute_def)
qed

section \<open>Merging two observations\<close>

text \<open>A window that may be shown at \<open>t\<close>: not yet reset, or the full window of an idle account.\<close>

definition usable_at :: "time \<Rightarrow> limit_window \<Rightarrow> bool" where
  "usable_at t w =
     (case ResetsAt w of
        None \<Rightarrow> UsedPercent w = F64 0 \<and> RemainingPercent w = F64 100
      | Some r \<Rightarrow> t < r)"

lemma reusableWindow_usable: "reusableWindow (Some w) t \<Longrightarrow> usable_at t w"
  by (auto simp: reusableWindow_def usable_at_def After_def split: option.splits)

text \<open>Where a window of a merged report comes from.\<close>

definition window_source ::
    "time \<Rightarrow> limit_window option \<Rightarrow> limit_window option \<Rightarrow> limit_window option \<Rightarrow> bool" where
  "window_source t newer older shown =
     (shown = newer \<or> (newer = None \<and> shown = older \<and> pred_option (usable_at t) older))"

lemma fill_window_source: "window_source t n o1 (fill_window n o1 t)"
  by (cases o1) (auto simp: window_source_def fill_window_def reusableWindow_usable)

lemma merge_into_source:
  "AuthState n \<noteq> ''unauthenticated'' \<Longrightarrow>
     window_source (ObservedAt n) (FiveHour (Windows n)) (FiveHour (Windows o1)) (FiveHour (Windows (merge_into n o1))) \<and>
     window_source (ObservedAt n) (SevenDay (Windows n)) (SevenDay (Windows o1)) (SevenDay (Windows (merge_into n o1)))"
  by (simp add: merge_into_def fill_window_source)

lemma merge_into_observed [simp]: "ObservedAt (merge_into n o1) = ObservedAt n"
  by (simp add: merge_into_def)

lemma fill_window_wf:
  "pred_option window_wf n \<Longrightarrow> pred_option window_wf o1 \<Longrightarrow> pred_option window_wf (fill_window n o1 t)"
  by (simp add: fill_window_def)

lemma merge_into_wf:
  assumes "provider_wf sentAt now (p, n)" "provider_wf sentAt now (p, o1)" "ObservedAt n \<noteq> zero_time"
  shows "provider_wf sentAt now (p, merge_into n o1)"
  using assms fill_window_wf
  by (auto simp: provider_wf_def merge_into_def windows_wf_def no_windows_def)

lemma MergeProviderReports_wf:
  assumes "provider_wf sentAt now (p, a)" "provider_wf sentAt now (p, b)"
    "ObservedAt a \<noteq> zero_time" "ObservedAt b \<noteq> zero_time"
  shows "provider_wf sentAt now (p, MergeProviderReports a b) \<and>
    ObservedAt (MergeProviderReports a b) \<noteq> zero_time"
  using assms merge_into_wf by (simp add: MergeProviderReports_def)

text \<open>
  C9: Merging never brings old quota back to life. For two observations made at different times
  the order of the arguments does not matter and the newer one wins; after a newer logout no
  window is left; and every window of the result is the newer report's own, or fills a gap of the
  newer report with a window of the older one that has not been reset yet (or is the full window
  of an account that has not started one).
\<close>

theorem merge_never_resurrects:
  assumes "ObservedAt a < ObservedAt b"
  shows "MergeProviderReports a b = MergeProviderReports b a \<and>
    ObservedAt (MergeProviderReports a b) = ObservedAt b \<and>
    (if AuthState b = ''unauthenticated'' then Windows (MergeProviderReports a b) = no_windows
     else window_source (ObservedAt b) (FiveHour (Windows b)) (FiveHour (Windows a))
            (FiveHour (Windows (MergeProviderReports a b))) \<and>
          window_source (ObservedAt b) (SevenDay (Windows b)) (SevenDay (Windows a))
            (SevenDay (Windows (MergeProviderReports a b))))"
proof -
  have "MergeProviderReports a b = merge_into b a" "MergeProviderReports b a = merge_into b a"
    using assms by (simp_all add: MergeProviderReports_def After_def)
  then show ?thesis using merge_into_source [of b a] by (simp add: merge_into_def)
qed

definition demo_poll :: "time \<Rightarrow> provider_windows \<Rightarrow> provider_report" where
  "demo_poll t ws = \<lparr>ObservedAt = t, AuthState = ''authenticated'', Plan = ''max'', Source = ''claude-usage'',
     Windows = ws, ErrorCode = []\<rparr>"

definition demo_quota :: "time \<Rightarrow> limit_window" where
  "demo_quota t = \<lparr>UsedPercent = F64 40, RemainingPercent = F64 60, ResetsAt = Some t\<rparr>"

theorem merge_never_resurrects_witness:
  "FiveHour (Windows (MergeProviderReports (demo_poll 1 \<lparr>FiveHour = Some (demo_quota 4), SevenDay = Some (demo_quota 9)\<rparr>)
     (demo_poll 5 no_windows))) = None \<and>
   SevenDay (Windows (MergeProviderReports (demo_poll 1 \<lparr>FiveHour = Some (demo_quota 4), SevenDay = Some (demo_quota 9)\<rparr>)
     (demo_poll 5 no_windows))) = Some (demo_quota 9) \<and>
   ObservedAt (MergeProviderReports (demo_poll 1 \<lparr>FiveHour = Some (demo_quota 4), SevenDay = Some (demo_quota 9)\<rparr>)
     (demo_poll 5 no_windows)) = 5"
  using merge_never_resurrects [of "demo_poll 1 \<lparr>FiveHour = Some (demo_quota 4), SevenDay = Some (demo_quota 9)\<rparr>"
      "demo_poll 5 no_windows"]
  by (simp add: window_source_def usable_at_def demo_poll_def demo_quota_def no_windows_def
      MergeProviderReports_def After_def merge_into_def fill_window_def reusableWindow_def IsZero_def
      zero_time_def second_def)

text \<open>
  The search for nested rate limits depends on map order. There is a payload whose object is the
  same Go map under two iteration orders, and the status-line parser reads different windows from
  it, because the first nested \<open>rate_limits\<close> that the range statement meets is taken.
\<close>

definition two_limits :: "(string \<times> json) list" where
  "two_limits =
     [(''a'', JObject [(''rate_limits'', JObject [(''five_hour'',
         JObject [(''used_percentage'', JNumber (F64 10)), (''resets_at'', JNumber (F64 2000))])])]),
      (''b'', JObject [(''rate_limits'', JObject [(''five_hour'',
         JObject [(''used_percentage'', JNumber (F64 90)), (''resets_at'', JNumber (F64 2000))])])])]"

theorem nested_limits_depend_on_map_order:
  "gomap_wf two_limits \<and> set (rev two_limits) = set two_limits \<and>
   ParseClaudeStatusLine lib (Some (JObject (rev two_limits))) t \<noteq>
     ParseClaudeStatusLine lib (Some (JObject two_limits)) t"
  by (simp add: two_limits_def gomap_wf_def insert_commute ParseClaudeStatusLine_def
      parseClaudeRateLimits_def own_limits_def object_field_def gomap_get_def limits_report_def
      optional_window_def parseClaudeWindow_def numberValue_def parseTimestamp_def normalizeWindow_def
      f64_gt_def Let_def)

end
