(* ===== verification/Agent.thy ===== *)
theory Agent
  imports Ledger Claude_Limits
begin

text \<open>
  \<open>internal/agent/agent.go\<close> and \<open>hookserver.go\<close>: the agent's configuration, the provider map that
  collections and status lines update, the report it uploads, the retry schedule of the report
  loop, and the local hook endpoint. Each update of the provider map runs under the agent's
  mutex, so a run is a sequence of inputs in their order of arrival. Arguments stand for
  \<open>url.Parse\<close>, \<open>net.ParseIP\<close>, SHA-256, the JSON decoders and the HTTP transport.
\<close>

section \<open>Configuration\<close>

definition DefaultReportInterval :: duration where "DefaultReportInterval = 15 * second"
definition DefaultCollectInterval :: duration where "DefaultCollectInterval = 60 * second"

record parsed_url =
  u_Scheme :: string
  u_Host :: string
  u_Hostname :: string
  u_User :: bool

record agent_config =
  cfg_AgentID :: string
  cfg_ServerURL :: string
  cfg_Token :: string
  cfg_Codex :: bool
  cfg_Claude :: bool
  cfg_PlanOverrides :: "(provider_name, string) gomap"
  cfg_HookAddr :: string
  cfg_HookSecret :: string
  cfg_ReportInterval :: duration
  cfg_CollectInterval :: duration
  cfg_SequentialCollection :: bool
  cfg_MaxBackoff :: duration
  cfg_ReportSink :: bool
  cfg_AllowInsecureHTTP :: bool

record agent =
  ag_cfg :: agent_config
  ag_providers :: "(provider_name, provider_report) gomap"
  ag_ledger :: ledger

datatype agent_error =
    AgentIDInvalid | TokenRequired | ServerURLInvalid | CredentialsInURL | HTTPSRequired
  | OverrideProvider string | OverrideInvalid string

definition isLoopbackHost :: "(string \<Rightarrow> bool) \<Rightarrow> string \<Rightarrow> bool" where
  "isLoopbackHost loopback_ip host = (fold_eq host ''localhost'' \<or> loopback_ip host)"

definition plan_char :: "char \<Rightarrow> bool" where
  "plan_char c = (is_lower c \<or> is_upper c \<or> is_digit c)"

definition planOverridePattern :: "string \<Rightarrow> bool" where
  "planOverridePattern s =
     (case s of
        [] \<Rightarrow> False
      | c # cs \<Rightarrow> plan_char c \<and> length cs \<le> 31 \<and>
          list_all (\<lambda>d. plan_char d \<or> d = CHR ''.'' \<or> d = CHR ''_'' \<or> d = CHR '' '' \<or> d = CHR ''-'') cs)"

fun normalize_overrides ::
    "(provider_name, string) gomap \<Rightarrow> (provider_name, string) gomap \<Rightarrow>
     (agent_error, (provider_name, string) gomap) result" where
  "normalize_overrides acc [] = ok acc"
| "normalize_overrides acc ((provider, rawPlan) # rest) =
     (if \<not> ValidProvider provider then err (OverrideProvider provider)
      else if TrimSpace rawPlan = [] then normalize_overrides acc rest
      else if \<not> planOverridePattern (TrimSpace rawPlan) then err (OverrideInvalid provider)
      else normalize_overrides (gomap_put provider (TrimSpace rawPlan) acc) rest)"

definition server_url_error ::
    "(string \<Rightarrow> parsed_url option) \<Rightarrow> (string \<Rightarrow> bool) \<Rightarrow> agent_config \<Rightarrow> agent_error option" where
  "server_url_error parse_url loopback_ip cfg =
     (if cfg_ReportSink cfg then None
      else if cfg_Token cfg = [] then Some TokenRequired
      else case parse_url (cfg_ServerURL cfg) of
             None \<Rightarrow> Some ServerURLInvalid
           | Some u \<Rightarrow>
               if u_Host u = [] then Some ServerURLInvalid
               else if u_User u then Some CredentialsInURL
               else if u_Scheme u \<noteq> ''https'' \<and>
                       \<not> (cfg_AllowInsecureHTTP cfg \<and> u_Scheme u = ''http'' \<and>
                          isLoopbackHost loopback_ip (u_Hostname u)) then Some HTTPSRequired
               else None)"

definition positive_or :: "duration \<Rightarrow> duration \<Rightarrow> duration" where
  "positive_or v dflt = (if v \<le> 0 then dflt else v)"

text \<open>\<open>agent.New\<close>; a nil ledger is replaced by a new one with the default time to live.\<close>

definition NewAgent ::
    "(string \<Rightarrow> parsed_url option) \<Rightarrow> (string \<Rightarrow> bool) \<Rightarrow> agent_config \<Rightarrow> ledger option \<Rightarrow>
     (agent_error, agent) result" where
  "NewAgent parse_url loopback_ip cfg led =
     (if \<not> validAgentID (cfg_AgentID cfg) then err AgentIDInvalid
      else case server_url_error parse_url loopback_ip cfg of
        Some e \<Rightarrow> err e
      | None \<Rightarrow>
        (case normalize_overrides [] (cfg_PlanOverrides cfg) of
           Inl e \<Rightarrow> err e
         | Inr overrides \<Rightarrow>
             ok \<lparr>ag_cfg = cfg\<lparr>cfg_ReportInterval := positive_or (cfg_ReportInterval cfg) DefaultReportInterval,
                    cfg_CollectInterval := positive_or (cfg_CollectInterval cfg) DefaultCollectInterval,
                    cfg_MaxBackoff := positive_or (cfg_MaxBackoff cfg) (2 * minute),
                    cfg_PlanOverrides := overrides\<rparr>,
                  ag_providers = [],
                  ag_ledger = (case led of None \<Rightarrow> NewLedger DefaultTaskTTL | Some l \<Rightarrow> l)\<rparr>))"

section \<open>Collection\<close>

record collectionResult =
  cr_provider :: provider_name
  cr_report :: provider_report
  cr_failed :: bool

definition configuredCollectors :: "agent_config \<Rightarrow> provider_name list" where
  "configuredCollectors cfg =
     (if cfg_Codex cfg then [ProviderCodex] else []) @ (if cfg_Claude cfg then [ProviderClaude] else [])"

definition collected_report :: "provider_report option \<Rightarrow> collectionResult \<Rightarrow> provider_report" where
  "collected_report previous item =
     (if cr_failed item then
        (case previous of
           Some old \<Rightarrow>
             if FiveHour (Windows old) \<noteq> None \<or> SevenDay (Windows old) \<noteq> None
             then old\<lparr>ErrorCode := (if ErrorCode (cr_report item) \<noteq> [] then ErrorCode (cr_report item)
                    else ''collection_failed'')\<rparr>
             else cr_report item
         | None \<Rightarrow> cr_report item)
      else case previous of
             Some old \<Rightarrow>
               if cr_provider item = ProviderClaude then MergeProviderReports old (cr_report item)
               else cr_report item
           | None \<Rightarrow> cr_report item)"

definition storeCollectionResult :: "collectionResult \<Rightarrow> agent \<Rightarrow> agent" where
  "storeCollectionResult item a =
     a\<lparr>ag_providers := gomap_put (cr_provider item)
         (collected_report (gomap_get (ag_providers a) (cr_provider item)) item) (ag_providers a)\<rparr>"

text \<open>
  \<open>CollectOnce\<close>: \<open>collect\<close> is what each collector returns, \<open>arrival\<close> the order in which the
  concurrent collectors put their results on the channel.
\<close>

definition collection_items ::
    "(provider_name \<Rightarrow> provider_report \<times> bool) \<Rightarrow> agent_config \<Rightarrow> collectionResult list" where
  "collection_items collect cfg =
     map (\<lambda>p. \<lparr>cr_provider = p, cr_report = fst (collect p), cr_failed = snd (collect p)\<rparr>)
       (configuredCollectors cfg)"

definition CollectOnce ::
    "(provider_name \<Rightarrow> provider_report \<times> bool) \<Rightarrow> collectionResult list \<Rightarrow> agent \<Rightarrow> agent" where
  "CollectOnce collect arrival a =
     (if cfg_SequentialCollection (ag_cfg a)
      then fold storeCollectionResult (collection_items collect (ag_cfg a)) a
      else fold storeCollectionResult arrival a)"

definition IngestStatusLine :: "provider_report \<Rightarrow> agent \<Rightarrow> agent" where
  "IngestStatusLine report a =
     a\<lparr>ag_providers := gomap_put ProviderClaude
         (case gomap_get (ag_providers a) ProviderClaude of
            Some previous \<Rightarrow> MergeProviderReports previous report
          | None \<Rightarrow> report) (ag_providers a)\<rparr>"

section \<open>Reports\<close>

definition override_plan :: "agent_config \<Rightarrow> provider_name \<Rightarrow> provider_report \<Rightarrow> provider_report" where
  "override_plan cfg provider report =
     (case gomap_get (cfg_PlanOverrides cfg) provider of
        Some plan \<Rightarrow> if plan \<noteq> [] then report\<lparr>Plan := plan\<rparr> else report
      | None \<Rightarrow> report)"

definition SnapshotReport :: "time \<Rightarrow> agent \<Rightarrow> agent_report \<times> agent" where
  "SnapshotReport now a =
     (let (tasks, led) = Snapshot now (ag_ledger a)
      in (\<lparr>ar_SchemaVersion = SchemaVersion, ar_AgentID = cfg_AgentID (ag_cfg a), ar_SentAt = now,
           ar_Providers = Some (map (\<lambda>(p, r). (p, override_plan (ag_cfg a) p r)) (ag_providers a)),
           ar_ActiveTasks = Some tasks\<rparr>, a\<lparr>ag_ledger := led\<rparr>))"

datatype delivery = SinkResult bool | MarshalFailed | RequestFailed | Responded nat

definition ReportOnce :: "(agent_report \<Rightarrow> delivery) \<Rightarrow> time \<Rightarrow> agent \<Rightarrow> bool \<times> agent" where
  "ReportOnce deliver now a =
     (let (report, a1) = SnapshotReport now a
      in ((case deliver report of
             SinkResult success \<Rightarrow> success
           | MarshalFailed \<Rightarrow> False
           | RequestFailed \<Rightarrow> False
           | Responded status \<Rightarrow> status = 204), a1))"

section \<open>The report schedule\<close>

definition successfulReportDelay :: "duration \<Rightarrow> duration \<Rightarrow> duration" where
  "successfulReportDelay interval elapsed = (if elapsed \<ge> interval then 0 else interval - elapsed)"

text \<open>
  One turn of the report loop: from the backoff and the outcome of the attempt (\<open>None\<close> for a
  failure, the elapsed time of a success) to the delay the timer is set to and the next backoff.
\<close>

definition report_turn :: "agent_config \<Rightarrow> duration option \<Rightarrow> duration \<Rightarrow> duration \<times> duration" where
  "report_turn cfg outcome backoff =
     (case outcome of
        None \<Rightarrow>
          (let doubled = wrap_int64 (backoff * 2)
           in (backoff, if doubled > cfg_MaxBackoff cfg then cfg_MaxBackoff cfg else doubled))
      | Some elapsed \<Rightarrow> (successfulReportDelay (cfg_ReportInterval cfg) elapsed, cfg_ReportInterval cfg))"

fun report_delays :: "agent_config \<Rightarrow> duration option list \<Rightarrow> duration \<Rightarrow> duration list" where
  "report_delays cfg [] backoff = []"
| "report_delays cfg (x # xs) backoff =
     fst (report_turn cfg x backoff) # report_delays cfg xs (snd (report_turn cfg x backoff))"

section \<open>The hook endpoint\<close>

definition MaxHookPayload :: int where "MaxHookPayload = 65536"

record hook_request =
  hq_Authorization :: string
  hq_Secret :: string
  hq_Body :: "string option"

text \<open>
  A body that fails to be read, or is longer than the limit. The reader is bounded to one byte more
  than the limit (the limits in use are far from the largest \<open>int64\<close>).
\<close>

definition readLimitedBody :: "string option \<Rightarrow> int \<Rightarrow> string option" where
  "readLimitedBody reader limit =
     (case reader of
        None \<Rightarrow> None
      | Some b \<Rightarrow>
          let body = read_upto (limit + 1) b
          in if int (length body) > limit then None else Some body)"

text \<open>
  The decoder's outcome on the whole body is an argument: \<open>None\<close> stands for a decoding error, an
  unknown field or a second JSON value, all answered with the same status.
\<close>

definition decodeLimitedJSON :: "(string \<Rightarrow> 'a option) \<Rightarrow> string option \<Rightarrow> int \<Rightarrow> (nat, 'a) result" where
  "decodeLimitedJSON decode reader limit =
     (case readLimitedBody reader limit of
        None \<Rightarrow> Inl 413
      | Some body \<Rightarrow> (case decode body of None \<Rightarrow> Inl 400 | Some target \<Rightarrow> Inr target))"

definition validLocalSecret :: "(string \<Rightarrow> string) \<Rightarrow> hook_request \<Rightarrow> string \<Rightarrow> bool" where
  "validLocalSecret sha request secret =
     (let bearer = TrimSpace (trim_prefix (hq_Authorization request) ''Bearer '');
          provided = (if bearer = [] then hq_Secret request else bearer)
      in sha secret = sha provided)"

definition handle_events ::
    "(string \<Rightarrow> string) \<Rightarrow> (string \<Rightarrow> event option) \<Rightarrow> string \<Rightarrow> int \<Rightarrow> time \<Rightarrow> hook_request \<Rightarrow> agent \<Rightarrow>
     nat \<times> agent" where
  "handle_events sha decode secret limit now request a =
     (if \<not> validLocalSecret sha request secret then (401, a)
      else case decodeLimitedJSON decode (hq_Body request) limit of
        Inl status \<Rightarrow> (status, a)
      | Inr e \<Rightarrow>
          if ev_Probe e \<or> ev_SessionID e = [] \<or>
             (ev_Provider e \<noteq> ProviderCodex \<and> ev_Provider e \<noteq> ProviderClaude) then (400, a)
          else (204, a\<lparr>ag_ledger := Apply now e (ag_ledger a)\<rparr>))"

definition handle_statusline ::
    "(string \<Rightarrow> string) \<Rightarrow> claude_lib \<Rightarrow> (string \<Rightarrow> json option) \<Rightarrow> string \<Rightarrow> int \<Rightarrow> time \<Rightarrow> hook_request \<Rightarrow> agent \<Rightarrow>
     nat \<times> agent" where
  "handle_statusline sha lib decode secret limit now request a =
     (if \<not> validLocalSecret sha request secret then (401, a)
      else case readLimitedBody (hq_Body request) limit of
        None \<Rightarrow> (413, a)
      | Some body \<Rightarrow>
        (case ParseClaudeStatusLine lib (decode body) now of
           Inl _ \<Rightarrow> (400, a)
         | Inr report \<Rightarrow> (204, IngestStatusLine report a)))"

section \<open>The provider map\<close>

lemma store_frame [simp]: "ag_cfg (storeCollectionResult i a) = ag_cfg a"
  "ag_ledger (storeCollectionResult i a) = ag_ledger a"
  by (simp_all add: storeCollectionResult_def)

lemma store_get:
  "gomap_get (ag_providers (storeCollectionResult i a)) p =
     (if p = cr_provider i then Some (collected_report (gomap_get (ag_providers a) p) i)
      else gomap_get (ag_providers a) p)"
  by (simp add: storeCollectionResult_def gomap_gets)

lemma fold_store_get:
  assumes "distinct (map cr_provider items)"
  shows "gomap_get (ag_providers (fold storeCollectionResult items a)) p =
    (case find (\<lambda>i. cr_provider i = p) items of
       None \<Rightarrow> gomap_get (ag_providers a) p
     | Some i \<Rightarrow> Some (collected_report (gomap_get (ag_providers a) p) i))"
  using assms
proof (induction items arbitrary: a)
  case (Cons i items)
  have "find (\<lambda>j. cr_provider j = cr_provider i) items = None"
    using Cons.prems unfolding find_None_iff by (metis distinct.simps(2) image_eqI list.set_map list.simps(9))
  with Cons show ?case by (auto simp: store_get cong: option.case_cong)
qed simp

lemma find_unique_key:
  assumes "distinct (map f xs)" and "mset xs = mset ys"
  shows "find (\<lambda>x. f x = k) xs = find (\<lambda>x. f x = k) ys"
proof -
  have ys: "distinct (map f ys)" "set xs = set ys"
    using assms by (metis mset_map mset_eq_imp_distinct_iff, metis set_mset_mset)
  have char: "find (\<lambda>x. f x = k) zs = Some x \<longleftrightarrow> x \<in> set zs \<and> f x = k" if "distinct (map f zs)" for zs x
    using that by (induction zs) auto
  have "find (\<lambda>x. f x = k) xs = Some x \<longleftrightarrow> find (\<lambda>x. f x = k) ys = Some x" for x
    using char [OF assms(1)] char [OF ys(1)] ys(2) by simp
  then show ?thesis by (metis not_Some_eq)
qed

lemma items_distinct: "distinct (map cr_provider (collection_items collect cfg))"
  by (simp add: collection_items_def configuredCollectors_def)

section \<open>Properties: collection\<close>

text \<open>
  Concurrent and sequential collection leave the same state. Whatever order the two collectors
  finish in, the provider map afterwards answers every lookup as if they had been run one after
  the other, and nothing else of the agent changes.
\<close>

theorem concurrent_collection_equals_sequential:
  assumes "mset arrival = mset (collection_items collect (ag_cfg a))"
  shows "gomap_get (ag_providers (CollectOnce collect arrival a)) p =
      gomap_get (ag_providers (fold storeCollectionResult (collection_items collect (ag_cfg a)) a)) p \<and>
    ag_cfg (CollectOnce collect arrival a) = ag_cfg a \<and> ag_ledger (CollectOnce collect arrival a) = ag_ledger a"
proof -
  have frame: "ag_cfg (fold storeCollectionResult items a) = ag_cfg a"
    "ag_ledger (fold storeCollectionResult items a) = ag_ledger a" for items
    by (induction items arbitrary: a) simp_all
  have d: "distinct (map cr_provider arrival)"
    using items_distinct [of collect "ag_cfg a"] assms by (metis mset_map mset_eq_imp_distinct_iff)
  show ?thesis
    using find_unique_key [OF d assms] fold_store_get [OF d] fold_store_get [OF items_distinct] frame
    by (simp add: CollectOnce_def)
qed

definition demo_agent_config :: agent_config where
  "demo_agent_config = \<lparr>cfg_AgentID = ''host-1'', cfg_ServerURL = ''https://q'', cfg_Token = ''t'',
     cfg_Codex = True, cfg_Claude = True, cfg_PlanOverrides = [(ProviderClaude, '' max20 '')],
     cfg_HookAddr = [], cfg_HookSecret = [], cfg_ReportInterval = 0, cfg_CollectInterval = 0, cfg_SequentialCollection = False,
     cfg_MaxBackoff = 0, cfg_ReportSink = False, cfg_AllowInsecureHTTP = False\<rparr>"

definition demo_agent :: agent where
  "demo_agent = \<lparr>ag_cfg = demo_agent_config\<lparr>cfg_PlanOverrides := [(ProviderClaude, ''max20'')]\<rparr>,
     ag_providers = [], ag_ledger = NewLedger 0\<rparr>"

definition demo_collect :: "provider_name \<Rightarrow> provider_report \<times> bool" where
  "demo_collect p = (demo_poll 5 \<lparr>FiveHour = Some (demo_quota 9), SevenDay = None\<rparr>, p = ProviderCodex)"

theorem concurrent_collection_equals_sequential_witness:
  "gomap_get (ag_providers (CollectOnce demo_collect (rev (collection_items demo_collect (ag_cfg demo_agent))) demo_agent))
     ProviderClaude =
   gomap_get (ag_providers (fold storeCollectionResult (collection_items demo_collect (ag_cfg demo_agent)) demo_agent))
     ProviderClaude"
proof -
  have "mset (rev (collection_items demo_collect (ag_cfg demo_agent))) =
      mset (collection_items demo_collect (ag_cfg demo_agent))" by simp
  from concurrent_collection_equals_sequential [OF this, of ProviderClaude] show ?thesis by (rule conjunct1)
qed

text \<open>
  A failed collection keeps the last quota. If the agent already shows windows for a provider, a
  collection that fails changes nothing of that provider but the error code, which is never empty,
  and nothing of any other provider.
\<close>

theorem failed_collection_keeps_quota:
  assumes "gomap_get (ag_providers a) (cr_provider item) = Some old" and "Windows old \<noteq> no_windows"
    and "cr_failed item"
  shows "(\<exists>code. code \<noteq> [] \<and>
      gomap_get (ag_providers (storeCollectionResult item a)) (cr_provider item) = Some (old\<lparr>ErrorCode := code\<rparr>)) \<and>
    (\<forall>p. p \<noteq> cr_provider item \<longrightarrow>
      gomap_get (ag_providers (storeCollectionResult item a)) p = gomap_get (ag_providers a) p)"
proof -
  let ?code = "if ErrorCode (cr_report item) \<noteq> [] then ErrorCode (cr_report item) else ''collection_failed''"
  have "FiveHour (Windows old) \<noteq> None \<or> SevenDay (Windows old) \<noteq> None"
    using assms(2) unfolding no_windows_iff [of "Windows old"] by simp
  then have "collected_report (Some old) item = old\<lparr>ErrorCode := ?code\<rparr>"
    using assms(3) by (simp add: collected_report_def)
  then have "gomap_get (ag_providers (storeCollectionResult item a)) (cr_provider item) =
      Some (old\<lparr>ErrorCode := ?code\<rparr>)"
    unfolding store_get assms(1) by simp
  moreover have "?code \<noteq> []" by simp
  moreover have "gomap_get (ag_providers (storeCollectionResult item a)) p = gomap_get (ag_providers a) p"
    if "p \<noteq> cr_provider item" for p using that by (simp add: store_get)
  ultimately show ?thesis by blast
qed

definition demo_failure :: collectionResult where
  "demo_failure = \<lparr>cr_provider = ProviderCodex, cr_report = unavailableReport [] [] 6, cr_failed = True\<rparr>"

definition demo_quota_agent :: agent where
  "demo_quota_agent = demo_agent\<lparr>ag_providers :=
     [(ProviderCodex, demo_poll 5 \<lparr>FiveHour = Some (demo_quota 9), SevenDay = None\<rparr>)]\<rparr>"

theorem failed_collection_keeps_quota_witness:
  "\<exists>code. code \<noteq> [] \<and> gomap_get (ag_providers (storeCollectionResult demo_failure demo_quota_agent)) ProviderCodex =
     Some ((demo_poll 5 \<lparr>FiveHour = Some (demo_quota 9), SevenDay = None\<rparr>)\<lparr>ErrorCode := code\<rparr>)"
proof -
  have "gomap_get (ag_providers demo_quota_agent) (cr_provider demo_failure) =
      Some (demo_poll 5 \<lparr>FiveHour = Some (demo_quota 9), SevenDay = None\<rparr>)"
    by (simp add: demo_quota_agent_def demo_failure_def gomap_get_def)
  moreover have "Windows (demo_poll 5 \<lparr>FiveHour = Some (demo_quota 9), SevenDay = None\<rparr>) \<noteq> no_windows"
    by (simp add: demo_poll_def no_windows_def)
  moreover have f: "cr_failed demo_failure" "cr_provider demo_failure = ProviderCodex"
    by (simp_all add: demo_failure_def)
  ultimately show ?thesis
    using failed_collection_keeps_quota [of demo_quota_agent demo_failure] unfolding f(2) by blast
qed

section \<open>Everything an agent uploads\<close>

text \<open>The inputs of a running agent, in their order of arrival.\<close>

datatype agent_input =
    Collected collectionResult
  | StatusLine provider_report
  | HookEvent time event

fun apply_input :: "agent_input \<Rightarrow> agent \<Rightarrow> agent" where
  "apply_input (Collected item) a = storeCollectionResult item a"
| "apply_input (StatusLine report) a = IngestStatusLine report a"
| "apply_input (HookEvent now e) a = a\<lparr>ag_ledger := Apply now e (ag_ledger a)\<rparr>"

text \<open>A provider report the collectors can produce up to time \<open>b\<close>.\<close>

definition stored_ok :: "time \<Rightarrow> provider_name \<Rightarrow> provider_report \<Rightarrow> bool" where
  "stored_ok b p r =
     (ValidProvider p \<and> length (AuthState r) \<le> 64 \<and> length (Plan r) \<le> 128 \<and> length (Source r) \<le> 128 \<and>
      length (ErrorCode r) \<le> 128 \<and> ObservedAt r \<noteq> zero_time \<and> ObservedAt r \<le> b \<and> windows_wf (Windows r))"

fun input_ok :: "time \<Rightarrow> agent_input \<Rightarrow> bool" where
  "input_ok b (Collected item) = stored_ok b (cr_provider item) (cr_report item)"
| "input_ok b (StatusLine report) = stored_ok b ProviderClaude report"
| "input_ok b (HookEvent now e) = (opaque (ev_SessionID e) \<and> (ev_TaskID e = [] \<or> opaque (ev_TaskID e)))"

fun hook_events :: "agent_input list \<Rightarrow> (time \<times> event) list" where
  "hook_events [] = []"
| "hook_events (HookEvent now e # xs) = (now, e) # hook_events xs"
| "hook_events (Collected item # xs) = hook_events xs"
| "hook_events (StatusLine report # xs) = hook_events xs"

lemma stored_ok_iff:
  "stored_ok b p r \<longleftrightarrow> ObservedAt r \<noteq> zero_time \<and>
     provider_wf (b - MaxFutureSkew) (b - MaxFutureSkew) (p, r)"
  by (auto simp: stored_ok_def provider_wf_def)

lemma stored_ok_provider_wf:
  "stored_ok b p r \<Longrightarrow> b \<le> sentAt + MaxFutureSkew \<Longrightarrow> b \<le> now + MaxFutureSkew \<Longrightarrow>
     provider_wf sentAt now (p, r)"
  by (auto simp: stored_ok_def provider_wf_def)

lemma stored_ok_merge: "stored_ok b p x \<Longrightarrow> stored_ok b p y \<Longrightarrow> stored_ok b p (MergeProviderReports x y)"
  using MergeProviderReports_wf [of "b - MaxFutureSkew" "b - MaxFutureSkew" p x y] by (simp add: stored_ok_iff)

lemma stored_ok_error: "stored_ok b p r \<Longrightarrow> length c \<le> 128 \<Longrightarrow> stored_ok b p (r\<lparr>ErrorCode := c\<rparr>)"
  by (simp add: stored_ok_def)

definition providers_ok :: "time \<Rightarrow> agent \<Rightarrow> bool" where
  "providers_ok b a = (gomap_wf (ag_providers a) \<and> (\<forall>(p, r)\<in>set (ag_providers a). stored_ok b p r))"

lemma providers_ok_get: "providers_ok b a \<Longrightarrow> gomap_get (ag_providers a) p = Some r \<Longrightarrow> stored_ok b p r"
  by (auto simp: providers_ok_def dest: gomap_get_in_set)

lemma providers_ok_put:
  "providers_ok b a \<Longrightarrow> stored_ok b p r \<Longrightarrow> providers_ok b (a\<lparr>ag_providers := gomap_put p r (ag_providers a)\<rparr>)"
  by (auto simp: providers_ok_def gomap_wfs set_gomap_put)

lemma collected_report_ok:
  assumes "\<And>old. previous = Some old \<Longrightarrow> stored_ok b (cr_provider item) old"
    and "stored_ok b (cr_provider item) (cr_report item)"
  shows "stored_ok b (cr_provider item) (collected_report previous item)"
proof -
  have "length (ErrorCode (cr_report item)) \<le> 128" using assms(2) by (simp add: stored_ok_def)
  then show ?thesis
    using assms by (auto simp: collected_report_def intro!: stored_ok_error stored_ok_merge split: option.split)
qed

lemma apply_input_ok: "providers_ok b a \<Longrightarrow> input_ok b x \<Longrightarrow> providers_ok b (apply_input x a)"
proof (induction x a rule: apply_input.induct)
  case (1 item a)
  then have "stored_ok b (cr_provider item)
      (collected_report (gomap_get (ag_providers a) (cr_provider item)) item)"
    by (intro collected_report_ok) (auto dest: providers_ok_get)
  with 1 show ?case by (simp add: storeCollectionResult_def providers_ok_put)
next
  case (2 report a)
  then have "stored_ok b ProviderClaude (case gomap_get (ag_providers a) ProviderClaude of
      Some previous \<Rightarrow> MergeProviderReports previous report | None \<Rightarrow> report)"
    by (auto dest: providers_ok_get intro!: stored_ok_merge split: option.split)
  with 2 show ?case by (simp add: IngestStatusLine_def providers_ok_put)
qed (simp add: providers_ok_def)

lemma apply_inputs_ok:
  "providers_ok b a \<Longrightarrow> \<forall>x\<in>set xs. input_ok b x \<Longrightarrow> providers_ok b (fold apply_input xs a)"
  by (induction xs arbitrary: a) (simp_all add: apply_input_ok)

lemma apply_inputs_frame:
  "ag_cfg (fold apply_input xs a) = ag_cfg a"
  "ag_ledger (fold apply_input xs a) = apply_events (hook_events xs) (ag_ledger a)"
proof -
  have cfg: "ag_cfg (apply_input x a) = ag_cfg a" for x and a :: agent
    by (cases x) (simp_all add: IngestStatusLine_def)
  then show "ag_cfg (fold apply_input xs a) = ag_cfg a" by (induction xs arbitrary: a) simp_all
  show "ag_ledger (fold apply_input xs a) = apply_events (hook_events xs) (ag_ledger a)"
    by (induction xs arbitrary: a rule: hook_events.induct)
      (simp_all add: apply_events_def IngestStatusLine_def)
qed

lemma hook_events_ok:
  assumes "\<forall>x\<in>set xs. input_ok b x"
  shows "\<forall>(now, e)\<in>set (hook_events xs). opaque (ev_SessionID e) \<and> (ev_TaskID e = [] \<or> opaque (ev_TaskID e))"
  using assms by (induction xs rule: hook_events.induct) auto

lemma planOverridePattern_length: "planOverridePattern s \<Longrightarrow> length s \<le> 32"
  by (cases s) (simp_all add: planOverridePattern_def)

lemma normalize_overrides_ok:
  assumes "normalize_overrides acc os = ok res" and "gomap_wf acc" "\<forall>(p, s)\<in>set acc. length s \<le> 32"
  shows "gomap_wf res \<and> (\<forall>(p, s)\<in>set res. length s \<le> 32)"
  using assms
proof (induction acc os rule: normalize_overrides.induct)
  case (2 acc provider rawPlan rest)
  show ?case
  proof (cases "TrimSpace rawPlan = []")
    case True
    with 2 show ?thesis by (simp split: if_splits)
  next
    case False
    with 2(3) have "planOverridePattern (TrimSpace rawPlan)" "ValidProvider provider"
      "normalize_overrides (gomap_put provider (TrimSpace rawPlan) acc) rest = ok res"
      by (simp_all split: if_splits)
    moreover have "\<forall>(p, s)\<in>set (gomap_put provider (TrimSpace rawPlan) acc). length s \<le> 32"
      using 2(4,5) planOverridePattern_length calculation(1) by (auto simp: set_gomap_put)
    ultimately show ?thesis using 2(2) [OF _ False] 2(4) by (simp add: gomap_wfs)
  qed
qed simp

definition overrides_ok :: "agent_config \<Rightarrow> bool" where
  "overrides_ok cfg = (\<forall>p plan. gomap_get (cfg_PlanOverrides cfg) p = Some plan \<longrightarrow> length plan \<le> 32)"

lemma NewAgent_ok:
  assumes "NewAgent parse_url ip cfg None = ok a"
  shows "validAgentID (cfg_AgentID (ag_cfg a))" "overrides_ok (ag_cfg a)" "ag_providers a = []"
    "ag_ledger a = NewLedger DefaultTaskTTL"
proof -
  obtain os where os: "normalize_overrides [] (cfg_PlanOverrides cfg) = ok os"
    "validAgentID (cfg_AgentID cfg)" "ag_cfg a = cfg\<lparr>cfg_ReportInterval := positive_or (cfg_ReportInterval cfg) DefaultReportInterval,
        cfg_CollectInterval := positive_or (cfg_CollectInterval cfg) DefaultCollectInterval,
        cfg_MaxBackoff := positive_or (cfg_MaxBackoff cfg) (2 * minute), cfg_PlanOverrides := os\<rparr>"
    "ag_providers a = []" "ag_ledger a = NewLedger DefaultTaskTTL"
    using assms by (auto simp: NewAgent_def split: if_splits option.splits sum.splits)
  show "validAgentID (cfg_AgentID (ag_cfg a))" "ag_providers a = []" "ag_ledger a = NewLedger DefaultTaskTTL"
    using os by simp_all
  have "\<forall>(p, s)\<in>set os. length s \<le> 32"
    using normalize_overrides_ok [OF os(1)] by (simp add: gomap_wfs)
  then show "overrides_ok (ag_cfg a)"
    using os(3) by (auto simp: overrides_ok_def dest!: gomap_get_in_set)
qed

lemma override_plan_wf:
  "overrides_ok cfg \<Longrightarrow> provider_wf sentAt now (p, r) \<Longrightarrow> provider_wf sentAt now (p, override_plan cfg p r)"
  by (fastforce simp: override_plan_def provider_wf_def overrides_ok_def split: option.split)

lemma snapshot_report_accepted:
  assumes "validAgentID (cfg_AgentID (ag_cfg a))" "overrides_ok (ag_cfg a)" "providers_ok b a"
    and "ledger_wf (ag_ledger a)" "ids_ok (ag_ledger a)" "times_ok b (ag_ledger a)" "zero_time < b"
    and "b \<le> now + MaxFutureSkew" "b \<le> recv + MaxFutureSkew"
    and "now \<noteq> zero_time" "recv - MaxReportAge \<le> now" "now \<le> recv + MaxFutureSkew"
    and "length (fst (Snapshot now (ag_ledger a))) \<le> 256"
  shows "ValidateAgentReport (fst (SnapshotReport now a)) recv = None"
proof -
  let ?r = "fst (SnapshotReport now a)"
  have r: "ar_SchemaVersion ?r = SchemaVersion" "ar_AgentID ?r = cfg_AgentID (ag_cfg a)" "ar_SentAt ?r = now"
    "ar_Providers ?r = Some (map (\<lambda>(p, r). (p, override_plan (ag_cfg a) p r)) (ag_providers a))"
    "ar_ActiveTasks ?r = Some (fst (Snapshot now (ag_ledger a)))"
    by (simp_all add: SnapshotReport_def split: prod.split)
  have "provider_wf now recv pr" if "pr \<in> set (map (\<lambda>(p, r). (p, override_plan (ag_cfg a) p r)) (ag_providers a))" for pr
    using that assms(2,3,8,9) by (auto simp: providers_ok_def intro!: override_plan_wf stored_ok_provider_wf)
  moreover have "validate_tasks now recv 0 [] (fst (Snapshot now (ag_ledger a))) = None"
    by (rule snapshot_accepted [OF assms(4-9)])
  ultimately show ?thesis
    unfolding ValidateAgentReport_iff report_wf_def r
    using assms(1,10-13) by (simp add: accepted_tasks)
qed

section \<open>Properties: reports\<close>


definition demo_parse_url :: "string \<Rightarrow> parsed_url option" where
  "demo_parse_url s = Some \<lparr>u_Scheme = ''https'', u_Host = ''q'', u_Hostname = ''q'', u_User = False\<rparr>"

definition demo_new_agent :: agent where
  "demo_new_agent = \<lparr>ag_cfg = demo_agent_config\<lparr>cfg_ReportInterval := 15 * second,
     cfg_CollectInterval := 60 * second, cfg_MaxBackoff := 2 * minute,
     cfg_PlanOverrides := [(ProviderClaude, ''max20'')]\<rparr>, ag_providers = [],
     ag_ledger = NewLedger DefaultTaskTTL\<rparr>"

lemma demo_new_agent: "NewAgent demo_parse_url (\<lambda>_. False) demo_agent_config None = ok demo_new_agent"
proof -
  have "validAgentID ''host-1''" "TrimSpace '' max20 '' = ''max20''" "planOverridePattern ''max20''"
    by code_simp+
  then show ?thesis
    by (simp add: NewAgent_def server_url_error_def demo_parse_url_def demo_agent_config_def
        demo_new_agent_def positive_or_def ValidProvider_def gomap_put_def
        DefaultReportInterval_def DefaultCollectInterval_def)
qed

definition demo_inputs :: "agent_input list" where
  "demo_inputs =
     [Collected \<lparr>cr_provider = ProviderClaude, cr_report = demo_poll (1000 * second) no_windows, cr_failed = False\<rparr>,
      HookEvent (1000 * second) (prompt_event ''UserPromptSubmit'' (1000 * second)),
      StatusLine (demo_poll (1001 * second) no_windows),
      Collected \<lparr>cr_provider = ProviderCodex,
        cr_report = unavailableReport ''codex-app-server'' ''start_failed'' (1001 * second), cr_failed = True\<rparr>]"


section \<open>Properties: the retry schedule\<close>

text \<open>The backoff after \<open>n\<close> failures in a row.\<close>

definition backoff_after :: "agent_config \<Rightarrow> nat \<Rightarrow> duration" where
  "backoff_after cfg n =
     (if n = 0 then cfg_ReportInterval cfg
      else min (cfg_ReportInterval cfg * 2 ^ n) (cfg_MaxBackoff cfg))"

lemma backoff_step:
  assumes "0 < cfg_ReportInterval cfg" "cfg_ReportInterval cfg \<le> 2 ^ 61"
    and "0 < cfg_MaxBackoff cfg" "cfg_MaxBackoff cfg \<le> 2 ^ 61"
  shows "report_turn cfg None (backoff_after cfg n) = (backoff_after cfg n, backoff_after cfg (Suc n))"
proof -
  let ?i = "cfg_ReportInterval cfg" and ?m = "cfg_MaxBackoff cfg" and ?b = "backoff_after cfg n"
  have b: "0 < ?b" "?b \<le> 2 ^ 61" using assms by (auto simp: backoff_after_def min_def)
  then have w: "wrap_int64 (?b * 2) = ?b * 2" by (intro wrap_int64_id) (simp add: int64_defs)
  have "min (?b * 2) ?m = backoff_after cfg (Suc n)"
  proof (cases "n = 0 \<or> ?i * 2 ^ n \<le> ?m")
    case True
    then show ?thesis using assms by (auto simp: backoff_after_def min_def mult.commute mult.left_commute)
  next
    case False
    then have "?b = ?m" "?m \<le> ?i * 2 ^ n * 2" using assms by (auto simp: backoff_after_def min_def)
    then show ?thesis using assms(3) by (simp add: backoff_after_def min_def mult.assoc mult.commute)
  qed
  then show ?thesis by (auto simp: report_turn_def Let_def w min_def split: if_splits)
qed

text \<open>The schedule: \<open>n\<close> counts the failures since the last success.\<close>

fun schedule_spec :: "agent_config \<Rightarrow> nat \<Rightarrow> duration option list \<Rightarrow> duration list \<Rightarrow> bool" where
  "schedule_spec cfg n [] ds = (ds = [])"
| "schedule_spec cfg n (None # xs) (d # ds) =
     (d = (if n = 0 then cfg_ReportInterval cfg else min (cfg_ReportInterval cfg * 2 ^ n) (cfg_MaxBackoff cfg)) \<and>
      schedule_spec cfg (Suc n) xs ds)"
| "schedule_spec cfg n (Some elapsed # xs) (d # ds) =
     (d = max 0 (cfg_ReportInterval cfg - elapsed) \<and> 0 \<le> d \<and> d \<le> cfg_ReportInterval cfg \<and>
      schedule_spec cfg 0 xs ds)"
| "schedule_spec cfg n (x # xs) [] = False"

lemma schedule_from:
  assumes "0 < cfg_ReportInterval cfg" "cfg_ReportInterval cfg \<le> 2 ^ 61"
    and "0 < cfg_MaxBackoff cfg" "cfg_MaxBackoff cfg \<le> 2 ^ 61"
    and "\<forall>x\<in>set outcomes. pred_option (\<lambda>d. 0 \<le> d) x"
  shows "schedule_spec cfg n outcomes (report_delays cfg outcomes (backoff_after cfg n))"
  using assms(5)
proof (induction outcomes arbitrary: n)
  case (Cons x xs)
  show ?case
  proof (cases x)
    case None
    then show ?thesis
      using Cons.IH [of "Suc n"] Cons.prems backoff_step [OF assms(1-4), of n]
      by (simp add: backoff_after_def [of cfg n])
  next
    case (Some elapsed)
    then have "report_turn cfg x (backoff_after cfg n) =
        (successfulReportDelay (cfg_ReportInterval cfg) elapsed, backoff_after cfg 0)"
      by (simp add: report_turn_def backoff_after_def)
    then show ?thesis
      using Some Cons.IH [of 0] Cons.prems assms(1) by (auto simp: successfulReportDelay_def)
  qed
qed simp

text \<open>
  Failed reports are retried with a capped exponential backoff. However successes and failures
  alternate, each failure after \<open>n\<close> earlier failures in a row waits the report interval for \<open>n = 0\<close>
  and otherwise the interval doubled \<open>n\<close> times but at most \<open>MaxBackoff\<close>; a success resets the
  count, and its own delay lies between zero and the interval.
\<close>

theorem report_backoff_is_capped:
  assumes "0 < cfg_ReportInterval cfg" "cfg_ReportInterval cfg \<le> 2 ^ 61"
    and "0 < cfg_MaxBackoff cfg" "cfg_MaxBackoff cfg \<le> 2 ^ 61"
    and "\<forall>x\<in>set outcomes. pred_option (\<lambda>d. 0 \<le> d) x"
  shows "schedule_spec cfg 0 outcomes (report_delays cfg outcomes (cfg_ReportInterval cfg))"
  using schedule_from [OF assms, of 0] by (simp add: backoff_after_def)

theorem report_backoff_is_capped_witness:
  "schedule_spec (ag_cfg demo_new_agent) 0 [None, None, None, None, None, Some second]
     [15 * second, 30 * second, 60 * second, 120 * second, 120 * second, 14 * second]"
proof -
  have "report_delays (ag_cfg demo_new_agent) [None, None, None, None, None, Some second]
      (cfg_ReportInterval (ag_cfg demo_new_agent)) =
      [15 * second, 30 * second, 60 * second, 120 * second, 120 * second, 14 * second]"
    by code_simp
  moreover have "0 < cfg_ReportInterval (ag_cfg demo_new_agent)" "cfg_ReportInterval (ag_cfg demo_new_agent) \<le> 2 ^ 61"
    "0 < cfg_MaxBackoff (ag_cfg demo_new_agent)" "cfg_MaxBackoff (ag_cfg demo_new_agent) \<le> 2 ^ 61"
    by (simp_all add: demo_new_agent_def duration_defs)
  moreover have "\<forall>x\<in>set [None, None, None, None, None, Some second]. pred_option (\<lambda>d. 0 \<le> d) x"
    by (simp add: duration_defs)
  ultimately show ?thesis using report_backoff_is_capped by metis
qed

section \<open>Properties: the hook endpoint and the configuration\<close>

lemma readLimitedBody_Some:
  "readLimitedBody reader limit = Some b \<longleftrightarrow> reader = Some b \<and> int (length b) \<le> limit"
  by (auto simp: readLimitedBody_def Let_def read_upto_take min_def split: option.splits if_splits)

lemma decodeLimitedJSON_Inr:
  "decodeLimitedJSON decode reader limit = Inr e \<longleftrightarrow>
     (\<exists>body. reader = Some body \<and> int (length body) \<le> limit \<and> decode body = Some e)"
proof -
  have "decodeLimitedJSON decode reader limit = Inr e \<longleftrightarrow>
      (\<exists>body. readLimitedBody reader limit = Some body \<and> decode body = Some e)"
    by (auto simp: decodeLimitedJSON_def split: option.splits)
  then show ?thesis by (auto simp: readLimitedBody_Some)
qed

lemma decodeLimitedJSON_Inl: "decodeLimitedJSON decode reader limit = Inl status \<Longrightarrow> status \<in> {400, 413}"
  by (auto simp: decodeLimitedJSON_def split: option.splits)

text \<open>
  C40: The local hook endpoint changes the agent only for callers that know the secret. A request to
  either route that changes anything presented a secret with the digest of the configured one; its
  body is within the payload limit and its answer is 204. An event that is applied is not the
  monitor's own probe, names a session and a known provider; every other request is answered 400,
  401 or 413 and leaves the agent as it was.
\<close>

theorem hook_endpoint_requires_secret:
  assumes "handle_events sha decode secret limit now req a = (status, a')
      \<or> handle_statusline sha lib decodeJSON secret limit now req a = (status, a')"
  shows "(status = 204 \<and> validLocalSecret sha req secret \<and>
      (\<exists>body. hq_Body req = Some body \<and> int (length body) \<le> limit \<and>
        ((\<exists>e. decode body = Some e \<and> \<not> ev_Probe e \<and> ev_SessionID e \<noteq> [] \<and> ValidProvider (ev_Provider e) \<and>
            a' = a\<lparr>ag_ledger := Apply now e (ag_ledger a)\<rparr>) \<or>
         (\<exists>report. ParseClaudeStatusLine lib (decodeJSON body) now = ok report \<and>
            a' = IngestStatusLine report a)))) \<or>
    (status \<in> {400, 401, 413} \<and> a' = a)"
  using assms
proof
  assume h: "handle_events sha decode secret limit now req a = (status, a')"
  then show ?thesis
  proof (cases "decodeLimitedJSON decode (hq_Body req) limit")
    case (Inl s)
    with h decodeLimitedJSON_Inl [OF Inl] show ?thesis
      by (auto simp: handle_events_def split: if_splits)
  next
    case (Inr e)
    then obtain body where "hq_Body req = Some body" "int (length body) \<le> limit" "decode body = Some e"
      by (auto simp: decodeLimitedJSON_Inr)
    with Inr h show ?thesis
      by (auto simp: handle_events_def ValidProvider_def split: if_splits)
  qed
next
  assume "handle_statusline sha lib decodeJSON secret limit now req a = (status, a')"
  then show ?thesis
    by (auto simp: handle_statusline_def readLimitedBody_Some split: if_splits option.splits sum.splits)
qed

definition demo_hook :: "string \<Rightarrow> hook_request" where
  "demo_hook secret = \<lparr>hq_Authorization = ''Bearer '' @ secret, hq_Secret = [], hq_Body = Some ''{}''\<rparr>"

definition demo_decode :: "string \<Rightarrow> event option" where
  "demo_decode s = Some (prompt_event ''UserPromptSubmit'' (1000 * second))"

theorem hook_endpoint_requires_secret_witness:
  "fst (handle_events (\<lambda>s. s) demo_decode ''k1'' MaxHookPayload (1000 * second) (demo_hook ''k1'') demo_agent) = 204 \<and>
   fst (handle_events (\<lambda>s. s) demo_decode ''k1'' MaxHookPayload (1000 * second) (demo_hook ''k2'') demo_agent) = 401 \<and>
   snd (handle_events (\<lambda>s. s) demo_decode ''k1'' MaxHookPayload (1000 * second) (demo_hook ''k2'') demo_agent) = demo_agent"
proof -
  let ?h = "\<lambda>k. handle_events (\<lambda>s. s) demo_decode ''k1'' MaxHookPayload (1000 * second) (demo_hook k) demo_agent"
  have s: "fst (?h ''k1'') = 204" "fst (?h ''k2'') = 401"
    by code_simp+
  have "?h ''k2'' = (fst (?h ''k2''), snd (?h ''k2''))" by simp
  from hook_endpoint_requires_secret [OF disjI1, OF this, of demo_lib "\<lambda>_. None"] s
  have "snd (?h ''k2'') = demo_agent" by auto
  with s show ?thesis by simp
qed

text \<open>
  The agent's token never goes over plain HTTP to another machine. An agent without a local sink
  that \<open>New\<close> accepts has a non-empty token and a server URL with a host and without credentials,
  and the URL is HTTPS unless insecure HTTP was allowed explicitly and the host is a loopback one;
  the intervals and the backoff limit it runs with are positive.
\<close>

theorem accepted_config_is_safe:
  assumes "NewAgent parse_url ip cfg led = ok a"
  shows "validAgentID (cfg_AgentID (ag_cfg a)) \<and>
    0 < cfg_ReportInterval (ag_cfg a) \<and> 0 < cfg_CollectInterval (ag_cfg a) \<and> 0 < cfg_MaxBackoff (ag_cfg a) \<and>
    (cfg_ReportSink (ag_cfg a) \<or>
     (cfg_Token (ag_cfg a) \<noteq> [] \<and>
      (\<exists>u. parse_url (cfg_ServerURL (ag_cfg a)) = Some u \<and> u_Host u \<noteq> [] \<and> \<not> u_User u \<and>
         (u_Scheme u = ''https'' \<or>
          (cfg_AllowInsecureHTTP (ag_cfg a) \<and> u_Scheme u = ''http'' \<and> isLoopbackHost ip (u_Hostname u))))))"
proof -
  obtain os where a: "ag_cfg a = cfg\<lparr>cfg_ReportInterval := positive_or (cfg_ReportInterval cfg) DefaultReportInterval,
        cfg_CollectInterval := positive_or (cfg_CollectInterval cfg) DefaultCollectInterval,
        cfg_MaxBackoff := positive_or (cfg_MaxBackoff cfg) (2 * minute), cfg_PlanOverrides := os\<rparr>"
    "validAgentID (cfg_AgentID cfg)" "server_url_error parse_url ip cfg = None"
    using assms by (auto simp: NewAgent_def split: if_splits option.splits sum.splits)
  have "cfg_ReportSink cfg \<or> (cfg_Token cfg \<noteq> [] \<and>
      (\<exists>u. parse_url (cfg_ServerURL cfg) = Some u \<and> u_Host u \<noteq> [] \<and> \<not> u_User u \<and>
         (u_Scheme u = ''https'' \<or>
          (cfg_AllowInsecureHTTP cfg \<and> u_Scheme u = ''http'' \<and> isLoopbackHost ip (u_Hostname u)))))"
    using a(3) unfolding server_url_error_def by (auto split: if_splits option.splits)
  moreover have "0 < positive_or d DefaultReportInterval" "0 < positive_or d DefaultCollectInterval"
    "0 < positive_or d (2 * minute)" for d
    by (simp_all add: positive_or_def DefaultReportInterval_def DefaultCollectInterval_def duration_defs)
  ultimately show ?thesis using a(1,2) by simp
qed

theorem accepted_config_is_safe_witness:
  "validAgentID (cfg_AgentID (ag_cfg demo_new_agent)) \<and> cfg_Token (ag_cfg demo_new_agent) \<noteq> [] \<and>
   0 < cfg_MaxBackoff (ag_cfg demo_new_agent)"
proof -
  have "\<not> cfg_ReportSink (ag_cfg demo_new_agent)"
    by (simp add: demo_new_agent_def demo_agent_config_def)
  with accepted_config_is_safe [OF demo_new_agent] show ?thesis by blast
qed

end
