(* ===== verification/Host_Files.thy ===== *)
theory Host_Files
  imports Hook_Events
begin

text \<open>
  The file layer of \<open>internal/hooks/install.go\<close>: lexical paths (\<open>filepath.Clean\<close>, \<open>Dir\<close>,
  \<open>Join\<close> with the Unix separator), the host's files, \<open>atomicWrite\<close>, and the file transaction
  \<open>applyFileTransaction\<close> with \<open>snapshotFile\<close> and \<open>rollbackFileTransaction\<close>.

  A host maps cleaned paths to regular files (bytes and permission bits) and counts the system
  calls made; the environment decides, per call, whether the call works (\<open>he_works\<close>), which
  random number names a temporary file and how many bytes a failing write left behind. So every
  theorem quantifies over every pattern of failing calls. Directories are not tracked:
  \<open>os.MkdirAll\<close> is a call that may fail.
\<close>

section \<open>Paths\<close>

datatype path_key = Key (key_rooted: bool) (key_elems: "string list")

text \<open>
  The element stack of \<open>filepath.Clean\<close>, newest element first: empty and \<open>.\<close> elements are
  skipped and \<open>..\<close> removes the element before it, except at the root or after another \<open>..\<close>.
\<close>

fun clean_elems :: "bool \<Rightarrow> string list \<Rightarrow> string list \<Rightarrow> string list" where
  "clean_elems rooted stack [] = rev stack"
| "clean_elems rooted stack (e # es) =
     (if e = [] \<or> e = ''.'' then clean_elems rooted stack es
      else if e = ''..'' then
        (case stack of
           [] \<Rightarrow> clean_elems rooted (if rooted then [] else [e]) es
         | t # ts \<Rightarrow> clean_elems rooted (if t = ''..'' then e # stack else ts) es)
      else clean_elems rooted (e # stack) es)"

definition is_rooted :: "string \<Rightarrow> bool" where
  "is_rooted p = has_prefix p ''/''"

definition path_key :: "string \<Rightarrow> path_key" where
  "path_key p = Key (is_rooted p) (clean_elems (is_rooted p) [] (split_char (CHR ''/'') p))"

definition show_path :: "path_key \<Rightarrow> string" where
  "show_path k =
     (if key_elems k = [] then (if key_rooted k then ''/'' else ''.'')
      else (if key_rooted k then ''/'' else []) @ join_char (CHR ''/'') (key_elems k))"

definition Clean :: "string \<Rightarrow> string" where
  "Clean p = show_path (path_key p)"

text \<open>\<open>filepath.Dir\<close> cleans the path up to and including its last separator.\<close>

definition Dir :: "string \<Rightarrow> string" where
  "Dir p = Clean (rev (dropWhile (\<lambda>c. c \<noteq> CHR ''/'') (rev p)))"

definition path_Join :: "string list \<Rightarrow> string" where
  "path_Join es =
     (case dropWhile (\<lambda>e. e = []) es of [] \<Rightarrow> [] | es' \<Rightarrow> Clean (join_char (CHR ''/'') es'))"

section \<open>The host\<close>

record host_env =
  he_works :: "nat \<Rightarrow> bool"
  he_random :: "nat \<Rightarrow> nat"
  he_short :: "nat \<Rightarrow> nat"
  he_stamp :: "nat \<Rightarrow> string"
  he_home :: "string option"
  he_os :: string

type_synonym file_mode = nat
type_synonym host_file = "string \<times> file_mode"

record host =
  h_files :: "path_key \<rightharpoonup> host_file"
  h_calls :: nat

datatype host_error = NotExist | IOFailure

type_synonym ('e, 'a) host_action = "host \<Rightarrow> ('e, 'a) result \<times> host"

text \<open>Sequencing with Go's early return on an error.\<close>

definition and_then ::
    "('e, 'a) host_action \<Rightarrow> ('a \<Rightarrow> ('e, 'b) host_action) \<Rightarrow> ('e, 'b) host_action" where
  "and_then m f h = (case m h of (Inl e, h') \<Rightarrow> (Inl e, h') | (Inr x, h') \<Rightarrow> f x h')"

definition done_call :: "host \<Rightarrow> host" where
  "done_call h = h\<lparr>h_calls := Suc (h_calls h)\<rparr>"

definition set_file :: "path_key \<Rightarrow> host_file option \<Rightarrow> host \<Rightarrow> host" where
  "set_file k f h = h\<lparr>h_files := (h_files h)(k := f)\<rparr>"

definition syscall :: "host_env \<Rightarrow> (host_error, unit) host_action" where
  "syscall env h =
     (if he_works env (h_calls h) then (Inr (), done_call h) else (Inl IOFailure, done_call h))"

definition os_Stat :: "host_env \<Rightarrow> string \<Rightarrow> (host_error, file_mode) host_action" where
  "os_Stat env p = and_then (syscall env) (\<lambda>_ h.
     case h_files h (path_key p) of None \<Rightarrow> (Inl NotExist, h) | Some (_, mode) \<Rightarrow> (Inr mode, h))"

definition os_ReadFile :: "host_env \<Rightarrow> string \<Rightarrow> (host_error, string) host_action" where
  "os_ReadFile env p = and_then (syscall env) (\<lambda>_ h.
     case h_files h (path_key p) of None \<Rightarrow> (Inl NotExist, h) | Some (bytes, _) \<Rightarrow> (Inr bytes, h))"

definition remove_key :: "host_env \<Rightarrow> path_key \<Rightarrow> (host_error, unit) host_action" where
  "remove_key env k = and_then (syscall env) (\<lambda>_ h.
     case h_files h k of None \<Rightarrow> (Inl NotExist, h) | Some _ \<Rightarrow> (Inr (), set_file k None h))"

definition os_Remove :: "host_env \<Rightarrow> string \<Rightarrow> (host_error, unit) host_action" where
  "os_Remove env p = remove_key env (path_key p)"

text \<open>
  \<open>os.CreateTemp(dir, ".quota-monitor-*")\<close> puts a random number in place of the star and opens the
  file exclusively with mode 0600; \<open>he_random\<close> is the number of the last attempt.
\<close>

definition temp_prefix :: string where "temp_prefix = ''.quota-monitor-''"

definition temp_path :: "string \<Rightarrow> nat \<Rightarrow> string" where
  "temp_path dir n =
     (if has_suffix dir ''/'' then dir else dir @ ''/'') @ temp_prefix @ show_nat n"

definition os_CreateTemp :: "host_env \<Rightarrow> string \<Rightarrow> (host_error, path_key) host_action" where
  "os_CreateTemp env dir h =
     and_then (syscall env) (\<lambda>_ h'.
       let k = path_key (temp_path dir (he_random env (h_calls h)))
       in case h_files h' k of
            Some _ \<Rightarrow> (Inl IOFailure, h')
          | None \<Rightarrow> (Inr k, set_file k (Some ([], 384)) h')) h"

definition temp_Chmod :: "host_env \<Rightarrow> path_key \<Rightarrow> file_mode \<Rightarrow> (host_error, unit) host_action" where
  "temp_Chmod env k mode = and_then (syscall env) (\<lambda>_ h.
     (Inr (), set_file k (map_option (\<lambda>(bytes, _). (bytes, mode)) (h_files h k)) h))"

definition append_temp :: "path_key \<Rightarrow> string \<Rightarrow> host \<Rightarrow> host" where
  "append_temp k bytes h = set_file k (map_option (\<lambda>(old, mode). (old @ bytes, mode)) (h_files h k)) h"

definition temp_Write :: "host_env \<Rightarrow> path_key \<Rightarrow> string \<Rightarrow> (host_error, unit) host_action" where
  "temp_Write env k payload h =
     (if he_works env (h_calls h) then (Inr (), append_temp k payload (done_call h))
      else (Inl IOFailure, append_temp k (take (he_short env (h_calls h)) payload) (done_call h)))"

definition os_Rename :: "host_env \<Rightarrow> path_key \<Rightarrow> string \<Rightarrow> (host_error, unit) host_action" where
  "os_Rename env k p = and_then (syscall env) (\<lambda>_ h.
     case h_files h k of
       None \<Rightarrow> (Inl NotExist, h)
     | Some f \<Rightarrow> (Inr (), set_file (path_key p) (Some f) (set_file k None h)))"

section \<open>Writing one file\<close>

text \<open>
  \<open>atomicWrite\<close>: the payload goes to a temporary file beside the target, which is renamed over it
  at the end; the deferred \<open>os.Remove\<close> of the temporary file runs on every path and its
  result is ignored.
\<close>

definition fill_temp :: "host_env \<Rightarrow> path_key \<Rightarrow> string \<Rightarrow> string \<Rightarrow> file_mode \<Rightarrow> (host_error, unit) host_action" where
  "fill_temp env k path payload mode =
     and_then (temp_Chmod env k mode) (\<lambda>_.
     and_then (temp_Write env k payload) (\<lambda>_.
     and_then (syscall env) (\<lambda>_.
     and_then (syscall env) (\<lambda>_.
     os_Rename env k path))))"

definition atomicWrite :: "host_env \<Rightarrow> string \<Rightarrow> string \<Rightarrow> file_mode \<Rightarrow> (host_error, unit) host_action" where
  "atomicWrite env path payload mode =
     and_then (syscall env) (\<lambda>_.
     and_then (os_CreateTemp env (Dir path)) (\<lambda>k h.
       case fill_temp env k path payload mode h of
         (r, h') \<Rightarrow> (r, snd (remove_key env k h'))))"

section \<open>The file transaction\<close>

record fileMutation =
  fm_path :: string
  fm_payload :: string
  fm_mode :: file_mode

record fileSnapshot =
  sn_path :: string
  sn_payload :: string
  sn_mode :: file_mode
  sn_exists :: bool

datatype transaction_error =
    DuplicatePath string
  | SnapshotFailed string
  | WriteFailed string
  | RollbackFailed string "string list"

definition effective_mode :: "file_mode \<Rightarrow> file_mode" where
  "effective_mode mode = (if mode = 0 then 384 else mode)"

definition snapshotFile :: "host_env \<Rightarrow> string \<Rightarrow> (host_error, fileSnapshot) host_action" where
  "snapshotFile env p h =
     (case os_Stat env p h of
        (Inl NotExist, h') \<Rightarrow>
          (Inr \<lparr>sn_path = p, sn_payload = [], sn_mode = 0, sn_exists = False\<rparr>, h')
      | (Inl IOFailure, h') \<Rightarrow> (Inl IOFailure, h')
      | (Inr mode, h') \<Rightarrow>
          and_then (os_ReadFile env p) (\<lambda>bytes h''.
            (Inr \<lparr>sn_path = p, sn_payload = bytes, sn_mode = mode, sn_exists = True\<rparr>, h'')) h')"

fun take_snapshots ::
    "host_env \<Rightarrow> string list \<Rightarrow> fileMutation list \<Rightarrow> (transaction_error, fileSnapshot list) host_action" where
  "take_snapshots env seen [] h = (Inr [], h)"
| "take_snapshots env seen (m # ms) h =
     (if Clean (fm_path m) \<in> set seen then (Inl (DuplicatePath (fm_path m)), h)
      else case snapshotFile env (fm_path m) h of
        (Inl _, h') \<Rightarrow> (Inl (SnapshotFailed (fm_path m)), h')
      | (Inr s, h') \<Rightarrow>
          and_then (take_snapshots env (Clean (fm_path m) # seen) ms) (\<lambda>ss h''. (Inr (s # ss), h'')) h')"

text \<open>The rollback visits the snapshots it is given newest first and goes on after an error.\<close>

definition restore_file :: "host_env \<Rightarrow> fileSnapshot \<Rightarrow> (host_error, unit) host_action" where
  "restore_file env s h =
     (if sn_exists s then atomicWrite env (sn_path s) (sn_payload s) (sn_mode s) h
      else case os_Remove env (sn_path s) h of
        (Inl NotExist, h') \<Rightarrow> (Inr (), h')
      | (r, h') \<Rightarrow> (r, h'))"

fun rollback_from :: "host_env \<Rightarrow> fileSnapshot list \<Rightarrow> host \<Rightarrow> string list \<times> host" where
  "rollback_from env [] h = ([], h)"
| "rollback_from env (s # ss) h =
     (case restore_file env s h of
        (r, h') \<Rightarrow>
          (case rollback_from env ss h' of
             (es, h'') \<Rightarrow> (case r of Inl _ \<Rightarrow> sn_path s # es | Inr _ \<Rightarrow> es, h'')))"

definition rollbackFileTransaction :: "host_env \<Rightarrow> fileSnapshot list \<Rightarrow> host \<Rightarrow> string list \<times> host" where
  "rollbackFileTransaction env snapshots h = rollback_from env (rev snapshots) h"

fun write_mutations ::
    "host_env \<Rightarrow> fileSnapshot list \<Rightarrow> (fileMutation \<times> fileSnapshot) list \<Rightarrow>
     (transaction_error, unit) host_action" where
  "write_mutations env written [] h = (Inr (), h)"
| "write_mutations env written ((m, s) # rest) h =
     (case atomicWrite env (fm_path m) (fm_payload m) (effective_mode (fm_mode m)) h of
        (Inr _, h') \<Rightarrow> write_mutations env (written @ [s]) rest h'
      | (Inl _, h') \<Rightarrow>
          (case rollbackFileTransaction env (written @ [s]) h' of
             (es, h'') \<Rightarrow>
               (Inl (if es = [] then WriteFailed (fm_path m) else RollbackFailed (fm_path m) es), h'')))"

definition applyFileTransaction :: "host_env \<Rightarrow> fileMutation list \<Rightarrow> (transaction_error, unit) host_action" where
  "applyFileTransaction env mutations =
     and_then (take_snapshots env [] mutations) (\<lambda>snapshots. write_mutations env [] (zip mutations snapshots))"

section \<open>Temporary names\<close>

definition is_temp :: "path_key \<Rightarrow> bool" where
  "is_temp k = (key_elems k \<noteq> [] \<and> has_prefix (last (key_elems k)) temp_prefix)"

lemma clean_elems_snoc:
  assumes "e \<noteq> []" and "e \<noteq> ''.''" and "e \<noteq> ''..''"
  shows "\<exists>es'. clean_elems r stack (es @ [e]) = es' @ [e]"
  using assms by (induction es arbitrary: stack) (auto split: list.split)

lemma split_char_snoc:
  "d \<notin> set t \<Longrightarrow> \<exists>w ws. split_char d (s @ d # t) = w # ws @ [t]"
  by (induction s) (auto simp: split_char_notin split: list.split)

lemma temp_name_plain: "CHR ''/'' \<notin> set (temp_prefix @ show_nat n)"
  using show_nat_digits [of n]
  by (auto simp: temp_prefix_def list_all_iff is_digit_def byte_def)

lemma is_temp_temp_path: "is_temp (path_key (temp_path dir n))"
proof -
  let ?e = "temp_prefix @ show_nat n"
  have "\<exists>s. temp_path dir n = s @ CHR ''/'' # ?e"
    by (cases dir rule: rev_cases) (auto simp: temp_path_def has_suffix_def)
  then obtain s where s: "temp_path dir n = s @ CHR ''/'' # ?e" by blast
  obtain ws where ws: "split_char (CHR ''/'') (s @ CHR ''/'' # ?e) = ws @ [?e]"
    using split_char_snoc [OF temp_name_plain] by (metis append_Cons)
  have "?e \<noteq> []" "?e \<noteq> ''.''" "?e \<noteq> ''..''" by (simp_all add: temp_prefix_def)
  then have "\<exists>es. clean_elems (is_rooted (s @ CHR ''/'' # ?e)) [] (ws @ [?e]) = es @ [?e]"
    by (rule clean_elems_snoc)
  then obtain es where "clean_elems (is_rooted (s @ CHR ''/'' # ?e)) [] (ws @ [?e]) = es @ [?e]" ..
  then show ?thesis by (simp add: is_temp_def path_key_def s ws has_prefix_iff)
qed

section \<open>What one write does\<close>

text \<open>Two hosts agree when they differ in temporary files only.\<close>

definition agree :: "host \<Rightarrow> host \<Rightarrow> bool" where
  "agree h h' = (\<forall>k. \<not> is_temp k \<longrightarrow> h_files h' k = h_files h k)"

lemma agree_refl [simp]: "agree h h"
  by (simp add: agree_def)

lemma agree_trans: "agree h h' \<Longrightarrow> agree h' h'' \<Longrightarrow> agree h h''"
  by (simp add: agree_def)

lemma agree_done_call [simp]: "agree h (done_call h') = agree h h'" "agree (done_call h) h' = agree h h'"
  by (simp_all add: agree_def done_call_def)

lemma agree_set_temp: "is_temp k \<Longrightarrow> agree h (set_file k f h') = agree h h'"
  by (auto simp: agree_def set_file_def)

lemma set_file_get [simp]: "h_files (set_file k f h) k' = (if k' = k then f else h_files h k')"
  by (simp add: set_file_def)

lemma done_call_files [simp]: "h_files (done_call h) = h_files h"
  by (simp add: done_call_def)

lemma and_then_cases:
  assumes "and_then m f h = (r, h')"
  obtains e where "m h = (Inl e, h')" "r = Inl e"
  | x h1 where "m h = (Inr x, h1)" "f x h1 = (r, h')"
  using assms by (auto simp: and_then_def split: prod.splits sum.splits)

lemma syscall_agree: "syscall env h = (r, h') \<Longrightarrow> agree h h' \<and> h_files h' = h_files h"
  by (auto simp: syscall_def split: if_splits)

lemma remove_temp_agree: "is_temp k \<Longrightarrow> agree h (snd (remove_key env k h))"
  by (auto simp: remove_key_def and_then_def syscall_def agree_set_temp split: option.splits)

text \<open>Stat and read do not change the host and report the file that is there.\<close>

lemma os_Stat_spec:
  "os_Stat env p h = (r, h') \<Longrightarrow> h_files h' = h_files h \<and>
     (r = Inl NotExist \<longrightarrow> h_files h (path_key p) = None) \<and>
     (\<forall>mode. r = Inr mode \<longrightarrow> (\<exists>bytes. h_files h (path_key p) = Some (bytes, mode)))"
  by (auto simp: os_Stat_def and_then_def syscall_def split: if_splits option.splits)

lemma os_ReadFile_spec:
  "os_ReadFile env p h = (r, h') \<Longrightarrow> h_files h' = h_files h \<and>
     (\<forall>bytes. r = Inr bytes \<longrightarrow> (\<exists>mode. h_files h (path_key p) = Some (bytes, mode)))"
  by (auto simp: os_ReadFile_def and_then_def syscall_def split: if_splits option.splits)

text \<open>
  The stages of \<open>fill_temp\<close> touch the temporary file only, until the rename makes it the target.
\<close>

definition written_as :: "string \<Rightarrow> host_file \<Rightarrow> host \<Rightarrow> host \<Rightarrow> bool" where
  "written_as p f h h' = (\<forall>k. \<not> is_temp k \<longrightarrow> h_files h' k = (if k = path_key p then Some f else h_files h k))"

lemma fill_temp_spec:
  assumes "is_temp k" and "h_files h k = Some ([], m)" and "fill_temp env k p payload mode h = (r, h')"
  shows "case r of Inl _ \<Rightarrow> agree h h' | Inr _ \<Rightarrow> written_as p (payload, mode) h h'"
  using assms
  by (auto simp: fill_temp_def temp_Chmod_def temp_Write_def os_Rename_def and_then_def syscall_def
      append_temp_def written_as_def agree_def split: if_splits option.splits)

lemma atomicWrite_spec:
  assumes "atomicWrite env p payload mode h = (r, h')"
  shows "case r of Inl _ \<Rightarrow> agree h h' | Inr _ \<Rightarrow> written_as p (payload, mode) h h'"
proof -
  from assms [unfolded atomicWrite_def] show ?thesis
  proof (cases rule: and_then_cases)
    case 1
    then show ?thesis by (simp add: syscall_agree)
  next
    case (2 u h1)
    have h1: "agree h h1" using 2(1) by (simp add: syscall_agree)
    from 2(2) show ?thesis
    proof (cases rule: and_then_cases)
      case (1 e)
      then have "agree h1 h'"
        by (auto simp: os_CreateTemp_def and_then_def syscall_def Let_def split: if_splits option.splits)
      with 1 h1 show ?thesis using agree_trans by simp
    next
      case (2 k h2)
      then have k: "is_temp k" "h_files h2 k = Some ([], 384)" "agree h1 h2"
        by (auto simp: os_CreateTemp_def and_then_def syscall_def Let_def is_temp_temp_path agree_set_temp
            split: if_splits option.splits)
      obtain h3 where h3: "fill_temp env k p payload mode h2 = (r, h3)" "h' = snd (remove_key env k h3)"
        using 2(2) by (auto split: prod.splits)
      have "agree h h2" "agree h3 h'"
        using h1 k(3) h3(2) remove_temp_agree [OF k(1)] by (auto intro: agree_trans)
      with fill_temp_spec [OF k(1,2) h3(1)] show ?thesis
        by (cases r) (simp_all add: written_as_def agree_def)
    qed
  qed
qed

section \<open>Snapshots and rollback\<close>

definition snapshot_of :: "host \<Rightarrow> fileSnapshot \<Rightarrow> bool" where
  "snapshot_of h s =
     (h_files h (path_key (sn_path s)) = (if sn_exists s then Some (sn_payload s, sn_mode s) else None))"

lemma snapshotFile_spec:
  assumes "snapshotFile env p h = (r, h')"
  shows "h_files h' = h_files h" and "r = Inr s \<Longrightarrow> sn_path s = p \<and> snapshot_of h s"
proof -
  obtain r1 h1 where st: "os_Stat env p h = (r1, h1)" by fastforce
  note stat = os_Stat_spec [OF st]
  have "h_files h' = h_files h \<and> (r = Inr s \<longrightarrow> sn_path s = p \<and> snapshot_of h s)"
  proof (cases r1)
    case (Inl e)
    with assms st stat show ?thesis
      by (cases e) (auto simp: snapshotFile_def snapshot_of_def)
  next
    case (Inr mode)
    then have "and_then (os_ReadFile env p) (\<lambda>bytes h''.
        (Inr \<lparr>sn_path = p, sn_payload = bytes, sn_mode = mode, sn_exists = True\<rparr>, h'')) h1 = (r, h')"
      using assms st by (simp add: snapshotFile_def)
    then show ?thesis
      by (cases rule: and_then_cases) (use stat Inr in \<open>auto simp: snapshot_of_def dest!: os_ReadFile_spec\<close>)
  qed
  then show "h_files h' = h_files h" and "r = Inr s \<Longrightarrow> sn_path s = p \<and> snapshot_of h s" by auto
qed

lemma snapshot_of_cong: "h_files h = h_files h' \<Longrightarrow> snapshot_of h = snapshot_of h'"
  by (simp add: snapshot_of_def fun_eq_iff)

lemma take_snapshots_spec:
  assumes "take_snapshots env seen ms h = (r, h')"
  shows "h_files h' = h_files h \<and>
    (\<forall>ss. r = Inr ss \<longrightarrow> map sn_path ss = map fm_path ms \<and> list_all (snapshot_of h) ss \<and>
       distinct (map (Clean \<circ> fm_path) ms) \<and> set seen \<inter> set (map (Clean \<circ> fm_path) ms) = {})"
  using assms
proof (induction ms arbitrary: seen h r h')
  case (Cons m ms)
  show ?case
  proof (cases "Clean (fm_path m) \<in> set seen")
    case True
    with Cons.prems show ?thesis by auto
  next
    case False
    obtain r1 h1 where sn: "snapshotFile env (fm_path m) h = (r1, h1)" by fastforce
    note spec = snapshotFile_spec [OF sn]
    show ?thesis
    proof (cases r1)
      case (Inl e)
      with Cons.prems sn False spec(1) show ?thesis by auto
    next
      case (Inr s)
      with Cons.prems sn False
      have "and_then (take_snapshots env (Clean (fm_path m) # seen) ms) (\<lambda>ss h''. (Inr (s # ss), h'')) h1 = (r, h')"
        by simp
      then show ?thesis
      proof (cases rule: and_then_cases)
        case (1 e)
        with Cons.IH [OF 1(1)] spec(1) show ?thesis by simp
      next
        case (2 ss h2)
        with Cons.IH [OF 2(1)] spec(1) spec(2) [OF Inr] snapshot_of_cong [OF spec(1)] False
        show ?thesis by auto
      qed
    qed
  qed
qed simp

abbreviation snapshot_keys :: "fileSnapshot list \<Rightarrow> path_key set" where
  "snapshot_keys ss \<equiv> (\<lambda>s. path_key (sn_path s)) ` set ss"

lemma restore_file_spec:
  assumes "snapshot_of h0 s" and "restore_file env s h = (Inr u, h')" and "\<not> is_temp k"
  shows "h_files h' k = (if k = path_key (sn_path s) then h_files h0 k else h_files h k)"
proof (cases "sn_exists s")
  case True
  with assms show ?thesis
    by (auto simp: restore_file_def snapshot_of_def written_as_def dest!: atomicWrite_spec)
next
  case False
  with assms show ?thesis
    by (auto simp: restore_file_def snapshot_of_def os_Remove_def remove_key_def and_then_def syscall_def
        split: if_splits option.splits)
qed

lemma restore_file_frame:
  assumes "restore_file env s h = (r, h')" and "\<not> is_temp k" and "k \<noteq> path_key (sn_path s)"
  shows "h_files h' k = h_files h k"
proof (cases "sn_exists s")
  case True
  with assms show ?thesis
    by (cases r) (auto simp: restore_file_def written_as_def agree_def dest!: atomicWrite_spec)
next
  case False
  with assms show ?thesis
    by (auto simp: restore_file_def os_Remove_def remove_key_def and_then_def syscall_def
        split: if_splits option.splits)
qed

lemma rollback_from_frame:
  "rollback_from env ss h = (es, h') \<Longrightarrow> \<not> is_temp k \<Longrightarrow> k \<notin> snapshot_keys ss \<Longrightarrow>
     h_files h' k = h_files h k"
  by (induction ss arbitrary: h es h') (auto split: prod.splits dest: restore_file_frame)

lemma rollback_from_spec:
  assumes "list_all (snapshot_of h0) ss" and "rollback_from env ss h = ([], h')" and "\<not> is_temp k"
  shows "h_files h' k = (if k \<in> snapshot_keys ss then h_files h0 k else h_files h k)"
  using assms
proof (induction ss arbitrary: h h')
  case (Cons s ss)
  obtain r h1 where r: "restore_file env s h = (r, h1)" by fastforce
  with Cons.prems(2) obtain u where u: "r = Inr u" "rollback_from env ss h1 = ([], h')"
    by (auto split: prod.splits sum.splits)
  with Cons.IH [OF _ u(2)] Cons.prems restore_file_spec [OF _ r [unfolded u(1)]] show ?case
    by auto
qed simp

section \<open>The transaction\<close>

abbreviation mutation_keys :: "fileMutation list \<Rightarrow> path_key set" where
  "mutation_keys ms \<equiv> (\<lambda>m. path_key (fm_path m)) ` set ms"

definition mutation_entry :: "fileMutation \<Rightarrow> path_key \<times> host_file" where
  "mutation_entry m = (path_key (fm_path m), (fm_payload m, effective_mode (fm_mode m)))"

text \<open>The files after all mutations, as the caller means them.\<close>

definition mutated :: "fileMutation list \<Rightarrow> host \<Rightarrow> path_key \<Rightarrow> host_file option" where
  "mutated ms h k = (case map_of (map mutation_entry ms) k of Some f \<Rightarrow> Some f | None \<Rightarrow> h_files h k)"

lemma mutated_Nil [simp]: "mutated [] h k = h_files h k"
  by (simp add: mutated_def)

lemma mutated_Cons:
  "mutated (m # ms) h k =
     (if k = path_key (fm_path m) then Some (fm_payload m, effective_mode (fm_mode m)) else mutated ms h k)"
  by (simp add: mutated_def mutation_entry_def)

lemma mutated_other: "k \<notin> mutation_keys ms \<Longrightarrow> mutated ms h k = h_files h k"
  by (induction ms) (auto simp: mutated_Cons)

lemma write_mutations_spec:
  assumes "list_all (snapshot_of h0) (written @ map snd rest)"
    and "map (sn_path \<circ> snd) rest = map (fm_path \<circ> fst) rest"
    and "distinct (map (path_key \<circ> fm_path \<circ> fst) rest)"
    and "\<And>k. \<not> is_temp k \<Longrightarrow> k \<notin> snapshot_keys written \<Longrightarrow> h_files h k = h_files h0 k"
    and "write_mutations env written rest h = (r, h')"
  shows "case r of
      Inr _ \<Rightarrow> \<forall>k. \<not> is_temp k \<longrightarrow> h_files h' k = mutated (map fst rest) h k
    | Inl (RollbackFailed _ es) \<Rightarrow> es \<noteq> [] \<and>
        (\<forall>k. \<not> is_temp k \<longrightarrow> k \<notin> snapshot_keys (written @ map snd rest) \<longrightarrow> h_files h' k = h_files h0 k)
    | Inl _ \<Rightarrow> agree h0 h'"
  using assms
proof (induction env written rest h arbitrary: r h' rule: write_mutations.induct)
  case (2 env written m s rest h)
  let ?w = "atomicWrite env (fm_path m) (fm_payload m) (effective_mode (fm_mode m)) h"
  obtain r1 h1 where w: "?w = (r1, h1)" by fastforce
  note spec = atomicWrite_spec [OF w]
  have sm: "sn_path s = fm_path m" using 2(3) by simp
  show ?case
  proof (cases r1)
    case (Inr u)
    have "case r of
        Inr _ \<Rightarrow> \<forall>k. \<not> is_temp k \<longrightarrow> h_files h' k = mutated (map fst rest) h1 k
      | Inl (RollbackFailed _ es) \<Rightarrow> es \<noteq> [] \<and>
          (\<forall>k. \<not> is_temp k \<longrightarrow> k \<notin> snapshot_keys ((written @ [s]) @ map snd rest) \<longrightarrow> h_files h' k = h_files h0 k)
      | Inl _ \<Rightarrow> agree h0 h'"
    proof (rule 2(1) [OF w [symmetric] Inr])
      show "h_files h1 k = h_files h0 k" if "\<not> is_temp k" "k \<notin> snapshot_keys (written @ [s])" for k
        using that spec Inr sm 2(5) by (auto simp: written_as_def)
    qed (use 2 w Inr in auto)
    moreover have "\<not> is_temp k \<Longrightarrow> mutated (map fst rest) h1 k = mutated (m # map fst rest) h k" for k
      using spec Inr 2(4)
      by (auto simp: mutated_Cons mutated_def written_as_def mutation_entry_def comp_def image_iff
          map_of_eq_None_iff split: option.split)
    ultimately show ?thesis by (auto split: sum.splits transaction_error.splits)
  next
    case (Inl e)
    obtain es h2 where rb: "rollback_from env (rev (written @ [s])) h1 = (es, h2)" by fastforce
    have r: "r = Inl (if es = [] then WriteFailed (fm_path m) else RollbackFailed (fm_path m) es)" "h' = h2"
      using 2(6) w Inl rb by (auto simp: rollbackFileTransaction_def)
    have h1: "h_files h1 k = h_files h k" if "\<not> is_temp k" for k
      using that spec Inl by (simp add: agree_def)
    show ?thesis
    proof (cases "es = []")
      case True
      have "h_files h2 k = h_files h0 k" if "\<not> is_temp k" for k
        using rollback_from_spec [of h0 "rev (written @ [s])" env h1 h2 k] rb True that h1 2(2,5)
        by (auto split: if_splits)
      with r True show ?thesis by (simp add: agree_def)
    next
      case False
      have "h_files h2 k = h_files h0 k" if "\<not> is_temp k" "k \<notin> snapshot_keys (written @ [s])" for k
        using rollback_from_frame [OF rb that(1)] that h1 2(5) by auto
      with r False show ?thesis by auto
    qed
  qed
qed auto

lemma take_snapshots_error:
  "take_snapshots env seen ms h = (Inl e, h') \<Longrightarrow> e \<noteq> RollbackFailed p es"
proof (induction ms arbitrary: seen h e h')
  case (Cons m ms)
  then show ?case
    by (auto simp: and_then_def split: if_splits prod.splits sum.splits)
qed simp

lemma distinct_clean_keys: "distinct (map (Clean \<circ> f) xs) \<Longrightarrow> distinct (map (path_key \<circ> f) xs)"
  by (induction xs) (auto simp: Clean_def image_iff)

lemma file_transaction_effect:
  assumes run: "applyFileTransaction env ms h = (r, h')"
  shows "case r of
      Inr _ \<Rightarrow> \<forall>k. \<not> is_temp k \<longrightarrow> h_files h' k = mutated ms h k
    | Inl (RollbackFailed _ es) \<Rightarrow> es \<noteq> [] \<and>
        (\<forall>k. \<not> is_temp k \<longrightarrow> k \<notin> mutation_keys ms \<longrightarrow> h_files h' k = h_files h k)
    | Inl _ \<Rightarrow> agree h h'"
  using run [unfolded applyFileTransaction_def]
proof (cases rule: and_then_cases)
  case (1 e)
  then have "agree h h'" using take_snapshots_spec [OF 1(1)] by (simp add: agree_def)
  with take_snapshots_error [OF 1(1)] 1(2) show ?thesis by (cases e) auto
next
  case (2 ss h1)
  note snap = take_snapshots_spec [OF 2(1), THEN conjunct1]
    take_snapshots_spec [OF 2(1), THEN conjunct2, rule_format, OF refl]
  then have "length ss = length ms" by (metis length_map)
  then have zips: "map fst (zip ms ss) = ms" "map snd (zip ms ss) = ss" by simp_all
  have "set (map path_key (map sn_path ss)) = set (map path_key (map fm_path ms))" using snap(2) by simp
  then have keys: "snapshot_keys ss = mutation_keys ms" by (simp only: set_map image_image)
  have "map (sn_path \<circ> snd) (zip ms ss) = map (fm_path \<circ> fst) (zip ms ss)"
    "distinct (map (path_key \<circ> fm_path \<circ> fst) (zip ms ss))"
    using snap(2) distinct_clean_keys [of fm_path ms] zips by (simp_all flip: map_map)
  note W = write_mutations_spec [OF _ this _ 2(2), of h, unfolded append_Nil zips keys]
  have "mutated ms h1 = mutated ms h" using snap(1) by (intro ext) (simp add: mutated_def split: option.split)
  with W snap show ?thesis by (cases r) simp_all
qed

section \<open>When every call works\<close>

definition all_calls_work :: "host_env \<Rightarrow> bool" where
  "all_calls_work env = (\<forall>n. he_works env n)"

definition no_temps :: "host \<Rightarrow> bool" where
  "no_temps h = (\<forall>k. is_temp k \<longrightarrow> h_files h k = None)"

lemma syscall_calm: "he_works env = (\<lambda>_. True) \<Longrightarrow> syscall env h = (Inr (), done_call h)"
  by (simp add: syscall_def)

lemma atomicWrite_calm:
  assumes "all_calls_work env" and "no_temps h" and "\<not> is_temp (path_key p)"
  obtains h' where "atomicWrite env p payload mode h = (Inr (), h')" and "no_temps h'"
    and "\<And>k. h_files h' k = (if k = path_key p then Some (payload, mode) else h_files h k)"
proof -
  let ?k = "path_key (temp_path (Dir p) (he_random env (Suc (h_calls h))))"
  have k: "is_temp ?k" "h_files h ?k = None" "path_key p \<noteq> ?k"
    using assms is_temp_temp_path by (auto simp: no_temps_def)
  obtain h' where h': "atomicWrite env p payload mode h = (Inr (), h')"
    "\<And>k. h_files h' k = (if k = path_key p then Some (payload, mode) else h_files h k)"
    using assms(1) k
    by (auto simp: atomicWrite_def fill_temp_def os_CreateTemp_def temp_Chmod_def temp_Write_def os_Rename_def
        remove_key_def and_then_def syscall_def append_temp_def all_calls_work_def Let_def done_call_def set_file_def)
  moreover have "no_temps h'" using assms(2,3) h'(2) by (auto simp: no_temps_def)
  ultimately show ?thesis using that by blast
qed

lemma snapshotFile_calm:
  "all_calls_work env \<Longrightarrow> \<exists>s h'. snapshotFile env p h = (Inr s, h') \<and> h_files h' = h_files h"
  by (auto simp: snapshotFile_def os_Stat_def os_ReadFile_def and_then_def syscall_def all_calls_work_def
      split: option.splits prod.splits)

lemma take_snapshots_calm:
  assumes "all_calls_work env" and "distinct (map (Clean \<circ> fm_path) ms)" and "set seen \<inter> set (map (Clean \<circ> fm_path) ms) = {}"
  shows "\<exists>ss h'. take_snapshots env seen ms h = (Inr ss, h') \<and> h_files h' = h_files h"
  using assms(2,3)
proof (induction ms arbitrary: seen h)
  case (Cons m ms)
  obtain s h1 where s: "snapshotFile env (fm_path m) h = (Inr s, h1)" "h_files h1 = h_files h"
    using snapshotFile_calm [OF assms(1)] by blast
  obtain ss h2 where "take_snapshots env (Clean (fm_path m) # seen) ms h1 = (Inr ss, h2)" "h_files h2 = h_files h1"
    using Cons.IH [of "Clean (fm_path m) # seen" h1] Cons.prems by auto
  with s Cons.prems(2) show ?case by (auto simp: and_then_def)
qed simp

lemma write_mutations_calm:
  assumes "all_calls_work env" and "no_temps h" and "\<And>m s. (m, s) \<in> set rest \<Longrightarrow> \<not> is_temp (path_key (fm_path m))"
  shows "\<exists>h'. write_mutations env written rest h = (Inr (), h') \<and> no_temps h'"
  using assms
proof (induction env written rest h rule: write_mutations.induct)
  case (2 env written m s rest h)
  obtain h1 where "atomicWrite env (fm_path m) (fm_payload m) (effective_mode (fm_mode m)) h = (Inr (), h1)"
    "no_temps h1"
    using atomicWrite_calm [OF 2(2,3)] 2(4) by (metis list.set_intros(1))
  with 2(1,2,4) show ?case by (auto intro!: 2(1))
qed simp

lemma applyFileTransaction_calm:
  assumes "all_calls_work env" and "no_temps h" and "distinct (map (Clean \<circ> fm_path) ms)"
    and "\<And>m. m \<in> set ms \<Longrightarrow> \<not> is_temp (path_key (fm_path m))"
  obtains h' where "applyFileTransaction env ms h = (Inr (), h')" and "no_temps h'"
    and "\<And>k. \<not> is_temp k \<Longrightarrow> h_files h' k = mutated ms h k"
proof -
  obtain ss h1 where ss: "take_snapshots env [] ms h = (Inr ss, h1)" "h_files h1 = h_files h"
    using take_snapshots_calm [OF assms(1,3), of "[]" h] by auto
  have "no_temps h1" using assms(2) ss(2) by (simp add: no_temps_def)
  then obtain h' where h': "write_mutations env [] (zip ms ss) h1 = (Inr (), h')" "no_temps h'"
    using write_mutations_calm [OF assms(1), of h1 "zip ms ss" "[]"] assms(4) by (metis set_zip_leftD)
  then have run: "applyFileTransaction env ms h = (Inr (), h')"
    using ss by (simp add: applyFileTransaction_def and_then_def)
  with file_transaction_effect [OF run] h'(2) show ?thesis by (intro that) auto
qed


definition demo_host_env :: "(nat \<Rightarrow> bool) \<Rightarrow> host_env" where
  "demo_host_env works = \<lparr>he_works = works, he_random = (\<lambda>n. n), he_short = (\<lambda>_. 0),
     he_stamp = (\<lambda>_. ''20250101T000000.000000000Z''), he_home = Some ''/h'', he_os = ''linux''\<rparr>"

definition demo_host :: host where
  "demo_host = \<lparr>h_files = [path_key ''/h/a'' \<mapsto> (''old'', 416)], h_calls = 0\<rparr>"

definition demo_mutations :: "fileMutation list" where
  "demo_mutations = [\<lparr>fm_path = ''/h/a'', fm_payload = ''new'', fm_mode = 384\<rparr>,
     \<lparr>fm_path = ''/h/b'', fm_payload = ''more'', fm_mode = 0\<rparr>]"


end
