(* ===== verification/Hook_Forward.thy ===== *)
theory Hook_Forward
  imports Agent Host_Files
begin

text \<open>
  The client side of the hook endpoint, the rest of \<open>internal/hooks/event.go\<close> (the secret, the
  loopback check, \<open>ForwardEvent\<close>, \<open>ForwardStatusLine\<close>, \<open>RunStatusLineWrapper\<close>) and the set-up of
  the endpoint in \<open>internal/agent/hookserver.go\<close> (\<open>NewHookHandler\<close>, \<open>ServeHookServer\<close>,
  \<open>isLoopbackAddress\<close>). The network is an argument \<open>transport\<close> on a state of its own: what one
  POST answers (\<open>None\<close> when no answer arrives) and what it leaves behind. The HTTP client does not
  follow redirects (\<open>CheckRedirect\<close> returns \<open>ErrUseLastResponse\<close>), so a call is one request.
  \<open>url.Parse\<close>, \<open>net.ParseIP\<close> and \<open>net.SplitHostPort\<close> are arguments too.
\<close>

section \<open>Forwarding\<close>

datatype hook_error =
    HookSecretMissing | HookSecretUnreadable host_error | HookSecretEmpty
  | HookURLInvalid | HookURLNotLoopback | RequestInvalid | NoResponse | AgentAnswered nat | EncodeFailed

record ForwardConfig =
  fc_BaseURL :: string
  fc_Secret :: string
  fc_SecretFile :: string

definition resolvedSecret :: "host_env \<Rightarrow> ForwardConfig \<Rightarrow> (hook_error, string) host_action" where
  "resolvedSecret env c h =
     (if fc_Secret c \<noteq> [] then (Inr (fc_Secret c), h)
      else if fc_SecretFile c = [] then (Inl HookSecretMissing, h)
      else case os_ReadFile env (fc_SecretFile c) h of
        (Inl e, h') \<Rightarrow> (Inl (HookSecretUnreadable e), h')
      | (Inr payload, h') \<Rightarrow>
          (if TrimSpace payload = [] then Inl HookSecretEmpty else Inr (TrimSpace payload), h'))"

definition validateLoopbackURL ::
    "(string \<Rightarrow> parsed_url option) \<Rightarrow> (string \<Rightarrow> bool) \<Rightarrow> string \<Rightarrow> hook_error option" where
  "validateLoopbackURL parse_url loopback_ip value =
     (case parse_url value of
        None \<Rightarrow> Some HookURLInvalid
      | Some u \<Rightarrow>
          if u_Hostname u = [] \<or> (u_Scheme u \<noteq> ''http'' \<and> u_Scheme u \<noteq> ''https'') then Some HookURLInvalid
          else if fold_eq (u_Hostname u) ''localhost'' then None
          else if \<not> loopback_ip (u_Hostname u) then Some HookURLNotLoopback
          else None)"

definition trim_slashes :: "string \<Rightarrow> string" where
  "trim_slashes s = rev (dropWhile (\<lambda>c. c = CHR ''/'') (rev s))"

definition forward_base :: "ForwardConfig \<Rightarrow> string" where
  "forward_base c = (if trim_slashes (fc_BaseURL c) = [] then ''http://127.0.0.1:47632'' else trim_slashes (fc_BaseURL c))"

type_synonym 'w transport = "string \<Rightarrow> hook_request \<Rightarrow> 'w \<Rightarrow> nat option \<times> 'w"

definition forward ::
    "host_env \<Rightarrow> (string \<Rightarrow> parsed_url option) \<Rightarrow> (string \<Rightarrow> bool) \<Rightarrow> 'w transport \<Rightarrow>
     ForwardConfig \<Rightarrow> string \<Rightarrow> string \<Rightarrow> host \<Rightarrow> 'w \<Rightarrow> hook_error option \<times> host \<times> 'w" where
  "forward env parse_url loopback_ip transport c path payload h w =
     (case resolvedSecret env c h of
        (Inl e, h') \<Rightarrow> (Some e, h', w)
      | (Inr secret, h') \<Rightarrow>
          (case validateLoopbackURL parse_url loopback_ip (forward_base c) of
             Some e \<Rightarrow> (Some e, h', w)
           | None \<Rightarrow>
               if parse_url (forward_base c @ path) = None then (Some RequestInvalid, h', w)
               else case transport (forward_base c @ path)
                      \<lparr>hq_Authorization = ''Bearer '' @ secret, hq_Secret = [], hq_Body = Some payload\<rparr> w of
                 (None, w') \<Rightarrow> (Some NoResponse, h', w')
               | (Some status, w') \<Rightarrow> (if status \<noteq> 204 then Some (AgentAnswered status) else None, h', w')))"

definition ForwardEvent ::
    "(event \<Rightarrow> string option) \<Rightarrow> host_env \<Rightarrow> (string \<Rightarrow> parsed_url option) \<Rightarrow> (string \<Rightarrow> bool) \<Rightarrow> 'w transport \<Rightarrow>
     ForwardConfig \<Rightarrow> event \<Rightarrow> host \<Rightarrow> 'w \<Rightarrow> hook_error option \<times> host \<times> 'w" where
  "ForwardEvent encode env parse_url loopback_ip transport c e h w =
     (if ev_Probe e then (None, h, w)
      else case encode e of
        None \<Rightarrow> (Some EncodeFailed, h, w)
      | Some payload \<Rightarrow> forward env parse_url loopback_ip transport c ''/v1/events'' payload h w)"

definition ForwardStatusLine ::
    "host_env \<Rightarrow> (string \<Rightarrow> parsed_url option) \<Rightarrow> (string \<Rightarrow> bool) \<Rightarrow> 'w transport \<Rightarrow>
     ForwardConfig \<Rightarrow> string \<Rightarrow> host \<Rightarrow> 'w \<Rightarrow> hook_error option \<times> host \<times> 'w" where
  "ForwardStatusLine env parse_url loopback_ip transport c payload h w =
     forward env parse_url loopback_ip transport c ''/v1/statusline'' payload h w"

section \<open>The status-line wrapper\<close>

record PreviousStatusLine =
  ps_Type :: string
  ps_Command :: string

text \<open>
  \<open>run\<close> starts a program: name, arguments and standard input give what it wrote to its standard
  output and, if it failed, the error. The result of the forwarding is dropped.
\<close>

type_synonym 'x program_runner = "string \<Rightarrow> string list \<Rightarrow> string \<Rightarrow> string \<times> 'x option"

definition RunStatusLineWrapper ::
    "'x program_runner \<Rightarrow> host_env \<Rightarrow> (string \<Rightarrow> parsed_url option) \<Rightarrow> (string \<Rightarrow> bool) \<Rightarrow> 'w transport \<Rightarrow>
     ForwardConfig \<Rightarrow> string \<Rightarrow> PreviousStatusLine option \<Rightarrow> host \<Rightarrow> 'w \<Rightarrow>
     (string \<times> 'x option) \<times> host \<times> 'w" where
  "RunStatusLineWrapper run env parse_url loopback_ip transport c input previous h w =
     (case ForwardStatusLine env parse_url loopback_ip transport c input h w of
        (_, h', w') \<Rightarrow>
          (case previous of
             None \<Rightarrow> (([], None), h', w')
           | Some p \<Rightarrow>
               if TrimSpace (ps_Command p) = [] then (([], None), h', w')
               else if he_os env = ''windows''
                 then (run ''cmd.exe'' [''/d'', ''/s'', ''/c'', ps_Command p] input, h', w')
               else (run ''/bin/sh'' [''-c'', ps_Command p] input, h', w')))"

section \<open>Setting up the endpoint\<close>

record HookServerConfig =
  hs_Addr :: string
  hs_Secret :: string
  hs_Ledger :: bool
  hs_MaxPayload :: int

datatype serve_error = ListenFailed | NotLoopbackListener | HandlerSecretMissing | HandlerLedgerMissing

definition isLoopbackAddress :: "(string \<Rightarrow> string option) \<Rightarrow> (string \<Rightarrow> bool) \<Rightarrow> string \<Rightarrow> bool" where
  "isLoopbackAddress split_host_port loopback_ip address =
     (case split_host_port address of
        None \<Rightarrow> False
      | Some host \<Rightarrow> fold_eq host ''localhost'' \<or> loopback_ip host)"

text \<open>
  The handler \<open>NewHookHandler\<close> builds: the two POST routes; \<open>ServeMux\<close> answers 405 for another
  verb on a known path and 404 for any other path. \<open>hs_Ledger\<close> says that a ledger was given; the
  ledger itself and the \<open>StatusLine\<close> callback, which is the agent's \<open>IngestStatusLine\<close>, belong to
  the agent's state.
\<close>

definition hook_routes ::
    "(string \<Rightarrow> string) \<Rightarrow> claude_lib \<Rightarrow> (string \<Rightarrow> event option) \<Rightarrow> (string \<Rightarrow> json option) \<Rightarrow> HookServerConfig \<Rightarrow> time \<Rightarrow>
     string \<Rightarrow> string \<Rightarrow> hook_request \<Rightarrow> agent \<Rightarrow> nat \<times> agent" where
  "hook_routes sha lib decode decodeJSON cfg now verb path request a =
     (if path = ''/v1/events'' then
        (if verb = ''POST'' then handle_events sha decode (hs_Secret cfg) (hs_MaxPayload cfg) now request a else (405, a))
      else if path = ''/v1/statusline'' then
        (if verb = ''POST'' then handle_statusline sha lib decodeJSON (hs_Secret cfg) (hs_MaxPayload cfg) now request a
         else (405, a))
      else (404, a))"

type_synonym hook_handler = "time \<Rightarrow> string \<Rightarrow> string \<Rightarrow> hook_request \<Rightarrow> agent \<Rightarrow> nat \<times> agent"

definition NewHookHandler ::
    "(string \<Rightarrow> string) \<Rightarrow> claude_lib \<Rightarrow> (string \<Rightarrow> event option) \<Rightarrow> (string \<Rightarrow> json option) \<Rightarrow> HookServerConfig \<Rightarrow>
     (serve_error, hook_handler) result" where
  "NewHookHandler sha lib decode decodeJSON cfg =
     (if hs_Secret cfg = [] then Inl HandlerSecretMissing
      else if \<not> hs_Ledger cfg then Inl HandlerLedgerMissing
      else
        let cfg = (if hs_MaxPayload cfg \<le> 0 then cfg\<lparr>hs_MaxPayload := MaxHookPayload\<rparr> else cfg)
        in Inr (hook_routes sha lib decode decodeJSON cfg))"

text \<open>
  The set-up of the endpoint: what is served, once the listener (whose outcome for an address,
  \<open>Some\<close> bound address or \<open>None\<close>, is an argument) is known to be local. The serving loop itself is
  the HTTP library's.
\<close>

definition ServeHookServer ::
    "(string \<Rightarrow> string option) \<Rightarrow> (string \<Rightarrow> bool) \<Rightarrow> (string \<Rightarrow> string) \<Rightarrow> claude_lib \<Rightarrow> (string \<Rightarrow> event option) \<Rightarrow>
     (string \<Rightarrow> json option) \<Rightarrow> string \<Rightarrow> HookServerConfig \<Rightarrow> (serve_error, hook_handler) result" where
  "ServeHookServer split_host_port loopback_ip sha lib decode decodeJSON address cfg =
     (if \<not> isLoopbackAddress split_host_port loopback_ip address then Inl NotLoopbackListener
      else NewHookHandler sha lib decode decodeJSON cfg)"

definition RunHookServer ::
    "(string \<Rightarrow> string option) \<Rightarrow> (string \<Rightarrow> string option) \<Rightarrow> (string \<Rightarrow> bool) \<Rightarrow> (string \<Rightarrow> string) \<Rightarrow> claude_lib \<Rightarrow>
     (string \<Rightarrow> event option) \<Rightarrow> (string \<Rightarrow> json option) \<Rightarrow> HookServerConfig \<Rightarrow> (serve_error, hook_handler) result" where
  "RunHookServer listen split_host_port loopback_ip sha lib decode decodeJSON cfg =
     (let addr = (if hs_Addr cfg = [] then ''127.0.0.1:47632'' else hs_Addr cfg)
      in case listen addr of
           None \<Rightarrow> Inl ListenFailed
         | Some address \<Rightarrow> ServeHookServer split_host_port loopback_ip sha lib decode decodeJSON address cfg)"

section \<open>Properties\<close>

lemma resolvedSecret_nonempty: "resolvedSecret env c h = (Inr s, h') \<Longrightarrow> s \<noteq> []"
  by (auto simp: resolvedSecret_def split: if_splits prod.splits sum.splits)

lemma forward_cases:
  assumes "forward env parse_url ip transport c path payload h w = (r, h', w')"
  obtains e where "r = Some e" and "w' = w"
  | secret status where "resolvedSecret env c h = (Inr secret, h')"
    and "validateLoopbackURL parse_url ip (forward_base c) = None"
    and "transport (forward_base c @ path)
          \<lparr>hq_Authorization = ''Bearer '' @ secret, hq_Secret = [], hq_Body = Some payload\<rparr> w = (status, w')"
    and "r = None \<longleftrightarrow> status = Some 204"
  using assms
  by (auto simp: forward_def split: prod.splits sum.splits option.splits if_splits) metis

text \<open>
  The hook secret and the payload go to the local machine only. A forwarded event or status line
  leaves the network untouched, or causes exactly one request, to a URL under a base
  that is HTTP or HTTPS on \<open>localhost\<close> or a loopback address, carrying the non-empty secret as
  its bearer token and the payload as its body; the call reports success exactly when that
  request was answered 204. A probe event is never sent.
\<close>

theorem forward_stays_on_loopback:
  assumes "ForwardEvent encode env parse_url ip transport c e h w = (r, h', w')"
  shows "(ev_Probe e \<and> r = None \<and> w' = w) \<or> (r \<noteq> None \<and> w' = w) \<or>
    (\<exists>u secret payload status. \<not> ev_Probe e \<and> encode e = Some payload \<and>
       parse_url (forward_base c) = Some u \<and> u_Scheme u \<in> {''http'', ''https''} \<and>
       (fold_eq (u_Hostname u) ''localhost'' \<or> ip (u_Hostname u)) \<and> secret \<noteq> [] \<and>
       transport (forward_base c @ ''/v1/events'')
         \<lparr>hq_Authorization = ''Bearer '' @ secret, hq_Secret = [], hq_Body = Some payload\<rparr> w = (status, w') \<and>
       (r = None \<longleftrightarrow> status = Some 204))"
proof (cases "ev_Probe e \<or> encode e = None")
  case True
  with assms show ?thesis by (auto simp: ForwardEvent_def split: if_splits option.splits)
next
  case False
  then obtain payload where p: "encode e = Some payload" by auto
  with False assms have f: "forward env parse_url ip transport c ''/v1/events'' payload h w = (r, h', w')"
    by (simp add: ForwardEvent_def)
  show ?thesis
    using f
  proof (cases rule: forward_cases)
    case (2 secret status)
    have "\<exists>u. parse_url (forward_base c) = Some u \<and> u_Scheme u \<in> {''http'', ''https''} \<and>
        (fold_eq (u_Hostname u) ''localhost'' \<or> ip (u_Hostname u))"
      using 2(2) by (auto simp: validateLoopbackURL_def split: option.splits if_splits)
    with 2 p False resolvedSecret_nonempty [OF 2(1)] show ?thesis by blast
  qed simp
qed

definition loopback_url :: "string \<Rightarrow> parsed_url option" where
  "loopback_url s = Some \<lparr>u_Scheme = ''http'', u_Host = ''127.0.0.1:47632'', u_Hostname = ''127.0.0.1'', u_User = False\<rparr>"

definition secret_host :: host where
  "secret_host = \<lparr>h_files = [path_key ''/h/hook-secret'' \<mapsto> (''k1'' @ [CHR 0x0A], 384)], h_calls = 0\<rparr>"

definition secret_config :: ForwardConfig where
  "secret_config = \<lparr>fc_BaseURL = ''http://127.0.0.1:47632/'', fc_Secret = [], fc_SecretFile = ''/h/hook-secret''\<rparr>"

theorem forward_stays_on_loopback_witness:
  "\<exists>h' w'. ForwardEvent (\<lambda>_. Some ''{}'') (demo_host_env (\<lambda>_. True)) loopback_url (\<lambda>host. host = ''127.0.0.1'')
       (\<lambda>url rq log. (Some 204, url # log)) secret_config (prompt_event ''Stop'' 0) secret_host [] = (None, h', w') \<and>
     w' = [''http://127.0.0.1:47632/v1/events'']"
proof -
  let ?f = "ForwardEvent (\<lambda>_. Some ''{}'') (demo_host_env (\<lambda>_. True)) loopback_url (\<lambda>host. host = ''127.0.0.1'')
       (\<lambda>url rq log. (Some 204, url # log)) secret_config (prompt_event ''Stop'' 0) secret_host []"
  have r: "fst ?f = None" by code_simp
  have p: "\<not> ev_Probe (prompt_event ''Stop'' 0)" by code_simp
  have b: "forward_base secret_config = ''http://127.0.0.1:47632''" by code_simp
  obtain h' w' where f: "?f = (None, h', w')" using r by (cases ?f) auto
  from forward_stays_on_loopback [OF f] p b show ?thesis using f by auto
qed

text \<open>The network as seen by a hook of a machine whose agent runs: the endpoint itself.\<close>

definition local_agent :: "hook_handler \<Rightarrow> time \<Rightarrow> string \<Rightarrow> agent transport" where
  "local_agent handler now base url request a =
     (case handler now ''POST'' (drop (length base) url) request a of (status, a') \<Rightarrow> (Some status, a'))"

lemma forwarded_event_delivered:
  assumes "ParseEvent sha parse_time False provider name raw received = ok e" and "\<not> ev_Probe e"
    and "encode e = Some payload" and "decode payload = Some e"
    and "int (length payload) \<le> (if hs_MaxPayload cfg \<le> 0 then MaxHookPayload else hs_MaxPayload cfg)"
    and "fc_Secret c = []" and "fc_SecretFile c \<noteq> []" and "os_ReadFile env (fc_SecretFile c) h = (Inr bytes, h')"
    and "TrimSpace bytes = hs_Secret cfg"
    and "validateLoopbackURL parse_url ip (forward_base c) = None"
    and "parse_url (forward_base c @ ''/v1/events'') \<noteq> None"
    and "\<And>s. length (sha s) = 32"
    and "RunHookServer listen split_host_port ip sha lib decode decodeJSON cfg = ok handler"
  shows "ForwardEvent encode env parse_url ip (local_agent handler now (forward_base c)) c e h a =
    (None, h', a\<lparr>ag_ledger := Apply now e (ag_ledger a)\<rparr>)"
proof -
  have n: "NewHookHandler sha lib decode decodeJSON cfg = ok handler"
    using assms(13) by (auto simp: RunHookServer_def ServeHookServer_def Let_def split: option.splits if_splits)
  define cfg' where "cfg' = (if hs_MaxPayload cfg \<le> 0 then cfg\<lparr>hs_MaxPayload := MaxHookPayload\<rparr> else cfg)"
  from n have ne: "hs_Secret cfg \<noteq> []" and hd: "handler = hook_routes sha lib decode decodeJSON cfg'"
    by (auto simp: NewHookHandler_def cfg'_def Let_def split: if_splits)
  have c': "hs_Secret cfg' = hs_Secret cfg" "int (length payload) \<le> hs_MaxPayload cfg'"
    using assms(5) by (auto simp: cfg'_def split: if_splits)
  have s: "resolvedSecret env c h = (Inr (hs_Secret cfg), h')"
    using assms(6-9) ne by (simp add: resolvedSecret_def)
  have "TrimSpace (hs_Secret cfg) = hs_Secret cfg" using assms(9) TrimSpace_idem by metis
  then have v: "validLocalSecret sha \<lparr>hq_Authorization = ''Bearer '' @ hs_Secret cfg, hq_Secret = [], hq_Body = b\<rparr>
      (hs_Secret cfg)" for b
    using ne trim_prefix_append [of "''Bearer ''" "hs_Secret cfg"] by (simp add: validLocalSecret_def Let_def)
  have e: "ev_SessionID e \<noteq> []" "ev_Provider e = ProviderCodex \<or> ev_Provider e = ProviderClaude"
    using assms(1) opaque_nonempty [OF opaqueID_opaque] assms(12)
    by (auto simp: ParseEvent_def split: if_splits option.splits)
  have "decodeLimitedJSON decode (Some payload) (hs_MaxPayload cfg') = Inr e"
    using c'(2) assms(4) by (simp add: decodeLimitedJSON_Inr)
  with v assms(2) e have "handle_events sha decode (hs_Secret cfg) (hs_MaxPayload cfg') now
      \<lparr>hq_Authorization = ''Bearer '' @ hs_Secret cfg, hq_Secret = [], hq_Body = Some payload\<rparr> a =
      (204, a\<lparr>ag_ledger := Apply now e (ag_ledger a)\<rparr>)"
    by (simp add: handle_events_def)
  with s c'(1) hd assms(2,3,10,11) show ?thesis
    by (auto simp: ForwardEvent_def forward_def local_agent_def hook_routes_def)
qed

text \<open>
  A hook event reaches the ledger. Whenever the endpoint could be set up with the secret that
  the hook reads from its file (surrounding white space in the file ignored), an event as
  \<open>ParseEvent\<close> builds it that is not a probe, whose encoding the endpoint decodes and that fits
  the configured payload limit is applied to the agent's ledger and the hook reports success.
\<close>

theorem forwarded_event_reaches_ledger:
  assumes "ParseEvent sha parse_time False provider name raw received = ok e" and "\<not> ev_Probe e"
    and "encode e = Some payload" and "decode payload = Some e"
    and "int (length payload) \<le> (if hs_MaxPayload cfg \<le> 0 then MaxHookPayload else hs_MaxPayload cfg)"
    and "fc_Secret c = []" and "fc_SecretFile c \<noteq> []" and "os_ReadFile env (fc_SecretFile c) h = (Inr bytes, h')"
    and "TrimSpace bytes = hs_Secret cfg"
    and "validateLoopbackURL parse_url ip (forward_base c) = None"
    and "parse_url (forward_base c @ ''/v1/events'') \<noteq> None"
    and "\<And>s. length (sha s) = 32"
    and "RunHookServer listen split_host_port ip sha lib decode decodeJSON cfg = ok handler"
  shows "ForwardEvent encode env parse_url ip (local_agent handler now (forward_base c)) c e h a =
    (None, h', a\<lparr>ag_ledger := Apply now e (ag_ledger a)\<rparr>)"
  by (rule forwarded_event_delivered [where encode = encode and decode = decode and parse_url = parse_url and sha = sha
        and parse_time = parse_time and listen = listen and split_host_port = split_host_port and ip = ip
        and decodeJSON = decodeJSON, OF assms])

definition demo_raw_event :: json_object where
  "demo_raw_event = [(''hook_event_name'', JString ''UserPromptSubmit''), (''session_id'', JString ''s'')]"

definition forwarded_demo :: event where
  "forwarded_demo = \<lparr>ev_Provider = ProviderClaude, ev_Name = ''UserPromptSubmit'',
     ev_SessionID = opaqueID (\<lambda>_. replicate 32 (CHR ''a'')) ProviderClaude ''s'', ev_TaskID = [], ev_At = 1000, ev_Probe = False\<rparr>"

definition demo_endpoint :: HookServerConfig where
  "demo_endpoint = \<lparr>hs_Addr = [], hs_Secret = ''k1'', hs_Ledger = True, hs_MaxPayload = 0\<rparr>"

theorem forwarded_event_reaches_ledger_witness:
  "\<exists>h' handler.
     RunHookServer Some (\<lambda>_. Some ''127.0.0.1'') (\<lambda>host. host = ''127.0.0.1'') (\<lambda>_. replicate 32 (CHR ''a'')) demo_lib
       (\<lambda>_. Some forwarded_demo) (\<lambda>_. None) demo_endpoint = ok handler \<and>
     ForwardEvent (\<lambda>_. Some ''{}'') (demo_host_env (\<lambda>_. True)) loopback_url (\<lambda>host. host = ''127.0.0.1'')
       (local_agent handler 1000 (forward_base secret_config)) secret_config forwarded_demo secret_host demo_agent =
     (None, h', demo_agent\<lparr>ag_ledger := Apply 1000 forwarded_demo (ag_ledger demo_agent)\<rparr>)"
proof -
  let ?sha = "\<lambda>_ :: string. replicate 32 (CHR ''a'')"
  let ?env = "demo_host_env (\<lambda>_. True)"
  let ?ip = "\<lambda>host. host = ''127.0.0.1''"
  have parsed: "ParseEvent ?sha (\<lambda>_. None) False ProviderClaude [] (Some demo_raw_event) 1000 = ok forwarded_demo"
    by code_simp
  have "fst (os_ReadFile ?env ''/h/hook-secret'' secret_host) = Inr (''k1'' @ [CHR 0x0A])" by code_simp
  then obtain h' where rd: "os_ReadFile ?env (fc_SecretFile secret_config) secret_host = (Inr (''k1'' @ [CHR 0x0A]), h')"
    by (cases "os_ReadFile ?env ''/h/hook-secret'' secret_host") (auto simp: secret_config_def)
  obtain handler where run: "RunHookServer Some (\<lambda>_. Some ''127.0.0.1'') ?ip ?sha demo_lib
      (\<lambda>_. Some forwarded_demo) (\<lambda>_. None) demo_endpoint = ok handler"
    by (simp add: RunHookServer_def ServeHookServer_def isLoopbackAddress_def NewHookHandler_def demo_endpoint_def)
  have "TrimSpace (''k1'' @ [CHR 0x0A]) = hs_Secret demo_endpoint" by code_simp
  moreover have "validateLoopbackURL loopback_url ?ip (forward_base secret_config) = None"
    by code_simp
  ultimately show ?thesis
    using forwarded_event_reaches_ledger [OF parsed _ _ _ _ _ _ rd _ _ _ _ run] run
    by (auto simp: forwarded_demo_def MaxHookPayload_def secret_config_def loopback_url_def demo_endpoint_def)
qed

text \<open>
  The status-line wrapper shows what the user's own command shows. Whatever happens to the
  telemetry (no secret, a refused URL, no answer, any status), the wrapper's result is
  that of the previous command run on the same input, and empty when there was none.
\<close>

theorem wrapper_output_independent_of_telemetry:
  "fst (RunStatusLineWrapper run env parse_url ip transport c input previous h w) =
     (case previous of
        None \<Rightarrow> ([], None)
      | Some p \<Rightarrow>
          if TrimSpace (ps_Command p) = [] then ([], None)
          else if he_os env = ''windows'' then run ''cmd.exe'' [''/d'', ''/s'', ''/c'', ps_Command p] input
          else run ''/bin/sh'' [''-c'', ps_Command p] input)"
  by (auto simp: RunStatusLineWrapper_def split: prod.split option.split)

end
