(* ===== verification/Go_JSON.thy ===== *)
theory Go_JSON
  imports Hook_Events
begin

text \<open>
  What the program uses of \<open>encoding/json\<close> for writing: string escaping (with the HTML escapes
  that \<open>json.Marshal\<close> applies), \<open>Marshal\<close> and \<open>MarshalIndent(v, "", "  ")\<close> of decoded values, with
  object keys in sorted order; and the width of the UTF-8 encoded rune a byte string starts with. The
  decimal form of a number is an argument.
\<close>

section \<open>UTF-8\<close>

definition between :: "nat \<Rightarrow> nat \<Rightarrow> char \<Rightarrow> bool" where
  "between a b c = (a \<le> byte c \<and> byte c \<le> b)"

definition continuation :: "char \<Rightarrow> bool" where
  "continuation c = between 128 191 c"

text \<open>The width of the first rune, 0 when the bytes are no valid encoding.\<close>

fun utf8_tail :: "char \<Rightarrow> string \<Rightarrow> nat" where
  "utf8_tail a (b # c # d # s) =
     (if between 194 223 a \<and> continuation b then 2
      else if (a = CHR 0xE0 \<and> between 160 191 b \<or> a = CHR 0xED \<and> between 128 159 b \<or>
               (between 225 236 a \<or> between 238 239 a) \<and> continuation b) \<and> continuation c then 3
      else if (a = CHR 0xF0 \<and> between 144 191 b \<or> between 241 243 a \<and> continuation b \<or>
               a = CHR 0xF4 \<and> between 128 143 b) \<and> continuation c \<and> continuation d then 4
      else 0)"
| "utf8_tail a [b, c] =
     (if between 194 223 a \<and> continuation b then 2
      else if (a = CHR 0xE0 \<and> between 160 191 b \<or> a = CHR 0xED \<and> between 128 159 b \<or>
               (between 225 236 a \<or> between 238 239 a) \<and> continuation b) \<and> continuation c then 3
      else 0)"
| "utf8_tail a [b] = (if between 194 223 a \<and> continuation b then 2 else 0)"
| "utf8_tail a [] = 0"

definition ascii :: "char \<Rightarrow> bool" where
  "ascii c = (byte c < 128)"

fun rune_width :: "string \<Rightarrow> nat" where
  "rune_width [] = 0"
| "rune_width (a # s) = (if ascii a then 1 else utf8_tail a s)"

section \<open>Strings\<close>

definition escape_byte :: "char \<Rightarrow> string" where
  "escape_byte c =
     (if c = CHR 0x22 \<or> c = CHR 0x5C then [CHR 0x5C, c]
      else if c = CHR 0x08 then [CHR 0x5C, CHR ''b'']
      else if c = CHR 0x0C then [CHR 0x5C, CHR ''f'']
      else if c = CHR 0x0A then [CHR 0x5C, CHR ''n'']
      else if c = CHR 0x0D then [CHR 0x5C, CHR ''r'']
      else if c = CHR 0x09 then [CHR 0x5C, CHR ''t'']
      else if byte c < 32 \<or> c = CHR ''<'' \<or> c = CHR ''>'' \<or> c = CHR ''&''
        then [CHR 0x5C] @ ''u00'' @ hex_encode [c]
      else [c])"

definition escape_rune :: "string \<Rightarrow> string" where
  "escape_rune r =
     (if r = [CHR 0xE2, CHR 0x80, CHR 0xA8] then [CHR 0x5C] @ ''u2028''
      else if r = [CHR 0xE2, CHR 0x80, CHR 0xA9] then [CHR 0x5C] @ ''u2029''
      else r)"

function json_escape :: "string \<Rightarrow> string" where
  "json_escape [] = []"
| "json_escape (c # s) =
     (if ascii c then escape_byte c @ json_escape s
      else let w = rune_width (c # s)
           in if w = 0 then ([CHR 0x5C] @ ''ufffd'') @ json_escape s
              else escape_rune (take w (c # s)) @ json_escape (drop (w - 1) s))"
  by pat_completeness auto
termination by (relation "measure length") auto

definition json_string :: "string \<Rightarrow> string" where
  "json_string s = [CHR 0x22] @ json_escape s @ [CHR 0x22]"

section \<open>Values\<close>

fun join_str :: "string \<Rightarrow> string list \<Rightarrow> string" where
  "join_str d [] = []"
| "join_str d [w] = w"
| "join_str d (w # v # ws) = w @ d @ join_str d (v # ws)"

text \<open>\<open>json.Marshal\<close>: no white space, object members in the order of their keys.\<close>

fun Marshal :: "(float64 \<Rightarrow> string) \<Rightarrow> json \<Rightarrow> string" where
  "Marshal number JNull = ''null''"
| "Marshal number (JBool b) = (if b then ''true'' else ''false'')"
| "Marshal number (JNumber x) = number x"
| "Marshal number (JString s) = json_string s"
| "Marshal number (JArray vs) = ''['' @ join_str '','' (map (Marshal number) vs) @ '']''"
| "Marshal number (JObject kvs) =
     ''{'' @ join_str '','' (map (\<lambda>(k, t). json_string k @ '':'' @ t)
       (sort_key fst (map (\<lambda>(k, v). (k, Marshal number v)) kvs))) @ ''}''"

definition new_line :: "nat \<Rightarrow> string" where
  "new_line depth = CHR 0x0A # replicate (2 * depth) (CHR '' '')"

text \<open>\<open>json.MarshalIndent\<close> with an empty prefix and two spaces.\<close>

fun indented :: "(float64 \<Rightarrow> string) \<Rightarrow> nat \<Rightarrow> json \<Rightarrow> string" where
  "indented number depth (JArray vs) =
     (if vs = [] then ''[]''
      else ''['' @ new_line (depth + 1) @ join_str ('','' @ new_line (depth + 1)) (map (indented number (depth + 1)) vs) @
           new_line depth @ '']'')"
| "indented number depth (JObject kvs) =
     (if kvs = [] then ''{}''
      else ''{'' @ new_line (depth + 1) @
           join_str ('','' @ new_line (depth + 1)) (map (\<lambda>(k, t). json_string k @ '': '' @ t)
             (sort_key fst (map (\<lambda>(k, v). (k, indented number (depth + 1) v)) kvs))) @
           new_line depth @ ''}'')"
| "indented number depth v = Marshal number v"

definition MarshalIndent :: "(float64 \<Rightarrow> string) \<Rightarrow> json_object \<Rightarrow> string" where
  "MarshalIndent number obj = indented number 0 (JObject obj)"

section \<open>Plain text survives escaping\<close>

text \<open>
  A run of ASCII letters, digits and dashes inside a string appears unchanged in its encoding:
  such a byte is neither escaped nor part of a longer rune.
\<close>

definition plain_char :: "char \<Rightarrow> bool" where
  "plain_char c = (is_lower c \<or> is_upper c \<or> is_digit c \<or> c = CHR ''-'')"

lemma plain_char_escape:
  assumes "plain_char c"
  shows "ascii c \<and> escape_byte c = [c]"
proof -
  have b: "44 < byte c \<and> byte c < 128 \<and> byte c \<notin> {60, 62, 92}"
    using assms by (auto simp: plain_char_def is_lower_def is_upper_def is_digit_def byte_def)
  then have "c \<noteq> d" if "byte d \<in> {8, 9, 10, 12, 13, 34, 38, 60, 62, 92}" for d
    using that by auto
  from this [of "CHR 0x22"] this [of "CHR 0x5C"] this [of "CHR 0x08"] this [of "CHR 0x0C"] this [of "CHR 0x0A"]
    this [of "CHR 0x0D"] this [of "CHR 0x09"] this [of "CHR ''<''"] this [of "CHR ''>''"] this [of "CHR ''&''"] b
  show ?thesis by (simp add: ascii_def escape_byte_def byte_def)
qed

lemma ascii_not_tail: "ascii c \<Longrightarrow> 128 \<le> n \<Longrightarrow> \<not> between n b c" "ascii c \<Longrightarrow> \<not> continuation c"
  by (auto simp: ascii_def between_def continuation_def)

lemma utf8_tail_ascii: "ascii c \<Longrightarrow> utf8_tail a (s @ c # t) = utf8_tail a s"
  by (induction a s rule: utf8_tail.induct; cases t; cases "tl t")
    (auto simp: ascii_not_tail)

lemma utf8_tail_le: "utf8_tail a s \<le> Suc (length s)"
  by (induction a s rule: utf8_tail.induct) auto

lemma rune_width_le: "rune_width s \<le> length s"
  by (cases s) (auto intro: utf8_tail_le)

lemma json_escape_append: "ascii c \<Longrightarrow> json_escape (s @ c # t) = json_escape s @ json_escape (c # t)"
proof (induction s rule: json_escape.induct)
  case (2 d s)
  have w: "rune_width (d # s @ c # t) = rune_width (d # s)"
    using 2(4) utf8_tail_ascii by simp
  have le: "rune_width (d # s) - 1 \<le> length s" using rune_width_le [of "d # s"] by simp
  show ?case
  proof (cases "ascii d \<or> rune_width (d # s) = 0")
    case True
    with 2 w show ?thesis by (auto simp: Let_def)
  next
    case False
    have "take (rune_width (d # s)) (d # s @ c # t) = take (rune_width (d # s)) (d # s)"
      "drop (rune_width (d # s) - 1) (s @ c # t) = drop (rune_width (d # s) - 1) s @ c # t"
      using rune_width_le [of "d # s"] le by (simp_all add: take_append [of _ "d # s", simplified] del: rune_width.simps)
    with False 2(3) [OF _ refl] 2(4) w show ?thesis by (simp add: Let_def del: rune_width.simps)
  qed
qed simp

lemma json_escape_plain: "list_all plain_char m \<Longrightarrow> json_escape (m @ t) = m @ json_escape t"
  by (induction m) (auto simp: plain_char_escape)

lemma json_string_contains:
  assumes "list_all plain_char m" and "contains s m"
  shows "contains (json_string s) m"
proof -
  obtain a b where s: "s = a @ m @ b" using assms(2) by (auto simp: contains_iff sublist_def)
  show ?thesis
  proof (cases m)
    case (Cons c m')
    then have "json_escape s = json_escape a @ m @ json_escape b"
      using assms(1) s json_escape_append [of c a "m' @ b"] json_escape_plain [of m b] plain_char_escape
      by simp
    with sublist_appendI [of m "CHR 0x22 # json_escape a" "json_escape b @ [CHR 0x22]"]
    show ?thesis by (simp add: contains_iff json_string_def)
  qed (simp add: contains_iff)
qed

lemma contains_append: "contains s m \<Longrightarrow> contains (a @ s @ b) m"
  by (simp add: contains_iff sublist_appendI sublist_order.order_trans)

lemma contains_join: "w \<in> set ws \<Longrightarrow> contains w m \<Longrightarrow> contains (join_str d ws) m"
proof (induction d ws rule: join_str.induct)
  case (3 d w' v ws)
  then consider "w = w'" | "contains (join_str d (v # ws)) m" by auto
  then show ?case
  proof cases
    case 1
    with contains_append [OF 3(3), of "[]" "d @ join_str d (v # ws)"] show ?thesis by simp
  next
    case 2
    from contains_append [OF this, of "w' @ d" "[]"] show ?thesis by simp
  qed
qed auto

lemma Marshal_member_contains:
  assumes "list_all plain_char m" and "(k, JString s) \<in> set kvs" and "contains s m"
  shows "contains (Marshal number (JObject kvs)) m"
proof -
  let ?ms = "map (\<lambda>(k, t). json_string k @ '':'' @ t) (sort_key fst (map (\<lambda>(k, v). (k, Marshal number v)) kvs))"
  have "(k, json_string s) \<in> set (sort_key fst (map (\<lambda>(k, v). (k, Marshal number v)) kvs))"
    using assms(2) by force
  then have "json_string k @ '':'' @ json_string s \<in> set ?ms" by force
  moreover have "contains (json_string k @ '':'' @ json_string s) m"
    using contains_append [OF json_string_contains [OF assms(1,3)], of "json_string k @ '':''" "[]"] by simp
  ultimately have "contains (join_str '','' ?ms) m" by (rule contains_join)
  from contains_append [OF this, of "''{''" "''}''"] show ?thesis by simp
qed

end
