(* ===== verification/Hook_Install.thy ===== *)
theory Hook_Install
  imports Hook_Forward Go_JSON
begin

text \<open>
  \<open>internal/hooks/install.go\<close>: merging the managed hook entries into the users' Codex and Claude
  configuration files, the status-line wrapper with the restoration state, uninstalling, and the
  quoting of the commands. A configuration is a decoded JSON object; a file holding the JSON
  value \<open>null\<close> decodes to a nil map (\<open>None\<close>). \<open>install_lib\<close> holds what is used of
  \<open>encoding/json\<close> beyond writing: number formatting, decoding, and the coding of the state file.
\<close>

section \<open>Commands\<close>

definition ManagedMarker :: string where "ManagedMarker = ''quota-monitor-managed-v1''"

definition codexEvents :: "string list" where
  "codexEvents = [''UserPromptSubmit'', ''Stop'', ''SessionEnd'', ''SubagentStart'', ''SubagentStop'', ''PostToolUse'']"

definition claudeEvents :: "string list" where
  "claudeEvents = [''UserPromptSubmit'', ''Stop'', ''StopFailure'', ''SessionEnd'', ''SubagentStart'',
     ''SubagentStop'', ''PostToolUse'']"

definition replace_char :: "char \<Rightarrow> string \<Rightarrow> string \<Rightarrow> string" where
  "replace_char c new s = concat (map (\<lambda>d. if d = c then new else [d]) s)"

definition shellQuote :: "string \<Rightarrow> string \<Rightarrow> string" where
  "shellQuote targetOS value =
     (if targetOS = ''windows''
      then [CHR 0x22] @ replace_char (CHR 0x22) [CHR 0x5C, CHR 0x22] value @ [CHR 0x22]
      else [CHR 0x27] @ replace_char (CHR 0x27) [CHR 0x27, CHR 0x22, CHR 0x27, CHR 0x22, CHR 0x27] value @ [CHR 0x27])"

definition managedCommand :: "string \<Rightarrow> string \<Rightarrow> string list \<Rightarrow> string" where
  "managedCommand targetOS executable args = join_char (CHR '' '') (map (shellQuote targetOS) (executable # args))"

section \<open>Editing a configuration\<close>

definition isManagedValue :: "(float64 \<Rightarrow> string) \<Rightarrow> json \<Rightarrow> bool" where
  "isManagedValue number v = contains (Marshal number v) ManagedMarker"

definition array_of :: "json option \<Rightarrow> json list option" where
  "array_of v = (case v of Some (JArray vs) \<Rightarrow> Some vs | _ \<Rightarrow> None)"

text \<open>One group of \<open>filterManagedGroups\<close>: what is kept of it and whether a command was removed.\<close>

definition filter_group :: "(float64 \<Rightarrow> string) \<Rightarrow> json \<Rightarrow> json list \<times> bool" where
  "filter_group number rawGroup =
     (case rawGroup of
        JObject grp \<Rightarrow>
          (case array_of (gomap_get grp ''hooks'') of
             None \<Rightarrow> ([rawGroup], False)
           | Some rawCommands \<Rightarrow>
               let commands = filter (\<lambda>c. \<not> isManagedValue number c) rawCommands
               in (if commands \<noteq> [] then [JObject (gomap_put ''hooks'' (JArray commands) grp)] else [],
                   list_ex (isManagedValue number) rawCommands))
      | _ \<Rightarrow> ([rawGroup], False))"

definition filterManagedGroups :: "(float64 \<Rightarrow> string) \<Rightarrow> json list \<Rightarrow> json list \<times> bool" where
  "filterManagedGroups number groups =
     (concat (map (\<lambda>x. fst (filter_group number x)) groups), list_ex (\<lambda>x. snd (filter_group number x)) groups)"

definition managed_group :: "string \<Rightarrow> json" where
  "managed_group command =
     JObject [(''hooks'', JArray [JObject [(''type'', JString ''command''), (''command'', JString command),
       (''timeout'', JNumber (F64 5))]])]"

definition merge_event :: "(float64 \<Rightarrow> string) \<Rightarrow> string \<Rightarrow> string \<Rightarrow> json_object \<Rightarrow> json_object" where
  "merge_event number command event hooksObject =
     (let groups = (case array_of (gomap_get hooksObject event) of Some gs \<Rightarrow> gs | None \<Rightarrow> [])
      in gomap_put event (JArray (fst (filterManagedGroups number groups) @ [managed_group command])) hooksObject)"

definition mergeManagedHooks :: "(float64 \<Rightarrow> string) \<Rightarrow> json_object \<Rightarrow> string list \<Rightarrow> string \<Rightarrow> json_object" where
  "mergeManagedHooks number doc events command =
     (let hooksObject = (case object_field doc ''hooks'' of Some o' \<Rightarrow> o' | None \<Rightarrow> [])
      in gomap_put ''hooks'' (JObject (fold (merge_event number command) events hooksObject)) doc)"

definition remove_event :: "(float64 \<Rightarrow> string) \<Rightarrow> string \<times> json \<Rightarrow> json_object \<times> bool" where
  "remove_event number entry =
     (case snd entry of
        JArray groups \<Rightarrow>
          (case filterManagedGroups number groups of
             (filtered, removed) \<Rightarrow>
               if \<not> removed then ([entry], False)
               else (if filtered = [] then [] else [(fst entry, JArray filtered)], True))
      | _ \<Rightarrow> ([entry], False))"

definition removeManagedHooks :: "(float64 \<Rightarrow> string) \<Rightarrow> json_object \<Rightarrow> json_object \<times> bool" where
  "removeManagedHooks number doc =
     (case object_field doc ''hooks'' of
        None \<Rightarrow> (doc, False)
      | Some hooksObject \<Rightarrow>
          (gomap_put ''hooks'' (JObject (concat (map (\<lambda>x. fst (remove_event number x)) hooksObject))) doc,
           list_ex (\<lambda>x. snd (remove_event number x)) hooksObject))"

section \<open>Configuration and state\<close>

record InstallConfig =
  ic_HomeDir :: string
  ic_Executable :: string
  ic_HookURL :: string
  ic_Secret :: string
  ic_CodexConfigPath :: string
  ic_ClaudeConfigPath :: string
  ic_StatePath :: string
  ic_SecretPath :: string
  ic_TargetOS :: string

record InstallResult =
  ir_CodexPath :: string
  ir_ClaudePath :: string
  ir_StatePath :: string
  ir_SecretPath :: string
  ir_Backups :: "string list"

text \<open>The raw message \<open>PreviousStatusLine\<close> is its bytes, empty when it is nil.\<close>

record installState =
  st_Version :: int
  st_CodexPath :: string
  st_ClaudePath :: string
  st_SecretPath :: string
  st_PreviousStatusLineExists :: bool
  st_PreviousStatusLine :: string

definition zero_state :: installState where
  "zero_state = \<lparr>st_Version = 0, st_CodexPath = [], st_ClaudePath = [], st_SecretPath = [],
     st_PreviousStatusLineExists = False, st_PreviousStatusLine = []\<rparr>"

record install_lib =
  il_number :: "float64 \<Rightarrow> string"
  il_decode :: "string \<Rightarrow> json option"
  il_enc_state :: "installState \<Rightarrow> string"
  il_dec_state :: "string \<Rightarrow> installState option"
  il_dec_status :: "string \<Rightarrow> PreviousStatusLine option"
  il_url :: "string \<Rightarrow> parsed_url option"
  il_loopback :: "string \<Rightarrow> bool"

datatype install_error =
    HomeUnknown | ExecutableRequired | URLRefused hook_error | SecretRequired
  | StateDirectory | StateIO host_error | StateInvalid
  | ConfigIO host_error | ConfigInvalid string | NilMapWrite
  | TransactionError transaction_error | RestoreInvalid

definition default_to :: "string \<Rightarrow> string \<Rightarrow> string" where
  "default_to d s = (if s = [] then d else s)"

definition home_dir :: "host_env \<Rightarrow> string \<Rightarrow> (install_error, string) result" where
  "home_dir env home =
     (if home \<noteq> [] then Inr home
      else case he_home env of None \<Rightarrow> Inl HomeUnknown | Some d \<Rightarrow> Inr d)"

definition withDefaults :: "host_env \<Rightarrow> install_lib \<Rightarrow> InstallConfig \<Rightarrow> (install_error, InstallConfig) result" where
  "withDefaults env lib c =
     (case home_dir env (ic_HomeDir c) of
        Inl e \<Rightarrow> Inl e
      | Inr home \<Rightarrow>
        if ic_Executable c = [] then Inl ExecutableRequired
        else let url = default_to ''http://127.0.0.1:47632'' (ic_HookURL c) in
        (case validateLoopbackURL (il_url lib) (il_loopback lib) url of
           Some e \<Rightarrow> Inl (URLRefused e)
         | None \<Rightarrow>
             if ic_Secret c = [] then Inl SecretRequired
             else Inr (c\<lparr>ic_HomeDir := home, ic_HookURL := url,
               ic_CodexConfigPath := default_to (path_Join [home, ''.codex'', ''hooks.json'']) (ic_CodexConfigPath c),
               ic_ClaudeConfigPath := default_to (path_Join [home, ''.claude'', ''settings.json'']) (ic_ClaudeConfigPath c),
               ic_StatePath := default_to (path_Join [path_Join [home, ''.quota-monitor''], ''hooks-state.json'']) (ic_StatePath c),
               ic_SecretPath := default_to (path_Join [path_Join [home, ''.quota-monitor''], ''hook-secret'']) (ic_SecretPath c),
               ic_TargetOS := default_to (he_os env) (ic_TargetOS c)\<rparr>)))"

section \<open>Reading\<close>

definition map_error :: "('e \<Rightarrow> 'f) \<Rightarrow> ('e, 'a) host_action \<Rightarrow> ('f, 'a) host_action" where
  "map_error f m h = (case m h of (Inl e, h') \<Rightarrow> (Inl (f e), h') | (Inr x, h') \<Rightarrow> (Inr x, h'))"

definition readInstallState :: "host_env \<Rightarrow> install_lib \<Rightarrow> string \<Rightarrow> (install_error, installState) host_action" where
  "readInstallState env lib path =
     and_then (map_error StateIO (os_ReadFile env path)) (\<lambda>payload h.
       case il_dec_state lib payload of None \<Rightarrow> (Inl StateInvalid, h) | Some st \<Rightarrow> (Inr st, h))"

text \<open>A missing state file is the zero state, as both callers treat it.\<close>

definition load_state :: "host_env \<Rightarrow> install_lib \<Rightarrow> string \<Rightarrow> (install_error, installState) host_action" where
  "load_state env lib path h =
     (case readInstallState env lib path h of
        (Inl (StateIO NotExist), h') \<Rightarrow> (Inr zero_state, h')
      | r \<Rightarrow> r)"

definition LoadPreviousStatusLine ::
    "host_env \<Rightarrow> install_lib \<Rightarrow> string \<Rightarrow> (install_error, PreviousStatusLine option) host_action" where
  "LoadPreviousStatusLine env lib statePath =
     and_then (readInstallState env lib statePath) (\<lambda>state h.
       if \<not> st_PreviousStatusLineExists state \<or> st_PreviousStatusLine state = [] then (Inr None, h)
       else case il_dec_status lib (st_PreviousStatusLine state) of
         None \<Rightarrow> (Inl RestoreInvalid, h)
       | Some previous \<Rightarrow> (Inr (if ps_Command previous = [] then None else Some previous), h))"

definition unmarshal_object :: "install_lib \<Rightarrow> string \<Rightarrow> string \<Rightarrow> (install_error, json_object option) result" where
  "unmarshal_object lib path payload =
     (case il_decode lib payload of
        Some (JObject o') \<Rightarrow> Inr (Some o')
      | Some JNull \<Rightarrow> Inr None
      | _ \<Rightarrow> Inl (ConfigInvalid path))"

definition readJSONObjectIfExists ::
    "host_env \<Rightarrow> install_lib \<Rightarrow> string \<Rightarrow> (install_error, json_object option \<times> file_mode) host_action" where
  "readJSONObjectIfExists env lib path =
     and_then (map_error ConfigIO (os_ReadFile env path)) (\<lambda>payload.
     and_then (\<lambda>h. (unmarshal_object lib path payload, h)) (\<lambda>doc.
     and_then (map_error ConfigIO (os_Stat env path)) (\<lambda>mode h. (Inr (doc, mode), h))))"

definition readJSONObject ::
    "host_env \<Rightarrow> install_lib \<Rightarrow> string \<Rightarrow> (install_error, json_object option \<times> file_mode) host_action" where
  "readJSONObject env lib path h =
     (case readJSONObjectIfExists env lib path h of
        (Inl (ConfigIO NotExist), h') \<Rightarrow> (Inr (Some [], 384), h')
      | r \<Rightarrow> r)"

section \<open>Writing\<close>

definition document :: "install_lib \<Rightarrow> json_object \<Rightarrow> string" where
  "document lib doc = MarshalIndent (il_number lib) doc @ [CHR 0x0A]"

definition backup_path :: "string \<Rightarrow> string \<Rightarrow> string" where
  "backup_path path stamp = path @ ''.quota-monitor.'' @ stamp @ ''.bak''"

definition jsonFileMutations ::
    "host_env \<Rightarrow> install_lib \<Rightarrow> string \<Rightarrow> json_object \<Rightarrow> file_mode \<Rightarrow>
     (install_error, fileMutation list \<times> string) host_action" where
  "jsonFileMutations env lib path doc mode0 h =
     (let mode = effective_mode mode0;
          target = \<lparr>fm_path = path, fm_payload = document lib doc, fm_mode = mode\<rparr>
      in case os_Stat env path h of
           (Inl NotExist, h') \<Rightarrow> (Inr ([target], []), h')
         | (Inl IOFailure, h') \<Rightarrow> (Inl (ConfigIO IOFailure), h')
         | (Inr info, h') \<Rightarrow>
             and_then (map_error ConfigIO (os_ReadFile env path)) (\<lambda>original h''.
               let backup = backup_path path (he_stamp env (h_calls h''))
               in (Inr ([\<lparr>fm_path = backup, fm_payload = original, fm_mode = info\<rparr>, target], backup), h'')) h')"

definition backupAndWriteJSON ::
    "host_env \<Rightarrow> install_lib \<Rightarrow> string \<Rightarrow> json_object \<Rightarrow> file_mode \<Rightarrow> (install_error, string) host_action" where
  "backupAndWriteJSON env lib path doc mode0 h =
     (let mode = effective_mode mode0;
          write = (\<lambda>backup. and_then (map_error ConfigIO (atomicWrite env path (document lib doc) mode))
            (\<lambda>_ h'. (Inr backup, h')))
      in case os_Stat env path h of
           (Inl NotExist, h') \<Rightarrow> write [] h'
         | (Inl IOFailure, h') \<Rightarrow> (Inl (ConfigIO IOFailure), h')
         | (Inr _, h') \<Rightarrow>
             and_then (map_error ConfigIO (os_ReadFile env path)) (\<lambda>original h''.
               let backup = backup_path path (he_stamp env (h_calls h''))
               in and_then (map_error ConfigIO (atomicWrite env backup original mode)) (\<lambda>_. write backup) h'') h')"

section \<open>Install\<close>

definition hook_command :: "InstallConfig \<Rightarrow> string \<Rightarrow> string" where
  "hook_command c provider =
     managedCommand (ic_TargetOS c) (ic_Executable c) [''hook'', ''forward'', ''--provider'', provider, ''--url'',
       ic_HookURL c, ''--secret-file'', ic_SecretPath c, ''--managed-by'', ManagedMarker]"

definition status_command :: "InstallConfig \<Rightarrow> string" where
  "status_command c =
     managedCommand (ic_TargetOS c) (ic_Executable c) [''hook'', ''statusline'', ''--url'', ic_HookURL c,
       ''--secret-file'', ic_SecretPath c, ''--state-file'', ic_StatePath c, ''--managed-by'', ManagedMarker]"

definition wrapper_line :: "InstallConfig \<Rightarrow> json" where
  "wrapper_line c = JObject [(''type'', JString ''command''), (''command'', JString (status_command c)),
     (''refreshInterval'', JNumber (F64 15))]"

text \<open>The codex and claude documents an installation writes, and the restoration state.\<close>

definition codex_installed :: "install_lib \<Rightarrow> InstallConfig \<Rightarrow> json_object \<Rightarrow> json_object" where
  "codex_installed lib c doc = mergeManagedHooks (il_number lib) doc codexEvents (hook_command c ''codex'')"

definition claude_installed :: "install_lib \<Rightarrow> InstallConfig \<Rightarrow> json_object \<Rightarrow> json_object" where
  "claude_installed lib c doc =
     gomap_put ''statusLine'' (wrapper_line c)
       (mergeManagedHooks (il_number lib) doc claudeEvents (hook_command c ''claude''))"

definition next_state :: "install_lib \<Rightarrow> InstallConfig \<Rightarrow> json_object \<Rightarrow> installState \<Rightarrow> installState" where
  "next_state lib c doc state0 =
     (let state1 = (if st_Version state0 \<noteq> 1 then zero_state\<lparr>st_Version := 1\<rparr> else state0);
          state = state1\<lparr>st_CodexPath := ic_CodexConfigPath c, st_ClaudePath := ic_ClaudeConfigPath c,
            st_SecretPath := ic_SecretPath c\<rparr>;
          current = gomap_get doc ''statusLine''
      in if \<not> isManagedValue (il_number lib) (case current of Some v \<Rightarrow> v | None \<Rightarrow> JNull)
         then state\<lparr>st_PreviousStatusLineExists := (current \<noteq> None),
           st_PreviousStatusLine := (case current of Some v \<Rightarrow> Marshal (il_number lib) v | None \<Rightarrow> [])\<rparr>
         else state)"

definition install_files ::
    "host_env \<Rightarrow> install_lib \<Rightarrow> InstallConfig \<Rightarrow> installState \<Rightarrow> json_object \<Rightarrow> file_mode \<Rightarrow> json_object \<Rightarrow> file_mode \<Rightarrow>
     (install_error, InstallResult) host_action" where
  "install_files env lib c state codexRoot codexMode claudeRoot claudeMode =
     (let mutations = [\<lparr>fm_path = ic_StatePath c, fm_payload = il_enc_state lib state @ [CHR 0x0A], fm_mode = 384\<rparr>,
            \<lparr>fm_path = ic_SecretPath c, fm_payload = ic_Secret c @ [CHR 0x0A], fm_mode = 384\<rparr>]
      in and_then (jsonFileMutations env lib (ic_CodexConfigPath c) codexRoot codexMode) (\<lambda>(codexMutations, codexBackup).
         and_then (jsonFileMutations env lib (ic_ClaudeConfigPath c) claudeRoot claudeMode) (\<lambda>(claudeMutations, claudeBackup).
         and_then (map_error TransactionError (applyFileTransaction env (mutations @ codexMutations @ claudeMutations))) (\<lambda>_ h.
           (Inr \<lparr>ir_CodexPath = ic_CodexConfigPath c, ir_ClaudePath = ic_ClaudeConfigPath c,
              ir_StatePath = ic_StatePath c, ir_SecretPath = ic_SecretPath c,
              ir_Backups = filter (\<lambda>b. b \<noteq> []) [codexBackup, claudeBackup]\<rparr>, h)))))"

definition Install :: "host_env \<Rightarrow> install_lib \<Rightarrow> InstallConfig \<Rightarrow> (install_error, InstallResult) host_action" where
  "Install env lib cfg h =
     (case withDefaults env lib cfg of
        Inl e \<Rightarrow> (Inl e, h)
      | Inr c \<Rightarrow>
          and_then (map_error (\<lambda>_. StateDirectory) (syscall env)) (\<lambda>_.
          and_then (load_state env lib (ic_StatePath c)) (\<lambda>state0.
          and_then (readJSONObject env lib (ic_CodexConfigPath c)) (\<lambda>(codexRoot, codexMode).
          and_then (readJSONObject env lib (ic_ClaudeConfigPath c)) (\<lambda>(claudeRoot, claudeMode).
            case (codexRoot, claudeRoot) of
              (Some codex, Some claude) \<Rightarrow>
                install_files env lib c (next_state lib c claude state0)
                  (codex_installed lib c codex) codexMode (claude_installed lib c claude) claudeMode
            | _ \<Rightarrow> (\<lambda>h'. (Inl NilMapWrite, h')))))) h)"

section \<open>Uninstall\<close>

definition uninstall_config :: "InstallConfig \<Rightarrow> installState \<Rightarrow> string \<Rightarrow> InstallConfig" where
  "uninstall_config cfg state home =
     cfg\<lparr>ic_HomeDir := home,
       ic_CodexConfigPath := default_to (default_to (path_Join [home, ''.codex'', ''hooks.json'']) (st_CodexPath state))
         (ic_CodexConfigPath cfg),
       ic_ClaudeConfigPath := default_to (default_to (path_Join [home, ''.claude'', ''settings.json'']) (st_ClaudePath state))
         (ic_ClaudeConfigPath cfg),
       ic_SecretPath := default_to (default_to (path_Join [home, ''.quota-monitor'', ''hook-secret'']) (st_SecretPath state))
         (ic_SecretPath cfg)\<rparr>"

text \<open>Reading a configuration that may be missing: \<open>None\<close> when there is nothing to edit.\<close>

definition existing_document ::
    "host_env \<Rightarrow> install_lib \<Rightarrow> string \<Rightarrow> (install_error, (json_object \<times> file_mode) option) host_action" where
  "existing_document env lib path h =
     (case readJSONObjectIfExists env lib path h of
        (Inl (ConfigIO NotExist), h') \<Rightarrow> (Inr None, h')
      | (Inl e, h') \<Rightarrow> (Inl e, h')
      | (Inr (None, _), h') \<Rightarrow> (Inr None, h')
      | (Inr (Some doc, mode), h') \<Rightarrow> (Inr (Some (doc, mode)), h'))"

definition write_if_changed ::
    "host_env \<Rightarrow> install_lib \<Rightarrow> string \<Rightarrow> json_object \<times> bool \<Rightarrow> file_mode \<Rightarrow> (install_error, string list) host_action" where
  "write_if_changed env lib path edit mode =
     (if snd edit
      then and_then (backupAndWriteJSON env lib path (fst edit) mode) (\<lambda>backup h. (Inr (filter (\<lambda>b. b \<noteq> []) [backup]), h))
      else (\<lambda>h. (Inr [], h)))"

definition restore_status_line ::
    "install_lib \<Rightarrow> installState \<Rightarrow> json_object \<times> bool \<Rightarrow> (install_error, json_object \<times> bool) result" where
  "restore_status_line lib state edit =
     (case gomap_get (fst edit) ''statusLine'' of
        None \<Rightarrow> Inr edit
      | Some current \<Rightarrow>
          if \<not> isManagedValue (il_number lib) current then Inr edit
          else if st_PreviousStatusLineExists state \<and> st_PreviousStatusLine state \<noteq> [] then
            (case il_decode lib (st_PreviousStatusLine state) of
               None \<Rightarrow> Inl RestoreInvalid
             | Some previous \<Rightarrow> Inr (gomap_put ''statusLine'' previous (fst edit), True))
          else Inr (gomap_del ''statusLine'' (fst edit), True))"

definition uninstall_codex :: "host_env \<Rightarrow> install_lib \<Rightarrow> string \<Rightarrow> (install_error, string list) host_action" where
  "uninstall_codex env lib path =
     and_then (existing_document env lib path) (\<lambda>found.
       case found of
         None \<Rightarrow> (\<lambda>h. (Inr [], h))
       | Some (doc, mode) \<Rightarrow> write_if_changed env lib path (removeManagedHooks (il_number lib) doc) mode)"

definition uninstall_claude ::
    "host_env \<Rightarrow> install_lib \<Rightarrow> installState \<Rightarrow> string \<Rightarrow> (install_error, string list) host_action" where
  "uninstall_claude env lib state path =
     and_then (existing_document env lib path) (\<lambda>found.
       case found of
         None \<Rightarrow> (\<lambda>h. (Inr [], h))
       | Some (doc, mode) \<Rightarrow>
           and_then (\<lambda>h. (restore_status_line lib state (removeManagedHooks (il_number lib) doc), h)) (\<lambda>edit.
             write_if_changed env lib path edit mode))"

definition Uninstall :: "host_env \<Rightarrow> install_lib \<Rightarrow> InstallConfig \<Rightarrow> (install_error, InstallResult) host_action" where
  "Uninstall env lib cfg h =
     (case home_dir env (ic_HomeDir cfg) of
        Inl e \<Rightarrow> (Inl e, h)
      | Inr home \<Rightarrow>
          let statePath = default_to (path_Join [home, ''.quota-monitor'', ''hooks-state.json'']) (ic_StatePath cfg) in
          and_then (load_state env lib statePath) (\<lambda>state.
            let c = uninstall_config cfg state home in
            and_then (uninstall_codex env lib (ic_CodexConfigPath c)) (\<lambda>codexBackups.
            and_then (uninstall_claude env lib state (ic_ClaudeConfigPath c)) (\<lambda>claudeBackups h'.
              (Inr \<lparr>ir_CodexPath = ic_CodexConfigPath c, ir_ClaudePath = ic_ClaudeConfigPath c,
                 ir_StatePath = statePath, ir_SecretPath = ic_SecretPath c,
                 ir_Backups = codexBackups @ claudeBackups\<rparr>,
               snd (os_Remove env statePath (snd (os_Remove env (ic_SecretPath c) h'))))))) h)"

section \<open>Quoting\<close>

text \<open>
  How a POSIX shell splits a simple command into words, for input made of blanks, plain
  characters and quotes; the reader gives up (\<open>None\<close>) on every character that would make the
  shell do anything else, and on an unfinished quotation.
\<close>

datatype quote_mode = Bare | Single | Double

definition word_so_far :: "string option \<Rightarrow> string" where
  "word_so_far cur = (case cur of None \<Rightarrow> [] | Some w \<Rightarrow> w)"

fun sh_words :: "quote_mode \<Rightarrow> string option \<Rightarrow> string \<Rightarrow> string list option" where
  "sh_words mode cur [] = (if mode = Bare then Some (case cur of None \<Rightarrow> [] | Some w \<Rightarrow> [w]) else None)"
| "sh_words Single cur (c # s) =
     (if c = CHR 0x27 then sh_words Bare cur s else sh_words Single (Some (word_so_far cur @ [c])) s)"
| "sh_words Double cur (c # s) =
     (if c = CHR 0x22 then sh_words Bare cur s
      else if c = CHR ''$'' \<or> c = CHR 0x60 \<or> c = CHR 0x5C \<or> c = CHR ''!'' then None
      else sh_words Double (Some (word_so_far cur @ [c])) s)"
| "sh_words Bare cur (c # s) =
     (if c = CHR '' '' then
        (case cur of None \<Rightarrow> sh_words Bare None s | Some w \<Rightarrow> map_option ((#) w) (sh_words Bare None s))
      else if c = CHR 0x27 then sh_words Single (Some (word_so_far cur)) s
      else if c = CHR 0x22 then sh_words Double (Some (word_so_far cur)) s
      else if plain_char c then sh_words Bare (Some (word_so_far cur @ [c])) s
      else None)"

lemma replace_char_simps [simp]: "replace_char c new [] = []"
  "replace_char c new (d # s) = (if d = c then new else [d]) @ replace_char c new s"
  by (simp_all add: replace_char_def)

lemma sh_words_quoted:
  "sh_words Single (Some w) (replace_char (CHR 0x27) [CHR 0x27, CHR 0x22, CHR 0x27, CHR 0x22, CHR 0x27] v @ CHR 0x27 # t) =
     sh_words Bare (Some (w @ v)) t"
  by (induction v arbitrary: w) (auto simp: word_so_far_def)

lemma sh_words_shellQuote:
  "os \<noteq> ''windows'' \<Longrightarrow> sh_words Bare None (shellQuote os v @ t) = sh_words Bare (Some v) t"
  using sh_words_quoted [of "[]" v t] by (simp add: shellQuote_def word_so_far_def)

lemma sh_words_join:
  "os \<noteq> ''windows'' \<Longrightarrow> sh_words Bare None (join_char (CHR '' '') (map (shellQuote os) ws)) = Some ws"
proof (induction ws rule: induct_list012)
  case (2 w)
  then show ?case using sh_words_shellQuote [of os w "[]"] by simp
next
  case (3 v w ws)
  then show ?case by (simp add: sh_words_shellQuote)
qed simp

section \<open>Managed entries\<close>

lemma marker_plain: "list_all plain_char ManagedMarker"
  by (simp add: ManagedMarker_def plain_char_def byte_class_defs)

lemma contains_join_char: "w \<in> set ws \<Longrightarrow> contains w m \<Longrightarrow> contains (join_char d ws) m"
proof (induction d ws rule: join_char.induct)
  case (3 d w' v ws)
  then consider "w = w'" | "contains (join_char d (v # ws)) m" by auto
  then show ?case
  proof cases
    case 1
    with contains_append [OF 3(3), of "[]" "d # join_char d (v # ws)"] show ?thesis by simp
  next
    case 2
    from contains_append [OF this, of "w' @ [d]" "[]"] show ?thesis by simp
  qed
qed auto

lemma contains_self: "contains s s"
  by (simp add: contains_iff)

lemma replace_char_absent: "c \<notin> set s \<Longrightarrow> replace_char c new s = s"
  by (induction s) auto

lemma managedCommand_marked:
  assumes "ManagedMarker \<in> set args"
  shows "contains (managedCommand os exe args) ManagedMarker"
proof -
  have "contains (shellQuote os ManagedMarker) ManagedMarker"
    using contains_append [OF contains_self, of "[CHR 0x22]" ManagedMarker "[CHR 0x22]"]
      contains_append [OF contains_self, of "[CHR 0x27]" ManagedMarker "[CHR 0x27]"]
    by (auto simp: shellQuote_def replace_char_absent ManagedMarker_def)
  with assms show ?thesis unfolding managedCommand_def by (intro contains_join_char) auto
qed

lemma marked_command_managed:
  "(''command'', JString command) \<in> set kvs \<Longrightarrow> contains command ManagedMarker \<Longrightarrow> isManagedValue number (JObject kvs)"
  unfolding isManagedValue_def by (rule Marshal_member_contains [OF marker_plain])

definition user_group :: "(float64 \<Rightarrow> string) \<Rightarrow> json \<Rightarrow> bool" where
  "user_group number g =
     (case g of
        JObject o' \<Rightarrow>
          (case array_of (gomap_get o' ''hooks'') of
             Some cs \<Rightarrow> cs \<noteq> [] \<and> list_all (\<lambda>c. \<not> isManagedValue number c) cs
           | None \<Rightarrow> True)
      | _ \<Rightarrow> True)"

lemma array_of_Some: "array_of v = Some vs \<longleftrightarrow> v = Some (JArray vs)"
  by (auto simp: array_of_def split: option.splits json.splits)

lemma array_of_JArray [simp]: "array_of (Some (JArray vs)) = Some vs"
  by (simp add: array_of_def)

lemma filter_user_group: "user_group number g \<Longrightarrow> filter_group number g = ([g], False)"
  by (auto simp: user_group_def filter_group_def Let_def array_of_Some gomap_put_same_value list_all_iff list_ex_iff
      filter_id_conv split: json.splits option.splits)

lemma filter_managed_group:
  "contains command ManagedMarker \<Longrightarrow> filter_group number (managed_group command) = ([], True)"
  using marked_command_managed [of command _ number]
  by (auto simp: filter_group_def managed_group_def gomap_get_def array_of_def Let_def)

lemma filterManagedGroups_simps:
  "filterManagedGroups number [] = ([], False)"
  "filterManagedGroups number (gs @ gs') =
     (fst (filterManagedGroups number gs) @ fst (filterManagedGroups number gs'),
      snd (filterManagedGroups number gs) \<or> snd (filterManagedGroups number gs'))"
  by (simp_all add: filterManagedGroups_def)

lemma filter_user_groups: "list_all (user_group number) gs \<Longrightarrow> filterManagedGroups number gs = (gs, False)"
  by (induction gs) (auto simp: filterManagedGroups_def filter_user_group)

section \<open>Removing what was merged\<close>

text \<open>
  A configuration the user wrote: its hooks are an object, no group is empty or holds a managed
  command, and every event the monitor uses that is present has at least one group.
\<close>

definition user_event :: "(float64 \<Rightarrow> string) \<Rightarrow> json \<Rightarrow> bool" where
  "user_event number v = (case v of JArray gs \<Rightarrow> list_all (user_group number) gs | _ \<Rightarrow> True)"

definition usable_event :: "json option \<Rightarrow> bool" where
  "usable_event v = (case v of None \<Rightarrow> True | Some (JArray gs) \<Rightarrow> gs \<noteq> [] | _ \<Rightarrow> False)"

definition user_hooks :: "(float64 \<Rightarrow> string) \<Rightarrow> string list \<Rightarrow> json_object \<Rightarrow> bool" where
  "user_hooks number events doc =
     (gomap_wf doc \<and>
      (case object_field doc ''hooks'' of
         None \<Rightarrow> False
       | Some hs \<Rightarrow> gomap_wf hs \<and> list_all (\<lambda>(e, v). user_event number v) hs \<and>
           list_all (\<lambda>e. usable_event (gomap_get hs e)) events))"

lemma remove_user_event: "user_event number v \<Longrightarrow> remove_event number (e, v) = ([(e, v)], False)"
  by (auto simp: user_event_def remove_event_def filter_user_groups split: json.splits)

abbreviation removed_hooks :: "(float64 \<Rightarrow> string) \<Rightarrow> json_object \<Rightarrow> json_object" where
  "removed_hooks number hs \<equiv> concat (map (\<lambda>x. fst (remove_event number x)) hs)"

lemma removed_user_hooks: "list_all (\<lambda>(e, v). user_event number v) hs \<Longrightarrow> removed_hooks number hs = hs"
  by (induction hs) (auto simp: remove_user_event)

text \<open>Replacing an entry by one with the same remainder does not change what removal leaves.\<close>

lemma removed_hooks_put:
  assumes "case gomap_get hs e of
      None \<Rightarrow> fst (remove_event number (e, v)) = []
    | Some x \<Rightarrow> fst (remove_event number (e, v)) = fst (remove_event number (e, x))"
  shows "removed_hooks number (gomap_put e v hs) = removed_hooks number hs"
  using assms by (induction hs) (auto simp: gomap_get_def gomap_put_def)

definition mergeable :: "(float64 \<Rightarrow> string) \<Rightarrow> json_object \<Rightarrow> string \<Rightarrow> bool" where
  "mergeable number hs e =
     (case gomap_get hs e of
        None \<Rightarrow> True
      | Some v \<Rightarrow> (\<exists>gs. v = JArray gs \<and> gs \<noteq> [] \<and> list_all (user_group number) gs))"

lemma remove_merged_event:
  assumes "contains command ManagedMarker" and "list_all (user_group number) gs"
  shows "remove_event number (e, JArray (gs @ [managed_group command])) =
    (if gs = [] then [] else [(e, JArray gs)], True)"
  using filter_user_groups [OF assms(2)] filter_managed_group [OF assms(1), of number]
  by (simp add: remove_event_def filterManagedGroups_def)

lemma merge_event_removed:
  assumes "contains command ManagedMarker" and "mergeable number hs e"
  shows "removed_hooks number (merge_event number command e hs) = removed_hooks number hs"
    and "e' \<noteq> e \<Longrightarrow> gomap_get (merge_event number command e hs) e' = gomap_get hs e'"
proof -
  obtain gs where gs: "list_all (user_group number) gs"
    "merge_event number command e hs = gomap_put e (JArray (gs @ [managed_group command])) hs"
    "(gomap_get hs e = None \<and> gs = []) \<or> (gomap_get hs e = Some (JArray gs) \<and> gs \<noteq> [])"
    using assms(2)
    by (auto simp: mergeable_def merge_event_def array_of_def filter_user_groups filterManagedGroups_simps
        split: option.splits)
  have "remove_event number (e, JArray gs) = ([(e, JArray gs)], False)"
    using gs(1) by (simp add: remove_user_event user_event_def)
  then show "removed_hooks number (merge_event number command e hs) = removed_hooks number hs"
    unfolding gs(2) using gs(3) remove_merged_event [OF assms(1) gs(1), of e]
    by (intro removed_hooks_put) auto
  show "e' \<noteq> e \<Longrightarrow> gomap_get (merge_event number command e hs) e' = gomap_get hs e'"
    by (simp add: gs(2) gomap_gets)
qed

lemma fold_merge_removed:
  assumes "contains command ManagedMarker" and "distinct events" and "\<forall>e\<in>set events. mergeable number hs e"
  shows "removed_hooks number (fold (merge_event number command) events hs) = removed_hooks number hs"
  using assms(2,3)
proof (induction events arbitrary: hs)
  case (Cons e events)
  have "mergeable number hs e" using Cons.prems by simp
  note step = merge_event_removed [OF assms(1) this]
  have "\<forall>e'\<in>set events. mergeable number (merge_event number command e hs) e'"
  proof
    fix e' assume e': "e' \<in> set events"
    then have "gomap_get (merge_event number command e hs) e' = gomap_get hs e'"
      using Cons.prems(1) by (auto intro: step(2))
    with e' Cons.prems(2) show "mergeable number (merge_event number command e hs) e'"
      by (simp add: mergeable_def)
  qed
  with Cons.IH [of "merge_event number command e hs"] Cons.prems(1) step(1) show ?case by simp
qed simp

text \<open>The last event merged carries the managed group, so removal reports a change.\<close>

lemma merged_is_changed:
  assumes "contains command ManagedMarker"
  shows "list_ex (\<lambda>x. snd (remove_event number x)) (fold (merge_event number command) (events @ [e]) hs)"
proof -
  let ?hs = "fold (merge_event number command) events hs"
  obtain gs where "merge_event number command e ?hs = gomap_put e (JArray (gs @ [managed_group command])) ?hs"
    by (simp add: merge_event_def Let_def)
  moreover have "gomap_get (gomap_put e (JArray (gs @ [managed_group command])) ?hs) e =
      Some (JArray (gs @ [managed_group command]))"
    by (simp add: gomap_gets)
  ultimately have "(e, JArray (gs @ [managed_group command])) \<in> set (fold (merge_event number command) (events @ [e]) hs)"
    using gomap_get_in_set by fastforce
  moreover have "snd (remove_event number (e, JArray (gs @ [managed_group command])))"
    using filter_managed_group [OF assms, of number]
    by (simp add: remove_event_def filterManagedGroups_def)
  ultimately show ?thesis by (force simp: list_ex_iff)
qed

lemma put_over:
  "gomap_get m k = Some v \<Longrightarrow> j \<noteq> k \<Longrightarrow> gomap_put k v (gomap_put j w (gomap_put k v' m)) = gomap_put j w m"
  "gomap_get m k = Some v \<Longrightarrow> gomap_put k v (gomap_put k v' m) = m"
  by (induction m) (auto simp: gomap_get_def gomap_put_def split: if_splits)

lemma del_put_new: "gomap_get m k = None \<Longrightarrow> gomap_del k (gomap_put k v m) = m"
  by (induction m) (auto simp: gomap_get_def gomap_put_def gomap_del_def split: if_splits)

lemma user_hooks_mergeable:
  assumes "user_hooks number events doc"
  obtains hs where "gomap_get doc ''hooks'' = Some (JObject hs)" and "removed_hooks number hs = hs"
    and "\<forall>e\<in>set events. mergeable number hs e"
proof -
  obtain hs where hs: "gomap_get doc ''hooks'' = Some (JObject hs)"
    "list_all (\<lambda>(e, v). user_event number v) hs"
    "list_all (\<lambda>e. usable_event (gomap_get hs e)) events"
    using assms by (auto simp: user_hooks_def object_field_def split: option.splits json.splits)
  have "mergeable number hs e" if e: "e \<in> set events" for e
  proof (cases "gomap_get hs e")
    case (Some v)
    then have "user_event number v" using hs(2) gomap_get_in_set by (fastforce simp: list_all_iff)
    moreover have "usable_event (Some v)" using hs(3) e Some by (auto simp: list_all_iff)
    ultimately show ?thesis using Some by (cases v) (auto simp: mergeable_def user_event_def usable_event_def)
  qed (simp add: mergeable_def)
  with hs(1) removed_user_hooks [OF hs(2)] show ?thesis using that by blast
qed

text \<open>
  Removing the managed hooks of a document into which they were merged gives back the document,
  also after the status line was put in between.
\<close>

lemma remove_merged:
  assumes "user_hooks number (events @ [e]) doc" and "distinct (events @ [e])" and "contains command ManagedMarker"
  shows "removeManagedHooks number (mergeManagedHooks number doc (events @ [e]) command) = (doc, True)"
    and "removeManagedHooks number (gomap_put ''statusLine'' w (mergeManagedHooks number doc (events @ [e]) command)) =
      (gomap_put ''statusLine'' w doc, True)"
proof -
  obtain hs where hs: "gomap_get doc ''hooks'' = Some (JObject hs)" "removed_hooks number hs = hs"
    "\<forall>e'\<in>set (events @ [e]). mergeable number hs e'"
    using user_hooks_mergeable [OF assms(1)] by blast
  let ?m = "fold (merge_event number command) (events @ [e]) hs"
  have m: "mergeManagedHooks number doc (events @ [e]) command = gomap_put ''hooks'' (JObject ?m) doc"
    by (simp add: mergeManagedHooks_def object_field_def hs(1))
  have r: "removed_hooks number ?m = hs"
    using fold_merge_removed [OF assms(3,2) hs(3)] hs(2) by simp
  show "removeManagedHooks number (mergeManagedHooks number doc (events @ [e]) command) = (doc, True)"
    unfolding m removeManagedHooks_def
    using r merged_is_changed [OF assms(3), of number events e hs] put_over(2) [OF hs(1)]
    by (simp add: object_field_def gomap_gets)
  show "removeManagedHooks number (gomap_put ''statusLine'' w (mergeManagedHooks number doc (events @ [e]) command)) =
      (gomap_put ''statusLine'' w doc, True)"
    unfolding m removeManagedHooks_def
    using r merged_is_changed [OF assms(3), of number events e hs] put_over(1) [OF hs(1)]
    by (simp add: object_field_def gomap_gets)
qed

section \<open>Reading and writing when every call works\<close>

lemma os_Stat_calm:
  "all_calls_work env \<Longrightarrow>
     os_Stat env p h = (case h_files h (path_key p) of None \<Rightarrow> Inl NotExist | Some f \<Rightarrow> Inr (snd f), done_call h)"
  by (auto simp: os_Stat_def and_then_def syscall_def all_calls_work_def split: option.split)

lemma os_ReadFile_calm:
  "all_calls_work env \<Longrightarrow>
     os_ReadFile env p h = (case h_files h (path_key p) of None \<Rightarrow> Inl NotExist | Some f \<Rightarrow> Inr (fst f), done_call h)"
  by (auto simp: os_ReadFile_def and_then_def syscall_def all_calls_work_def split: option.split)

lemma os_Remove_calm:
  "all_calls_work env \<Longrightarrow> h_files (snd (os_Remove env p h)) = (h_files h)(path_key p := None)"
  by (auto simp: os_Remove_def remove_key_def and_then_def syscall_def all_calls_work_def set_file_def
      split: option.split)

lemmas calm_reads = os_Stat_calm os_ReadFile_calm and_then_def map_error_def

lemma readJSON_calm:
  assumes "all_calls_work env" and "h_files h (path_key p) = Some (bytes, mode)" and "il_decode lib bytes = Some (JObject doc)"
  shows "readJSONObjectIfExists env lib p h = (Inr (Some doc, mode), done_call (done_call h))"
    and "readJSONObject env lib p h = (Inr (Some doc, mode), done_call (done_call h))"
    and "existing_document env lib p h = (Inr (Some (doc, mode)), done_call (done_call h))"
proof -
  show r: "readJSONObjectIfExists env lib p h = (Inr (Some doc, mode), done_call (done_call h))"
    using assms by (simp add: readJSONObjectIfExists_def unmarshal_object_def calm_reads)
  show "readJSONObject env lib p h = (Inr (Some doc, mode), done_call (done_call h))"
    by (simp add: readJSONObject_def r)
  show "existing_document env lib p h = (Inr (Some (doc, mode)), done_call (done_call h))"
    by (simp add: existing_document_def r)
qed

lemma load_state_calm:
  assumes "all_calls_work env"
  shows "h_files h (path_key p) = None \<Longrightarrow> load_state env lib p h = (Inr zero_state, done_call h)"
    and "h_files h (path_key p) = Some (bytes, mode) \<Longrightarrow> il_dec_state lib bytes = Some state \<Longrightarrow>
      load_state env lib p h = (Inr state, done_call h)"
  using assms by (simp_all add: load_state_def readInstallState_def calm_reads)

text \<open>Both ways of replacing an existing configuration keep a copy of it under a backup name.\<close>

definition config_mutations :: "install_lib \<Rightarrow> string \<Rightarrow> json_object \<Rightarrow> file_mode \<Rightarrow> host_file \<Rightarrow> string \<Rightarrow> fileMutation list" where
  "config_mutations lib p doc mode f backup =
     [\<lparr>fm_path = backup, fm_payload = fst f, fm_mode = snd f\<rparr>,
      \<lparr>fm_path = p, fm_payload = document lib doc, fm_mode = effective_mode mode\<rparr>]"

lemma jsonFileMutations_calm:
  assumes "all_calls_work env" and "h_files h (path_key p) = Some f"
  obtains n where "jsonFileMutations env lib p doc mode h =
    (Inr (config_mutations lib p doc mode f (backup_path p (he_stamp env n)), backup_path p (he_stamp env n)),
     done_call (done_call h))"
  using assms by (auto simp: jsonFileMutations_def calm_reads Let_def config_mutations_def)

definition backup_apart :: "host_env \<Rightarrow> string \<Rightarrow> bool" where
  "backup_apart env p = (\<not> is_temp (path_key p) \<and>
     (\<forall>n. \<not> is_temp (path_key (backup_path p (he_stamp env n))) \<and> path_key (backup_path p (he_stamp env n)) \<noteq> path_key p))"

lemma write_if_changed_calm:
  assumes "all_calls_work env" and "no_temps h" and "backup_apart env p" and "h_files h (path_key p) = Some f"
  obtains bs h' n where "write_if_changed env lib p (doc, True) mode h = (Inr bs, h')" and "no_temps h'"
    and "\<forall>k. k \<noteq> path_key (backup_path p (he_stamp env n)) \<longrightarrow>
      h_files h' k = (if k = path_key p then Some (document lib doc, effective_mode mode) else h_files h k)"
proof -
  let ?h1 = "done_call (done_call h)"
  let ?n = "h_calls ?h1"
  let ?b = "backup_path p (he_stamp env ?n)"
  note apart = assms(3) [unfolded backup_apart_def]
  have "no_temps ?h1" using assms(2) by (simp add: no_temps_def)
  then obtain h2 where h2: "atomicWrite env ?b (fst f) (effective_mode mode) ?h1 = (Inr (), h2)" "no_temps h2"
    "\<And>k. h_files h2 k = (if k = path_key ?b then Some (fst f, effective_mode mode) else h_files ?h1 k)"
    using atomicWrite_calm [OF assms(1), of ?h1 ?b "fst f" "effective_mode mode"] apart by metis
  obtain h3 where h3: "atomicWrite env p (document lib doc) (effective_mode mode) h2 = (Inr (), h3)" "no_temps h3"
    "\<And>k. h_files h3 k = (if k = path_key p then Some (document lib doc, effective_mode mode) else h_files h2 k)"
    using atomicWrite_calm [OF assms(1) h2(2), of p "document lib doc" "effective_mode mode"] apart by metis
  have "write_if_changed env lib p (doc, True) mode h = (Inr (filter (\<lambda>b. b \<noteq> []) [?b]), h3)"
    using assms(1,4) h2(1) h3(1)
    by (simp add: write_if_changed_def backupAndWriteJSON_def calm_reads Let_def)
  moreover have "h_files h3 k = (if k = path_key p then Some (document lib doc, effective_mode mode) else h_files h k)"
    if "k \<noteq> path_key ?b" for k
    using that h2(3) h3(3) by simp
  ultimately show ?thesis using that h3(2) by blast
qed

section \<open>Install and uninstall\<close>

text \<open>The paths of an installation are pairwise different files, backups included.\<close>

definition install_paths :: "host_env \<Rightarrow> InstallConfig \<Rightarrow> bool" where
  "install_paths env c =
     (list_all (\<lambda>p. p \<noteq> [] \<and> \<not> is_temp (path_key p))
        [ic_StatePath c, ic_SecretPath c, ic_CodexConfigPath c, ic_ClaudeConfigPath c] \<and>
      (\<forall>m n. \<not> is_temp (path_key (backup_path (ic_CodexConfigPath c) (he_stamp env m))) \<and>
         \<not> is_temp (path_key (backup_path (ic_ClaudeConfigPath c) (he_stamp env n))) \<and>
         distinct (map Clean [ic_StatePath c, ic_SecretPath c,
           backup_path (ic_CodexConfigPath c) (he_stamp env m), ic_CodexConfigPath c,
           backup_path (ic_ClaudeConfigPath c) (he_stamp env n), ic_ClaudeConfigPath c])))"

lemma install_paths_keys:
  assumes "install_paths env c"
  shows "distinct (map path_key [ic_StatePath c, ic_SecretPath c,
      backup_path (ic_CodexConfigPath c) (he_stamp env m), ic_CodexConfigPath c,
      backup_path (ic_ClaudeConfigPath c) (he_stamp env n), ic_ClaudeConfigPath c])"
    and "backup_apart env (ic_CodexConfigPath c)" and "backup_apart env (ic_ClaudeConfigPath c)"
proof -
  have d: "distinct (map path_key [ic_StatePath c, ic_SecretPath c,
      backup_path (ic_CodexConfigPath c) (he_stamp env m), ic_CodexConfigPath c,
      backup_path (ic_ClaudeConfigPath c) (he_stamp env n), ic_ClaudeConfigPath c])" for m n
  proof -
    have "distinct (map (Clean \<circ> (\<lambda>p. p)) [ic_StatePath c, ic_SecretPath c,
        backup_path (ic_CodexConfigPath c) (he_stamp env m), ic_CodexConfigPath c,
        backup_path (ic_ClaudeConfigPath c) (he_stamp env n), ic_ClaudeConfigPath c])"
      using assms unfolding install_paths_def comp_def by blast
    from distinct_clean_keys [OF this] show ?thesis by (simp only: comp_def)
  qed
  then show "distinct (map path_key [ic_StatePath c, ic_SecretPath c,
      backup_path (ic_CodexConfigPath c) (he_stamp env m), ic_CodexConfigPath c,
      backup_path (ic_ClaudeConfigPath c) (he_stamp env n), ic_ClaudeConfigPath c])" .
  show "backup_apart env (ic_CodexConfigPath c)" "backup_apart env (ic_ClaudeConfigPath c)"
    using assms d by (auto simp: backup_apart_def install_paths_def)
qed

lemma install_files_calm:
  assumes "all_calls_work env" and "no_temps h" and "install_paths env c"
    and "h_files h (path_key (ic_CodexConfigPath c)) = Some fc" and "h_files h (path_key (ic_ClaudeConfigPath c)) = Some fl"
  obtains r h' where "install_files env lib c state codex mc claude ml h = (Inr r, h')" and "no_temps h'"
    and "h_files h' (path_key (ic_StatePath c)) = Some (il_enc_state lib state @ [CHR 0x0A], 384)"
    and "h_files h' (path_key (ic_CodexConfigPath c)) = Some (document lib codex, effective_mode mc)"
    and "h_files h' (path_key (ic_ClaudeConfigPath c)) = Some (document lib claude, effective_mode ml)"
proof -
  let ?h1 = "done_call (done_call h)"
  let ?h2 = "done_call (done_call ?h1)"
  obtain m where m: "jsonFileMutations env lib (ic_CodexConfigPath c) codex mc h =
      (Inr (config_mutations lib (ic_CodexConfigPath c) codex mc fc (backup_path (ic_CodexConfigPath c) (he_stamp env m)),
            backup_path (ic_CodexConfigPath c) (he_stamp env m)), ?h1)"
    using jsonFileMutations_calm [OF assms(1,4)] by blast
  have "h_files ?h1 (path_key (ic_ClaudeConfigPath c)) = Some fl" using assms(5) by simp
  then obtain n where n: "jsonFileMutations env lib (ic_ClaudeConfigPath c) claude ml ?h1 =
      (Inr (config_mutations lib (ic_ClaudeConfigPath c) claude ml fl (backup_path (ic_ClaudeConfigPath c) (he_stamp env n)),
            backup_path (ic_ClaudeConfigPath c) (he_stamp env n)), ?h2)"
    using jsonFileMutations_calm [OF assms(1)] by blast
  let ?ms = "[\<lparr>fm_path = ic_StatePath c, fm_payload = il_enc_state lib state @ [CHR 0x0A], fm_mode = 384\<rparr>,
      \<lparr>fm_path = ic_SecretPath c, fm_payload = ic_Secret c @ [CHR 0x0A], fm_mode = 384\<rparr>] @
      config_mutations lib (ic_CodexConfigPath c) codex mc fc (backup_path (ic_CodexConfigPath c) (he_stamp env m)) @
      config_mutations lib (ic_ClaudeConfigPath c) claude ml fl (backup_path (ic_ClaudeConfigPath c) (he_stamp env n))"
  have "no_temps ?h2" using assms(2) by (simp add: no_temps_def)
  moreover have "distinct (map (Clean \<circ> fm_path) ?ms)" "\<And>x. x \<in> set ?ms \<Longrightarrow> \<not> is_temp (path_key (fm_path x))"
    using assms(3) unfolding install_paths_def by (auto simp: config_mutations_def)
  ultimately obtain h' where h': "applyFileTransaction env ?ms ?h2 = (Inr (), h')" "no_temps h'"
    "\<And>k. \<not> is_temp k \<Longrightarrow> h_files h' k = mutated ?ms ?h2 k"
    using applyFileTransaction_calm [OF assms(1), of ?h2 ?ms] by metis
  have run: "\<exists>r. install_files env lib c state codex mc claude ml h = (Inr r, h')"
    using m n h'(1) by (simp add: install_files_def and_then_def map_error_def Let_def)
  have em: "effective_mode (effective_mode x) = effective_mode x" "effective_mode 384 = 384" for x
    by (simp_all add: effective_mode_def)
  have nt: "\<not> is_temp (path_key (ic_StatePath c))" "\<not> is_temp (path_key (ic_CodexConfigPath c))"
    "\<not> is_temp (path_key (ic_ClaudeConfigPath c))"
    using assms(3) by (auto simp: install_paths_def)
  show ?thesis
    using run that h'(2) h'(3) [OF nt(1)] h'(3) [OF nt(2)] h'(3) [OF nt(3)]
      install_paths_keys(1) [OF assms(3), of m n]
    by (auto simp: mutated_Cons em config_mutations_def)
qed

text \<open>
  What is needed of the JSON decoder: it reads back the two documents and the state file that the
  installation writes, the previous status line as an equal value.
\<close>

definition reads_back :: "install_lib \<Rightarrow> InstallConfig \<Rightarrow> json_object \<Rightarrow> json_object \<Rightarrow> installState \<Rightarrow> bool" where
  "reads_back lib c codex claude state =
     (il_decode lib (document lib (codex_installed lib c codex)) = Some (JObject (codex_installed lib c codex)) \<and>
      il_decode lib (document lib (claude_installed lib c claude)) = Some (JObject (claude_installed lib c claude)) \<and>
      il_dec_state lib (il_enc_state lib (next_state lib c claude zero_state) @ [CHR 0x0A]) = Some state \<and>
      (case gomap_get claude ''statusLine'' of
         None \<Rightarrow> \<not> st_PreviousStatusLineExists state
       | Some v \<Rightarrow> st_PreviousStatusLineExists state \<and> st_PreviousStatusLine state \<noteq> [] \<and>
           il_decode lib (st_PreviousStatusLine state) = Some v))"

lemma hook_command_marked: "contains (hook_command c p) ManagedMarker" "contains (status_command c) ManagedMarker"
  by (simp_all add: hook_command_def status_command_def managedCommand_marked)

lemma codex_restored:
  assumes "user_hooks (il_number lib) codexEvents codex"
  shows "removeManagedHooks (il_number lib) (codex_installed lib c codex) = (codex, True)"
proof -
  have e: "codexEvents = butlast codexEvents @ [''PostToolUse'']" "distinct codexEvents"
    by (simp_all add: codexEvents_def)
  show ?thesis
    unfolding codex_installed_def
    using remove_merged(1) [of "il_number lib" "butlast codexEvents" "''PostToolUse''" codex] assms hook_command_marked e
    by (metis (no_types))
qed

lemma claude_restored:
  assumes "user_hooks (il_number lib) claudeEvents claude"
    and "case gomap_get claude ''statusLine'' of
        None \<Rightarrow> \<not> st_PreviousStatusLineExists state
      | Some v \<Rightarrow> st_PreviousStatusLineExists state \<and> st_PreviousStatusLine state \<noteq> [] \<and>
          il_decode lib (st_PreviousStatusLine state) = Some v"
  shows "restore_status_line lib state (removeManagedHooks (il_number lib) (claude_installed lib c claude)) = Inr (claude, True)"
proof -
  have e: "claudeEvents = butlast claudeEvents @ [''PostToolUse'']" "distinct claudeEvents"
    by (simp_all add: claudeEvents_def)
  have r: "removeManagedHooks (il_number lib) (claude_installed lib c claude) =
      (gomap_put ''statusLine'' (wrapper_line c) claude, True)"
    unfolding claude_installed_def
    using remove_merged(2) [of "il_number lib" "butlast claudeEvents" "''PostToolUse''" claude] assms(1) hook_command_marked e
    by (metis (no_types))
  have w: "isManagedValue (il_number lib) (wrapper_line c)"
    unfolding wrapper_line_def by (rule marked_command_managed [OF _ hook_command_marked(2)]) simp
  show ?thesis
    using assms(2) w by (auto simp: r restore_status_line_def gomap_gets put_over(2) del_put_new split: option.splits)
qed

lemma Install_calm:
  assumes "all_calls_work env" and "no_temps h" and "withDefaults env lib cfg = Inr c" and "install_paths env c"
    and "h_files h (path_key (ic_StatePath c)) = None"
    and "h_files h (path_key (ic_CodexConfigPath c)) = Some (bc, mc)" and "il_decode lib bc = Some (JObject codex)"
    and "h_files h (path_key (ic_ClaudeConfigPath c)) = Some (bl, ml)" and "il_decode lib bl = Some (JObject claude)"
  obtains r h' where "Install env lib cfg h = (Inr r, h')" and "no_temps h'"
    and "h_files h' (path_key (ic_StatePath c)) = Some (il_enc_state lib (next_state lib c claude zero_state) @ [CHR 0x0A], 384)"
    and "h_files h' (path_key (ic_CodexConfigPath c)) = Some (document lib (codex_installed lib c codex), effective_mode mc)"
    and "h_files h' (path_key (ic_ClaudeConfigPath c)) = Some (document lib (claude_installed lib c claude), effective_mode ml)"
proof -
  let ?h1 = "done_call (done_call h)"
  let ?h3 = "done_call (done_call (done_call (done_call ?h1)))"
  have sys: "syscall env h = (Inr (), done_call h)"
    using assms(1) by (simp add: syscall_def all_calls_work_def)
  have st: "load_state env lib (ic_StatePath c) (done_call h) = (Inr zero_state, ?h1)"
    using load_state_calm(1) [OF assms(1)] assms(5) by simp
  have c1: "readJSONObject env lib (ic_CodexConfigPath c) ?h1 = (Inr (Some codex, mc), done_call (done_call ?h1))"
    using readJSON_calm(2) [OF assms(1) _ assms(7)] assms(6) by simp
  have c2: "readJSONObject env lib (ic_ClaudeConfigPath c) (done_call (done_call ?h1)) = (Inr (Some claude, ml), ?h3)"
    using readJSON_calm(2) [OF assms(1) _ assms(9)] assms(8) by simp
  have run: "Install env lib cfg h = install_files env lib c (next_state lib c claude zero_state)
      (codex_installed lib c codex) mc (claude_installed lib c claude) ml ?h3"
    using sys st c1 c2 by (simp add: Install_def assms(3) and_then_def map_error_def)
  have n3: "no_temps ?h3" using assms(2) by (simp add: no_temps_def)
  have f3: "h_files ?h3 (path_key (ic_CodexConfigPath c)) = Some (bc, mc)"
    "h_files ?h3 (path_key (ic_ClaudeConfigPath c)) = Some (bl, ml)"
    using assms(6,8) by simp_all
  obtain r h' where x: "install_files env lib c (next_state lib c claude zero_state)
      (codex_installed lib c codex) mc (claude_installed lib c claude) ml ?h3 = (Inr r, h')" "no_temps h'"
    "h_files h' (path_key (ic_StatePath c)) = Some (il_enc_state lib (next_state lib c claude zero_state) @ [CHR 0x0A], 384)"
    "h_files h' (path_key (ic_CodexConfigPath c)) = Some (document lib (codex_installed lib c codex), effective_mode mc)"
    "h_files h' (path_key (ic_ClaudeConfigPath c)) = Some (document lib (claude_installed lib c claude), effective_mode ml)"
    by (rule install_files_calm [OF assms(1) n3 assms(4) f3])
  show ?thesis by (rule that [OF _ x(2-5)]) (simp only: run x(1))
qed

lemma Uninstall_calm:
  assumes "all_calls_work env" and "no_temps h" and "home_dir env (ic_HomeDir c) = Inr (ic_HomeDir c)" and "install_paths env c"
    and "h_files h (path_key (ic_StatePath c)) = Some (bs, ms)" and "il_dec_state lib bs = Some state"
    and "h_files h (path_key (ic_CodexConfigPath c)) = Some (bc, mc)" and "il_decode lib bc = Some (JObject codex1)"
    and "removeManagedHooks (il_number lib) codex1 = (codex, True)"
    and "h_files h (path_key (ic_ClaudeConfigPath c)) = Some (bl, ml)" and "il_decode lib bl = Some (JObject claude1)"
    and "restore_status_line lib state (removeManagedHooks (il_number lib) claude1) = Inr (claude, True)"
  obtains r h' where "Uninstall env lib c h = (Inr r, h')"
    and "h_files h' (path_key (ic_CodexConfigPath c)) = Some (document lib codex, effective_mode mc)"
    and "h_files h' (path_key (ic_ClaudeConfigPath c)) = Some (document lib claude, effective_mode ml)"
    and "h_files h' (path_key (ic_StatePath c)) = None" and "h_files h' (path_key (ic_SecretPath c)) = None"
proof -
  note paths = install_paths_keys [OF assms(4)]
  let ?h1 = "done_call (done_call (done_call h))"
  have st: "load_state env lib (ic_StatePath c) h = (Inr state, done_call h)"
    by (rule load_state_calm(2) [OF assms(1,5,6)])
  have e1: "existing_document env lib (ic_CodexConfigPath c) (done_call h) = (Inr (Some (codex1, mc)), ?h1)"
    using readJSON_calm(3) [OF assms(1) _ assms(8)] assms(7) by simp
  have n1: "no_temps ?h1" using assms(2) by (simp add: no_temps_def)
  have f1: "h_files ?h1 (path_key (ic_CodexConfigPath c)) = Some (bc, mc)" using assms(7) by simp
  obtain b1 h2 m where w1: "write_if_changed env lib (ic_CodexConfigPath c) (codex, True) mc ?h1 = (Inr b1, h2)" "no_temps h2"
    "\<forall>k. k \<noteq> path_key (backup_path (ic_CodexConfigPath c) (he_stamp env m)) \<longrightarrow>
      h_files h2 k = (if k = path_key (ic_CodexConfigPath c) then Some (document lib codex, effective_mode mc) else h_files ?h1 k)"
    by (rule write_if_changed_calm [OF assms(1) n1 paths(2) f1, where lib = lib and doc = codex and mode = mc])
  have f2: "h_files h2 (path_key (ic_ClaudeConfigPath c)) = Some (bl, ml)"
    using w1(3) [rule_format, of "path_key (ic_ClaudeConfigPath c)"] paths(1) [of m 0] assms(10) by auto
  let ?h3 = "done_call (done_call h2)"
  have e2: "existing_document env lib (ic_ClaudeConfigPath c) h2 = (Inr (Some (claude1, ml)), ?h3)"
    using readJSON_calm(3) [OF assms(1) _ assms(11)] f2 by simp
  have n3: "no_temps ?h3" using w1(2) by (simp add: no_temps_def)
  have f3: "h_files ?h3 (path_key (ic_ClaudeConfigPath c)) = Some (bl, ml)" using f2 by simp
  obtain b2 h4 n where w2: "write_if_changed env lib (ic_ClaudeConfigPath c) (claude, True) ml ?h3 = (Inr b2, h4)" "no_temps h4"
    "\<forall>k. k \<noteq> path_key (backup_path (ic_ClaudeConfigPath c) (he_stamp env n)) \<longrightarrow>
      h_files h4 k = (if k = path_key (ic_ClaudeConfigPath c) then Some (document lib claude, effective_mode ml) else h_files ?h3 k)"
    by (rule write_if_changed_calm [OF assms(1) n3 paths(3) f3, where lib = lib and doc = claude and mode = ml])
  let ?h5 = "snd (os_Remove env (ic_StatePath c) (snd (os_Remove env (ic_SecretPath c) h4)))"
  have ne: "ic_StatePath c \<noteq> []" "ic_SecretPath c \<noteq> []" "ic_CodexConfigPath c \<noteq> []" "ic_ClaudeConfigPath c \<noteq> []"
    using assms(4) by (simp_all add: install_paths_def)
  have run: "\<exists>r. Uninstall env lib c h = (Inr r, ?h5)"
    using st e1 w1(1) e2 w2(1) assms(9,12) ne
    by (simp add: Uninstall_def assms(3) uninstall_config_def default_to_def uninstall_codex_def uninstall_claude_def
        and_then_def Let_def)
  show ?thesis
    using run that w1(3) w2(3) paths(1) [of m n] by (auto simp: os_Remove_calm [OF assms(1)])
qed

lemma withDefaults_home: "withDefaults env lib cfg = Inr c \<Longrightarrow> home_dir env (ic_HomeDir c) = Inr (ic_HomeDir c)"
  by (auto simp: withDefaults_def home_dir_def Let_def split: sum.splits option.splits if_splits)

section \<open>Installing again\<close>

text \<open>The managed group a merge adds is the only trace of it: the user's groups of an event stay.\<close>

definition user_groups :: "json_object \<Rightarrow> string \<Rightarrow> json list" where
  "user_groups hs e = (case array_of (gomap_get hs e) of Some gs \<Rightarrow> gs | None \<Rightarrow> [])"

definition put_all :: "('k \<Rightarrow> 'v) \<Rightarrow> 'k list \<Rightarrow> ('k, 'v) gomap \<Rightarrow> ('k, 'v) gomap" where
  "put_all f ks m = fold (\<lambda>k. gomap_put k (f k)) ks m"

lemma put_all_get: "gomap_get (put_all f ks m) k = (if k \<in> set ks then Some (f k) else gomap_get m k)"
  unfolding put_all_def by (induction ks arbitrary: m) (auto simp: gomap_gets)

lemma map_fst_put:
  "map fst (gomap_put k v m) = (if k \<in> set (map fst m) then map fst m else map fst m @ [k])"
  by (simp add: gomap_put_def update_keys)

lemma put_all_keys: "map fst m = map fst m' \<Longrightarrow> map fst (put_all f ks m) = map fst (put_all g ks m')"
  unfolding put_all_def by (induction ks arbitrary: m m') (simp_all add: map_fst_put del: set_map)

lemma put_all_old_keys: "set ks \<subseteq> set (map fst m) \<Longrightarrow> map fst (put_all f ks m) = map fst m"
  unfolding put_all_def by (induction ks arbitrary: m) (simp_all add: map_fst_put del: set_map)

text \<open>Two maps with the same keys in the same order and the same values are the same list.\<close>

lemma gomap_eqI:
  assumes "map fst m = map fst m'" and "gomap_wf m" and "\<And>k. gomap_get m k = gomap_get m' k"
  shows "m = m'"
  using assms
proof (induction m m' rule: list_induct2')
  case (4 x xs y ys)
  have "snd x = snd y" using 4(2) 4(4) [of "fst x"] by (cases x; cases y) (auto simp: gomap_get_def)
  moreover have "gomap_get xs k = gomap_get ys k" for k
  proof (cases "k = fst x")
    case True
    have "fst x \<notin> set (map fst xs)" "fst x \<notin> set (map fst ys)"
      using 4(2,3) by (auto simp: gomap_wf_def)
    then show ?thesis using True unfolding gomap_get_def by (metis map_of_eq_None_iff set_map)
  next
    case False
    then show ?thesis using 4(2) 4(4) [of k] by (cases x; cases y) (simp add: gomap_get_def split: if_splits)
  qed
  ultimately show ?case using 4 by (auto simp: gomap_wf_def prod_eq_iff)
qed auto

lemma put_all_again:
  assumes "gomap_wf m"
  shows "put_all g ks (put_all f ks m) = put_all g ks m"
proof (rule gomap_eqI)
  have wf: "gomap_wf m' \<Longrightarrow> gomap_wf (put_all f' ks m')" for f' m'
    unfolding put_all_def by (induction ks arbitrary: m') (simp_all add: gomap_wfs)
  show "gomap_wf (put_all g ks (put_all f ks m))" using wf assms by blast
  show "gomap_get (put_all g ks (put_all f ks m)) k = gomap_get (put_all g ks m) k" for k
    by (simp add: put_all_get)
  have "set ks \<subseteq> set (map fst (put_all f ks m))"
  proof
    fix k assume "k \<in> set ks"
    then have "(k, f k) \<in> set (put_all f ks m)" by (intro gomap_get_in_set) (simp add: put_all_get)
    then show "k \<in> set (map fst (put_all f ks m))" by (metis fst_conv image_eqI set_map)
  qed
  then show "map fst (put_all g ks (put_all f ks m)) = map fst (put_all g ks m)"
    by (rule trans [OF put_all_old_keys put_all_keys [OF refl]])
qed

lemma fold_merge_put_all:
  assumes "distinct events" and "\<forall>e\<in>set events. fst (filterManagedGroups number (user_groups hs e)) = gs e"
  shows "fold (merge_event number command) events hs = put_all (\<lambda>e. JArray (gs e @ [managed_group command])) events hs"
  using assms
proof (induction events arbitrary: hs)
  case (Cons e events)
  let ?hs = "gomap_put e (JArray (gs e @ [managed_group command])) hs"
  have "merge_event number command e hs = ?hs"
    using Cons.prems(2) by (simp add: merge_event_def user_groups_def Let_def)
  moreover have "\<forall>e'\<in>set events. fst (filterManagedGroups number (user_groups ?hs e')) = gs e'"
    using Cons.prems by (auto simp: user_groups_def gomap_gets)
  ultimately show ?case using Cons.IH [of ?hs] Cons.prems(1) by (simp add: put_all_def)
qed (simp add: put_all_def)

lemma merge_again:
  assumes "gomap_wf hs" and "distinct events" and "\<forall>e\<in>set events. list_all (user_group number) (user_groups hs e)"
    and "contains command ManagedMarker"
  shows "fold (merge_event number command') events (fold (merge_event number command) events hs) =
    fold (merge_event number command') events hs"
proof -
  let ?f = "\<lambda>c e. JArray (user_groups hs e @ [managed_group c])"
  have own: "\<forall>e\<in>set events. fst (filterManagedGroups number (user_groups hs e)) = user_groups hs e"
    using assms(3) by (simp add: filter_user_groups)
  have first: "fold (merge_event number c) events hs = put_all (?f c) events hs" for c
    by (rule fold_merge_put_all [OF assms(2) own])
  have "\<forall>e\<in>set events. fst (filterManagedGroups number (user_groups (put_all (?f command) events hs) e)) = user_groups hs e"
    using assms(3) filter_managed_group [OF assms(4), of number]
    by (simp add: user_groups_def put_all_get filterManagedGroups_simps filter_user_groups)
      (simp add: filterManagedGroups_def)
  then show ?thesis
    using fold_merge_put_all [OF assms(2), of number "put_all (?f command) events hs" "user_groups hs" command']
      first put_all_again [OF assms(1)] by simp
qed

lemma user_hooks_groups:
  assumes "user_hooks number events doc"
  obtains hs where "gomap_get doc ''hooks'' = Some (JObject hs)" and "gomap_wf hs"
    and "\<forall>e\<in>set events. list_all (user_group number) (user_groups hs e)"
proof -
  obtain hs where hs: "gomap_get doc ''hooks'' = Some (JObject hs)" "\<forall>e\<in>set events. mergeable number hs e"
    using user_hooks_mergeable [OF assms] by blast
  have "gomap_wf hs" using assms hs(1) by (simp add: user_hooks_def object_field_def)
  moreover have "\<forall>e\<in>set events. list_all (user_group number) (user_groups hs e)"
    using hs(2) by (fastforce simp: mergeable_def user_groups_def array_of_Some split: option.splits)
  ultimately show ?thesis using that hs(1) by blast
qed

lemma put_put_same: "gomap_put k v (gomap_put k v' m) = gomap_put k v m"
  unfolding gomap_put_def by (induction m) auto

lemma put_four:
  "gomap_get m k = Some x \<Longrightarrow> j \<noteq> k \<Longrightarrow>
     gomap_put j w' (gomap_put k v' (gomap_put j w (gomap_put k v m))) = gomap_put j w' (gomap_put k v' m)"
  by (induction m) (auto simp: gomap_get_def gomap_put_def put_put_same [unfolded gomap_put_def] split: if_splits)

lemma merge_document_again:
  assumes "user_hooks number events doc" and "distinct events" and "contains command ManagedMarker"
  shows "mergeManagedHooks number (mergeManagedHooks number doc events command) events command' =
      mergeManagedHooks number doc events command'"
    and "gomap_put ''statusLine'' w' (mergeManagedHooks number
        (gomap_put ''statusLine'' w (mergeManagedHooks number doc events command)) events command') =
      gomap_put ''statusLine'' w' (mergeManagedHooks number doc events command')"
proof -
  obtain hs where hs: "gomap_get doc ''hooks'' = Some (JObject hs)" "gomap_wf hs"
    "\<forall>e\<in>set events. list_all (user_group number) (user_groups hs e)"
    by (rule user_hooks_groups [OF assms(1)])
  note again = merge_again [OF hs(2) assms(2) hs(3) assms(3), of command']
  show "mergeManagedHooks number (mergeManagedHooks number doc events command) events command' =
      mergeManagedHooks number doc events command'"
    by (simp add: mergeManagedHooks_def object_field_def hs(1) gomap_gets again put_put_same)
  show "gomap_put ''statusLine'' w' (mergeManagedHooks number
        (gomap_put ''statusLine'' w (mergeManagedHooks number doc events command)) events command') =
      gomap_put ''statusLine'' w' (mergeManagedHooks number doc events command')"
    by (simp add: mergeManagedHooks_def object_field_def hs(1) gomap_gets again put_four [OF hs(1)])
qed

section \<open>A failed installation\<close>

definition reads_only :: "('e, 'a) host_action \<Rightarrow> bool" where
  "reads_only m = (\<forall>h. h_files (snd (m h)) = h_files h)"

lemma reads_onlyD: "reads_only m \<Longrightarrow> m h = (r, h') \<Longrightarrow> h_files h' = h_files h"
  by (metis reads_only_def snd_conv)

lemma reads_only_syscall: "reads_only (syscall env)"
  by (simp add: reads_only_def syscall_def)

lemma reads_only_stat: "reads_only (os_Stat env p)"
  by (auto simp: reads_only_def os_Stat_def and_then_def syscall_def split: option.splits)

lemma reads_only_read: "reads_only (os_ReadFile env p)"
  by (auto simp: reads_only_def os_ReadFile_def and_then_def syscall_def split: option.splits)

lemma reads_only_map_error: "reads_only m \<Longrightarrow> reads_only (map_error f m)"
  by (auto simp: reads_only_def map_error_def split: prod.split sum.split) (metis snd_conv)+

lemma reads_only_and_then: "reads_only m \<Longrightarrow> (\<And>x. reads_only (f x)) \<Longrightarrow> reads_only (and_then m f)"
  by (auto simp: reads_only_def and_then_def split: prod.split sum.split) (metis snd_conv)+

lemma reads_only_pure: "reads_only (\<lambda>h. (r, h))"
  by (simp add: reads_only_def)

lemmas reads_only_intros = reads_only_syscall reads_only_stat reads_only_read reads_only_map_error
  reads_only_and_then reads_only_pure

lemma reads_only_json: "reads_only (readJSONObjectIfExists env lib p)"
  unfolding readJSONObjectIfExists_def by (intro reads_only_intros)

lemma reads_only_state: "reads_only (readInstallState env lib p)"
  unfolding readInstallState_def
  by (intro reads_only_intros) (simp add: reads_only_def split: option.split)

lemma reads_only_load: "reads_only (load_state env lib p)"
  using reads_only_state [of env lib p] unfolding reads_only_def load_state_def
  by (auto split: prod.split sum.split install_error.split host_error.split) (metis snd_conv)+

lemma reads_only_object: "reads_only (readJSONObject env lib p)"
  using reads_only_json [of env lib p] unfolding reads_only_def readJSONObject_def
  by (auto split: prod.split sum.split install_error.split host_error.split) (metis snd_conv)+

lemma reads_only_mutations: "reads_only (jsonFileMutations env lib p doc mode)"
  using reads_only_stat [of env p] reads_only_read [of env p] unfolding reads_only_def jsonFileMutations_def Let_def
  by (auto simp: and_then_def map_error_def split: prod.split sum.split host_error.split) (metis snd_conv)+

lemma install_files_error:
  assumes "install_files env lib c st codex mc claude ml h = (Inl e, h')" and "\<And>p es. e \<noteq> TransactionError (RollbackFailed p es)"
  shows "agree h h'"
proof -
  from assms(1) [unfolded install_files_def Let_def] show ?thesis
  proof (cases rule: and_then_cases)
    case 1
    then show ?thesis using reads_onlyD [OF reads_only_mutations] by (fastforce simp: agree_def)
  next
    case (2 x h1)
    obtain ms b where x: "x = (ms, b)" by fastforce
    have h1: "h_files h1 = h_files h" using reads_onlyD [OF reads_only_mutations 2(1)] .
    from 2(2) [unfolded x prod.case] show ?thesis
    proof (cases rule: and_then_cases)
      case 1
      then show ?thesis using h1 reads_onlyD [OF reads_only_mutations] by (fastforce simp: agree_def)
    next
      case (2 y h2)
      obtain ms' b' where y: "y = (ms', b')" by fastforce
      have h2: "h_files h2 = h_files h" using reads_onlyD [OF reads_only_mutations 2(1)] h1 by simp
      from 2(2) [unfolded y prod.case] show ?thesis
      proof (cases rule: and_then_cases)
        case (1 e')
        then obtain t where t: "applyFileTransaction env
            ([\<lparr>fm_path = ic_StatePath c, fm_payload = il_enc_state lib st @ [CHR 0x0A], fm_mode = 384\<rparr>,
              \<lparr>fm_path = ic_SecretPath c, fm_payload = ic_Secret c @ [CHR 0x0A], fm_mode = 384\<rparr>] @ ms @ ms') h2 = (Inl t, h')"
          "e = TransactionError t"
          by (auto simp: map_error_def split: prod.splits sum.splits)
        have "agree h2 h'"
          using file_transaction_effect [OF t(1)] t(2) assms(2) by (cases t) auto
        then show ?thesis using h2 by (simp add: agree_def)
      qed simp
    qed
  qed
qed

section \<open>Properties\<close>


definition demo_install_config :: InstallConfig where
  "demo_install_config = \<lparr>ic_HomeDir = [], ic_Executable = ''/bin/qm'', ic_HookURL = [], ic_Secret = ''k1'',
     ic_CodexConfigPath = [], ic_ClaudeConfigPath = [], ic_StatePath = [], ic_SecretPath = [], ic_TargetOS = []\<rparr>"

definition demo_defaults :: InstallConfig where
  "demo_defaults = \<lparr>ic_HomeDir = ''/h'', ic_Executable = ''/bin/qm'', ic_HookURL = ''http://127.0.0.1:47632'', ic_Secret = ''k1'',
     ic_CodexConfigPath = ''/h/.codex/hooks.json'', ic_ClaudeConfigPath = ''/h/.claude/settings.json'',
     ic_StatePath = ''/h/.quota-monitor/hooks-state.json'', ic_SecretPath = ''/h/.quota-monitor/hook-secret'', ic_TargetOS = ''linux''\<rparr>"

definition demo_codex :: json_object where
  "demo_codex = [(''a'', JNull), (''hooks'', JObject [(''Stop'', JArray [JObject [(''hooks'', JArray [JObject [(''command'', JString ''mine'')]])]])])]"

definition demo_claude :: json_object where
  "demo_claude = [(''statusLine'', JString ''own''), (''hooks'', JObject [])]"

definition demo_saved :: installState where
  "demo_saved = zero_state\<lparr>st_Version := 1, st_PreviousStatusLineExists := True, st_PreviousStatusLine := ''P''\<rparr>"

definition demo_install_lib :: "(string \<Rightarrow> json option) \<Rightarrow> install_lib" where
  "demo_install_lib dec = \<lparr>il_number = (\<lambda>_. ''0''), il_decode = dec, il_enc_state = (\<lambda>_. ''S''),
     il_dec_state = (\<lambda>s. if s = ''S'' @ [CHR 0x0A] then Some demo_saved else None), il_dec_status = (\<lambda>_. None),
     il_url = loopback_url, il_loopback = (\<lambda>host. host = ''127.0.0.1'')\<rparr>"

definition demo_documents :: "string \<Rightarrow> json option" where
  "demo_documents s =
     (let lib = demo_install_lib (\<lambda>_. None)
      in if s = ''C'' then Some (JObject demo_codex)
         else if s = ''L'' then Some (JObject demo_claude)
         else if s = ''P'' then Some (JString ''own'')
         else if s ! 5 = CHR ''a'' then Some (JObject (codex_installed lib demo_defaults demo_codex))
         else Some (JObject (claude_installed lib demo_defaults demo_claude)))"

definition demo_install_host :: host where
  "demo_install_host = \<lparr>h_files = [path_key ''/h/.codex/hooks.json'' \<mapsto> (''C'', 416), path_key ''/h/.claude/settings.json'' \<mapsto> (''L'', 384)],
     h_calls = 0\<rparr>"

lemma demo_user_hooks:
  "user_hooks (il_number (demo_install_lib dec)) codexEvents demo_codex"
  "user_hooks (il_number (demo_install_lib dec)) claudeEvents demo_claude"
proof -
  have number: "il_number (demo_install_lib dec) = (\<lambda>_. ''0'')" by (simp add: demo_install_lib_def)
  show "user_hooks (il_number (demo_install_lib dec)) codexEvents demo_codex"
    "user_hooks (il_number (demo_install_lib dec)) claudeEvents demo_claude"
    unfolding number by code_simp+
qed

lemma demo_reads_back: "reads_back (demo_install_lib demo_documents) demo_defaults demo_codex demo_claude demo_saved"
proof -
  let ?lib = "demo_install_lib demo_documents"
  have same: "codex_installed ?lib = codex_installed (demo_install_lib (\<lambda>_. None))"
    "claude_installed ?lib = claude_installed (demo_install_lib (\<lambda>_. None))"
    by (simp_all add: fun_eq_iff codex_installed_def claude_installed_def demo_install_lib_def)
  have quotes: "json_string ''a'' = [CHR 0x22, CHR ''a'', CHR 0x22]" "json_string ''hooks'' = CHR 0x22 # ''hooks'' @ [CHR 0x22]"
    "json_string ''statusLine'' = CHR 0x22 # ''statusLine'' @ [CHR 0x22]"
    by code_simp+
  have codex: "\<exists>x. codex_installed ?lib demo_defaults demo_codex = [(''a'', JNull), (''hooks'', x)]"
    by (simp add: codex_installed_def mergeManagedHooks_def demo_codex_def gomap_put_def Let_def)
  have claude: "\<exists>x y. claude_installed ?lib demo_defaults demo_claude = [(''statusLine'', x), (''hooks'', y)]"
    by (simp add: claude_installed_def mergeManagedHooks_def demo_claude_def gomap_put_def Let_def)
  have c: "document ?lib [(''a'', JNull), (''hooks'', x)] ! 5 = CHR ''a''"
    "document ?lib [(''a'', JNull), (''hooks'', x)] ! 0 = CHR ''{''" for x
    by (simp_all add: document_def MarshalIndent_def quotes new_line_def numeral_eq_Suc)
  have l: "document ?lib [(''statusLine'', x), (''hooks'', y)] ! 5 = CHR ''h''"
    "document ?lib [(''statusLine'', x), (''hooks'', y)] ! 0 = CHR ''{''" for x y
    by (simp_all add: document_def MarshalIndent_def quotes new_line_def numeral_eq_Suc)
  have dec: "il_decode ?lib s = Some (JObject (if s ! 5 = CHR ''a'' then codex_installed ?lib demo_defaults demo_codex
      else claude_installed ?lib demo_defaults demo_claude))" if "s ! 0 = CHR ''{''" for s
    using that unfolding same by (auto simp: demo_install_lib_def [of demo_documents] demo_documents_def Let_def)
  have "il_decode ?lib (document ?lib (codex_installed ?lib demo_defaults demo_codex)) =
      Some (JObject (codex_installed ?lib demo_defaults demo_codex))"
    using codex c dec by (elim exE) simp
  moreover have "il_decode ?lib (document ?lib (claude_installed ?lib demo_defaults demo_claude)) =
      Some (JObject (claude_installed ?lib demo_defaults demo_claude))"
    using claude l dec by (elim exE) simp
  ultimately show ?thesis
    by (simp add: reads_back_def demo_claude_def gomap_get_def demo_saved_def demo_install_lib_def demo_documents_def)
qed

lemma demo_install_ready:
  "all_calls_work (demo_host_env (\<lambda>_. True))" "no_temps demo_install_host"
  "withDefaults (demo_host_env (\<lambda>_. True)) (demo_install_lib demo_documents) demo_install_config = Inr demo_defaults"
  "h_files demo_install_host (path_key (ic_StatePath demo_defaults)) = None"
  "h_files demo_install_host (path_key (ic_CodexConfigPath demo_defaults)) = Some (''C'', 416)"
  "il_decode (demo_install_lib demo_documents) ''C'' = Some (JObject demo_codex)"
  "h_files demo_install_host (path_key (ic_ClaudeConfigPath demo_defaults)) = Some (''L'', 384)"
  "il_decode (demo_install_lib demo_documents) ''L'' = Some (JObject demo_claude)"
proof -
  show "all_calls_work (demo_host_env (\<lambda>_. True))" by (simp add: all_calls_work_def demo_host_env_def)
  have "\<not> is_temp (path_key ''/h/.codex/hooks.json'')" "\<not> is_temp (path_key ''/h/.claude/settings.json'')"
    by code_simp+
  then show "no_temps demo_install_host" by (auto simp: no_temps_def demo_install_host_def)
qed code_simp+

lemma demo_install_paths: "install_paths (demo_host_env (\<lambda>_. True)) demo_defaults"
proof -
  have stamp: "he_stamp (demo_host_env (\<lambda>_. True)) n = ''20250101T000000.000000000Z''" for n by (simp add: demo_host_env_def)
  let ?bc = "backup_path (ic_CodexConfigPath demo_defaults) ''20250101T000000.000000000Z''"
  let ?bl = "backup_path (ic_ClaudeConfigPath demo_defaults) ''20250101T000000.000000000Z''"
  have "list_all (\<lambda>p. p \<noteq> [] \<and> \<not> is_temp (path_key p)) [ic_StatePath demo_defaults, ic_SecretPath demo_defaults,
      ic_CodexConfigPath demo_defaults, ic_ClaudeConfigPath demo_defaults]"
    "\<not> is_temp (path_key ?bc)" "\<not> is_temp (path_key ?bl)"
    "distinct (map Clean [ic_StatePath demo_defaults, ic_SecretPath demo_defaults, ?bc, ic_CodexConfigPath demo_defaults,
       ?bl, ic_ClaudeConfigPath demo_defaults])"
    by code_simp+
  then show ?thesis unfolding install_paths_def stamp by blast
qed


text \<open>
  The installed command line is read by a POSIX shell as exactly the intended words: the
  executable, the subcommand and the options, whatever characters the paths, the URL or the user
  name in them contain. Nothing in a path can end the quotation or start another command.
\<close>

theorem managed_command_words:
  assumes "targetOS \<noteq> ''windows''"
  shows "sh_words Bare None (managedCommand targetOS executable args) = Some (executable # args)"
  using sh_words_join [OF assms, of "executable # args"] by (simp add: managedCommand_def)

theorem managed_command_words_witness:
  "sh_words Bare None (managedCommand ''linux'' [CHR ''a'', CHR 0x27, CHR '';''] [''x y'']) =
     Some [[CHR ''a'', CHR 0x27, CHR '';''], ''x y'']"
  by (rule managed_command_words) simp

text \<open>
  A failed installation changes nothing. Whatever the reason (a refused URL, an unreadable state
  or configuration, a failing write or rename half-way through), when \<open>Install\<close> reports an error
  every file is as it was before, unless the error itself says that the rollback failed.
\<close>

theorem install_failure_changes_nothing:
  assumes "Install env lib cfg h = (Inl e, h')" and "\<And>p es. e \<noteq> TransactionError (RollbackFailed p es)"
  shows "agree h h'"
proof (cases "withDefaults env lib cfg")
  case (Inl e')
  with assms(1) show ?thesis by (simp add: Install_def)
next
  case (Inr c)
  note steps = reads_onlyD [OF reads_only_map_error [OF reads_only_syscall]] reads_onlyD [OF reads_only_load]
    reads_onlyD [OF reads_only_object]
  from assms(1) Inr show ?thesis
    by (auto simp: Install_def agree_def elim!: and_then_cases split: option.splits
        dest!: steps install_files_error [OF _ assms(2), unfolded agree_def])
qed

text \<open>
  Installing again replaces the monitor's own entries and nothing else. A second installation,
  with the same or another executable, URL or secret file, gives the documents that installing
  once with the new settings gives: no entry is duplicated, and the status line recorded for the
  uninstallation stays the one the user had before the first installation.
\<close>

theorem reinstall_replaces_managed_entries:
  assumes "user_hooks (il_number lib) codexEvents codex" and "user_hooks (il_number lib) claudeEvents claude"
  shows "codex_installed lib c' (codex_installed lib c codex) = codex_installed lib c' codex \<and>
    claude_installed lib c' (claude_installed lib c claude) = claude_installed lib c' claude \<and>
    next_state lib c' (claude_installed lib c claude) (next_state lib c claude state0) =
      (next_state lib c claude state0)\<lparr>st_CodexPath := ic_CodexConfigPath c', st_ClaudePath := ic_ClaudeConfigPath c',
         st_SecretPath := ic_SecretPath c'\<rparr>"
proof (intro conjI)
  have d: "distinct codexEvents" "distinct claudeEvents" by (simp_all add: codexEvents_def claudeEvents_def)
  show "codex_installed lib c' (codex_installed lib c codex) = codex_installed lib c' codex"
    using merge_document_again(1) [OF assms(1) d(1) hook_command_marked(1)] by (simp add: codex_installed_def)
  show "claude_installed lib c' (claude_installed lib c claude) = claude_installed lib c' claude"
    using merge_document_again(2) [OF assms(2) d(2) hook_command_marked(1)] by (simp add: claude_installed_def)
  have "isManagedValue (il_number lib) (wrapper_line c)"
    unfolding wrapper_line_def by (rule marked_command_managed [OF _ hook_command_marked(2)]) simp
  then show "next_state lib c' (claude_installed lib c claude) (next_state lib c claude state0) =
      (next_state lib c claude state0)\<lparr>st_CodexPath := ic_CodexConfigPath c', st_ClaudePath := ic_ClaudeConfigPath c',
         st_SecretPath := ic_SecretPath c'\<rparr>"
    by (simp add: next_state_def claude_installed_def gomap_gets zero_state_def Let_def)
qed

theorem reinstall_replaces_managed_entries_witness:
  "codex_installed (demo_install_lib demo_documents) (demo_defaults\<lparr>ic_Executable := ''/opt/qm''\<rparr>)
       (codex_installed (demo_install_lib demo_documents) demo_defaults demo_codex) =
     codex_installed (demo_install_lib demo_documents) (demo_defaults\<lparr>ic_Executable := ''/opt/qm''\<rparr>) demo_codex"
  using reinstall_replaces_managed_entries [OF demo_user_hooks] by blast

theorem install_failure_changes_nothing_witness:
  "\<exists>h'. Install (demo_host_env (\<lambda>_. True)) (demo_install_lib (\<lambda>_. None)) demo_install_config demo_install_host =
      (Inl (ConfigInvalid ''/h/.codex/hooks.json''), h') \<and> agree demo_install_host h'"
proof -
  let ?run = "Install (demo_host_env (\<lambda>_. True)) (demo_install_lib (\<lambda>_. None)) demo_install_config demo_install_host"
  have r: "fst ?run = Inl (ConfigInvalid ''/h/.codex/hooks.json'')" by code_simp
  then obtain h' where run: "?run = (Inl (ConfigInvalid ''/h/.codex/hooks.json''), h')" by (cases ?run) auto
  from install_failure_changes_nothing [OF run] show ?thesis using run by simp
qed

section \<open>Where the code departs from its description\<close>

text \<open>
  A configuration file that holds the JSON value \<open>null\<close> is accepted by \<open>readJSONObject\<close> as a nil
  map; \<open>Install\<close> then assigns to that map, which panics. \<open>Uninstall\<close> tests for the nil map and
  leaves such a file alone.
\<close>

theorem null_config_panics:
  assumes "withDefaults env lib cfg = Inr c" and "all_calls_work env" and "h_files h (path_key (ic_StatePath c)) = None"
    and "h_files h (path_key (ic_CodexConfigPath c)) = Some (bc, mc)" and "il_decode lib bc = Some JNull"
    and "h_files h (path_key (ic_ClaudeConfigPath c)) = Some (bl, ml)" and "il_decode lib bl = Some (JObject claude)"
  shows "fst (Install env lib cfg h) = Inl NilMapWrite"
proof -
  have "syscall env h = (Inr (), done_call h)" using assms(2) by (simp add: syscall_def all_calls_work_def)
  moreover have "load_state env lib (ic_StatePath c) (done_call h) = (Inr zero_state, done_call (done_call h))"
    using load_state_calm(1) [OF assms(2)] assms(3) by simp
  moreover have "readJSONObject env lib (ic_CodexConfigPath c) h' = (Inr (None, mc), done_call (done_call h'))"
    if "h_files h' = h_files h" for h'
    using assms(2,4,5) that by (simp add: readJSONObject_def readJSONObjectIfExists_def unmarshal_object_def calm_reads)
  moreover have "readJSONObject env lib (ic_ClaudeConfigPath c) h' = (Inr (Some claude, ml), done_call (done_call h'))"
    if "h_files h' = h_files h" for h'
    using readJSON_calm(2) [OF assms(2) _ assms(7), of h'] assms(6) that by simp
  ultimately show ?thesis by (simp add: Install_def assms(1) and_then_def map_error_def)
qed

text \<open>
  A group of the user without commands carries no marker, yet the filter drops it, on installation
  and on uninstallation.
\<close>

theorem empty_user_group_is_dropped:
  "filterManagedGroups number [JObject [(''matcher'', JString m), (''hooks'', JArray [])]] = ([], False)"
  by (simp add: filterManagedGroups_def filter_group_def gomap_get_def Let_def)

end
