(* ===== verification/Go_Flags.thy ===== *)
theory Go_Flags
  imports Hook_Events
begin

text \<open>
  The Go library's \<open>flag\<close> package as the command line uses it: \<open>FlagSet.Parse\<close> with string, Boolean
  and duration flags. A flag set is the list of its flags with their default values; parsing
  gives the values and the remaining arguments, or the error the command returns.
  \<open>time.ParseDuration\<close> is an argument.
\<close>

section \<open>Definitions\<close>

datatype flag_value = VString string | VBool bool | VDuration duration

type_synonym flag_set = "(string, flag_value) gomap"

datatype flag_error = BadSyntax string | NotDefined string | HelpRequested | NeedsArgument string | InvalidValue string

definition ParseBool :: "string \<Rightarrow> bool option" where
  "ParseBool s =
     (if s \<in> {''1'', ''t'', ''T'', ''true'', ''TRUE'', ''True''} then Some True
      else if s \<in> {''0'', ''f'', ''F'', ''false'', ''FALSE'', ''False''} then Some False
      else None)"

text \<open>The text of a flag after its one or two minus signs, or \<open>None\<close> where flags end.\<close>

definition flag_body :: "string \<Rightarrow> string option" where
  "flag_body s =
     (if length s < 2 \<or> hd s \<noteq> CHR ''-'' then None
      else if s ! 1 \<noteq> CHR ''-'' then Some (drop 1 s)
      else if length s = 2 then None
      else Some (drop 2 s))"

definition flag_name :: "string \<Rightarrow> string" where
  "flag_name body = takeWhile (\<lambda>c. c \<noteq> CHR ''='') body"

definition flag_text :: "string \<Rightarrow> string option" where
  "flag_text body = (case dropWhile (\<lambda>c. c \<noteq> CHR ''='') body of [] \<Rightarrow> None | _ # v \<Rightarrow> Some v)"

definition set_value :: "(string \<Rightarrow> duration option) \<Rightarrow> flag_value \<Rightarrow> string \<Rightarrow> flag_value option" where
  "set_value parse_duration old text =
     (case old of
        VString _ \<Rightarrow> Some (VString text)
      | VBool _ \<Rightarrow> map_option VBool (ParseBool text)
      | VDuration _ \<Rightarrow> map_option VDuration (parse_duration text))"

fun is_bool :: "flag_value \<Rightarrow> bool" where
  "is_bool (VBool _) = True"
| "is_bool _ = False"

fun Parse :: "(string \<Rightarrow> duration option) \<Rightarrow> flag_set \<Rightarrow> string list \<Rightarrow> (flag_error, flag_set \<times> string list) result" where
  "Parse dur fs [] = ok (fs, [])"
| "Parse dur fs (s # rest) =
     (case flag_body s of
        None \<Rightarrow> ok (fs, if s = ''--'' then rest else s # rest)
      | Some body \<Rightarrow>
          if hd body = CHR ''-'' \<or> hd body = CHR ''='' then err (BadSyntax s)
          else
            let name = flag_name body
            in case gomap_get fs name of
                 None \<Rightarrow> err (if name = ''help'' \<or> name = ''h'' then HelpRequested else NotDefined name)
               | Some old \<Rightarrow>
                   (case flag_text body of
                      Some v \<Rightarrow>
                        (case set_value dur old v of
                           None \<Rightarrow> err (InvalidValue name)
                         | Some new \<Rightarrow> Parse dur (gomap_put name new fs) rest)
                    | None \<Rightarrow>
                        if is_bool old then Parse dur (gomap_put name (VBool True) fs) rest
                        else case rest of
                          [] \<Rightarrow> err (NeedsArgument name)
                        | v # rest' \<Rightarrow>
                            (case set_value dur old v of
                               None \<Rightarrow> err (InvalidValue name)
                             | Some new \<Rightarrow> Parse dur (gomap_put name new fs) rest')))"

text \<open>The pointers the flags are read through.\<close>

definition string_flag :: "flag_set \<Rightarrow> string \<Rightarrow> string" where
  "string_flag fs name = (case gomap_get fs name of Some (VString s) \<Rightarrow> s | _ \<Rightarrow> [])"

definition bool_flag :: "flag_set \<Rightarrow> string \<Rightarrow> bool" where
  "bool_flag fs name = (case gomap_get fs name of Some (VBool b) \<Rightarrow> b | _ \<Rightarrow> False)"

definition duration_flag :: "flag_set \<Rightarrow> string \<Rightarrow> duration" where
  "duration_flag fs name = (case gomap_get fs name of Some (VDuration d) \<Rightarrow> d | _ \<Rightarrow> 0)"

section \<open>Facts\<close>

text \<open>A name as the program declares them: letters and minus signs, no minus sign in front.\<close>

definition plain_name :: "string \<Rightarrow> bool" where
  "plain_name n = (n \<noteq> [] \<and> hd n \<noteq> CHR ''-'' \<and> CHR ''='' \<notin> set n)"

definition is_string_flag :: "flag_set \<Rightarrow> string \<Rightarrow> bool" where
  "is_string_flag fs n = (case gomap_get fs n of Some (VString _) \<Rightarrow> True | _ \<Rightarrow> False)"

lemma flag_body_long: "plain_name n \<Longrightarrow> flag_body (''--'' @ n) = Some n"
  by (cases n) (auto simp: flag_body_def plain_name_def)

lemma plain_name_parts: "plain_name n \<Longrightarrow> flag_name n = n \<and> flag_text n = None \<and> hd n \<noteq> CHR ''-'' \<and> hd n \<noteq> CHR ''=''"
proof -
  assume p: "plain_name n"
  then have "\<forall>c\<in>set n. c \<noteq> CHR ''=''" by (auto simp: plain_name_def)
  then have "takeWhile (\<lambda>c. c \<noteq> CHR ''='') n = n" "dropWhile (\<lambda>c. c \<noteq> CHR ''='') n = []"
    by (simp_all add: takeWhile_eq_all_conv dropWhile_eq_Nil_conv)
  with p show ?thesis by (cases n) (auto simp: flag_name_def flag_text_def plain_name_def)
qed

lemma is_string_flag_put [simp]: "is_string_flag (gomap_put m (VString v) fs) n = (n = m \<or> is_string_flag fs n)"
  by (auto simp: is_string_flag_def gm.get_put)

text \<open>Arguments written as \<open>--name value\<close> set the named flags to the values, whatever these are.\<close>

definition long_flags :: "(string \<times> string) list \<Rightarrow> string list" where
  "long_flags vs = concat (map (\<lambda>(n, v). [''--'' @ n, v]) vs)"

lemma Parse_long_flags:
  assumes "\<forall>(n, v) \<in> set vs. plain_name n \<and> is_string_flag fs n"
  shows "Parse dur fs (long_flags vs) = ok (fold (\<lambda>(n, v). gomap_put n (VString v)) vs fs, [])"
  using assms
proof (induction vs arbitrary: fs)
  case Nil
  then show ?case by (simp add: long_flags_def)
next
  case (Cons nv vs)
  obtain n v where nv: "nv = (n, v)" by force
  with Cons.prems have p: "plain_name n" and "is_string_flag fs n" by auto
  then obtain w where w: "gomap_get fs n = Some (VString w)"
    by (auto simp: is_string_flag_def split: option.splits flag_value.splits)
  have "Parse dur fs (long_flags (nv # vs)) = Parse dur (gomap_put n (VString v) fs) (long_flags vs)"
    using plain_name_parts [OF p] w flag_body_long [OF p]
    by (simp add: nv long_flags_def set_value_def)
  also have "\<dots> = ok (fold (\<lambda>(n, v). gomap_put n (VString v)) vs (gomap_put n (VString v) fs), [])"
    using Cons.prems by (intro Cons.IH) (auto simp: nv)
  finally show ?case by (simp add: nv)
qed

end
