(* ===== verification/Store_Tokens.thy ===== *)
theory Store_Tokens
  imports Validation "HOL-Library.Product_Lexorder"
begin

text \<open>
  The bearer-token half of \<open>internal/store/store.go\<close>: the table \<open>tokens\<close> with its
  constraints and \<open>CreateToken\<close>, \<open>RevokeToken\<close>, \<open>ListTokens\<close> and \<open>AuthenticateToken\<close>. The
  hash \<open>sha256.Sum256\<close> is an argument \<open>sha\<close>; the random bytes read by \<open>crypto/rand\<close>, the
  clock and the success of each database statement (\<open>io i\<close>) are inputs of an operation. An
  operation returns its result together with the database after it.
\<close>

section \<open>Rows and records\<close>

definition ScopeAgentWrite :: string where "ScopeAgentWrite = ''agent:write''"
definition ScopeDisplayRead :: string where "ScopeDisplayRead = ''display:read''"

definition scope_Valid :: "string \<Rightarrow> bool" where
  "scope_Valid s = (s = ScopeAgentWrite \<or> s = ScopeDisplayRead)"

datatype store_error =
    ErrInvalidToken | ErrTokenNotFound | ErrStaleReport
  | ErrInvalidScope string | ErrAgentIDRequired | ErrAgentIDForbidden | ErrAgentIDInvalid
  | ErrLabelTooLong | ErrRandom | ErrSQL
  | ErrEncodeWindows string | ErrDecodeWindows string

record create_token_request =
  rq_Scope :: string
  rq_AgentID :: string
  rq_Label :: string

record token_record =
  tok_ID :: string
  tok_Scope :: string
  tok_AgentID :: string
  tok_Label :: string
  tok_CreatedAt :: time
  tok_RevokedAt :: "time option"
  tok_LastUsedAt :: "time option"

record token_row =
  tk_id :: string
  tk_digest :: string
  tk_scope :: string
  tk_agent_id :: "string option"
  tk_label :: string
  tk_created_at_ns :: int
  tk_revoked_at_ns :: "int option"
  tk_last_used_at_ns :: "int option"

type_synonym io = "nat \<Rightarrow> bool"

section \<open>Random strings\<close>

text \<open>\<open>base64.RawURLEncoding\<close>: six bits per character, no padding.\<close>

definition b64_char :: "nat \<Rightarrow> char" where
  "b64_char n =
     (if n < 26 then char_of (65 + n) else if n < 52 then char_of (71 + n)
      else if n < 62 then char_of (n - 4) else if n = 62 then CHR ''-'' else CHR ''_'')"

fun b64_encode :: "string \<Rightarrow> string" where
  "b64_encode [] = []"
| "b64_encode [a] = [b64_char (byte a div 4), b64_char (byte a mod 4 * 16)]"
| "b64_encode [a, b] =
     [b64_char (byte a div 4), b64_char (byte a mod 4 * 16 + byte b div 16),
      b64_char (byte b mod 16 * 4)]"
| "b64_encode (a # b # c # s) =
     b64_char (byte a div 4) # b64_char (byte a mod 4 * 16 + byte b div 16) #
     b64_char (byte b mod 16 * 4 + byte c div 64) # b64_char (byte c mod 64) # b64_encode s"

definition randomString :: "string option \<Rightarrow> string option" where
  "randomString bytes = map_option b64_encode bytes"

section \<open>Operations\<close>

definition token_row_ok :: "token_row \<Rightarrow> bool" where
  "token_row_ok r =
     (length (tk_digest r) = 32 \<and> scope_Valid (tk_scope r) \<and>
      (tk_scope r = ScopeAgentWrite \<and>
         (case tk_agent_id r of None \<Rightarrow> False | Some a \<Rightarrow> length a > 0) \<or>
       tk_scope r = ScopeDisplayRead \<and> tk_agent_id r = None))"

definition insert_token :: "token_row \<Rightarrow> token_row list \<Rightarrow> token_row list option" where
  "insert_token r ts =
     (if token_row_ok r \<and> tk_id r \<notin> set (map tk_id ts) \<and> tk_digest r \<notin> set (map tk_digest ts)
      then Some (ts @ [r]) else None)"

definition CreateToken ::
    "(string \<Rightarrow> string) \<Rightarrow> string option \<Rightarrow> string option \<Rightarrow> io \<Rightarrow> time \<Rightarrow> create_token_request \<Rightarrow>
     token_row list \<Rightarrow> (store_error, token_record \<times> string) result \<times> token_row list" where
  "CreateToken sha secret_bytes id_bytes io now req ts =
     (let agentID = TrimSpace (rq_AgentID req) in
      if \<not> scope_Valid (rq_Scope req) then (err (ErrInvalidScope (rq_Scope req)), ts)
      else if rq_Scope req = ScopeAgentWrite \<and> agentID = [] then (err ErrAgentIDRequired, ts)
      else if rq_Scope req = ScopeDisplayRead \<and> agentID \<noteq> [] then (err ErrAgentIDForbidden, ts)
      else if agentID \<noteq> [] \<and> \<not> validAgentID agentID then (err ErrAgentIDInvalid, ts)
      else if length (rq_Label req) > 200 then (err ErrLabelTooLong, ts)
      else case randomString secret_bytes of
             None \<Rightarrow> (err ErrRandom, ts)
           | Some rawSecret \<Rightarrow>
             (case randomString id_bytes of
                None \<Rightarrow> (err ErrRandom, ts)
              | Some idPart \<Rightarrow>
                let rawToken = ''qmon_'' @ rawSecret;
                    tid = ''tok_'' @ idPart;
                    row = \<lparr>tk_id = tid, tk_digest = sha rawToken, tk_scope = rq_Scope req,
                           tk_agent_id = (if agentID \<noteq> [] then Some agentID else None),
                           tk_label = rq_Label req, tk_created_at_ns = UnixNano now,
                           tk_revoked_at_ns = None, tk_last_used_at_ns = None\<rparr>
                in if \<not> io 0 then (err ErrSQL, ts)
                   else case insert_token row ts of
                          None \<Rightarrow> (err ErrSQL, ts)
                        | Some ts' \<Rightarrow>
                            (ok (\<lparr>tok_ID = tid, tok_Scope = rq_Scope req, tok_AgentID = agentID,
                                  tok_Label = rq_Label req, tok_CreatedAt = now,
                                  tok_RevokedAt = None, tok_LastUsedAt = None\<rparr>, rawToken), ts')))"

definition RevokeToken ::
    "io \<Rightarrow> time \<Rightarrow> string \<Rightarrow> token_row list \<Rightarrow> store_error option \<times> token_row list" where
  "RevokeToken io now tid ts =
     (let hit = (\<lambda>r. tk_id r = tid \<and> tk_revoked_at_ns r = None) in
      if \<not> io 0 then (Some ErrSQL, ts)
      else if length (filter hit ts) = 0 then (Some ErrTokenNotFound, ts)
      else (None, map (\<lambda>r. if hit r then r\<lparr>tk_revoked_at_ns := Some (UnixNano now)\<rparr> else r) ts))"

definition record_of_row :: "token_row \<Rightarrow> token_record" where
  "record_of_row r =
     \<lparr>tok_ID = tk_id r, tok_Scope = tk_scope r,
      tok_AgentID = (case tk_agent_id r of None \<Rightarrow> [] | Some a \<Rightarrow> a), tok_Label = tk_label r,
      tok_CreatedAt = FromUnixNano (tk_created_at_ns r),
      tok_RevokedAt = map_option FromUnixNano (tk_revoked_at_ns r),
      tok_LastUsedAt = map_option FromUnixNano (tk_last_used_at_ns r)\<rparr>"

definition ListTokens :: "io \<Rightarrow> token_row list \<Rightarrow> (store_error, token_record list) result" where
  "ListTokens io ts =
     (if \<not> io 0 then err ErrSQL
      else ok (map record_of_row (sort_key (\<lambda>r. (tk_created_at_ns r, tk_id r)) ts)))"

text \<open>The loop of \<open>AuthenticateToken\<close> visits every active row and counts the matches.\<close>

fun match_tokens ::
    "string \<Rightarrow> token_row list \<Rightarrow> token_record option \<times> nat \<Rightarrow> token_record option \<times> nat" where
  "match_tokens want [] acc = acc"
| "match_tokens want (r # rs) (matched, n) =
     (if want = tk_digest r then match_tokens want rs (Some (record_of_row r), n + 1)
      else match_tokens want rs (matched, n))"

definition active_rows :: "string \<Rightarrow> token_row list \<Rightarrow> token_row list" where
  "active_rows scope ts = filter (\<lambda>r. tk_scope r = scope \<and> tk_revoked_at_ns r = None) ts"

definition touch_token :: "string \<Rightarrow> time \<Rightarrow> token_row list \<Rightarrow> token_row list" where
  "touch_token tid usedAt ts =
     map (\<lambda>r. if tk_id r = tid then r\<lparr>tk_last_used_at_ns := Some (UnixNano usedAt)\<rparr> else r) ts"

definition AuthenticateToken ::
    "(string \<Rightarrow> string) \<Rightarrow> io \<Rightarrow> time \<Rightarrow> string \<Rightarrow> string \<Rightarrow> token_row list \<Rightarrow>
     (store_error, token_record) result \<times> token_row list" where
  "AuthenticateToken sha io now raw scope ts =
     (if \<not> scope_Valid scope \<or> length raw < 16 \<or> length raw > 256 then (err ErrInvalidToken, ts)
      else if \<not> io 0 then (err ErrSQL, ts)
      else case match_tokens (sha raw) (active_rows scope ts) (None, 0) of
             (Some m, Suc 0) \<Rightarrow>
               if \<not> io 1 then (err ErrSQL, ts)
               else (ok (m\<lparr>tok_LastUsedAt := Some now\<rparr>), touch_token (tok_ID m) now ts)
           | _ \<Rightarrow> (err ErrInvalidToken, ts))"

section \<open>The invariant of the token table\<close>

definition tokens_wf :: "token_row list \<Rightarrow> bool" where
  "tokens_wf ts =
     (distinct (map tk_id ts) \<and> distinct (map tk_digest ts) \<and> (\<forall>r\<in>set ts. token_row_ok r))"

lemma scope_names [simp]: "ScopeAgentWrite \<noteq> ScopeDisplayRead" "ScopeDisplayRead \<noteq> ScopeAgentWrite"
  by (simp_all add: ScopeAgentWrite_def ScopeDisplayRead_def)

lemma insert_token_Some:
  "insert_token r ts = Some ts' \<longleftrightarrow>
     ts' = ts @ [r] \<and> token_row_ok r \<and> tk_id r \<notin> set (map tk_id ts) \<and>
     tk_digest r \<notin> set (map tk_digest ts)"
  by (auto simp: insert_token_def)

lemma tokens_wf_insert: "tokens_wf ts \<Longrightarrow> insert_token r ts = Some ts' \<Longrightarrow> tokens_wf ts'"
  by (auto simp: tokens_wf_def insert_token_Some)

text \<open>Every success of \<open>CreateToken\<close> appends one fresh row that describes the returned token.\<close>

lemma CreateToken_ok:
  assumes "CreateToken sha sb ib io now req ts = (ok (rec, raw), ts')"
  shows "\<exists>s i row. sb = Some s \<and> ib = Some i \<and> raw = ''qmon_'' @ b64_encode s \<and>
     tok_ID rec = ''tok_'' @ b64_encode i \<and> tok_Scope rec = rq_Scope req \<and>
     insert_token row ts = Some ts' \<and>
     tk_id row = tok_ID rec \<and> tk_digest row = sha raw \<and> tk_scope row = rq_Scope req \<and>
     tk_label row = rq_Label req \<and> tk_created_at_ns row = UnixNano now \<and>
     tk_agent_id row = (if tok_AgentID rec \<noteq> [] then Some (tok_AgentID rec) else None) \<and>
     tok_AgentID rec = TrimSpace (rq_AgentID req) \<and>
     tk_revoked_at_ns row = None \<and> scope_Valid (rq_Scope req)"
  using assms unfolding CreateToken_def randomString_def Let_def
  by (auto split: if_splits option.splits)

lemma CreateToken_err:
  "CreateToken sha sb ib io now req ts = (err e, ts') \<Longrightarrow> ts' = ts"
  unfolding CreateToken_def Let_def by (auto split: if_splits option.splits)

lemma CreateToken_cases:
  obtains (error) e where "CreateToken sha sb ib io now req ts = (err e, ts)"
  | (created) rec raw row ts' where "CreateToken sha sb ib io now req ts = (ok (rec, raw), ts')"
      "insert_token row ts = Some ts'"
proof -
  obtain res ts' where r: "CreateToken sha sb ib io now req ts = (res, ts')" by fastforce
  show thesis
  proof (cases res)
    case (Inl e)
    with r CreateToken_err error show thesis by metis
  next
    case (Inr p)
    then obtain rec raw where "res = ok (rec, raw)" by (cases p) auto
    with r CreateToken_ok created show thesis by metis
  qed
qed

lemma tokens_wf_update:
  assumes "tokens_wf ts"
    and "\<And>r. tk_id (f r) = tk_id r" "\<And>r. tk_digest (f r) = tk_digest r"
    and "\<And>r. token_row_ok (f r) = token_row_ok r"
  shows "tokens_wf (map f ts)"
  using assms by (simp add: tokens_wf_def o_def)

lemma token_row_ok_updates [simp]:
  "token_row_ok (r\<lparr>tk_revoked_at_ns := x\<rparr>) = token_row_ok r"
  "token_row_ok (r\<lparr>tk_last_used_at_ns := y\<rparr>) = token_row_ok r"
  by (simp_all add: token_row_ok_def)

lemma tokens_wf_create [inv_intros]:
  "tokens_wf ts \<Longrightarrow> tokens_wf (snd (CreateToken sha sb ib io now req ts))"
  by (cases rule: CreateToken_cases [of sha sb ib io now req ts]) (auto intro: tokens_wf_insert)

lemma tokens_wf_revoke [inv_intros]:
  "tokens_wf ts \<Longrightarrow> tokens_wf (snd (RevokeToken io now tid ts))"
  by (auto simp: RevokeToken_def Let_def intro!: tokens_wf_update split: if_splits)

lemma tokens_wf_touch [inv_intros]: "tokens_wf ts \<Longrightarrow> tokens_wf (touch_token tid now ts)"
  unfolding touch_token_def by (rule tokens_wf_update) auto

lemma AuthenticateToken_snd:
  "snd (AuthenticateToken sha io now raw scope ts) = ts \<or>
   (\<exists>tid. snd (AuthenticateToken sha io now raw scope ts) = touch_token tid now ts)"
  by (auto simp: AuthenticateToken_def split: prod.splits option.splits nat.splits)

lemma tokens_wf_authenticate [inv_intros]:
  "tokens_wf ts \<Longrightarrow> tokens_wf (snd (AuthenticateToken sha io now raw scope ts))"
  using AuthenticateToken_snd tokens_wf_touch by metis

section \<open>Matching\<close>

lemma match_tokens_eq:
  "match_tokens want rs (m, n) =
     (case rev (filter (\<lambda>r. tk_digest r = want) rs) of
        [] \<Rightarrow> (m, n)
      | r # _ \<Rightarrow> (Some (record_of_row r), n + length (filter (\<lambda>r. tk_digest r = want) rs)))"
proof (induction rs arbitrary: m n)
  case (Cons r rs)
  show ?case
    by (cases "tk_digest r = want"; cases "rev (filter (\<lambda>r. tk_digest r = want) rs)")
      (simp_all add: Cons.IH)
qed simp

lemma match_tokens_unique:
  assumes "distinct (map tk_digest ts)"
  shows "match_tokens want (active_rows scope ts) (None, 0) =
     (case find (\<lambda>r. tk_digest r = want \<and> tk_scope r = scope \<and> tk_revoked_at_ns r = None) ts of
        None \<Rightarrow> (None, 0) | Some r \<Rightarrow> (Some (record_of_row r), 1))"
proof -
  let ?P = "\<lambda>r. tk_digest r = want \<and> tk_scope r = scope \<and> tk_revoked_at_ns r = None"
  have f: "filter (\<lambda>r. tk_digest r = want) (active_rows scope ts) = filter ?P ts"
    by (auto simp: active_rows_def intro: filter_cong)
  show ?thesis
  proof (cases "find ?P ts")
    case None
    then have "filter ?P ts = []" by (simp add: find_None_iff filter_empty_conv)
    with None show ?thesis by (simp add: match_tokens_eq f)
  next
    case (Some r)
    then have r: "r \<in> set ts" "?P r" by (auto simp: find_Some_iff)
    have "filter ?P ts = filter (\<lambda>x. tk_scope x = scope \<and> tk_revoked_at_ns x = None)
        (filter (\<lambda>x. tk_digest x = tk_digest r) ts)"
      using r by (auto intro: filter_cong)
    also have "\<dots> = [r]" using filter_unique_key [OF assms r(1)] r(2) by simp
    finally show ?thesis using Some by (simp add: match_tokens_eq f)
  qed
qed

definition live_match :: "(string \<Rightarrow> string) \<Rightarrow> string \<Rightarrow> string \<Rightarrow> token_row \<Rightarrow> bool" where
  "live_match sha raw scope r =
     (tk_digest r = sha raw \<and> tk_scope r = scope \<and> tk_revoked_at_ns r = None)"

lemma AuthenticateToken_unique:
  assumes "tokens_wf ts" and "scope_Valid scope" and "16 \<le> length raw" and "length raw \<le> 256"
    and "io 0" and "io 1"
  shows "AuthenticateToken sha io now raw scope ts =
     (case find (live_match sha raw scope) ts of
        None \<Rightarrow> (err ErrInvalidToken, ts)
      | Some r \<Rightarrow> (ok ((record_of_row r)\<lparr>tok_LastUsedAt := Some now\<rparr>), touch_token (tk_id r) now ts))"
  using assms match_tokens_unique [of ts "sha raw" scope]
  by (simp add: AuthenticateToken_def tokens_wf_def live_match_def [abs_def] record_of_row_def
      split: option.splits)

lemma AuthenticateToken_sound:
  assumes "tokens_wf ts" and "AuthenticateToken sha io now raw scope ts = (ok rec, ts')"
  shows "\<exists>r\<in>set ts. live_match sha raw scope r \<and>
     rec = (record_of_row r)\<lparr>tok_LastUsedAt := Some now\<rparr> \<and>
     ts' = touch_token (tk_id r) now ts"
proof -
  have d: "distinct (map tk_digest ts)" using assms(1) by (simp add: tokens_wf_def)
  show ?thesis
    using assms(2) match_tokens_unique [OF d, of "sha raw" scope]
    by (auto simp: AuthenticateToken_def live_match_def record_of_row_def find_Some_iff
        split: if_splits option.splits prod.splits nat.splits)
qed

lemma find_unique_row:
  assumes "distinct (map tk_digest ts)" and "r \<in> set ts" and "live_match sha raw scope r"
  shows "find (live_match sha raw scope) ts = Some r"
proof -
  obtain r' where r': "find (live_match sha raw scope) ts = Some r'"
    using assms(2,3) by (cases "find (live_match sha raw scope) ts") (auto simp: find_None_iff)
  then have "r' \<in> set ts" "tk_digest r' = tk_digest r"
    using assms(3) by (auto simp: find_Some_iff live_match_def)
  with assms(1,2) r' show ?thesis using distinct_key_eq by metis
qed

lemma length_b64: "length (b64_encode s) = (4 * length s + 2) div 3"
proof (induction s rule: b64_encode.induct)
  case (4 a b c s)
  have "(4 * Suc (Suc (Suc (length s))) + 2) div 3 = 4 + (4 * length s + 2) div 3" by presburger
  with 4 show ?case by simp
qed simp_all

section \<open>Runs of token operations\<close>

text \<open>One token operation by an administrator or an HTTP request, successful or not.\<close>

inductive token_step :: "(string \<Rightarrow> string) \<Rightarrow> token_row list \<Rightarrow> token_row list \<Rightarrow> bool"
  for sha :: "string \<Rightarrow> string" where
  create: "CreateToken sha sb ib io now req ts = (res, ts') \<Longrightarrow> token_step sha ts ts'"
| revoke: "RevokeToken io now tid ts = (res', ts') \<Longrightarrow> token_step sha ts ts'"
| authenticate: "AuthenticateToken sha io now raw scope ts = (res'', ts') \<Longrightarrow> token_step sha ts ts'"

inductive_cases token_stepE: "token_step sha ts ts'"

lemma token_step_wf: "token_step sha ts ts' \<Longrightarrow> tokens_wf ts \<Longrightarrow> tokens_wf ts'"
  by (elim token_stepE) (metis inv_intros snd_conv)+

lemma token_steps_wf: "(token_step sha)\<^sup>*\<^sup>* ts ts' \<Longrightarrow> tokens_wf ts \<Longrightarrow> tokens_wf ts'"
  by (induction rule: rtranclp_induct) (auto intro: token_step_wf)

text \<open>The rows of the table are permanent; only the two time stamps of a row ever change.\<close>

definition row_kept :: "token_row \<Rightarrow> token_row \<Rightarrow> bool" where
  "row_kept r r' =
     (tk_id r' = tk_id r \<and> tk_digest r' = tk_digest r \<and> tk_scope r' = tk_scope r \<and>
      tk_agent_id r' = tk_agent_id r \<and> tk_label r' = tk_label r \<and>
      tk_created_at_ns r' = tk_created_at_ns r \<and>
      (tk_revoked_at_ns r \<noteq> None \<longrightarrow> tk_revoked_at_ns r' = tk_revoked_at_ns r))"

lemma row_kept_refl [simp]: "row_kept r r"
  by (simp add: row_kept_def)

lemma row_kept_trans: "row_kept r r' \<Longrightarrow> row_kept r' r'' \<Longrightarrow> row_kept r r''"
  by (auto simp: row_kept_def)

lemma row_kept_map:
  "(\<And>r. row_kept r (f r)) \<Longrightarrow> r \<in> set ts \<Longrightarrow> \<exists>r'\<in>set (map f ts). row_kept r r'"
  by auto

lemma row_kept_touch: "r \<in> set ts \<Longrightarrow> \<exists>r'\<in>set (touch_token tid now ts). row_kept r r'"
  unfolding touch_token_def by (rule row_kept_map) (auto simp: row_kept_def)

lemma row_kept_revoke:
  assumes "r \<in> set ts"
  shows "\<exists>r'\<in>set (snd (RevokeToken io now tid ts)). row_kept r r'"
proof (cases "snd (RevokeToken io now tid ts) = ts")
  case True
  with assms show ?thesis by (auto intro: rev_bexI)
next
  case False
  then have "snd (RevokeToken io now tid ts) =
      map (\<lambda>r. if tk_id r = tid \<and> tk_revoked_at_ns r = None
               then r\<lparr>tk_revoked_at_ns := Some (UnixNano now)\<rparr> else r) ts"
    by (simp add: RevokeToken_def Let_def split: if_splits)
  then show ?thesis using assms by (auto simp only:) (rule row_kept_map, auto simp: row_kept_def)
qed

lemma token_step_row_kept:
  assumes "token_step sha ts ts'" and "r \<in> set ts"
  shows "\<exists>r'\<in>set ts'. row_kept r r'"
  using assms(1)
proof cases
  case (create sb ib io now req res)
  then show ?thesis using assms(2)
    by (cases rule: CreateToken_cases [of sha sb ib io now req ts])
      (auto simp: insert_token_Some intro: rev_bexI)
next
  case (revoke io now tid res)
  then show ?thesis using row_kept_revoke [OF assms(2)] by (metis snd_conv)
next
  case (authenticate io now raw scope res)
  then have "ts' = ts \<or> (\<exists>tid. ts' = touch_token tid now ts)"
    using AuthenticateToken_snd by (metis snd_conv)
  then show ?thesis using row_kept_touch [OF assms(2)] assms(2) by (auto intro: rev_bexI)
qed

lemma token_steps_row_kept:
  "(token_step sha)\<^sup>*\<^sup>* ts ts' \<Longrightarrow> r \<in> set ts \<Longrightarrow> \<exists>r'\<in>set ts'. row_kept r r'"
proof (induction rule: rtranclp_induct)
  case (step ts' ts'')
  then show ?case by (meson token_step_row_kept row_kept_trans)
qed (auto intro: rev_bexI)

text \<open>A revoked row blocks its digest: the digest is unique, so no other row can match it.\<close>

lemma revoked_blocks:
  assumes "tokens_wf ts" and "r \<in> set ts" and "tk_revoked_at_ns r \<noteq> None"
    and "tk_digest r = sha raw"
  shows "fst (AuthenticateToken sha io now raw scope ts) \<noteq> ok rec"
proof
  assume "fst (AuthenticateToken sha io now raw scope ts) = ok rec"
  then obtain ts' where "AuthenticateToken sha io now raw scope ts = (ok rec, ts')"
    by (metis prod.collapse)
  from AuthenticateToken_sound [OF assms(1) this] obtain r'
    where r': "r' \<in> set ts" "live_match sha raw scope r'" by blast
  with assms have "r' = r"
    using distinct_key_eq [of tk_digest ts r' r] by (simp add: tokens_wf_def live_match_def)
  with r' assms(3) show False by (simp add: live_match_def)
qed

lemma RevokeToken_ok:
  assumes "RevokeToken io now tid ts = (None, ts')"
  shows "\<exists>r\<in>set ts. tk_id r = tid \<and> tk_revoked_at_ns r = None \<and>
     r\<lparr>tk_revoked_at_ns := Some (UnixNano now)\<rparr> \<in> set ts'"
proof -
  let ?hit = "\<lambda>r. tk_id r = tid \<and> tk_revoked_at_ns r = None"
  from assms have ne: "filter ?hit ts \<noteq> []"
    and ts': "ts' = map (\<lambda>r. if ?hit r then r\<lparr>tk_revoked_at_ns := Some (UnixNano now)\<rparr> else r) ts"
    by (auto simp: RevokeToken_def Let_def split: if_splits)
  from ne obtain r where "r \<in> set ts" "?hit r" by (auto simp: filter_empty_conv)
  then show ?thesis unfolding ts' by (force intro: rev_bexI)
qed

section \<open>Properties\<close>

text \<open>
  C16: A token returned by \<open>CreateToken\<close> authenticates: presenting the raw value with the scope it
  was created for, on the resulting table, yields the record of that token (identifier, scope
  and bound agent) and only stamps its last use.
\<close>

theorem created_token_authenticates:
  assumes "tokens_wf ts"
    and "CreateToken sha (Some secret_bytes) ib io now req ts = (ok (rec, raw), ts')"
    and "length secret_bytes = 32" and "io' 0" and "io' 1"
  shows "\<exists>got. AuthenticateToken sha io' now' raw (rq_Scope req) ts' =
       (ok got, touch_token (tok_ID rec) now' ts') \<and>
     tok_ID got = tok_ID rec \<and> tok_Scope got = tok_Scope rec \<and>
     tok_AgentID got = tok_AgentID rec \<and> tok_Label got = rq_Label req \<and>
     tok_LastUsedAt got = Some now'"
proof -
  from CreateToken_ok [OF assms(2)] obtain i row where
    raw: "raw = ''qmon_'' @ b64_encode secret_bytes" and ins: "insert_token row ts = Some ts'" and
    row: "tk_id row = tok_ID rec" "tk_digest row = sha raw" "tk_scope row = rq_Scope req"
      "tk_label row = rq_Label req" "tk_revoked_at_ns row = None"
      "tk_agent_id row = (if tok_AgentID rec \<noteq> [] then Some (tok_AgentID rec) else None)" and
    sc: "scope_Valid (rq_Scope req)" "tok_Scope rec = rq_Scope req"
    by auto
  have len: "length raw = 48" using assms(3) by (simp add: raw length_b64)
  have wf: "tokens_wf ts'" using tokens_wf_insert [OF assms(1) ins] .
  have mem: "row \<in> set ts'" using ins by (simp add: insert_token_Some)
  have "find (live_match sha raw (rq_Scope req)) ts' = Some row"
    using wf mem row by (intro find_unique_row) (simp_all add: tokens_wf_def live_match_def)
  then show ?thesis
    using AuthenticateToken_unique [OF wf sc(1), of raw io' sha now'] len assms(4,5) row sc(2)
    by (simp add: record_of_row_def)
qed

definition demo_sha :: "string \<Rightarrow> string" where
  "demo_sha raw = take 32 (raw @ replicate 32 (CHR ''0''))"

definition demo_request :: create_token_request where
  "demo_request = \<lparr>rq_Scope = ScopeAgentWrite, rq_AgentID = ''pc-1'', rq_Label = ''desk''\<rparr>"

definition demo_create ::
    "(store_error, token_record \<times> string) result \<times> token_row list" where
  "demo_create = CreateToken demo_sha (Some (replicate 32 (CHR 0x07))) (Some (replicate 12 (CHR 0x01)))
     (\<lambda>_. True) 1000 demo_request []"

lemma demo_create_ok:
  obtains rec raw ts where "demo_create = (ok (rec, raw), ts)" "tk_id (hd ts) = ''tok_AQEBAQEBAQEBAQEB''"
    "ts \<noteq> []" "tk_digest (hd ts) = demo_sha raw"
proof -
  have "is_ok (fst demo_create)" by code_simp
  then obtain rec raw ts where d: "demo_create = (ok (rec, raw), ts)"
    by (metis is_ok_fstE prod.collapse)
  have "map tk_id (snd demo_create) = [''tok_AQEBAQEBAQEBAQEB'']" by code_simp
  then have i: "map tk_id ts = [''tok_AQEBAQEBAQEBAQEB'']" unfolding d by simp
  have "map tk_digest (snd demo_create) =
      [demo_sha (case fst demo_create of Inr (_, raw) \<Rightarrow> raw | _ \<Rightarrow> [])]" by code_simp
  then have "map tk_digest ts = [demo_sha raw]" unfolding d by simp
  with i d show thesis by (intro that [of rec raw ts]) auto
qed

lemma demo_create_wf: "tokens_wf (snd demo_create)"
  unfolding demo_create_def by (rule tokens_wf_create) (simp add: tokens_wf_def)

theorem created_token_authenticates_witness:
  "\<exists>rec raw ts got. demo_create = (ok (rec, raw), ts) \<and>
     AuthenticateToken demo_sha (\<lambda>_. True) 2000 raw ScopeAgentWrite ts =
       (ok got, touch_token (tok_ID rec) 2000 ts) \<and> tok_AgentID got = tok_AgentID rec"
proof -
  obtain rec raw ts where d: "demo_create = (ok (rec, raw), ts)" using demo_create_ok by blast
  have "tokens_wf []" by (simp add: tokens_wf_def)
  from created_token_authenticates [OF this d [unfolded demo_create_def], of "\<lambda>_. True" 2000] d
  show ?thesis by (auto simp: demo_request_def)
qed

text \<open>
  C7: Revocation is permanent. Once \<open>RevokeToken\<close> has succeeded for a row, no later sequence of
  token operations makes any bearer value with that digest authenticate again, in any scope.
\<close>

theorem revoked_token_never_authenticates:
  assumes "tokens_wf ts" and "RevokeToken io now tid ts = (None, ts1)"
    and "(token_step sha)\<^sup>*\<^sup>* ts1 ts2"
    and "r \<in> set ts" and "tk_id r = tid" and "tk_digest r = sha raw"
  shows "fst (AuthenticateToken sha io' now' raw scope ts2) \<noteq> ok rec"
proof -
  have wf1: "tokens_wf ts1" using tokens_wf_revoke [OF assms(1)] assms(2) by (metis snd_conv)
  from RevokeToken_ok [OF assms(2)] obtain q where
    q: "q \<in> set ts" "tk_id q = tid" "q\<lparr>tk_revoked_at_ns := Some (UnixNano now)\<rparr> \<in> set ts1"
    by blast
  have "q = r" using assms(1,4,5) q(1,2) distinct_key_eq [of tk_id ts q r] by (simp add: tokens_wf_def)
  with q(3) obtain r2 where r2: "r2 \<in> set ts2" "row_kept (r\<lparr>tk_revoked_at_ns := Some (UnixNano now)\<rparr>) r2"
    using token_steps_row_kept [OF assms(3)] by blast
  have "tokens_wf ts2" using token_steps_wf [OF assms(3) wf1] .
  with r2 assms(6) show ?thesis by (intro revoked_blocks [of ts2 r2]) (auto simp: row_kept_def)
qed

theorem revoked_token_never_authenticates_witness:
  "\<exists>rec raw ts ts1. demo_create = (ok (rec, raw), ts) \<and>
     RevokeToken (\<lambda>_. True) 3000 (tk_id (hd ts)) ts = (None, ts1) \<and>
     (\<forall>got. fst (AuthenticateToken demo_sha (\<lambda>_. True) 4000 raw ScopeAgentWrite ts1) \<noteq> ok got)"
proof -
  obtain rec raw ts where d: "demo_create = (ok (rec, raw), ts)"
    "tk_id (hd ts) = ''tok_AQEBAQEBAQEBAQEB''" "ts \<noteq> []" "tk_digest (hd ts) = demo_sha raw"
    by (rule demo_create_ok)
  have wf: "tokens_wf ts" using demo_create_wf d(1) by (metis snd_conv)
  have "fst (RevokeToken (\<lambda>_. True) 3000 (tk_id (hd (snd demo_create))) (snd demo_create)) = None"
    by code_simp
  with d(1) obtain ts1 where r: "RevokeToken (\<lambda>_. True) 3000 (tk_id (hd ts)) ts = (None, ts1)"
    by (metis prod.collapse snd_conv)
  have "fst (AuthenticateToken demo_sha (\<lambda>_. True) 4000 raw ScopeAgentWrite ts1) \<noteq> ok got" for got
    by (rule revoked_token_never_authenticates
        [where sha = demo_sha and raw = raw, OF wf r _ hd_in_set [OF d(3)] refl d(4)]) simp
  with d(1) r show ?thesis by blast
qed

text \<open>
  \<open>AuthenticateToken\<close> accepts a bearer value only for a live row of exactly the requested
  scope whose stored digest is the hash of the value; an agent token is bound to the non-empty
  agent of that row, a display token to none; and nothing but the time of last use changes.
\<close>

theorem authentication_is_sound:
  assumes "tokens_wf ts" and "AuthenticateToken sha io now raw scope ts = (ok rec, ts')"
  shows "\<exists>r\<in>set ts. tk_digest r = sha raw \<and> tk_scope r = scope \<and> tk_revoked_at_ns r = None \<and>
     tok_ID rec = tk_id r \<and> tok_Scope rec = scope \<and>
     (if scope = ScopeAgentWrite then tk_agent_id r = Some (tok_AgentID rec) \<and> tok_AgentID rec \<noteq> []
      else scope = ScopeDisplayRead \<and> tok_AgentID rec = []) \<and>
     ts' = touch_token (tk_id r) now ts"
proof -
  from AuthenticateToken_sound [OF assms] obtain r where
    r: "r \<in> set ts" "live_match sha raw scope r"
    "rec = (record_of_row r)\<lparr>tok_LastUsedAt := Some now\<rparr>" "ts' = touch_token (tk_id r) now ts"
    by blast
  moreover have "token_row_ok r" using assms(1) r(1) by (simp add: tokens_wf_def)
  ultimately show ?thesis
    by (intro bexI [OF _ r(1)])
      (auto simp: live_match_def token_row_ok_def record_of_row_def scope_Valid_def
        split: option.splits)
qed

theorem authentication_is_sound_witness:
  "\<exists>rec raw ts got ts'. demo_create = (ok (rec, raw), ts) \<and>
     AuthenticateToken demo_sha (\<lambda>_. True) 2000 raw ScopeAgentWrite ts = (ok got, ts') \<and>
     (\<exists>r\<in>set ts. tk_digest r = demo_sha raw \<and> tk_agent_id r = Some (tok_AgentID got))"
proof -
  obtain rec raw ts where d: "demo_create = (ok (rec, raw), ts)" using demo_create_ok by blast
  have wf: "tokens_wf ts" using demo_create_wf d by (metis snd_conv)
  have "is_ok (fst (AuthenticateToken demo_sha (\<lambda>_. True) 2000
      (case fst demo_create of Inr (_, raw) \<Rightarrow> raw | _ \<Rightarrow> []) ScopeAgentWrite (snd demo_create)))"
    by code_simp
  then have "is_ok (fst (AuthenticateToken demo_sha (\<lambda>_. True) 2000 raw ScopeAgentWrite ts))"
    by (simp add: d)
  then obtain got ts' where
    a: "AuthenticateToken demo_sha (\<lambda>_. True) 2000 raw ScopeAgentWrite ts = (ok got, ts')"
    by (rule is_ok_fstE)
  from authentication_is_sound [OF wf a] d a show ?thesis
    by (intro exI [of _ rec] exI [of _ raw] exI [of _ ts] exI [of _ got] exI [of _ ts']) auto
qed

text \<open>
  Every table reachable from the empty one by token operations satisfies the constraints of
  the schema: identifiers and digests are unique, digests have 32 bytes, an agent token has an
  agent and a display token has none.
\<close>

theorem reachable_tokens_wf:
  "(token_step sha)\<^sup>*\<^sup>* [] ts \<Longrightarrow> tokens_wf ts"
  by (erule token_steps_wf) (simp add: tokens_wf_def)

theorem reachable_tokens_wf_witness:
  "\<exists>ts. (token_step demo_sha)\<^sup>*\<^sup>* [] ts \<and> ts \<noteq> [] \<and> tokens_wf ts"
proof -
  obtain rec raw ts where d: "demo_create = (ok (rec, raw), ts)" "ts \<noteq> []"
    using demo_create_ok by metis
  then have "(token_step demo_sha)\<^sup>*\<^sup>* [] ts"
    unfolding demo_create_def by (intro r_into_rtranclp) (rule token_step.create)
  with d(2) reachable_tokens_wf show ?thesis by blast
qed

end
