(* ===== verification/Store_Reports.thy ===== *)
theory Store_Reports
  imports Store_Tokens
begin

text \<open>
  The report half of \<open>internal/store/store.go\<close>: the tables \<open>agents\<close>, \<open>provider_reports\<close> and
  \<open>active_tasks\<close>, and the transaction \<open>ReplaceAgentReport\<close>. A table is the list of its rows;
  an SQL statement is a function on the tables that fails where a constraint of the schema
  would; \<open>io i\<close> says whether the \<open>i\<close>-th statement of the transaction reaches the database. A
  transaction works on a copy and the copy becomes the state at the commit only.
\<close>

section \<open>Tables\<close>

record agent_row =
  ag_agent_id :: string
  ag_report_sent_at_ns :: int
  ag_last_report_at_ns :: int

text \<open>
  The column \<open>windows_json\<close>: text written by \<open>json.Marshal\<close>, or text it never writes. The
  encoding is exact on the values it accepts (shortest decimal floats, RFC 3339 nanoseconds).
\<close>

datatype json_blob = WindowsJSON provider_windows | ForeignJSON string

record provider_row =
  pw_agent_id :: string
  pw_provider :: string
  pw_observed_at_ns :: int
  pw_auth_state :: string
  pw_plan :: string
  pw_source :: string
  pw_windows_json :: json_blob
  pw_error_code :: string

record task_row =
  tr_agent_id :: string
  tr_provider :: string
  tr_kind :: string
  tr_session_id :: string
  tr_started_at_ns :: int
  tr_last_seen_at_ns :: int

record database =
  tokens :: "token_row list"
  agents :: "agent_row list"
  provider_reports :: "provider_row list"
  active_tasks :: "task_row list"

definition empty_database :: database where
  "empty_database = \<lparr>tokens = [], agents = [], provider_reports = [], active_tasks = []\<rparr>"

section \<open>Encoding of windows\<close>

definition json_float_ok :: "float64 \<Rightarrow> bool" where
  "json_float_ok v = (\<not> IsNaN v \<and> \<not> IsInf v)"

definition json_window_ok :: "limit_window \<Rightarrow> bool" where
  "json_window_ok w =
     (json_float_ok (UsedPercent w) \<and> json_float_ok (RemainingPercent w) \<and>
      pred_option json_time_ok (ResetsAt w))"

definition json_windows_ok :: "provider_windows \<Rightarrow> bool" where
  "json_windows_ok ws = (pred_option json_window_ok (FiveHour ws) \<and> pred_option json_window_ok (SevenDay ws))"

definition marshal_windows :: "provider_windows \<Rightarrow> json_blob option" where
  "marshal_windows ws = (if json_windows_ok ws then Some (WindowsJSON ws) else None)"

fun unmarshal_windows :: "json_blob \<Rightarrow> provider_windows option" where
  "unmarshal_windows (WindowsJSON ws) = Some ws"
| "unmarshal_windows (ForeignJSON s) = None"

section \<open>Statements\<close>

text \<open>The upsert of the agent row; \<open>None\<close> means that no row was affected.\<close>

definition upsert_agent :: "string \<Rightarrow> int \<Rightarrow> int \<Rightarrow> agent_row list \<Rightarrow> agent_row list option" where
  "upsert_agent a sent recv rows =
     (case find (\<lambda>r. ag_agent_id r = a) rows of
        None \<Rightarrow> Some (rows @ [\<lparr>ag_agent_id = a, ag_report_sent_at_ns = sent, ag_last_report_at_ns = recv\<rparr>])
      | Some r \<Rightarrow>
          if ag_report_sent_at_ns r < sent
          then Some (map (\<lambda>r. if ag_agent_id r = a
                 then r\<lparr>ag_report_sent_at_ns := sent, ag_last_report_at_ns := recv\<rparr> else r) rows)
          else None)"

definition provider_row_of :: "string \<Rightarrow> string \<Rightarrow> provider_report \<Rightarrow> json_blob \<Rightarrow> provider_row" where
  "provider_row_of a p r blob =
     \<lparr>pw_agent_id = a, pw_provider = p,
      pw_observed_at_ns = (if IsZero (ObservedAt r) then 0 else UnixNano (ObservedAt r)),
      pw_auth_state = AuthState r, pw_plan = Plan r, pw_source = Source r,
      pw_windows_json = blob, pw_error_code = ErrorCode r\<rparr>"

definition insert_provider_row :: "provider_row \<Rightarrow> provider_row list \<Rightarrow> provider_row list option" where
  "insert_provider_row r rows =
     (if ValidProvider (pw_provider r) \<and>
         (pw_agent_id r, pw_provider r) \<notin> set (map (\<lambda>x. (pw_agent_id x, pw_provider x)) rows)
      then Some (rows @ [r]) else None)"

definition task_row_of :: "string \<Rightarrow> active_task \<Rightarrow> task_row" where
  "task_row_of a t =
     \<lparr>tr_agent_id = a, tr_provider = Provider t, tr_kind = Kind t, tr_session_id = SessionID t,
      tr_started_at_ns = UnixNano (StartedAt t), tr_last_seen_at_ns = UnixNano (LastSeenAt t)\<rparr>"

definition task_row_key :: "task_row \<Rightarrow> string \<times> string \<times> string" where
  "task_row_key r = (tr_agent_id r, tr_provider r, tr_session_id r)"

definition insert_task_row :: "task_row \<Rightarrow> task_row list \<Rightarrow> task_row list option" where
  "insert_task_row r rows =
     (if ValidProvider (tr_provider r) \<and> ValidTaskKind (tr_kind r) \<and>
         task_row_key r \<notin> set (map task_row_key rows)
      then Some (rows @ [r]) else None)"

section \<open>The loops of the transaction\<close>

fun insert_providers ::
    "io \<Rightarrow> nat \<Rightarrow> string \<Rightarrow> (provider_name, provider_report) gomap \<Rightarrow> provider_row list \<Rightarrow>
     (store_error, nat \<times> provider_row list) result" where
  "insert_providers io k a [] rows = ok (k, rows)"
| "insert_providers io k a ((p, r) # ps) rows =
     (case marshal_windows (Windows r) of
        None \<Rightarrow> err (ErrEncodeWindows p)
      | Some blob \<Rightarrow>
          if \<not> io k then err ErrSQL
          else case insert_provider_row (provider_row_of a p r blob) rows of
                 None \<Rightarrow> err ErrSQL
               | Some rows' \<Rightarrow> insert_providers io (Suc k) a ps rows')"

fun insert_tasks ::
    "io \<Rightarrow> nat \<Rightarrow> string \<Rightarrow> active_task list \<Rightarrow> task_row list \<Rightarrow>
     (store_error, nat \<times> task_row list) result" where
  "insert_tasks io k a [] rows = ok (k, rows)"
| "insert_tasks io k a (t # ts) rows =
     (if \<not> io k then err ErrSQL
      else case insert_task_row (task_row_of a t) rows of
             None \<Rightarrow> err ErrSQL
           | Some rows' \<Rightarrow> insert_tasks io (Suc k) a ts rows')"

text \<open>Ranging over a nil map or slice visits nothing.\<close>

definition range_of :: "'a list option \<Rightarrow> 'a list" where
  "range_of xs = (case xs of None \<Rightarrow> [] | Some l \<Rightarrow> l)"

definition ReplaceAgentReport ::
    "io \<Rightarrow> agent_report \<Rightarrow> time \<Rightarrow> database \<Rightarrow> store_error option \<times> database" where
  "ReplaceAgentReport io report receivedAt db =
     (let a = ar_AgentID report in
      if \<not> io 0 \<or> \<not> io 1 then (Some ErrSQL, db)
      else case upsert_agent a (UnixNano (ar_SentAt report)) (UnixNano receivedAt) (agents db) of
             None \<Rightarrow> (Some ErrStaleReport, db)
           | Some ags \<Rightarrow>
             if \<not> io 2 then (Some ErrSQL, db)
             else case insert_providers io 3 a (range_of (ar_Providers report))
                         (filter (\<lambda>r. pw_agent_id r \<noteq> a) (provider_reports db)) of
                    Inl e \<Rightarrow> (Some e, db)
                  | Inr (k, prs) \<Rightarrow>
                    if \<not> io k then (Some ErrSQL, db)
                    else case insert_tasks io (Suc k) a (range_of (ar_ActiveTasks report))
                                (filter (\<lambda>r. tr_agent_id r \<noteq> a) (active_tasks db)) of
                           Inl e \<Rightarrow> (Some e, db)
                         | Inr (k', tks) \<Rightarrow>
                             if \<not> io k' then (Some ErrSQL, db)
                             else (None, db\<lparr>agents := ags, provider_reports := prs, active_tasks := tks\<rparr>))"

section \<open>The invariant of the report tables\<close>

definition reports_wf :: "database \<Rightarrow> bool" where
  "reports_wf db =
     (distinct (map ag_agent_id (agents db)) \<and>
      distinct (map (\<lambda>x. (pw_agent_id x, pw_provider x)) (provider_reports db)) \<and>
      distinct (map task_row_key (active_tasks db)) \<and>
      (\<forall>r\<in>set (provider_reports db). ValidProvider (pw_provider r) \<and>
         pw_agent_id r \<in> set (map ag_agent_id (agents db)) \<and> unmarshal_windows (pw_windows_json r) \<noteq> None) \<and>
      (\<forall>r\<in>set (active_tasks db). ValidProvider (tr_provider r) \<and> ValidTaskKind (tr_kind r) \<and>
         tr_agent_id r \<in> set (map ag_agent_id (agents db))))"

lemma reports_wf_empty: "reports_wf empty_database"
  by (simp add: reports_wf_def empty_database_def)

text \<open>The rows one report contributes.\<close>

definition report_provider_rows :: "agent_report \<Rightarrow> provider_row list" where
  "report_provider_rows rep =
     map (\<lambda>(p, r). provider_row_of (ar_AgentID rep) p r (WindowsJSON (Windows r)))
       (range_of (ar_Providers rep))"

definition report_task_rows :: "agent_report \<Rightarrow> task_row list" where
  "report_task_rows rep = map (task_row_of (ar_AgentID rep)) (range_of (ar_ActiveTasks rep))"

lemma insert_providers_ok:
  "insert_providers io k a ps rows = ok (k', rows') \<Longrightarrow>
     k' = k + length ps \<and>
     rows' = rows @ map (\<lambda>(p, r). provider_row_of a p r (WindowsJSON (Windows r))) ps \<and>
     (\<forall>(p, r)\<in>set ps. ValidProvider p \<and> json_windows_ok (Windows r)) \<and>
     (distinct (map (\<lambda>x. (pw_agent_id x, pw_provider x)) rows) \<longrightarrow>
      distinct (map (\<lambda>x. (pw_agent_id x, pw_provider x)) rows'))"
proof (induction io k a ps rows arbitrary: rows' rule: insert_providers.induct)
  case (2 io k a p r ps rows)
  from "2.prems" obtain rows1 where
    j: "json_windows_ok (Windows r)" and k: "io k" and
    i: "insert_provider_row (provider_row_of a p r (WindowsJSON (Windows r))) rows = Some rows1" and
    rest: "insert_providers io (Suc k) a ps rows1 = ok (k', rows')"
    by (auto simp: marshal_windows_def split: if_splits option.splits)
  from i have r1: "rows1 = rows @ [provider_row_of a p r (WindowsJSON (Windows r))]" "ValidProvider p"
      "distinct (map (\<lambda>x. (pw_agent_id x, pw_provider x)) rows) \<longrightarrow>
       distinct (map (\<lambda>x. (pw_agent_id x, pw_provider x)) rows1)"
    by (auto simp: insert_provider_row_def provider_row_of_def split: if_splits)
  have "marshal_windows (Windows r) = Some (WindowsJSON (Windows r))"
    using j by (simp add: marshal_windows_def)
  from "2.IH" [OF this _ i rest] k have ih:
    "k' = Suc k + length ps"
    "rows' = rows1 @ map (\<lambda>(p, r). provider_row_of a p r (WindowsJSON (Windows r))) ps"
    "\<forall>(p, r)\<in>set ps. ValidProvider p \<and> json_windows_ok (Windows r)"
    "distinct (map (\<lambda>x. (pw_agent_id x, pw_provider x)) rows1) \<longrightarrow>
     distinct (map (\<lambda>x. (pw_agent_id x, pw_provider x)) rows')"
    by blast+
  show ?case
    by (intro conjI) (use ih(1) in simp, use ih(2) r1(1) in simp, use ih(3) r1(2) j in simp,
        use ih(4) r1(3) in blast)
qed auto

lemma insert_tasks_ok:
  "insert_tasks io k a ts rows = ok (k', rows') \<Longrightarrow>
     k' = k + length ts \<and> rows' = rows @ map (task_row_of a) ts \<and>
     (\<forall>t\<in>set ts. ValidProvider (Provider t) \<and> ValidTaskKind (Kind t)) \<and>
     (distinct (map task_row_key rows) \<longrightarrow> distinct (map task_row_key rows'))"
proof (induction io k a ts rows arbitrary: rows' rule: insert_tasks.induct)
  case (2 io k a t ts rows)
  from "2.prems" obtain rows1 where
    k: "io k" and i: "insert_task_row (task_row_of a t) rows = Some rows1" and
    rest: "insert_tasks io (Suc k) a ts rows1 = ok (k', rows')"
    by (auto split: if_splits option.splits)
  from i have r1: "rows1 = rows @ [task_row_of a t]" "ValidProvider (Provider t)" "ValidTaskKind (Kind t)"
      "distinct (map task_row_key rows) \<longrightarrow> distinct (map task_row_key rows1)"
    by (auto simp: insert_task_row_def task_row_of_def split: if_splits)
  from "2.IH" [OF _ i rest] k have ih:
    "k' = Suc k + length ts" "rows' = rows1 @ map (task_row_of a) ts"
    "\<forall>t\<in>set ts. ValidProvider (Provider t) \<and> ValidTaskKind (Kind t)"
    "distinct (map task_row_key rows1) \<longrightarrow> distinct (map task_row_key rows')"
    by blast+
  show ?case
    by (intro conjI) (use ih(1) in simp, use ih(2) r1(1) in simp, use ih(3) r1(2,3) in simp,
        use ih(4) r1(4) in blast)
qed auto

lemma upsert_agent_ids:
  assumes "upsert_agent a sent recv rows = Some rows'"
  shows "set (map ag_agent_id rows') = insert a (set (map ag_agent_id rows))"
    and "distinct (map ag_agent_id rows) \<Longrightarrow> distinct (map ag_agent_id rows')"
proof -
  let ?f = "\<lambda>r. if ag_agent_id r = a
    then r\<lparr>ag_report_sent_at_ns := sent, ag_last_report_at_ns := recv\<rparr> else r"
  have m: "map ag_agent_id (map ?f rows) = map ag_agent_id rows" by simp
  show "set (map ag_agent_id rows') = insert a (set (map ag_agent_id rows))"
  proof (cases "find (\<lambda>r. ag_agent_id r = a) rows")
    case None
    with assms show ?thesis by (auto simp: upsert_agent_def)
  next
    case (Some r)
    then have "a \<in> set (map ag_agent_id rows)" by (auto simp: find_Some_iff)
    moreover have "rows' = map ?f rows"
      using assms Some by (simp add: upsert_agent_def split: if_splits)
    ultimately show ?thesis using m by (simp only:) auto
  qed
  show "distinct (map ag_agent_id rows')" if d: "distinct (map ag_agent_id rows)"
  proof (cases "find (\<lambda>r. ag_agent_id r = a) rows")
    case None
    with assms d show ?thesis by (auto simp: upsert_agent_def find_None_iff)
  next
    case (Some r)
    then have "rows' = map ?f rows" using assms by (simp add: upsert_agent_def split: if_splits)
    with d m show ?thesis by (simp only:)
  qed
qed

text \<open>Success has exactly one effect: the rows of the agent are those of the report.\<close>

lemma ReplaceAgentReport_ok:
  assumes "ReplaceAgentReport io rep recv db = (None, db')"
  obtains ags where
    "upsert_agent (ar_AgentID rep) (UnixNano (ar_SentAt rep)) (UnixNano recv) (agents db) = Some ags"
    "db' = db\<lparr>agents := ags,
        provider_reports := filter (\<lambda>r. pw_agent_id r \<noteq> ar_AgentID rep) (provider_reports db)
          @ report_provider_rows rep,
        active_tasks := filter (\<lambda>r. tr_agent_id r \<noteq> ar_AgentID rep) (active_tasks db)
          @ report_task_rows rep\<rparr>"
    "\<forall>(p, r)\<in>set (range_of (ar_Providers rep)). ValidProvider p \<and> json_windows_ok (Windows r)"
    "\<forall>t\<in>set (range_of (ar_ActiveTasks rep)). ValidProvider (Provider t) \<and> ValidTaskKind (Kind t)"
    "distinct (map (\<lambda>x. (pw_agent_id x, pw_provider x)) (provider_reports db)) \<longrightarrow>
     distinct (map (\<lambda>x. (pw_agent_id x, pw_provider x)) (provider_reports db'))"
    "distinct (map task_row_key (active_tasks db)) \<longrightarrow> distinct (map task_row_key (active_tasks db'))"
proof -
  let ?a = "ar_AgentID rep"
  from assms obtain ags k prs k' tks where
    u: "upsert_agent ?a (UnixNano (ar_SentAt rep)) (UnixNano recv) (agents db) = Some ags" and
    p: "insert_providers io 3 ?a (range_of (ar_Providers rep))
          (filter (\<lambda>r. pw_agent_id r \<noteq> ?a) (provider_reports db)) = ok (k, prs)" and
    t: "insert_tasks io (Suc k) ?a (range_of (ar_ActiveTasks rep))
          (filter (\<lambda>r. tr_agent_id r \<noteq> ?a) (active_tasks db)) = ok (k', tks)" and
    d: "db' = db\<lparr>agents := ags, provider_reports := prs, active_tasks := tks\<rparr>"
    by (auto simp: ReplaceAgentReport_def Let_def split: if_splits option.splits sum.splits prod.splits)
  note ps = insert_providers_ok [OF p] and ts = insert_tasks_ok [OF t]
  have prs: "prs = filter (\<lambda>r. pw_agent_id r \<noteq> ?a) (provider_reports db) @ report_provider_rows rep"
    using ps by (simp only: report_provider_rows_def)
  have tks: "tks = filter (\<lambda>r. tr_agent_id r \<noteq> ?a) (active_tasks db) @ report_task_rows rep"
    using ts by (simp only: report_task_rows_def)
  have parts: "provider_reports db' = prs" "active_tasks db' = tks" by (simp_all add: d)
  have dp: "distinct (map (\<lambda>x. (pw_agent_id x, pw_provider x)) (filter (\<lambda>r. pw_agent_id r \<noteq> ?a)
        (provider_reports db))) \<longrightarrow> distinct (map (\<lambda>x. (pw_agent_id x, pw_provider x)) prs)"
    using ps by (elim conjE)
  have dt: "distinct (map task_row_key (filter (\<lambda>r. tr_agent_id r \<noteq> ?a) (active_tasks db))) \<longrightarrow>
      distinct (map task_row_key tks)"
    using ts by (elim conjE)
  show thesis
  proof (rule that [OF u])
    show "db' = db\<lparr>agents := ags,
        provider_reports := filter (\<lambda>r. pw_agent_id r \<noteq> ?a) (provider_reports db) @ report_provider_rows rep,
        active_tasks := filter (\<lambda>r. tr_agent_id r \<noteq> ?a) (active_tasks db) @ report_task_rows rep\<rparr>"
      unfolding d prs tks ..
    show "\<forall>(p, r)\<in>set (range_of (ar_Providers rep)). ValidProvider p \<and> json_windows_ok (Windows r)"
      using ps by (elim conjE)
    show "\<forall>t\<in>set (range_of (ar_ActiveTasks rep)). ValidProvider (Provider t) \<and> ValidTaskKind (Kind t)"
      using ts by (elim conjE)
  qed (simp_all only: parts, use dp in \<open>simp add: distinct_map_filter\<close>,
      use dt in \<open>simp add: distinct_map_filter\<close>)
qed

lemma ReplaceAgentReport_error:
  "ReplaceAgentReport io rep recv db = (Some e, db') \<Longrightarrow> db' = db"
  by (auto simp: ReplaceAgentReport_def Let_def split: if_splits option.splits sum.splits prod.splits)

lemma reports_wf_replace [inv_intros]:
  assumes "reports_wf db"
  shows "reports_wf (snd (ReplaceAgentReport io rep recv db))"
proof (cases "fst (ReplaceAgentReport io rep recv db)")
  case (Some e)
  then have "snd (ReplaceAgentReport io rep recv db) = db"
    using ReplaceAgentReport_error by (metis prod.collapse)
  with assms show ?thesis by simp
next
  case None
  then obtain db' where r: "ReplaceAgentReport io rep recv db = (None, db')" by (metis prod.collapse)
  then show ?thesis
  proof (rule ReplaceAgentReport_ok)
    fix ags
    assume u: "upsert_agent (ar_AgentID rep) (UnixNano (ar_SentAt rep)) (UnixNano recv) (agents db) = Some ags"
      and d: "db' = db\<lparr>agents := ags,
        provider_reports := filter (\<lambda>r. pw_agent_id r \<noteq> ar_AgentID rep) (provider_reports db)
          @ report_provider_rows rep,
        active_tasks := filter (\<lambda>r. tr_agent_id r \<noteq> ar_AgentID rep) (active_tasks db)
          @ report_task_rows rep\<rparr>"
      and rest: "\<forall>(p, r)\<in>set (range_of (ar_Providers rep)). ValidProvider p \<and> json_windows_ok (Windows r)"
      "\<forall>t\<in>set (range_of (ar_ActiveTasks rep)). ValidProvider (Provider t) \<and> ValidTaskKind (Kind t)"
      and dp: "distinct (map (\<lambda>x. (pw_agent_id x, pw_provider x)) (provider_reports db)) \<longrightarrow>
        distinct (map (\<lambda>x. (pw_agent_id x, pw_provider x)) (provider_reports db'))"
      and dt: "distinct (map task_row_key (active_tasks db)) \<longrightarrow> distinct (map task_row_key (active_tasks db'))"
    have "reports_wf db'"
      using assms upsert_agent_ids(2) [OF u] upsert_agent_ids(1) [OF u] dp dt rest
      unfolding reports_wf_def
      by (auto simp: d report_provider_rows_def report_task_rows_def provider_row_of_def task_row_of_def)
    with r show ?thesis by simp
  qed
qed

text \<open>Faults can only turn a success into an error, never change what a success does.\<close>

lemma insert_providers_reliable:
  "insert_providers io k a ps rows = ok r \<Longrightarrow> insert_providers (\<lambda>_. True) k a ps rows = ok r"
  by (induction io k a ps rows rule: insert_providers.induct) (auto split: option.splits if_splits)

lemma insert_tasks_reliable:
  "insert_tasks io k a ts rows = ok r \<Longrightarrow> insert_tasks (\<lambda>_. True) k a ts rows = ok r"
  by (induction io k a ts rows rule: insert_tasks.induct) (auto split: option.splits if_splits)

lemma ReplaceAgentReport_reliable:
  assumes "ReplaceAgentReport io rep recv db = (None, db')"
  shows "ReplaceAgentReport (\<lambda>_. True) rep recv db = (None, db')"
proof -
  let ?a = "ar_AgentID rep"
  from assms obtain ags k prs k' tks where
    u: "upsert_agent ?a (UnixNano (ar_SentAt rep)) (UnixNano recv) (agents db) = Some ags" and
    p: "insert_providers io 3 ?a (range_of (ar_Providers rep))
          (filter (\<lambda>r. pw_agent_id r \<noteq> ?a) (provider_reports db)) = ok (k, prs)" and
    t: "insert_tasks io (Suc k) ?a (range_of (ar_ActiveTasks rep))
          (filter (\<lambda>r. tr_agent_id r \<noteq> ?a) (active_tasks db)) = ok (k', tks)" and
    d: "db' = db\<lparr>agents := ags, provider_reports := prs, active_tasks := tks\<rparr>"
    by (auto simp: ReplaceAgentReport_def Let_def split: if_splits option.splits sum.splits prod.splits)
  show ?thesis
    by (simp add: ReplaceAgentReport_def Let_def u d insert_providers_reliable [OF p]
        insert_tasks_reliable [OF t])
qed

section \<open>The abstract store\<close>

text \<open>
  What the tables mean: per agent, the stamp of its newest report and the content that report
  brought. The two joined tables are read through the agent's row.
\<close>

type_synonym agent_content = "int \<times> provider_row list \<times> task_row list"

definition agent_view :: "database \<Rightarrow> string \<Rightarrow> (int \<times> agent_content) option" where
  "agent_view db a =
     map_option (\<lambda>r. (ag_report_sent_at_ns r,
         (ag_last_report_at_ns r, filter (\<lambda>x. pw_agent_id x = a) (provider_reports db),
          filter (\<lambda>x. tr_agent_id x = a) (active_tasks db))))
       (find (\<lambda>r. ag_agent_id r = a) (agents db))"

definition report_content :: "agent_report \<Rightarrow> time \<Rightarrow> agent_content" where
  "report_content rep recv = (UnixNano recv, report_provider_rows rep, report_task_rows rep)"

definition newer :: "'s::linorder \<Rightarrow> ('s \<times> 'c) option \<Rightarrow> bool" where
  "newer s v = (case v of None \<Rightarrow> True | Some (s', _) \<Rightarrow> s' < s)"

text \<open>What the schema and the encoder demand of a report.\<close>

definition schema_ok :: "agent_report \<Rightarrow> bool" where
  "schema_ok rep =
     (distinct (map fst (range_of (ar_Providers rep))) \<and>
      distinct (map (\<lambda>t. (Provider t, SessionID t)) (range_of (ar_ActiveTasks rep))) \<and>
      (\<forall>(p, r)\<in>set (range_of (ar_Providers rep)). ValidProvider p \<and> json_windows_ok (Windows r)) \<and>
      (\<forall>t\<in>set (range_of (ar_ActiveTasks rep)). ValidProvider (Provider t) \<and> ValidTaskKind (Kind t)))"

text \<open>
  The contract of a store of versioned documents: an accepted message replaces the document of
  its owner and nothing else, and only a newer message is accepted. Everything a client needs
  to know about arrival order follows from it.
\<close>

locale report_store =
  fixes view :: "'db \<Rightarrow> 'id \<Rightarrow> ('stamp::linorder \<times> 'c) option"
    and replace :: "'msg \<Rightarrow> 'db \<Rightarrow> 'db"
    and owner :: "'msg \<Rightarrow> 'id"
    and stamp :: "'msg \<Rightarrow> 'stamp"
    and content :: "'msg \<Rightarrow> 'c"
    and good :: "'msg \<Rightarrow> bool"
    and inv :: "'db \<Rightarrow> bool"
  assumes inv_replace: "inv d \<Longrightarrow> good m \<Longrightarrow> inv (replace m d)"
    and view_replace: "inv d \<Longrightarrow> good m \<Longrightarrow>
      view (replace m d) a =
        (if a = owner m \<and> newer (stamp m) (view d a)
         then Some (stamp m, content m) else view d a)"
begin

lemma inv_fold: "inv d \<Longrightarrow> \<forall>m\<in>set ms. good m \<Longrightarrow> inv (fold replace ms d)"
  by (induction ms arbitrary: d) (auto simp: inv_replace)

lemma other_owner: "inv d \<Longrightarrow> good m \<Longrightarrow> a \<noteq> owner m \<Longrightarrow> view (replace m d) a = view d a"
  by (simp add: view_replace)

lemma stamp_mono:
  assumes "inv d" "good m" "view d a = Some (s, c)"
  shows "\<exists>s' c'. view (replace m d) a = Some (s', c') \<and> s \<le> s'"
  using assms by (auto simp: view_replace newer_def)

text \<open>Two messages that differ in owner or stamp commute.\<close>

lemma replace_commute:
  assumes "inv d" "good m" "good n" and "owner m = owner n \<Longrightarrow> stamp m \<noteq> stamp n"
  shows "view (replace m (replace n d)) a = view (replace n (replace m d)) a"
proof -
  have i: "inv (replace n d)" "inv (replace m d)" using assms inv_replace by auto
  show ?thesis
    unfolding view_replace [OF i(1) assms(2)] view_replace [OF i(2) assms(3)]
      view_replace [OF assms(1,2)] view_replace [OF assms(1,3)]
    using assms(4)
    by (cases "view d a"; cases "owner m = a"; cases "owner n = a") (auto simp: newer_def)
qed

lemma view_replace_cong:
  assumes "inv d" "inv e" "good m" and "\<And>a. view d a = view e a"
  shows "view (replace m d) a = view (replace m e) a"
  by (simp only: view_replace [OF assms(1,3)] view_replace [OF assms(2,3)] assms(4))

lemma view_fold_cong:
  assumes "inv d" "inv e" "\<forall>m\<in>set ms. good m" and "\<And>a. view d a = view e a"
  shows "view (fold replace ms d) a = view (fold replace ms e) a"
  using assms
proof (induction ms arbitrary: d e)
  case (Cons m ms)
  show ?case
    using Cons.IH [of "replace m d" "replace m e"] Cons.prems view_replace_cong [of d e m]
    by (simp add: inv_replace)
qed simp

text \<open>A document moves to the front of a sequence of arrivals without changing the views.\<close>

lemma view_fold_move:
  assumes "inv d" "good m" "\<forall>n\<in>set ms. good n"
    and "\<forall>n\<in>set ms. owner n = owner m \<longrightarrow> stamp n \<noteq> stamp m"
  shows "view (replace m (fold replace ms d)) a = view (fold replace ms (replace m d)) a"
  using assms
proof (induction ms arbitrary: d)
  case (Cons n ms)
  have i: "inv (replace n d)" "inv (replace m d)" using Cons.prems inv_replace by auto
  have "view (replace m (fold replace ms (replace n d))) a
      = view (fold replace ms (replace m (replace n d))) a"
    using Cons.IH [OF i(1)] Cons.prems by simp
  also have "\<dots> = view (fold replace ms (replace n (replace m d))) a"
    using Cons.prems i by (intro view_fold_cong inv_replace replace_commute) auto
  finally show ?case by simp
qed simp

lemma view_fold_perm:
  assumes "inv d" "\<forall>m\<in>set ms. good m" "mset ms = mset ns"
    and "distinct (map (\<lambda>m. (owner m, stamp m)) ms)"
  shows "view (fold replace ms d) a = view (fold replace ns d) a"
  using assms
proof (induction ms arbitrary: ns d)
  case (Cons m ms)
  from Cons.prems(3) have "m \<in> set ns" by (metis list.set_intros(1) mset_eq_setD)
  then obtain xs ys where ns: "ns = xs @ m # ys" by (meson split_list)
  with Cons.prems(3) have ms: "mset ms = mset (xs @ ys)" by simp
  then have st: "set ms = set xs \<union> set ys" by (metis mset_eq_setD set_append)
  have g: "inv (replace m d)" "\<forall>n\<in>set xs. good n" "\<forall>n\<in>set ys. good n" "good m"
    using Cons.prems st inv_replace by auto
  have "view (fold replace (m # ms) d) a = view (fold replace (xs @ ys) (replace m d)) a"
    using Cons.IH [OF g(1) _ ms] Cons.prems by simp
  also have "\<dots> = view (fold replace ys (fold replace xs (replace m d))) a" by simp
  also have "\<dots> = view (fold replace ys (replace m (fold replace xs d))) a"
  proof (intro view_fold_cong inv_fold inv_replace)
    fix b
    have "\<forall>n\<in>set ms. owner m = owner n \<longrightarrow> stamp m \<noteq> stamp n"
      using Cons.prems(4) by (auto simp: image_iff)
    then have "\<forall>n\<in>set xs. owner n = owner m \<longrightarrow> stamp n \<noteq> stamp m" using st by (metis UnI1)
    then show "view (fold replace xs (replace m d)) b = view (replace m (fold replace xs d)) b"
      using view_fold_move [of d m xs b] Cons.prems(1) g by simp
  qed (use Cons.prems g in auto)
  finally show ?case by (simp add: ns)
qed simp

end

section \<open>The tables implement the abstract store\<close>

abbreviation reliable :: io where "reliable \<equiv> \<lambda>_. True"

lemma insert_providers_total:
  assumes "\<forall>(p, r)\<in>set ps. ValidProvider p \<and> json_windows_ok (Windows r)"
    and "distinct (map fst ps)"
    and "\<forall>x\<in>set rows. pw_agent_id x = a \<longrightarrow> pw_provider x \<notin> fst ` set ps"
  shows "insert_providers reliable k a ps rows = ok (k + length ps,
     rows @ map (\<lambda>(p, r). provider_row_of a p r (WindowsJSON (Windows r))) ps)"
  using assms
proof (induction ps arbitrary: k rows)
  case (Cons pr ps)
  obtain p r where pr: "pr = (p, r)" by (cases pr)
  let ?row = "provider_row_of a p r (WindowsJSON (Windows r))"
  have "insert_provider_row ?row rows = Some (rows @ [?row])"
    using Cons.prems by (auto simp: insert_provider_row_def provider_row_of_def pr)
  moreover have "insert_providers reliable (Suc k) a ps (rows @ [?row]) = ok (Suc k + length ps,
      (rows @ [?row]) @ map (\<lambda>(p, r). provider_row_of a p r (WindowsJSON (Windows r))) ps)"
    using Cons.prems by (intro Cons.IH) (auto simp: pr provider_row_of_def)
  ultimately show ?case using Cons.prems by (simp add: pr marshal_windows_def)
qed simp

lemma insert_tasks_total:
  assumes "\<forall>t\<in>set ts. ValidProvider (Provider t) \<and> ValidTaskKind (Kind t)"
    and "distinct (map (\<lambda>t. (Provider t, SessionID t)) ts)"
    and "\<forall>x\<in>set rows. tr_agent_id x = a \<longrightarrow>
          (tr_provider x, tr_session_id x) \<notin> (\<lambda>t. (Provider t, SessionID t)) ` set ts"
  shows "insert_tasks reliable k a ts rows = ok (k + length ts, rows @ map (task_row_of a) ts)"
  using assms
proof (induction ts arbitrary: k rows)
  case (Cons t ts)
  have "insert_task_row (task_row_of a t) rows = Some (rows @ [task_row_of a t])"
    using Cons.prems by (auto simp: insert_task_row_def task_row_of_def task_row_key_def)
  moreover have "insert_tasks reliable (Suc k) a ts (rows @ [task_row_of a t]) =
      ok (Suc k + length ts, (rows @ [task_row_of a t]) @ map (task_row_of a) ts)"
    using Cons.prems by (intro Cons.IH) (auto simp: task_row_of_def)
  ultimately show ?case using Cons.prems by simp
qed simp

lemma upsert_agent_None_iff:
  "upsert_agent a sent recv rows = None \<longleftrightarrow>
     (\<exists>r. find (\<lambda>r. ag_agent_id r = a) rows = Some r \<and> sent \<le> ag_report_sent_at_ns r)"
  by (auto simp: upsert_agent_def split: option.splits)

lemma find_SomeD: "find P xs = Some x \<Longrightarrow> x \<in> set xs \<and> P x"
  by (auto simp: find_Some_iff)

lemma find_map_same:
  "(\<And>x. P (f x) = P x) \<Longrightarrow> find P (map f xs) = map_option f (find P xs)"
  by (induction xs) auto

lemma find_append: "find P (xs @ ys) = (case find P xs of None \<Rightarrow> find P ys | Some x \<Rightarrow> Some x)"
  by (induction xs) auto

lemma upsert_agent_find:
  assumes "upsert_agent a sent recv rows = Some rows'"
  shows "find (\<lambda>r. ag_agent_id r = b) rows' =
    (if b = a then Some \<lparr>ag_agent_id = a, ag_report_sent_at_ns = sent, ag_last_report_at_ns = recv\<rparr>
     else find (\<lambda>r. ag_agent_id r = b) rows)"
proof (cases "find (\<lambda>r. ag_agent_id r = a) rows")
  case None
  with assms have rows': "rows' = rows @ [\<lparr>ag_agent_id = a, ag_report_sent_at_ns = sent,
      ag_last_report_at_ns = recv\<rparr>]" by (simp add: upsert_agent_def)
  show ?thesis unfolding rows' find_append using None by (auto split: option.splits)
next
  case (Some r)
  let ?f = "\<lambda>r. if ag_agent_id r = a
    then r\<lparr>ag_report_sent_at_ns := sent, ag_last_report_at_ns := recv\<rparr> else r"
  have rows': "rows' = map ?f rows" using assms Some by (simp add: upsert_agent_def split: if_splits)
  have f: "find (\<lambda>r. ag_agent_id r = b) rows' = map_option ?f (find (\<lambda>r. ag_agent_id r = b) rows)"
    unfolding rows' by (rule find_map_same) simp
  show ?thesis
  proof (cases "b = a")
    case True
    with Some f show ?thesis by (cases r) (auto simp: find_Some_iff)
  next
    case False
    then have "map_option ?f (find (\<lambda>r. ag_agent_id r = b) rows) = find (\<lambda>r. ag_agent_id r = b) rows"
      by (cases "find (\<lambda>r. ag_agent_id r = b) rows") (simp, use find_SomeD in fastforce)
    with False f show ?thesis by simp
  qed
qed

lemma report_rows_owner:
  "filter (\<lambda>x. pw_agent_id x = b) (report_provider_rows rep) =
     (if b = ar_AgentID rep then report_provider_rows rep else [])"
  "filter (\<lambda>x. tr_agent_id x = b) (report_task_rows rep) =
     (if b = ar_AgentID rep then report_task_rows rep else [])"
  by (auto simp: report_provider_rows_def report_task_rows_def provider_row_of_def task_row_of_def
      filter_empty_conv filter_id_conv)

text \<open>The whole transaction when every statement reaches the database.\<close>

lemma ReplaceAgentReport_total:
  assumes "schema_ok rep"
  shows "ReplaceAgentReport reliable rep recv db =
    (case upsert_agent (ar_AgentID rep) (UnixNano (ar_SentAt rep)) (UnixNano recv) (agents db) of
       None \<Rightarrow> (Some ErrStaleReport, db)
     | Some ags \<Rightarrow> (None, db\<lparr>agents := ags,
          provider_reports := filter (\<lambda>r. pw_agent_id r \<noteq> ar_AgentID rep) (provider_reports db)
            @ report_provider_rows rep,
          active_tasks := filter (\<lambda>r. tr_agent_id r \<noteq> ar_AgentID rep) (active_tasks db)
            @ report_task_rows rep\<rparr>))"
proof -
  let ?a = "ar_AgentID rep"
  have p: "insert_providers reliable k ?a (range_of (ar_Providers rep))
      (filter (\<lambda>r. pw_agent_id r \<noteq> ?a) (provider_reports db)) =
      ok (k + length (range_of (ar_Providers rep)),
        filter (\<lambda>r. pw_agent_id r \<noteq> ?a) (provider_reports db) @ report_provider_rows rep)" for k
    using assms unfolding report_provider_rows_def
    by (intro insert_providers_total) (auto simp: schema_ok_def)
  have t: "insert_tasks reliable k ?a (range_of (ar_ActiveTasks rep))
      (filter (\<lambda>r. tr_agent_id r \<noteq> ?a) (active_tasks db)) =
      ok (k + length (range_of (ar_ActiveTasks rep)),
        filter (\<lambda>r. tr_agent_id r \<noteq> ?a) (active_tasks db) @ report_task_rows rep)" for k
    using assms unfolding report_task_rows_def
    by (intro insert_tasks_total) (auto simp: schema_ok_def)
  show ?thesis by (simp add: ReplaceAgentReport_def Let_def p t split: option.split)
qed

lemma agent_view_replace:
  assumes "schema_ok rep"
  shows "agent_view (snd (ReplaceAgentReport reliable rep recv db)) b =
    (if b = ar_AgentID rep \<and> newer (UnixNano (ar_SentAt rep)) (agent_view db b)
     then Some (UnixNano (ar_SentAt rep), report_content rep recv) else agent_view db b)"
proof (cases "upsert_agent (ar_AgentID rep) (UnixNano (ar_SentAt rep)) (UnixNano recv) (agents db)")
  case None
  then have "\<not> newer (UnixNano (ar_SentAt rep)) (agent_view db (ar_AgentID rep))"
    by (auto simp: upsert_agent_None_iff agent_view_def newer_def)
  with None show ?thesis by (auto simp: ReplaceAgentReport_total [OF assms])
next
  case (Some ags)
  then have n: "newer (UnixNano (ar_SentAt rep)) (agent_view db (ar_AgentID rep))"
    by (auto simp: upsert_agent_def agent_view_def newer_def split: option.splits if_splits)
  have f: "filter (\<lambda>x. pw_agent_id x = b) (filter (\<lambda>r. pw_agent_id r \<noteq> ar_AgentID rep) xs) =
      (if b = ar_AgentID rep then [] else filter (\<lambda>x. pw_agent_id x = b) xs)"
    "filter (\<lambda>x. tr_agent_id x = b) (filter (\<lambda>r. tr_agent_id r \<noteq> ar_AgentID rep) ys) =
      (if b = ar_AgentID rep then [] else filter (\<lambda>x. tr_agent_id x = b) ys)" for xs ys
    by (auto simp: filter_empty_conv intro: filter_cong)
  show ?thesis
    using Some n
    by (auto simp: ReplaceAgentReport_total [OF assms] agent_view_def upsert_agent_find [OF Some]
        report_rows_owner report_content_def f simp del: filter_filter)
qed

lemma ReplaceAgentReport_other:
  assumes "ReplaceAgentReport io rep recv db = (None, db')" and "b \<noteq> ar_AgentID rep"
  shows "agent_view db' b = agent_view db b"
  using assms(1)
proof (rule ReplaceAgentReport_ok)
  fix ags
  assume u: "upsert_agent (ar_AgentID rep) (UnixNano (ar_SentAt rep)) (UnixNano recv) (agents db) = Some ags"
    and d: "db' = db\<lparr>agents := ags,
        provider_reports := filter (\<lambda>r. pw_agent_id r \<noteq> ar_AgentID rep) (provider_reports db)
          @ report_provider_rows rep,
        active_tasks := filter (\<lambda>r. tr_agent_id r \<noteq> ar_AgentID rep) (active_tasks db)
          @ report_task_rows rep\<rparr>"
  have f: "filter (\<lambda>x. pw_agent_id x = b) (filter (\<lambda>r. pw_agent_id r \<noteq> ar_AgentID rep) xs) =
      filter (\<lambda>x. pw_agent_id x = b) xs"
    "filter (\<lambda>x. tr_agent_id x = b) (filter (\<lambda>r. tr_agent_id r \<noteq> ar_AgentID rep) ys) =
      filter (\<lambda>x. tr_agent_id x = b) ys" for xs ys
    using assms(2) by (auto intro: filter_cong)
  show ?thesis
    using assms(2) by (simp add: d agent_view_def upsert_agent_find [OF u] report_rows_owner f del: filter_filter)
qed

interpretation rs: report_store agent_view
  "\<lambda>(rep, recv) db. snd (ReplaceAgentReport reliable rep recv db)"
  "\<lambda>(rep, recv). ar_AgentID rep" "\<lambda>(rep, recv). UnixNano (ar_SentAt rep)"
  "\<lambda>(rep, recv). report_content rep recv" "\<lambda>(rep, recv). schema_ok rep" reports_wf
  by unfold_locales (auto simp: agent_view_replace reports_wf_replace)

lemma report_wf_schema_ok:
  assumes "report_wf rep now" and "gomap_wf (range_of (ar_Providers rep))"
    and "\<forall>(p, r)\<in>set (range_of (ar_Providers rep)). json_windows_ok (Windows r)"
  shows "schema_ok rep"
  using assms
  by (auto simp: report_wf_def schema_ok_def gomap_wf_def range_of_def provider_wf_def task_wf_def
      split: option.splits)

section \<open>Properties\<close>

text \<open>
  C2: The transaction implements the abstract store. For a report the schema admits, on a working
  database, \<open>ReplaceAgentReport\<close> succeeds exactly when the report is newer than the stored one
  and otherwise answers \<open>ErrStaleReport\<close>; the view of the agent becomes the content of an accepted
  report, and the view of every other agent, the tokens and a rejected report's agent are unchanged.
\<close>

theorem replace_report_refines_view:
  assumes "schema_ok rep"
  shows "fst (ReplaceAgentReport reliable rep recv db) =
      (if newer (UnixNano (ar_SentAt rep)) (agent_view db (ar_AgentID rep)) then None else Some ErrStaleReport) \<and>
    agent_view (snd (ReplaceAgentReport reliable rep recv db)) =
      (if newer (UnixNano (ar_SentAt rep)) (agent_view db (ar_AgentID rep))
       then (agent_view db)(ar_AgentID rep \<mapsto> (UnixNano (ar_SentAt rep), report_content rep recv))
       else agent_view db) \<and>
    tokens (snd (ReplaceAgentReport reliable rep recv db)) = tokens db"
proof (intro conjI)
  show "agent_view (snd (ReplaceAgentReport reliable rep recv db)) =
      (if newer (UnixNano (ar_SentAt rep)) (agent_view db (ar_AgentID rep))
       then (agent_view db)(ar_AgentID rep \<mapsto> (UnixNano (ar_SentAt rep), report_content rep recv))
       else agent_view db)"
    by (rule ext) (simp add: agent_view_replace [OF assms])
  show "fst (ReplaceAgentReport reliable rep recv db) =
      (if newer (UnixNano (ar_SentAt rep)) (agent_view db (ar_AgentID rep)) then None else Some ErrStaleReport)"
    by (auto simp: ReplaceAgentReport_total [OF assms] upsert_agent_def agent_view_def newer_def
        split: option.splits)
  show "tokens (snd (ReplaceAgentReport reliable rep recv db)) = tokens db"
    by (simp add: ReplaceAgentReport_total [OF assms] split: option.splits)
qed

definition demo_window :: limit_window where
  "demo_window = \<lparr>UsedPercent = F64 40, RemainingPercent = F64 60, ResetsAt = Some (5000 * second)\<rparr>"

definition demo_provider :: provider_report where
  "demo_provider = \<lparr>ObservedAt = 1000 * second, AuthState = ''authenticated'', Plan = ''Plus'', Source = ''codex'',
     Windows = \<lparr>FiveHour = Some demo_window, SevenDay = None\<rparr>, ErrorCode = []\<rparr>"

definition demo_task :: "task_kind \<Rightarrow> string \<Rightarrow> active_task" where
  "demo_task k sid = \<lparr>Provider = ProviderCodex, Kind = k, SessionID = sid,
     StartedAt = 900 * second, LastSeenAt = 1000 * second\<rparr>"

definition demo_report :: "string \<Rightarrow> time \<Rightarrow> agent_report" where
  "demo_report a sent = \<lparr>ar_SchemaVersion = 1, ar_AgentID = a, ar_SentAt = sent,
     ar_Providers = Some [(ProviderCodex, demo_provider)],
     ar_ActiveTasks = Some [demo_task TaskMain ''s1'', demo_task TaskSub ''s2'']\<rparr>"

lemma demo_schema_ok: "schema_ok (demo_report a sent)"
  by (simp add: schema_ok_def demo_report_def range_of_def demo_provider_def demo_window_def demo_task_def
      json_windows_ok_def json_window_ok_def json_float_ok_def json_time_ok_def second_def
      ValidProvider_def ValidTaskKind_def IsNaN_def IsInf_def)

lemma demo_window_wf: "window_wf demo_window"
proof -
  have "f64_sub (F64 100) (F64 40) = F64 60"
    using f64_complement [of 40] f64.rnd_int [of 60] by simp
  with f64_complement_sum [of "F64 40"] show ?thesis
    by (simp add: window_wf_def demo_window_def percent_ok_def zero_time_def second_def)
qed

lemma demo_report_wf: "report_wf (demo_report ''pc-1'' (1000 * second)) (1001 * second)"
proof -
  have "validAgentID ''pc-1''" "validSessionID ''s1''" "validSessionID ''s2''" by code_simp+
  then show ?thesis
    by (simp add: report_wf_def demo_report_def provider_wf_def demo_provider_def windows_wf_def
        demo_window_wf task_wf_def demo_task_def ValidProvider_def ValidTaskKind_def SchemaVersion_def
        zero_time_def MaxReportAge_def MaxFutureSkew_def duration_defs name_defs)
qed

theorem replace_report_refines_view_witness:
  "fst (ReplaceAgentReport reliable (demo_report ''pc-1'' 7) 8 empty_database) = None \<and>
   agent_view (snd (ReplaceAgentReport reliable (demo_report ''pc-1'' 7) 8 empty_database)) ''pc-1'' =
     Some (7, report_content (demo_report ''pc-1'' 7) 8)"
  using replace_report_refines_view [OF demo_schema_ok, of "''pc-1''" 7 8 empty_database]
  by (simp add: newer_def agent_view_def empty_database_def demo_report_def in_int64_def
      min_int64_def max_int64_def)

text \<open>
  C17: The transaction is atomic whatever fails. An error of any statement, of the encoder or of
  the commit leaves the database exactly as it was; a success has the effect the fault-free run
  has, and it keeps the constraints of the report tables.
\<close>

theorem replace_report_atomic:
  shows "(case ReplaceAgentReport io rep recv db of
     (Some e, db') \<Rightarrow> db' = db
   | (None, db') \<Rightarrow> ReplaceAgentReport reliable rep recv db = (None, db') \<and> io 0 \<and>
       (reports_wf db \<longrightarrow> reports_wf db'))"
proof (cases "ReplaceAgentReport io rep recv db")
  case (Pair e db')
  show ?thesis
  proof (cases e)
    case (Some x)
    with Pair ReplaceAgentReport_error show ?thesis by auto
  next
    case None
    with Pair have r: "ReplaceAgentReport io rep recv db = (None, db')" by simp
    then have "io 0" by (auto simp: ReplaceAgentReport_def Let_def split: if_splits)
    moreover have "ReplaceAgentReport reliable rep recv db = (None, db')"
      using ReplaceAgentReport_reliable [OF r] .
    ultimately show ?thesis using r reports_wf_replace [of db io rep recv] by simp
  qed
qed

theorem replace_report_atomic_witness:
  "ReplaceAgentReport (\<lambda>i. i \<noteq> 4) (demo_report ''pc-1'' 7) 8 empty_database = (Some ErrSQL, empty_database)"
proof -
  have "fst (ReplaceAgentReport (\<lambda>i. i \<noteq> 4) (demo_report ''pc-1'' 7) 8 empty_database) = Some ErrSQL"
    by code_simp
  with replace_report_atomic [where io = "\<lambda>i. i \<noteq> 4" and rep = "demo_report ''pc-1'' 7" and recv = 8
      and db = empty_database]
  show ?thesis by (cases "ReplaceAgentReport (\<lambda>i. i \<noteq> 4) (demo_report ''pc-1'' 7) 8 empty_database") simp
qed

text \<open>
  Arrival order is irrelevant. If no agent reuses a time stamp, any two orders in which the
  same reports arrive leave every agent with the same newest report, the same reception time and
  the same provider and task rows.
\<close>

theorem report_arrival_order_irrelevant:
  assumes "reports_wf db" and "\<forall>(rep, recv)\<in>set ms. schema_ok rep" and "mset ms = mset ns"
    and "distinct (map (\<lambda>(rep, recv). (ar_AgentID rep, UnixNano (ar_SentAt rep))) ms)"
  shows "agent_view (fold (\<lambda>(rep, recv) db. snd (ReplaceAgentReport reliable rep recv db)) ms db) =
    agent_view (fold (\<lambda>(rep, recv) db. snd (ReplaceAgentReport reliable rep recv db)) ns db)"
  using rs.view_fold_perm [of db ms ns] assms by (intro ext) (simp add: case_prod_unfold)

theorem report_arrival_order_irrelevant_witness:
  "agent_view (fold (\<lambda>(rep, recv) db. snd (ReplaceAgentReport reliable rep recv db))
      [(demo_report ''pc-1'' 7, 8), (demo_report ''pc-1'' 9, 10)] empty_database) =
   agent_view (fold (\<lambda>(rep, recv) db. snd (ReplaceAgentReport reliable rep recv db))
      [(demo_report ''pc-1'' 9, 10), (demo_report ''pc-1'' 7, 8)] empty_database)"
  by (rule report_arrival_order_irrelevant)
    (simp_all add: reports_wf_empty demo_schema_ok, simp add: demo_report_def UnixNano_def int64_defs)

text \<open>
  A report that passed \<open>ValidateAgentReport\<close> never trips over a constraint of the schema: if its
  windows can be encoded, then on a working database the only possible rejection is
  \<open>ErrStaleReport\<close>, and that one exactly when the stored report of the agent is at least as new.
\<close>

theorem validated_report_is_stored_or_stale:
  assumes "ValidateAgentReport rep now = None" and "gomap_wf (range_of (ar_Providers rep))"
    and "\<forall>(p, r)\<in>set (range_of (ar_Providers rep)). json_windows_ok (Windows r)"
  shows "fst (ReplaceAgentReport reliable rep recv db) =
    (case find (\<lambda>r. ag_agent_id r = ar_AgentID rep) (agents db) of
       None \<Rightarrow> None
     | Some r \<Rightarrow> if UnixNano (ar_SentAt rep) \<le> ag_report_sent_at_ns r then Some ErrStaleReport else None)"
proof -
  have "schema_ok rep"
    using assms by (intro report_wf_schema_ok) (simp_all add: ValidateAgentReport_iff)
  then show ?thesis
    by (auto simp: ReplaceAgentReport_total upsert_agent_def split: option.splits)
qed

theorem validated_report_is_stored_or_stale_witness:
  "ValidateAgentReport (demo_report ''pc-1'' (1000 * second)) (1001 * second) = None \<and>
   fst (ReplaceAgentReport reliable (demo_report ''pc-1'' (1000 * second)) (1001 * second) empty_database) = None"
proof -
  have v: "ValidateAgentReport (demo_report ''pc-1'' (1000 * second)) (1001 * second) = None"
    unfolding ValidateAgentReport_iff by (rule demo_report_wf)
  have "gomap_wf (range_of (ar_Providers (demo_report ''pc-1'' (1000 * second))))"
    "\<forall>(p, r)\<in>set (range_of (ar_Providers (demo_report ''pc-1'' (1000 * second)))). json_windows_ok (Windows r)"
    using demo_schema_ok [of "''pc-1''" "1000 * second"] by (auto simp: schema_ok_def gomap_wf_def)
  from validated_report_is_stored_or_stale [OF v this, of "1001 * second" empty_database] v
  show ?thesis by (simp add: empty_database_def)
qed

end
