(* ===== verification/Store_Open.thy ===== *)
theory Store_Open
  imports Store_Reports Host_Files
begin

text \<open>
  Opening the database: \<open>Open\<close>, \<open>sqliteDSN\<close>, \<open>configure\<close> and \<open>migrate\<close> of
  \<open>internal/store/store.go\<close>, on a Unix host (\<open>filepath.ToSlash\<close> is the identity there and volume
  names are empty).

  A database file is the table \<open>schema_migrations\<close> and the rest of its contents; a migration is a
  function on the contents that fails where its SQL text would. \<open>io i\<close> says whether the \<open>i\<close>-th
  statement reaches the database. A transaction works on a copy that becomes the file at the
  commit only. The migration loop is defined for any list of migrations and applied to the
  program's list, which has one element today.
\<close>

section \<open>The data source name\<close>

definition filepath_Abs :: "string option \<Rightarrow> string \<Rightarrow> string option" where
  "filepath_Abs cwd path =
     (if is_rooted path then Some (Clean path)
      else case cwd of None \<Rightarrow> None | Some d \<Rightarrow> Some (path_Join [d, path]))"

text \<open>\<open>net/url\<close>'s escaping of a path: letters, digits and the characters of a path stay.\<close>

definition path_char :: "char \<Rightarrow> bool" where
  "path_char c = (is_lower c \<or> is_upper c \<or> is_digit c \<or> c \<in> set ''-_.~$&+,/:;=@'')"

definition hex_upper :: "nat \<Rightarrow> char" where
  "hex_upper n = ''0123456789ABCDEF'' ! n"

definition escape_path :: "string \<Rightarrow> string" where
  "escape_path s = concat (map (\<lambda>c. if path_char c then [c]
     else [CHR ''%'', hex_upper (byte c div 16), hex_upper (byte c mod 16)]) s)"

definition sqliteDSN :: "string option \<Rightarrow> string \<Rightarrow> string" where
  "sqliteDSN cwd path =
     (if path = '':memory:'' \<or> has_prefix path ''file:'' then path
      else ''file://'' @ escape_path (case filepath_Abs cwd path of None \<Rightarrow> path | Some p \<Rightarrow> p))"

section \<open>Connection settings\<close>

definition pragma_statements :: "string \<Rightarrow> string list" where
  "pragma_statements path =
     [''PRAGMA foreign_keys = ON'', ''PRAGMA busy_timeout = 5000'', ''PRAGMA synchronous = NORMAL''] @
     (if path \<noteq> '':memory:'' then [''PRAGMA journal_mode = WAL''] else [])"

fun run_statements :: "io \<Rightarrow> nat \<Rightarrow> string list \<Rightarrow> string option" where
  "run_statements io k [] = None"
| "run_statements io k (s # ss) = (if io k then run_statements io (Suc k) ss else Some s)"

text \<open>The result names the statement that failed.\<close>

definition configure :: "io \<Rightarrow> string \<Rightarrow> string option" where
  "configure io path = run_statements io 0 (pragma_statements path)"

section \<open>Migrations\<close>

type_synonym 'd migration = "'d \<Rightarrow> 'd option"
type_synonym version_rows = "(int \<times> int) list"

record 'd db_file =
  df_versions :: "version_rows option"
  df_data :: 'd

datatype migrate_error =
    MigrationTableFailed | VersionUnreadable | SchemaTooNew int
  | BeginFailed int | ApplyFailed int | CommitFailed int | IndexOutOfRange int

text \<open>\<open>SELECT COALESCE(MAX(version), 0)\<close>\<close>

fun schema_version :: "version_rows \<Rightarrow> int" where
  "schema_version [] = 0"
| "schema_version (r # rs) = fold max (map fst rs) (fst r)"

definition insert_version :: "int \<Rightarrow> int \<Rightarrow> version_rows \<Rightarrow> version_rows option" where
  "insert_version v at_ns rows = (if v \<in> fst ` set rows then None else Some (rows @ [(v, at_ns)]))"

definition stored_versions :: "'d db_file \<Rightarrow> version_rows" where
  "stored_versions f = (case df_versions f of None \<Rightarrow> [] | Some rows \<Rightarrow> rows)"

text \<open>The two statements of one migration's transaction; \<open>None\<close> when either fails.\<close>

definition migration_effect ::
    "io \<Rightarrow> nat \<Rightarrow> time \<Rightarrow> 'd migration \<Rightarrow> int \<Rightarrow> 'd db_file \<Rightarrow> 'd db_file option" where
  "migration_effect io k now m v f =
     (if \<not> io k then None
      else case m (df_data f) of
        None \<Rightarrow> None
      | Some d \<Rightarrow>
          (if \<not> io (Suc k) then None
           else case insert_version v (UnixNano now) (stored_versions f) of
             None \<Rightarrow> None
           | Some rows \<Rightarrow> Some (f\<lparr>df_versions := Some rows, df_data := d\<rparr>)))"

function migrate_loop ::
    "io \<Rightarrow> (nat \<Rightarrow> time) \<Rightarrow> 'd migration list \<Rightarrow> nat \<Rightarrow> int \<Rightarrow> 'd db_file \<Rightarrow> migrate_error option \<times> 'd db_file" where
  "migrate_loop io now ms k i f =
     (if int (length ms) \<le> i then (None, f)
      else if \<not> io k then (Some (BeginFailed (i + 1)), f)
      else if i < 0 then (Some (IndexOutOfRange i), f)
      else case migration_effect io (k + 1) (now k) (ms ! nat i) (i + 1) f of
        None \<Rightarrow> (Some (ApplyFailed (i + 1)), f)
      | Some f' \<Rightarrow>
          if \<not> io (k + 3) then (Some (CommitFailed (i + 1)), f)
          else migrate_loop io now ms (k + 4) (i + 1) f')"
  by pat_completeness auto
termination
  by (relation "measure (\<lambda>(io, now, ms, k, i, f). nat (int (length ms) - i))") auto

declare migrate_loop.simps [simp del]

definition migrate_with ::
    "'d migration list \<Rightarrow> io \<Rightarrow> (nat \<Rightarrow> time) \<Rightarrow> 'd db_file \<Rightarrow> migrate_error option \<times> 'd db_file" where
  "migrate_with ms io now f =
     (if \<not> io 0 then (Some MigrationTableFailed, f)
      else
        let f' = f\<lparr>df_versions := Some (stored_versions f)\<rparr>
        in if \<not> io 1 then (Some VersionUnreadable, f')
           else
             let version = schema_version (stored_versions f)
             in if int (length ms) < version then (Some (SchemaTooNew version), f')
                else migrate_loop io now ms 2 version f')"

text \<open>
  The program's list: one migration, which creates all tables and fails if they exist. The
  contents are \<open>None\<close> before it.
\<close>

definition create_schema :: "database option migration" where
  "create_schema tables = (case tables of None \<Rightarrow> Some (Some empty_database) | Some _ \<Rightarrow> None)"

definition migrations :: "database option migration list" where
  "migrations = [create_schema]"

definition migrate :: "io \<Rightarrow> (nat \<Rightarrow> time) \<Rightarrow> database option db_file \<Rightarrow> migrate_error option \<times> database option db_file" where
  "migrate = migrate_with migrations"

section \<open>Open\<close>

datatype open_error = DatabasePathRequired | OpenFailed | ConfigureFailed string | MigrateFailed migrate_error

type_synonym disk = "string \<Rightarrow> database option db_file"

definition fresh_file :: "database option db_file" where
  "fresh_file = \<lparr>df_versions = None, df_data = None\<rparr>"

text \<open>
  The disk maps data source names to files; a name not seen before is a fresh file, and so is
  the in-memory database every time. Call 0 is \<open>sql.Open\<close>, followed by the settings and the
  migration. The result is the name of the opened file.
\<close>

definition Open :: "io \<Rightarrow> (nat \<Rightarrow> time) \<Rightarrow> string option \<Rightarrow> string \<Rightarrow> disk \<Rightarrow> (open_error, string) result \<times> disk" where
  "Open io now cwd path disk =
     (if TrimSpace path = [] then (Inl DatabasePathRequired, disk)
      else
        let dsn = sqliteDSN cwd path;
            f = (if path = '':memory:'' then fresh_file else disk dsn)
        in if \<not> io 0 then (Inl OpenFailed, disk)
           else case configure (\<lambda>i. io (i + 1)) path of
             Some statement \<Rightarrow> (Inl (ConfigureFailed statement), disk)
           | None \<Rightarrow>
               (case migrate (\<lambda>i. io (i + 1 + length (pragma_statements path))) now f of
                  (Some e, f') \<Rightarrow> (Inl (MigrateFailed e), disk(dsn := f'))
                | (None, f') \<Rightarrow> (Inr dsn, disk(dsn := f'))))"

section \<open>Migrations: lemmas\<close>

fun run_migrations :: "'d migration list \<Rightarrow> 'd \<Rightarrow> 'd option" where
  "run_migrations [] d = Some d"
| "run_migrations (m # ms) d = (case m d of None \<Rightarrow> None | Some d' \<Rightarrow> run_migrations ms d')"

lemma run_migrations_append:
  "run_migrations (ms @ ns) d = (case run_migrations ms d of None \<Rightarrow> None | Some d' \<Rightarrow> run_migrations ns d')"
  by (induction ms arbitrary: d) (auto split: option.splits)

lemma run_migrations_step:
  "n < length ms \<Longrightarrow> run_migrations (take n ms) d = Some d' \<Longrightarrow> run_migrations (take (Suc n) ms) d = (ms ! n) d'"
  by (auto simp: take_Suc_conv_app_nth run_migrations_append split: option.splits)

text \<open>The file after the first \<open>n\<close> migrations, each recorded once and in order.\<close>

definition migrated :: "nat \<Rightarrow> 'd migration list \<Rightarrow> 'd \<Rightarrow> 'd db_file \<Rightarrow> bool" where
  "migrated n ms d f \<longleftrightarrow> n \<le> length ms \<and> map fst (stored_versions f) = map int [1..<Suc n] \<and>
     run_migrations (take n ms) d = Some (df_data f)"

lemma schema_version_upto:
  assumes "map fst rows = map int [1..<Suc n]"
  shows "schema_version rows = int n"
proof (cases rows)
  case Nil
  with assms show ?thesis by (auto split: if_splits)
next
  case (Cons r rs)
  have "schema_version rows = Max (set (map fst rows))"
    using Cons by (simp add: Max.set_eq_fold [symmetric] del: set_map)
  also have "\<dots> = int n"
    using assms Cons by (intro Max_eqI) (auto split: if_splits)
  finally show ?thesis .
qed

lemma insert_version_next:
  "map fst rows = map int [1..<Suc n] \<Longrightarrow> insert_version (int n + 1) t rows = Some (rows @ [(int n + 1, t)])"
proof -
  assume a: "map fst rows = map int [1..<Suc n]"
  then have "fst ` set rows = int ` {1..<Suc n}" by (metis list.set_map set_upt)
  then show ?thesis by (auto simp: insert_version_def)
qed

lemma migration_effect_migrated:
  assumes "migrated n ms d f" and "n < length ms"
    and "migration_effect io k now (ms ! n) (int n + 1) f = Some f'"
  shows "migrated (Suc n) ms d f'"
  using assms run_migrations_step [of n ms d "df_data f"] insert_version_next [of "stored_versions f" n "UnixNano now"]
  by (auto simp: migrated_def migration_effect_def stored_versions_def [of f'] split: if_splits option.splits)

lemma migrate_loop_done: "int (length ms) \<le> i \<Longrightarrow> migrate_loop io now ms k i f = (None, f)"
  by (simp add: migrate_loop.simps [of io now ms k i f])

lemma migrate_loop_round:
  assumes "n < length ms"
  shows "migrate_loop io now ms k (int n) f =
    (if \<not> io k then (Some (BeginFailed (int n + 1)), f)
     else case migration_effect io (k + 1) (now k) (ms ! n) (int n + 1) f of
       None \<Rightarrow> (Some (ApplyFailed (int n + 1)), f)
     | Some f' \<Rightarrow>
         if \<not> io (k + 3) then (Some (CommitFailed (int n + 1)), f)
         else migrate_loop io now ms (k + 4) (int n + 1) f')"
  using assms by (subst migrate_loop.simps) simp

lemma migrate_loop_migrated:
  assumes "migrate_loop io now ms k (int n) f = (r, f')" and "migrated n ms d f"
  shows "\<exists>n'. n \<le> n' \<and> migrated n' ms d f' \<and> (r = None \<longrightarrow> n' = length ms)"
  using assms
proof (induction "length ms - n" arbitrary: n k f)
  case 0
  then have "n = length ms" by (simp add: migrated_def)
  with 0 show ?case by (auto simp: migrate_loop_done)
next
  case (Suc l)
  then have n: "n < length ms" by simp
  note loop = Suc.prems(1) [unfolded migrate_loop_round [OF n]]
  show ?case
  proof (cases "migration_effect io (k + 1) (now k) (ms ! n) (int n + 1) f")
    case None
    with loop have "f' = f \<and> r \<noteq> None" by (auto split: if_splits)
    with Suc.prems(2) show ?thesis by blast
  next
    case (Some f1)
    have m: "migrated (Suc n) ms d f1" by (rule migration_effect_migrated [OF Suc.prems(2) n Some])
    show ?thesis
    proof (cases "io k \<and> io (k + 3)")
      case True
      with loop Some have "migrate_loop io now ms (k + 4) (int (Suc n)) f1 = (r, f')" by (simp add: add.commute)
      moreover have "l = length ms - Suc n" using Suc.hyps(2) by simp
      ultimately obtain n' where "Suc n \<le> n'" "migrated n' ms d f'" "r = None \<longrightarrow> n' = length ms"
        using Suc.hyps(1) m by blast
      then show ?thesis by (intro exI [of _ n']) simp
    next
      case False
      with loop Some have "f' = f \<and> r \<noteq> None" by (auto split: if_splits)
      with Suc.prems(2) show ?thesis by blast
    qed
  qed
qed

lemma migrated_versions [simp]:
  "migrated n ms d (f\<lparr>df_versions := Some (stored_versions f)\<rparr>) = migrated n ms d f"
  by (simp add: migrated_def stored_versions_def)

lemma migrate_with_migrated:
  assumes "migrate_with ms io now f = (r, f')" and "migrated n ms d f"
  shows "\<exists>n'. n \<le> n' \<and> migrated n' ms d f' \<and> (r = None \<longrightarrow> n' = length ms)"
proof -
  have v: "schema_version (stored_versions f) = int n" "n \<le> length ms"
    using assms(2) schema_version_upto by (auto simp: migrated_def)
  let ?f = "f\<lparr>df_versions := Some (stored_versions f)\<rparr>"
  show ?thesis
  proof (cases "io 0 \<and> io 1")
    case True
    with assms(1) v have "migrate_loop io now ms 2 (int n) ?f = (r, f')"
      by (simp add: migrate_with_def)
    with migrate_loop_migrated assms(2) show ?thesis by (metis migrated_versions)
  next
    case False
    with assms show ?thesis by (auto simp: migrate_with_def split: if_splits)
  qed
qed

text \<open>With no fault the loop runs to the end exactly if every remaining migration succeeds.\<close>

lemma migrate_loop_calm:
  assumes "migrated n ms d f" and "run_migrations ms d = Some d'"
  shows "\<exists>f'. migrate_loop (\<lambda>_. True) now ms k (int n) f = (None, f')"
  using assms
proof (induction "length ms - n" arbitrary: n k f)
  case 0
  then show ?case by (auto simp: migrate_loop_done migrated_def)
next
  case (Suc l)
  then have n: "n < length ms" by simp
  have "run_migrations (drop n ms) (df_data f) = Some d'"
    using Suc.prems run_migrations_append [of "take n ms" "drop n ms" d] by (simp add: migrated_def)
  then obtain d1 where "(ms ! n) (df_data f) = Some d1"
    using Cons_nth_drop_Suc [OF n, symmetric] by (auto split: option.splits)
  with Suc.prems(1) insert_version_next obtain f1 where
    f1: "migration_effect (\<lambda>_. True) (k + 1) (now k) (ms ! n) (int n + 1) f = Some f1"
    by (fastforce simp: migration_effect_def migrated_def)
  have "migrated (Suc n) ms d f1" by (rule migration_effect_migrated [OF Suc.prems(1) n f1])
  with Suc.hyps(1) [of "Suc n" f1 "k + 4"] Suc.hyps(2) Suc.prems(2) f1 show ?case
    by (simp add: migrate_loop_round [OF n] add.commute)
qed

definition migration_history ::
    "'d migration list \<Rightarrow> (io \<times> (nat \<Rightarrow> time)) list \<Rightarrow> 'd db_file \<Rightarrow> 'd db_file" where
  "migration_history ms = fold (\<lambda>(io, now) f. snd (migrate_with ms io now f))"

lemma migration_history_migrated:
  "migrated n ms d f \<Longrightarrow> \<exists>n'. n \<le> n' \<and> migrated n' ms d (migration_history ms runs f)"
proof (induction runs arbitrary: n f)
  case Nil
  then show ?case by (auto simp: migration_history_def)
next
  case (Cons run runs)
  obtain io now where r: "run = (io, now)" by force
  obtain n1 where "n \<le> n1" "migrated n1 ms d (snd (migrate_with ms io now f))"
    using migrate_with_migrated [OF prod.collapse [symmetric] Cons.prems] by blast
  with Cons.IH [OF this(2)] r show ?case by (auto simp: migration_history_def intro: order_trans)
qed

lemma migrated_fresh: "migrated 0 ms d \<lparr>df_versions = None, df_data = d\<rparr>"
  by (simp add: migrated_def stored_versions_def)

lemma migrate_with_calm:
  assumes "migrated n ms d f" and "run_migrations ms d = Some d'"
  shows "\<exists>f'. migrate_with ms calm now f = (None, f') \<and> migrated (length ms) ms d f'"
proof -
  have v: "schema_version (stored_versions f) = int n" "n \<le> length ms"
    using assms(1) schema_version_upto by (auto simp: migrated_def)
  obtain f' where "migrate_with ms calm now f = (None, f')"
    using migrate_loop_calm [of n ms d "f\<lparr>df_versions := Some (stored_versions f)\<rparr>" d' now 2] assms v
    by (auto simp: migrate_with_def)
  with migrate_with_migrated [OF _ assms(1)] show ?thesis by blast
qed

section \<open>Opening: lemmas\<close>

lemma migrate_up_to_date:
  assumes "df_versions f = Some rows" and "1 \<le> schema_version rows"
  shows "snd (migrate io now f) = f"
    and "fst (migrate calm now f) = (if schema_version rows = 1 then None else Some (SchemaTooNew (schema_version rows)))"
  using assms by (auto simp: migrate_def migrate_with_def migrations_def stored_versions_def Let_def migrate_loop_done)

lemma configure_calm: "configure calm path = None"
  by (simp add: configure_def pragma_statements_def)

lemma migrate_fresh_history:
  assumes "migrated n migrations None f" and "migrate io now f = (r, f')"
  shows "\<exists>n'. migrated n' migrations None f' \<and> (r = None \<longrightarrow> n' = 1)"
  using migrate_with_migrated assms by (fastforce simp: migrate_def migrations_def)

lemma Open_migrated:
  assumes "migrated n migrations None (disk (sqliteDSN cwd path))" and "path \<noteq> '':memory:''"
    and "Open io now cwd path disk = (r, disk')"
  shows "\<exists>n'. migrated n' migrations None (disk' (sqliteDSN cwd path)) \<and>
    (\<forall>dsn. dsn \<noteq> sqliteDSN cwd path \<longrightarrow> disk' dsn = disk dsn) \<and>
    (\<forall>dsn. r = Inr dsn \<longrightarrow> dsn = sqliteDSN cwd path \<and> n' = 1)"
proof (cases "TrimSpace path = [] \<or> \<not> io 0 \<or> configure (\<lambda>i. io (i + 1)) path \<noteq> None")
  case True
  with assms show ?thesis by (auto simp: Open_def Let_def split: if_splits)
next
  case False
  obtain e f' where m: "migrate (\<lambda>i. io (i + 1 + length (pragma_statements path))) now (disk (sqliteDSN cwd path)) = (e, f')"
    by force
  with False assms(2,3) have "disk' = disk(sqliteDSN cwd path := f')"
    and "r = (case e of None \<Rightarrow> Inr (sqliteDSN cwd path) | Some x \<Rightarrow> Inl (MigrateFailed x))"
    by (auto simp: Open_def Let_def split: option.splits)
  with migrate_fresh_history [OF assms(1) m] show ?thesis by (auto split: option.splits)
qed

definition open_history :: "string option \<Rightarrow> string \<Rightarrow> (io \<times> (nat \<Rightarrow> time)) list \<Rightarrow> disk \<Rightarrow> disk" where
  "open_history cwd path = fold (\<lambda>(io, now) disk. snd (Open io now cwd path disk))"

lemma open_history_migrated:
  assumes "migrated n migrations None (disk (sqliteDSN cwd path))" and "path \<noteq> '':memory:''"
  shows "\<exists>n'. migrated n' migrations None (open_history cwd path runs disk (sqliteDSN cwd path)) \<and>
    (\<forall>dsn. dsn \<noteq> sqliteDSN cwd path \<longrightarrow> open_history cwd path runs disk dsn = disk dsn)"
  using assms(1)
proof (induction runs arbitrary: n disk)
  case Nil
  then show ?case by (auto simp: open_history_def)
next
  case (Cons run runs)
  obtain io now where r: "run = (io, now)" by force
  obtain n1 where "migrated n1 migrations None (snd (Open io now cwd path disk) (sqliteDSN cwd path))"
    and "\<forall>dsn. dsn \<noteq> sqliteDSN cwd path \<longrightarrow> snd (Open io now cwd path disk) dsn = disk dsn"
    using Open_migrated [where n = n and disk = disk, OF Cons.prems assms(2) prod.collapse [symmetric]] by blast
  with Cons.IH [where disk = "snd (Open io now cwd path disk)", OF this(1)] r show ?case by (auto simp: open_history_def)
qed

section \<open>Escaped paths\<close>

definition hex_value :: "char \<Rightarrow> nat" where
  "hex_value c = (if is_digit c then byte c - 48 else byte c - 55)"

fun percent_decode :: "string \<Rightarrow> string" where
  "percent_decode (c # h # l # s) =
     (if c = CHR ''%'' then char_of (16 * hex_value h + hex_value l) # percent_decode s
      else c # percent_decode (h # l # s))"
| "percent_decode s = s"

lemma percent_decode_plain: "c \<noteq> CHR ''%'' \<Longrightarrow> percent_decode (c # s) = c # percent_decode s"
  by (cases s rule: percent_decode.cases) auto

lemma hex_value_upper: "n < 16 \<Longrightarrow> hex_value (hex_upper n) = n"
proof -
  have "\<forall>n \<in> set [0..<16]. hex_value (hex_upper n) = n" by code_simp
  then show "n < 16 \<Longrightarrow> hex_value (hex_upper n) = n" by simp
qed

lemma percent_decode_escape: "percent_decode (escape_path s) = s"
proof (induction s)
  case Nil
  then show ?case by (simp add: escape_path_def)
next
  case (Cons c s)
  have e: "escape_path (c # s) = (if path_char c then [c]
      else [CHR ''%'', hex_upper (byte c div 16), hex_upper (byte c mod 16)]) @ escape_path s"
    by (simp add: escape_path_def)
  show ?case
  proof (cases "path_char c")
    case True
    moreover have "\<not> path_char (CHR ''%'')" by code_simp
    ultimately have "c \<noteq> CHR ''%''" by blast
    with True e Cons.IH show ?thesis by (simp add: percent_decode_plain)
  next
    case False
    have "byte c < 256" by (simp add: byte_def)
    then have "byte c div 16 < 16" "byte c mod 16 < 16" by auto
    with False e Cons.IH show ?thesis by (simp add: hex_value_upper byte_def)
  qed
qed

lemma escape_path_chars: "c \<in> set (escape_path s) \<Longrightarrow> path_char c \<or> c = CHR ''%''"
proof -
  have "\<forall>n \<in> set [0..<16]. path_char (hex_upper n)" by code_simp
  then have h: "path_char (hex_upper (b div 16)) \<and> path_char (hex_upper (b mod 16))" if "b < 256" for b
    using that by auto
  have "byte c < 256" for c by (simp add: byte_def)
  with h show "c \<in> set (escape_path s) \<Longrightarrow> path_char c \<or> c = CHR ''%''"
    by (auto simp: escape_path_def split: if_splits)
qed

section \<open>Properties\<close>

text \<open>
  C18: An interrupted schema migration completes. Whatever statements failed in any number of
  earlier attempts, the next fault-free run of the migration loop ends and leaves the contents
  that all migrations of the list produce in order from the original contents, with the versions
  1 to the number of migrations recorded once each: no migration is skipped or run twice.
\<close>

theorem interrupted_migration_completes:
  assumes "run_migrations ms d = Some d'"
  shows "\<exists>f'. migrate_with ms calm now (migration_history ms runs \<lparr>df_versions = None, df_data = d\<rparr>) = (None, f') \<and>
    df_data f' = d' \<and> map fst (stored_versions f') = map int [1..<Suc (length ms)]"
proof -
  obtain n where "migrated n ms d (migration_history ms runs \<lparr>df_versions = None, df_data = d\<rparr>)"
    using migration_history_migrated [OF migrated_fresh, of ms d runs] by blast
  from migrate_with_calm [OF this assms] assms show ?thesis by (fastforce simp: migrated_def)
qed

theorem interrupted_migration_completes_witness:
  "\<exists>f'. migrate_with [\<lambda>n. Some (n + 1), \<lambda>n. Some (10 * n)] calm (\<lambda>_. 5)
      (migration_history [\<lambda>n. Some (n + 1), \<lambda>n. Some (10 * n)] [(\<lambda>i. i \<noteq> 8, \<lambda>_. 3), (\<lambda>i. i \<noteq> 4, \<lambda>_. 4)]
        \<lparr>df_versions = None, df_data = 1 :: nat\<rparr>) = (None, f') \<and>
    df_data f' = 20 \<and> map fst (stored_versions f') = [1, 2]"
proof -
  have "run_migrations [\<lambda>n. Some (n + 1), \<lambda>n. Some (10 * n)] (1 :: nat) = Some 20" by simp
  from interrupted_migration_completes [OF this] show ?thesis by (simp add: upt_rec)
qed

text \<open>
  C21: The schema is created exactly once. After any history of attempts to open a database that
  did not exist, each with any failing statements, the first \<open>Open\<close> that succeeds returns a
  database with all tables, empty, at schema version 1, and no other file has changed.
\<close>

theorem open_initialises_once:
  assumes "disk (sqliteDSN cwd path) = fresh_file" and "path \<noteq> '':memory:''"
    and "Open io now cwd path (open_history cwd path runs disk) = (ok dsn, disk')"
  shows "dsn = sqliteDSN cwd path \<and> df_data (disk' dsn) = Some empty_database \<and>
    map fst (stored_versions (disk' dsn)) = [1] \<and> (\<forall>other. other \<noteq> dsn \<longrightarrow> disk' other = disk other)"
proof -
  have "migrated 0 migrations None (disk (sqliteDSN cwd path))"
    using assms(1) migrated_fresh by (simp add: fresh_file_def)
  from open_history_migrated [where disk = disk, OF this assms(2)] obtain n where
    "migrated n migrations None (open_history cwd path runs disk (sqliteDSN cwd path))"
    and o: "\<forall>dsn. dsn \<noteq> sqliteDSN cwd path \<longrightarrow> open_history cwd path runs disk dsn = disk dsn" by blast
  from Open_migrated [where disk = "open_history cwd path runs disk", OF this(1) assms(2,3)] obtain n' where
    "migrated n' migrations None (disk' (sqliteDSN cwd path))" "n' = 1" "dsn = sqliteDSN cwd path"
    "\<forall>dsn. dsn \<noteq> sqliteDSN cwd path \<longrightarrow> disk' dsn = open_history cwd path runs disk dsn" by blast
  with o show ?thesis by (simp add: migrated_def migrations_def create_schema_def)
qed

theorem open_initialises_once_witness:
  "\<exists>disk'. Open calm (\<lambda>_. 7) (Some ''/srv'') ''m.db'' (open_history (Some ''/srv'') ''m.db'' [(\<lambda>i. i \<noteq> 10, \<lambda>_. 3)] (\<lambda>_. fresh_file))
      = (ok ''file:///srv/m.db'', disk') \<and>
    df_data (disk' ''file:///srv/m.db'') = Some empty_database"
proof -
  let ?d = "open_history (Some ''/srv'') ''m.db'' [(\<lambda>i. i \<noteq> 10, \<lambda>_. 3)] (\<lambda>_. fresh_file)"
  have "fst (Open calm (\<lambda>_. 7) (Some ''/srv'') ''m.db'' ?d) = ok ''file:///srv/m.db''" by code_simp
  then obtain disk' where o: "Open calm (\<lambda>_. 7) (Some ''/srv'') ''m.db'' ?d = (ok ''file:///srv/m.db'', disk')"
    by (metis prod.collapse)
  from open_initialises_once [OF _ _ this] show ?thesis using o by auto
qed

text \<open>
  Opening an existing database never changes it. For a file at schema version 1 or later, no
  \<open>Open\<close>, with any failing statements, changes any file; without faults it succeeds exactly when
  the version is the supported one and refuses a newer schema by naming its version.
\<close>

theorem reopen_keeps_data:
  assumes "df_versions (disk (sqliteDSN cwd path)) = Some rows" and "1 \<le> schema_version rows"
    and "path \<noteq> '':memory:''" and "TrimSpace path \<noteq> []"
  shows "snd (Open io now cwd path disk) = disk \<and> fst (Open calm now cwd path disk) =
    (if schema_version rows = 1 then ok (sqliteDSN cwd path) else Inl (MigrateFailed (SchemaTooNew (schema_version rows))))"
proof -
  let ?f = "disk (sqliteDSN cwd path)"
  have "snd (migrate io' now ?f) = ?f" for io'
    by (rule migrate_up_to_date(1) [OF assms(1,2)])
  then have "snd (Open io now cwd path disk) = disk"
    using assms(3,4) by (auto simp: Open_def Let_def split: option.splits prod.splits) (metis fun_upd_triv snd_conv)+
  moreover have "fst (Open calm now cwd path disk) =
    (if schema_version rows = 1 then ok (sqliteDSN cwd path) else Inl (MigrateFailed (SchemaTooNew (schema_version rows))))"
    using assms(3,4) migrate_up_to_date(2) [OF assms(1,2), of now]
    by (auto simp: Open_def Let_def configure_calm split: option.splits prod.splits if_splits)
  ultimately show ?thesis by blast
qed

theorem reopen_keeps_data_witness:
  "fst (Open calm (\<lambda>_. 7) None ''/srv/m.db'' (\<lambda>_. \<lparr>df_versions = Some [(1, 0), (2, 5)], df_data = Some empty_database\<rparr>)) =
     Inl (MigrateFailed (SchemaTooNew 2))"
proof -
  have "TrimSpace ''/srv/m.db'' \<noteq> []" by code_simp
  with reopen_keeps_data [of "\<lambda>_. \<lparr>df_versions = Some [(1, 0), (2, 5)], df_data = Some empty_database\<rparr>"
      None "''/srv/m.db''" "[(1, 0), (2, 5)]" calm "\<lambda>_. 7"]
  show ?thesis by simp
qed

text \<open>
  The data source name denotes the given file. For a path that is neither the in-memory name
  nor already a \<open>file:\<close> URI, the name is a \<open>file:\<close> URI whose decoded path is the absolute path, and
  its escaped part holds no question mark or number sign, so no part of a file name is taken for
  connection parameters.
\<close>

theorem dsn_denotes_path:
  assumes "path \<noteq> '':memory:''" and "\<not> has_prefix path ''file:''" and "filepath_Abs cwd path = Some p"
  shows "\<exists>e. sqliteDSN cwd path = ''file://'' @ e \<and> percent_decode e = p \<and> CHR ''?'' \<notin> set e \<and> CHR ''#'' \<notin> set e"
proof -
  have c: "\<not> path_char (CHR ''?'')" "\<not> path_char (CHR ''#'')" by code_simp+
  have "CHR ''?'' \<notin> set (escape_path p)" using escape_path_chars [of "CHR ''?''" p] c(1) by auto
  moreover have "CHR ''#'' \<notin> set (escape_path p)" using escape_path_chars [of "CHR ''#''" p] c(2) by auto
  ultimately have "CHR ''?'' \<notin> set (escape_path p) \<and> CHR ''#'' \<notin> set (escape_path p)" ..
  with assms percent_decode_escape show ?thesis by (auto simp: sqliteDSN_def)
qed

theorem dsn_denotes_path_witness:
  "\<exists>e. sqliteDSN (Some ''/srv'') ''a?b#.db'' = ''file://'' @ e \<and> percent_decode e = ''/srv/a?b#.db''"
proof -
  have "filepath_Abs (Some ''/srv'') ''a?b#.db'' = Some ''/srv/a?b#.db''" by code_simp
  from dsn_denotes_path [OF _ _ this] show ?thesis by auto
qed

end
