(* ===== verification/Hook_Commands.thy ===== *)
theory Hook_Commands
  imports Hook_Install Go_Flags Store_Open
begin

text \<open>
  The hook commands of \<open>cmd/quota-monitor/main.go\<close>: \<open>hooks install\<close> and \<open>hooks uninstall\<close> for the
  operator, and \<open>hook forward\<close> and \<open>hook statusline\<close>, which the provider tools run.

  A command runs in an environment (\<open>cli_env\<close>: the host, standard input, the clock, the random
  source, the network and the user's shell) on a session: the host's files, the state behind the
  network, what was printed on standard output and the notices on standard error. The error a
  command returns is a value; \<open>Message\<close> is an error with a fixed text.
\<close>

section \<open>Environment and session\<close>

record 'w cli_env =
  cl_host :: host_env
  cl_lib :: install_lib
  cl_dur :: "string \<Rightarrow> duration option"
  cl_executable :: string
  cl_cwd :: "string option"
  cl_random :: "string option"
  cl_stdin :: "string option"
  cl_now :: time
  cl_sha :: "string \<Rightarrow> string"
  cl_time :: "string \<Rightarrow> time option"
  cl_probe :: bool
  cl_encode :: "event \<Rightarrow> string option"
  cl_transport :: "'w transport"
  cl_run :: "string program_runner"
  cl_prints :: bool

datatype cli_output = Bytes string | Installed InstallResult

datatype notice =
    HookIgnored string | HookSkipped hook_error | StateSkipped install_error | PreviousFailed string

record 'w cli_session =
  ss_host :: host
  ss_net :: 'w
  ss_out :: "cli_output list"
  ss_err :: "notice list"

datatype cli_error =
    FlagFailed flag_error | Message string | UserHomeUnknown | AbsFailed | RandomFailed
  | HostFailed host_error | InstallFailed install_error | OutputFailed

type_synonym 'w cli_command = "'w cli_session \<Rightarrow> cli_error option \<times> 'w cli_session"

text \<open>An action on the host's files as part of a command.\<close>

definition on_host ::
    "('e \<Rightarrow> cli_error) \<Rightarrow> ('e, 'a) host_action \<Rightarrow> ('a \<Rightarrow> 'w cli_command) \<Rightarrow> 'w cli_command" where
  "on_host f m k s =
     (case m (ss_host s) of
        (Inl e, h) \<Rightarrow> (Some (f e), s\<lparr>ss_host := h\<rparr>)
      | (Inr x, h) \<Rightarrow> k x (s\<lparr>ss_host := h\<rparr>))"

definition print :: "'w cli_env \<Rightarrow> cli_output \<Rightarrow> 'w cli_command" where
  "print env out s =
     (if cl_prints env then (None, s\<lparr>ss_out := ss_out s @ [out]\<rparr>) else (Some OutputFailed, s))"

definition notify :: "notice \<Rightarrow> 'w cli_session \<Rightarrow> 'w cli_session" where
  "notify n s = s\<lparr>ss_err := ss_err s @ [n]\<rparr>"

section \<open>The shared secret\<close>

text \<open>
  \<open>os.WriteFile\<close> truncates or creates the file, writes and closes it; a failing write may leave a
  part of the bytes behind.
\<close>

definition os_WriteFile :: "host_env \<Rightarrow> string \<Rightarrow> string \<Rightarrow> file_mode \<Rightarrow> (host_error, unit) host_action" where
  "os_WriteFile env path bytes mode =
     and_then (syscall env) (\<lambda>_ h.
       let k = path_key path;
           old_mode = (case h_files h k of None \<Rightarrow> mode | Some (_, m) \<Rightarrow> m)
       in case temp_Write env k bytes (set_file k (Some ([], old_mode)) h) of
            (written, h1) \<Rightarrow>
              (case syscall env h1 of
                 (shut, h2) \<Rightarrow> (case written of Inl e \<Rightarrow> Inl e | Inr _ \<Rightarrow> shut, h2)))"

definition create_secret :: "host_env \<Rightarrow> string option \<Rightarrow> string \<Rightarrow> (cli_error, string) host_action" where
  "create_secret env random path =
     (case randomString random of
        None \<Rightarrow> (\<lambda>h. (Inl RandomFailed, h))
      | Some secret \<Rightarrow>
          and_then (map_error HostFailed (syscall env)) (\<lambda>_.
          and_then (map_error HostFailed (os_WriteFile env path (secret @ [CHR 0x0A]) 384)) (\<lambda>_ h.
            (Inr secret, h))))"

definition loadOrCreateSecret :: "host_env \<Rightarrow> string option \<Rightarrow> string \<Rightarrow> (cli_error, string) host_action" where
  "loadOrCreateSecret env random path h =
     (case os_ReadFile env path h of
        (Inr payload, h') \<Rightarrow>
          if TrimSpace payload \<noteq> [] then (Inr (TrimSpace payload), h') else create_secret env random path h'
      | (Inl NotExist, h') \<Rightarrow> create_secret env random path h'
      | (Inl IOFailure, h') \<Rightarrow> (Inl (HostFailed IOFailure), h'))"

section \<open>Commands of the operator\<close>

definition user_home :: "host_env \<Rightarrow> string \<Rightarrow> string option" where
  "user_home env home = (if home \<noteq> [] then Some home else he_home env)"

definition install_flags :: "'w cli_env \<Rightarrow> flag_set" where
  "install_flags env =
     [(''executable'', VString (cl_executable env)), (''home'', VString []),
      (''url'', VString ''http://127.0.0.1:47632''), (''secret-file'', VString []), (''state-file'', VString [])]"

definition runHooksInstall :: "'w cli_env \<Rightarrow> string list \<Rightarrow> 'w cli_command" where
  "runHooksInstall env args s =
     (case Parse (cl_dur env) (install_flags env) args of
        Inl e \<Rightarrow> (Some (FlagFailed e), s)
      | Inr (fs, rest) \<Rightarrow>
          if rest \<noteq> [] then (Some (Message ''hooks install accepts no positional arguments''), s)
          else if string_flag fs ''executable'' = [] then
            (Some (Message ''cannot determine executable path; pass --executable''), s)
          else case filepath_Abs (cl_cwd env) (string_flag fs ''executable'') of
            None \<Rightarrow> (Some AbsFailed, s)
          | Some executable \<Rightarrow>
              (case user_home (cl_host env) (string_flag fs ''home'') of
                 None \<Rightarrow> (Some UserHomeUnknown, s)
               | Some home \<Rightarrow>
                   let secretPath = default_to (path_Join [home, ''.quota-monitor'', ''hook-secret'']) (string_flag fs ''secret-file'')
                   in on_host id (loadOrCreateSecret (cl_host env) (cl_random env) secretPath) (\<lambda>secret.
                      on_host InstallFailed (Install (cl_host env) (cl_lib env)
                        \<lparr>ic_HomeDir = home, ic_Executable = executable, ic_HookURL = string_flag fs ''url'',
                         ic_Secret = secret, ic_CodexConfigPath = [], ic_ClaudeConfigPath = [],
                         ic_StatePath = string_flag fs ''state-file'', ic_SecretPath = secretPath, ic_TargetOS = []\<rparr>)
                        (\<lambda>result. print env (Installed result))) s))"

definition uninstall_flags :: flag_set where
  "uninstall_flags = [(''home'', VString []), (''secret-file'', VString []), (''state-file'', VString [])]"

definition runHooksUninstall :: "'w cli_env \<Rightarrow> string list \<Rightarrow> 'w cli_command" where
  "runHooksUninstall env args s =
     (case Parse (cl_dur env) uninstall_flags args of
        Inl e \<Rightarrow> (Some (FlagFailed e), s)
      | Inr (fs, rest) \<Rightarrow>
          if rest \<noteq> [] then (Some (Message ''hooks uninstall accepts no positional arguments''), s)
          else on_host InstallFailed (Uninstall (cl_host env) (cl_lib env)
            \<lparr>ic_HomeDir = string_flag fs ''home'', ic_Executable = [], ic_HookURL = [], ic_Secret = [],
             ic_CodexConfigPath = [], ic_ClaudeConfigPath = [], ic_StatePath = string_flag fs ''state-file'',
             ic_SecretPath = string_flag fs ''secret-file'', ic_TargetOS = []\<rparr>)
            (\<lambda>result. print env (Installed result)) s)"

definition runHooks :: "'w cli_env \<Rightarrow> string list \<Rightarrow> 'w cli_command" where
  "runHooks env args s =
     (case args of
        [] \<Rightarrow> (Some (Message ''hooks requires install or uninstall''), s)
      | sub # rest \<Rightarrow>
          if sub = ''install'' then runHooksInstall env rest s
          else if sub = ''uninstall'' then runHooksUninstall env rest s
          else (Some (Message ''unknown hooks command''), s))"

section \<open>Commands of the provider tools\<close>

definition readLimited :: "string option \<Rightarrow> int \<Rightarrow> (string, string) result" where
  "readLimited reader maximum =
     (case reader of
        None \<Rightarrow> Inl ''read failed''
      | Some bytes \<Rightarrow>
          let payload = read_upto (maximum + 1) bytes
          in if int (length payload) > maximum then Inl ''input exceeds the limit'' else Inr payload)"

text \<open>The decoding of the payload as an object; \<open>null\<close> gives an empty one.\<close>

definition decode_object :: "install_lib \<Rightarrow> string \<Rightarrow> json_object option" where
  "decode_object lib payload =
     (case il_decode lib payload of Some (JObject o') \<Rightarrow> Some o' | Some JNull \<Rightarrow> Some [] | _ \<Rightarrow> None)"

definition forward_flags :: flag_set where
  "forward_flags =
     [(''provider'', VString []), (''url'', VString ''http://127.0.0.1:47632''), (''secret-file'', VString []),
      (''managed-by'', VString [])]"

definition deliver_event :: "'w cli_env \<Rightarrow> ForwardConfig \<Rightarrow> event \<Rightarrow> 'w cli_session \<Rightarrow> 'w cli_session" where
  "deliver_event env c e s =
     (case ForwardEvent (cl_encode env) (cl_host env) (il_url (cl_lib env)) (il_loopback (cl_lib env)) (cl_transport env)
             c e (ss_host s) (ss_net s) of
        (None, h, w) \<Rightarrow> s\<lparr>ss_host := h, ss_net := w\<rparr>
      | (Some x, h, w) \<Rightarrow> notify (HookSkipped x) (s\<lparr>ss_host := h, ss_net := w\<rparr>))"

definition runHookForward :: "'w cli_env \<Rightarrow> string list \<Rightarrow> 'w cli_command" where
  "runHookForward env args s =
     (case Parse (cl_dur env) forward_flags args of
        Inl e \<Rightarrow> (Some (FlagFailed e), s)
      | Inr (fs, rest) \<Rightarrow>
          if rest \<noteq> [] \<or> string_flag fs ''provider'' = [] \<or> string_flag fs ''secret-file'' = [] then
            (Some (Message ''hook forward requires --provider and --secret-file''), s)
          else case readLimited (cl_stdin env) MaxHookPayload of
            Inl reason \<Rightarrow> (None, notify (HookIgnored reason) s)
          | Inr payload \<Rightarrow>
              (case ParseEvent (cl_sha env) (cl_time env) (cl_probe env) (string_flag fs ''provider'') []
                      (decode_object (cl_lib env) payload) (cl_now env) of
                 Inl _ \<Rightarrow> (None, notify (HookIgnored ''invalid event'') s)
               | Inr e \<Rightarrow>
                   (None, deliver_event env \<lparr>fc_BaseURL = string_flag fs ''url'', fc_Secret = [],
                      fc_SecretFile = string_flag fs ''secret-file''\<rparr> e s)))"

definition statusline_flags :: flag_set where
  "statusline_flags =
     [(''url'', VString ''http://127.0.0.1:47632''), (''secret-file'', VString []), (''state-file'', VString []),
      (''managed-by'', VString [])]"

text \<open>
  The wrapper's output is written when there is any, also when the command failed; the result
  of the write is dropped.
\<close>

definition show_status :: "'w cli_env \<Rightarrow> string \<times> string option \<Rightarrow> 'w cli_session \<Rightarrow> 'w cli_session" where
  "show_status env r s =
     (let s1 = (if fst r \<noteq> [] then snd (print env (Bytes (fst r)) s) else s)
      in case snd r of None \<Rightarrow> s1 | Some reason \<Rightarrow> notify (PreviousFailed reason) s1)"

definition runHookStatusLine :: "'w cli_env \<Rightarrow> string list \<Rightarrow> 'w cli_command" where
  "runHookStatusLine env args s =
     (case Parse (cl_dur env) statusline_flags args of
        Inl e \<Rightarrow> (Some (FlagFailed e), s)
      | Inr (fs, rest) \<Rightarrow>
          if rest \<noteq> [] \<or> string_flag fs ''secret-file'' = [] \<or> string_flag fs ''state-file'' = [] then
            (Some (Message ''hook statusline requires --state-file''), s)
          else case readLimited (cl_stdin env) MaxHookPayload of
            Inl _ \<Rightarrow> (None, s)
          | Inr payload \<Rightarrow>
              (case LoadPreviousStatusLine (cl_host env) (cl_lib env) (string_flag fs ''state-file'') (ss_host s) of
                 (loaded, h) \<Rightarrow>
                   let s1 = s\<lparr>ss_host := h\<rparr>;
                       (previous, s2) = (case loaded of
                          Inl e \<Rightarrow> (None, notify (StateSkipped e) s1) | Inr p \<Rightarrow> (p, s1))
                   in case RunStatusLineWrapper (cl_run env) (cl_host env) (il_url (cl_lib env)) (il_loopback (cl_lib env))
                             (cl_transport env) \<lparr>fc_BaseURL = string_flag fs ''url'', fc_Secret = [],
                               fc_SecretFile = string_flag fs ''secret-file''\<rparr> payload previous (ss_host s2) (ss_net s2) of
                        (r, h', w) \<Rightarrow> (None, show_status env r (s2\<lparr>ss_host := h', ss_net := w\<rparr>))))"

definition runHookHelper :: "'w cli_env \<Rightarrow> string list \<Rightarrow> 'w cli_command" where
  "runHookHelper env args s =
     (case args of
        [] \<Rightarrow> (Some (Message ''hook requires forward or statusline''), s)
      | sub # rest \<Rightarrow>
          if sub = ''forward'' then runHookForward env rest s
          else if sub = ''statusline'' then runHookStatusLine env rest s
          else (Some (Message ''unknown hook helper''), s))"

section \<open>Trimming a final line feed\<close>

lemma trim_left_fixed:
  assumes "TrimSpace s = s"
  shows "trim_left s = s" and "trim_right s = s"
proof -
  have l: "suffix (trim_left s) s" unfolding trim_left_def by (rule strip_spaces_suffix)
  have "length s \<le> length (trim_left s)"
    using assms strip_spaces_suffix [of "map rev space_encodings" "rev (trim_left s)"]
    unfolding TrimSpace_def trim_right_def by (metis length_rev suffix_length_le)
  with l show t: "trim_left s = s" using suffix_length_le suffix_order.antisym
    by (metis append_self_conv2 le_antisym suffix_def suffix_length_suffix suffix_order.refl)
  with assms show "trim_right s = s" by (simp add: TrimSpace_def)
qed

lemma newline_encodings: "e \<in> set space_encodings \<Longrightarrow> CHR 0x0A \<in> set e \<Longrightarrow> e = [CHR 0x0A]"
  by (auto simp: space_encodings_def)

lemma TrimSpace_newline:
  assumes "TrimSpace s = s"
  shows "TrimSpace (s @ [CHR 0x0A]) = s"
proof (cases "s = []")
  case True
  moreover have "TrimSpace [CHR 0x0A] = []" by code_simp
  ultimately show ?thesis by simp
next
  case False
  note fixed = trim_left_fixed [OF assms]
  have "space_width space_encodings s = 0 \<or> s = []"
    using fixed(1) strip_spaces_done [of space_encodings s] by (simp add: trim_left_def)
  with False have z: "space_width space_encodings s = 0" by blast
  have "\<not> has_prefix (s @ [CHR 0x0A]) e" if e: "e \<in> set space_encodings" for e
  proof
    assume "has_prefix (s @ [CHR 0x0A]) e"
    then consider "prefix e s" | "e = s @ [CHR 0x0A]" by (auto simp: has_prefix_iff)
    then show False
    proof cases
      case 1
      then obtain x where x: "find (has_prefix s) space_encodings = Some x"
        using e by (cases "find (has_prefix s) space_encodings") (auto simp: find_None_iff has_prefix_iff)
      then have "x \<in> set space_encodings" by (auto simp: find_Some_iff)
      moreover have "x = []" using x z by (simp add: space_width_def)
      ultimately show False by (simp add: space_encodings_def)
    next
      case 2
      with newline_encodings [OF e] False show False by simp
    qed
  qed
  then have "find (has_prefix (s @ [CHR 0x0A])) space_encodings = None" by (simp add: find_None_iff)
  then have left: "trim_left (s @ [CHR 0x0A]) = s @ [CHR 0x0A]"
    by (simp add: trim_left_def strip_spaces_fix space_width_def)
  have "find (has_prefix (CHR 0x0A # rev s)) (map rev space_encodings) = Some [CHR 0x0A]"
    by (simp add: space_encodings_def)
  then have "strip_spaces (map rev space_encodings) (CHR 0x0A # rev s) = strip_spaces (map rev space_encodings) (rev s)"
    by (subst strip_spaces.simps) (simp add: space_width_def)
  then have "trim_right (s @ [CHR 0x0A]) = trim_right s" by (simp add: trim_right_def)
  with left fixed(2) show ?thesis by (simp add: TrimSpace_def)
qed

lemma b64_char_graphic: "n < 64 \<Longrightarrow> graphic (b64_char n)"
  by (auto simp: b64_char_def graphic_def byte_char_of) (auto simp: byte_def)

lemma b64_graphic: "c \<in> set (b64_encode s) \<Longrightarrow> graphic c"
proof (induction s rule: b64_encode.induct)
  case (2 a)
  have "byte a < 256" by (simp add: byte_def)
  with 2 show ?case by (auto intro!: b64_char_graphic)
next
  case (3 a b)
  have "byte a < 256" "byte b < 256" by (simp_all add: byte_def)
  with 3 show ?case by (auto intro!: b64_char_graphic)
next
  case (4 a b c s)
  have "byte a < 256" "byte b < 256" "byte c < 256" by (simp_all add: byte_def)
  with 4 show ?case by (auto intro!: b64_char_graphic)
qed simp

section \<open>The secret: lemmas\<close>

lemma os_WriteFile_ok:
  assumes "os_WriteFile env path bytes mode h = (Inr (), h')"
  shows "\<exists>m. h_files h' (path_key path) = Some (bytes, m)"
  using assms
  by (auto simp: os_WriteFile_def and_then_def syscall_def temp_Write_def append_temp_def Let_def
      split: if_splits sum.splits prod.splits)

lemma create_secret_ok:
  assumes "create_secret env random path h = (Inr secret, h')"
  shows "\<exists>m. h_files h' (path_key path) = Some (secret @ [CHR 0x0A], m)" and "TrimSpace secret = secret"
    and "random = Some bytes \<Longrightarrow> bytes \<noteq> [] \<Longrightarrow> secret \<noteq> []"
proof -
  obtain bs where bs: "random = Some bs" "secret = b64_encode bs" and
    "\<exists>h1. os_WriteFile env path (secret @ [CHR 0x0A]) 384 h1 = (Inr (), h')"
    using assms by (auto simp: create_secret_def randomString_def and_then_def map_error_def split: option.splits prod.splits sum.splits)
  then show "\<exists>m. h_files h' (path_key path) = Some (secret @ [CHR 0x0A], m)" using os_WriteFile_ok by blast
  show "TrimSpace secret = secret" using bs b64_graphic TrimSpace_graphic by blast
  show "random = Some bytes \<Longrightarrow> bytes \<noteq> [] \<Longrightarrow> secret \<noteq> []"
    using bs length_b64 [of bs] by (cases bs) auto
qed

lemma loadOrCreateSecret_ok:
  assumes "loadOrCreateSecret env (Some bytes) path h = (Inr secret, h')" and "bytes \<noteq> []"
  shows "\<exists>payload m. h_files h' (path_key path) = Some (payload, m) \<and> TrimSpace payload = secret \<and> secret \<noteq> []"
proof -
  obtain r h1 where rd: "os_ReadFile env path h = (r, h1)" by force
  show ?thesis
  proof (cases "\<exists>payload. r = Inr payload \<and> TrimSpace payload \<noteq> []")
    case True
    then obtain payload where p: "r = Inr payload" "TrimSpace payload \<noteq> []" by blast
    with assms rd have "secret = TrimSpace payload" "h' = h1" by (auto simp: loadOrCreateSecret_def)
    moreover have "\<exists>m. h_files h1 (path_key path) = Some (payload, m)"
      using rd p(1) by (auto simp: os_ReadFile_def and_then_def syscall_def split: if_splits option.splits)
    ultimately show ?thesis using p by auto
  next
    case False
    with assms rd have "create_secret env (Some bytes) path h1 = (Inr secret, h')"
      by (auto simp: loadOrCreateSecret_def split: sum.splits host_error.splits if_splits)
    from create_secret_ok(1,2) [OF this] create_secret_ok(3) [OF this, of bytes] assms(2) TrimSpace_newline show ?thesis by blast
  qed
qed

section \<open>The installed commands\<close>

definition forward_values :: "InstallConfig \<Rightarrow> string \<Rightarrow> (string \<times> string) list" where
  "forward_values c provider = [(''provider'', provider), (''url'', ic_HookURL c), (''secret-file'', ic_SecretPath c),
     (''managed-by'', ManagedMarker)]"

definition statusline_values :: "InstallConfig \<Rightarrow> (string \<times> string) list" where
  "statusline_values c = [(''url'', ic_HookURL c), (''secret-file'', ic_SecretPath c), (''state-file'', ic_StatePath c),
     (''managed-by'', ManagedMarker)]"

lemma hook_command_words:
  assumes "ic_TargetOS c \<noteq> ''windows''"
  shows "sh_words Bare None (hook_command c provider) =
      Some (ic_Executable c # ''hook'' # ''forward'' # long_flags (forward_values c provider))"
    and "sh_words Bare None (status_command c) =
      Some (ic_Executable c # ''hook'' # ''statusline'' # long_flags (statusline_values c))"
  unfolding hook_command_def status_command_def managedCommand_def sh_words_join [OF assms]
  by (simp_all add: long_flags_def forward_values_def statusline_values_def)

lemma parse_forward:
  obtains fs where "Parse dur forward_flags (long_flags (forward_values c provider)) = ok (fs, [])"
    and "string_flag fs ''provider'' = provider" and "string_flag fs ''url'' = ic_HookURL c"
    and "string_flag fs ''secret-file'' = ic_SecretPath c"
proof -
  have "\<forall>(n, v) \<in> set (forward_values c provider). plain_name n \<and> is_string_flag forward_flags n"
    by (simp add: forward_values_def plain_name_def is_string_flag_def forward_flags_def gomap_get_def)
  from Parse_long_flags [OF this, of dur] that show ?thesis
    by (simp add: forward_values_def string_flag_def gm.get_put)
qed

lemma parse_statusline:
  obtains fs where "Parse dur statusline_flags (long_flags (statusline_values c)) = ok (fs, [])"
    and "string_flag fs ''url'' = ic_HookURL c" and "string_flag fs ''secret-file'' = ic_SecretPath c"
    and "string_flag fs ''state-file'' = ic_StatePath c"
proof -
  have "\<forall>(n, v) \<in> set (statusline_values c). plain_name n \<and> is_string_flag statusline_flags n"
    by (simp add: statusline_values_def plain_name_def is_string_flag_def statusline_flags_def gomap_get_def)
  from Parse_long_flags [OF this, of dur] that show ?thesis
    by (simp add: statusline_values_def string_flag_def gm.get_put)
qed

lemma forward_files:
  "forward env parse_url ip transport c path payload h w = (r, h', w') \<Longrightarrow> h_files h' = h_files h"
proof -
  have "reads_only (resolvedSecret env c)"
    unfolding reads_only_def resolvedSecret_def
    by (auto split: prod.splits sum.splits dest: reads_onlyD [OF reads_only_read])
  then show "forward env parse_url ip transport c path payload h w = (r, h', w') \<Longrightarrow> h_files h' = h_files h"
    by (auto simp: forward_def dest: reads_onlyD split: prod.splits sum.splits option.splits if_splits)
qed

lemma deliver_event_frame:
  "h_files (ss_host (deliver_event env c e s)) = h_files (ss_host s)" "ss_out (deliver_event env c e s) = ss_out s"
proof -
  obtain r h w where f: "ForwardEvent (cl_encode env) (cl_host env) (il_url (cl_lib env)) (il_loopback (cl_lib env))
      (cl_transport env) c e (ss_host s) (ss_net s) = (r, h, w)" by (metis prod_cases3)
  then have "h_files h = h_files (ss_host s)"
    by (auto simp: ForwardEvent_def dest: forward_files split: if_splits option.splits)
  with f show "h_files (ss_host (deliver_event env c e s)) = h_files (ss_host s)" "ss_out (deliver_event env c e s) = ss_out s"
    by (auto simp: deliver_event_def notify_def split: option.split)
qed

lemma LoadPreviousStatusLine_files:
  "LoadPreviousStatusLine env lib p h = (r, h') \<Longrightarrow> h_files h' = h_files h"
proof -
  have "reads_only (LoadPreviousStatusLine env lib p)"
    unfolding LoadPreviousStatusLine_def
    by (intro reads_only_and_then reads_only_state) (simp add: reads_only_def split: option.split)
  then show "LoadPreviousStatusLine env lib p h = (r, h') \<Longrightarrow> h_files h' = h_files h" by (rule reads_onlyD)
qed

lemma wrapper_files:
  "RunStatusLineWrapper run env parse_url ip transport c input previous h w = (r, h', w') \<Longrightarrow>
     h_files h' = h_files h \<and> (r = ([], None) \<or> (\<exists>program args. r = run program args input))"
  using forward_files
  by (fastforce simp: RunStatusLineWrapper_def ForwardStatusLine_def split: prod.splits option.splits if_splits)

lemma readLimited_ok: "readLimited reader maximum = Inr payload \<longleftrightarrow> reader = Some payload \<and> int (length payload) \<le> maximum"
  by (auto simp: readLimited_def Let_def min_def split: option.splits if_splits)

lemma runHookForward_frame:
  assumes "ic_SecretPath c \<noteq> []" and "provider \<noteq> []"
  shows "\<exists>s'. runHookForward env (long_flags (forward_values c provider)) s = (None, s') \<and> ss_out s' = ss_out s \<and>
    h_files (ss_host s') = h_files (ss_host s)"
proof -
  obtain fs where fs: "Parse (cl_dur env) forward_flags (long_flags (forward_values c provider)) = ok (fs, [])"
    and v: "string_flag fs ''provider'' = provider" "string_flag fs ''secret-file'' = ic_SecretPath c"
    using parse_forward by metis
  with assms show ?thesis
    by (simp add: runHookForward_def notify_def deliver_event_frame split: sum.split)
qed

lemma show_status_frame:
  "ss_host (show_status env r s) = ss_host s"
  "ss_out (show_status env r s) = (if fst r \<noteq> [] \<and> cl_prints env then ss_out s @ [Bytes (fst r)] else ss_out s)"
  by (auto simp: show_status_def notify_def print_def Let_def split: option.split)

lemma runHookStatusLine_frame:
  assumes "ic_SecretPath c \<noteq> []" and "ic_StatePath c \<noteq> []"
  shows "\<exists>s'. runHookStatusLine env (long_flags (statusline_values c)) s = (None, s') \<and>
    h_files (ss_host s') = h_files (ss_host s) \<and>
    (ss_out s' = ss_out s \<or> (\<exists>input program args. cl_stdin env = Some input \<and>
       ss_out s' = ss_out s @ [Bytes (fst (cl_run env program args input))]))"
proof -
  obtain fs where fs: "Parse (cl_dur env) statusline_flags (long_flags (statusline_values c)) = ok (fs, [])"
    and v: "string_flag fs ''secret-file'' = ic_SecretPath c" "string_flag fs ''state-file'' = ic_StatePath c"
    using parse_statusline by metis
  show ?thesis
  proof (cases "readLimited (cl_stdin env) MaxHookPayload")
    case (Inl e)
    with fs v assms show ?thesis by (simp add: runHookStatusLine_def)
  next
    case (Inr payload)
    then have stdin: "cl_stdin env = Some payload" by (simp add: readLimited_ok)
    obtain loaded h where l: "LoadPreviousStatusLine (cl_host env) (cl_lib env) (ic_StatePath c) (ss_host s) = (loaded, h)"
      by force
    define s2 where "s2 = snd (case loaded of Inl e \<Rightarrow> (None :: PreviousStatusLine option, notify (StateSkipped e) (s\<lparr>ss_host := h\<rparr>))
      | Inr p \<Rightarrow> (p, s\<lparr>ss_host := h\<rparr>))"
    define previous where "previous = (case loaded of Inl e \<Rightarrow> None | Inr p \<Rightarrow> p)"
    have s2: "ss_host s2 = h" "ss_out s2 = ss_out s" "ss_net s2 = ss_net s"
      by (auto simp: s2_def notify_def split: sum.split)
    obtain r h' w where r: "RunStatusLineWrapper (cl_run env) (cl_host env) (il_url (cl_lib env)) (il_loopback (cl_lib env))
        (cl_transport env) \<lparr>fc_BaseURL = string_flag fs ''url'', fc_Secret = [], fc_SecretFile = ic_SecretPath c\<rparr>
        payload previous h (ss_net s) = (r, h', w)" by (metis prod_cases3)
    have "runHookStatusLine env (long_flags (statusline_values c)) s =
        (None, show_status env r (s2\<lparr>ss_host := h', ss_net := w\<rparr>))"
      using fs v assms Inr l r s2 by (cases loaded) (auto simp: runHookStatusLine_def s2_def previous_def notify_def)
    with wrapper_files [OF r] LoadPreviousStatusLine_files [OF l] s2 stdin show ?thesis
      by (auto simp: show_status_frame)
  qed
qed

section \<open>The secret an installation writes\<close>

lemma applyFileTransaction_distinct:
  "applyFileTransaction env ms h = (Inr u, h') \<Longrightarrow> distinct (map (path_key \<circ> fm_path) ms)"
  using take_snapshots_spec distinct_clean_keys
  by (fastforce simp: applyFileTransaction_def and_then_def split: prod.splits sum.splits)

lemma install_files_secret:
  assumes "install_files env lib c st codex mc claude ml h = (Inr r, h')" and "\<not> is_temp (path_key (ic_SecretPath c))"
  shows "h_files h' (path_key (ic_SecretPath c)) = Some (ic_Secret c @ [CHR 0x0A], 384)"
proof -
  from assms(1) obtain ms h2 where t: "applyFileTransaction env
      ([\<lparr>fm_path = ic_StatePath c, fm_payload = il_enc_state lib st @ [CHR 0x0A], fm_mode = 384\<rparr>,
        \<lparr>fm_path = ic_SecretPath c, fm_payload = ic_Secret c @ [CHR 0x0A], fm_mode = 384\<rparr>] @ ms) h2 = (Inr (), h')"
    by (auto simp: install_files_def and_then_def map_error_def split: prod.splits sum.splits)
  from applyFileTransaction_distinct [OF this] file_transaction_effect [OF this] assms(2) show ?thesis
    by (auto simp: mutated_Cons effective_mode_def)
qed

lemma Install_secret:
  assumes "Install env lib cfg h = (Inr r, h')" and "withDefaults env lib cfg = Inr c"
    and "\<not> is_temp (path_key (ic_SecretPath c))"
  shows "h_files h' (path_key (ic_SecretPath c)) = Some (ic_Secret c @ [CHR 0x0A], 384)"
proof -
  from assms(1,2) obtain st codex mc claude ml h1 where
    "install_files env lib c st codex mc claude ml h1 = (Inr r, h')"
    by (fastforce simp: Install_def and_then_def map_error_def split: prod.splits sum.splits option.splits)
  with install_files_secret assms(3) show ?thesis by blast
qed

section \<open>Properties\<close>

lemma installed_hooks_quiet:
  assumes "ic_TargetOS c \<noteq> ''windows''" and "ic_SecretPath c \<noteq> []" and "ic_StatePath c \<noteq> []" and "provider \<noteq> []"
  shows "\<exists>fargs sargs s1 s2.
    sh_words Bare None (hook_command c provider) = Some (ic_Executable c # ''hook'' # fargs) \<and>
    sh_words Bare None (status_command c) = Some (ic_Executable c # ''hook'' # sargs) \<and>
    runHookHelper env fargs s = (None, s1) \<and> h_files (ss_host s1) = h_files (ss_host s) \<and> ss_out s1 = ss_out s \<and>
    runHookHelper env sargs s = (None, s2) \<and> h_files (ss_host s2) = h_files (ss_host s) \<and>
    (ss_out s2 = ss_out s \<or> (\<exists>input program args. cl_stdin env = Some input \<and>
       ss_out s2 = ss_out s @ [Bytes (fst (cl_run env program args input))]))"
  using hook_command_words(1) [OF assms(1), of provider] hook_command_words(2) [OF assms(1)] runHookForward_frame [OF assms(2,4), of env s]
    runHookStatusLine_frame [OF assms(2,3), of env s]
  by (auto simp: runHookHelper_def)

text \<open>
  The installed hooks never disturb the provider. The commands an installation writes are split
  by a POSIX shell into the executable and the arguments of \<open>hook forward\<close> and \<open>hook statusline\<close>;
  run with any standard input, on any host, with any pattern of failing calls and any network,
  both end without an error and change no file. The event hook prints nothing on standard
  output; the status line prints nothing or exactly what one run of a program of the user on
  the same input printed.
\<close>

theorem installed_hooks_never_fail:
  assumes "ic_TargetOS c \<noteq> ''windows''" and "ic_SecretPath c \<noteq> []" and "ic_StatePath c \<noteq> []" and "provider \<noteq> []"
  shows "\<exists>fargs sargs s1 s2.
    sh_words Bare None (hook_command c provider) = Some (ic_Executable c # ''hook'' # fargs) \<and>
    sh_words Bare None (status_command c) = Some (ic_Executable c # ''hook'' # sargs) \<and>
    runHookHelper env fargs s = (None, s1) \<and> h_files (ss_host s1) = h_files (ss_host s) \<and> ss_out s1 = ss_out s \<and>
    runHookHelper env sargs s = (None, s2) \<and> h_files (ss_host s2) = h_files (ss_host s) \<and>
    (ss_out s2 = ss_out s \<or> (\<exists>input program args. cl_stdin env = Some input \<and>
       ss_out s2 = ss_out s @ [Bytes (fst (cl_run env program args input))]))"
  using assms by (rule installed_hooks_quiet)

definition demo_lines_lib :: install_lib where
  "demo_lines_lib = (demo_install_lib (\<lambda>_. Some (JObject demo_raw_event)))\<lparr>il_url := loopback_url,
     il_loopback := (\<lambda>host. host = ''127.0.0.1'')\<rparr>"

definition demo_cli :: "'w transport \<Rightarrow> 'w cli_env" where
  "demo_cli net = \<lparr>cl_host = demo_host_env (\<lambda>_. True), cl_lib = demo_lines_lib, cl_dur = (\<lambda>_. None),
     cl_executable = ''/opt/qm'', cl_cwd = Some ''/h'', cl_random = Some ''abc'', cl_stdin = Some ''{}'', cl_now = 1000,
     cl_sha = (\<lambda>_. replicate 32 (CHR ''a'')), cl_time = (\<lambda>_. None), cl_probe = False, cl_encode = (\<lambda>_. Some ''{}''),
     cl_transport = net, cl_run = (\<lambda>_ _ _. (''user line'', None)), cl_prints = True\<rparr>"

definition demo_hooked :: InstallConfig where
  "demo_hooked = \<lparr>ic_HomeDir = ''/h'', ic_Executable = ''/opt/qm'', ic_HookURL = ''http://127.0.0.1:47632'', ic_Secret = ''k1'',
     ic_CodexConfigPath = ''/h/c'', ic_ClaudeConfigPath = ''/h/d'', ic_StatePath = ''/h/state'',
     ic_SecretPath = ''/h/hook-secret'', ic_TargetOS = ''linux''\<rparr>"

definition demo_cli_session :: "'w \<Rightarrow> 'w cli_session" where
  "demo_cli_session w = \<lparr>ss_host = secret_host, ss_net = w, ss_out = [], ss_err = []\<rparr>"

theorem installed_hooks_never_fail_witness:
  "\<exists>fargs s1. sh_words Bare None (hook_command demo_hooked ''codex'') = Some (''/opt/qm'' # ''hook'' # fargs) \<and>
     runHookHelper (demo_cli (\<lambda>_ _ w. (None, w))) fargs (demo_cli_session ()) = (None, s1) \<and> ss_out s1 = []"
  using installed_hooks_never_fail [of demo_hooked "''codex''" "demo_cli (\<lambda>_ _ w. (None, w))" "demo_cli_session ()"]
  by (auto simp: demo_hooked_def demo_cli_session_def)

text \<open>
  C12: From the installation to the ledger. Suppose an installation succeeded, its configuration
  completed to \<open>c\<close>, and nothing has changed the secret file since. When the provider tool runs the
  installed command through a POSIX shell with an event on standard input, every call works and
  the agent's endpoint was set up with the same secret, then the event is applied to the
  agent's ledger, and the command ends without an error and without a notice.
\<close>

theorem installed_hook_reaches_ledger:
  assumes "Install ienv lib icfg h0 = (ok result, h1)" and "withDefaults ienv lib icfg = ok c"
    and "\<not> is_temp (path_key (ic_SecretPath c))" and "ic_SecretPath c \<noteq> []" and "TrimSpace (ic_Secret c) = ic_Secret c"
    and "ic_TargetOS c \<noteq> ''windows''"
    and "h_files (ss_host s) (path_key (ic_SecretPath c)) = h_files h1 (path_key (ic_SecretPath c))"
    and "all_calls_work (cl_host env)"
    and "cl_stdin env = Some payload" and "int (length payload) \<le> MaxHookPayload"
    and "ParseEvent (cl_sha env) (cl_time env) False provider [] (decode_object (cl_lib env) payload) (cl_now env) = ok e"
    and "cl_probe env = False" and "\<not> ev_Probe e"
    and "cl_encode env e = Some body" and "decode body = Some e" and "int (length body) \<le> MaxHookPayload"
    and "validateLoopbackURL (il_url (cl_lib env)) (il_loopback (cl_lib env)) base = None"
    and "il_url (cl_lib env) (base @ ''/v1/events'') \<noteq> None"
    and "base = forward_base \<lparr>fc_BaseURL = ic_HookURL c, fc_Secret = [], fc_SecretFile = ic_SecretPath c\<rparr>"
    and "\<And>x. length (cl_sha env x) = 32"
    and "RunHookServer listen split_host_port (il_loopback (cl_lib env)) (cl_sha env) clib decode decodeJSON
      \<lparr>hs_Addr = addr, hs_Secret = ic_Secret c, hs_Ledger = True, hs_MaxPayload = 0\<rparr> = ok handler"
    and "cl_transport env = local_agent handler now base"
  shows "\<exists>args s'. sh_words Bare None (hook_command c provider) = Some (ic_Executable c # ''hook'' # args) \<and>
    runHookHelper env args s = (None, s') \<and> ss_err s' = ss_err s \<and>
    ss_net s' = (ss_net s)\<lparr>ag_ledger := Apply now e (ag_ledger (ss_net s))\<rparr>"
proof -
  let ?c = "\<lparr>fc_BaseURL = ic_HookURL c, fc_Secret = [], fc_SecretFile = ic_SecretPath c\<rparr>"
  let ?a = "ss_net s"
  have p: "provider \<noteq> []"
    using assms(11) by (auto simp: ParseEvent_def ProviderCodex_def ProviderClaude_def split: if_splits)
  obtain fs where fs: "Parse (cl_dur env) forward_flags (long_flags (forward_values c provider)) = ok (fs, [])"
    "string_flag fs ''provider'' = provider" "string_flag fs ''url'' = ic_HookURL c"
    "string_flag fs ''secret-file'' = ic_SecretPath c" by (rule parse_forward)
  have "h_files (ss_host s) (path_key (ic_SecretPath c)) = Some (ic_Secret c @ [CHR 0x0A], 384)"
    using Install_secret [OF assms(1-3)] assms(7) by simp
  then have rd: "os_ReadFile (cl_host env) (fc_SecretFile ?c) (ss_host s) = (Inr (ic_Secret c @ [CHR 0x0A]), done_call (ss_host s))"
    using assms(8) by (simp add: os_ReadFile_calm)
  have "ForwardEvent (cl_encode env) (cl_host env) (il_url (cl_lib env)) (il_loopback (cl_lib env))
      (local_agent handler now (forward_base ?c)) ?c e (ss_host s) ?a =
      (None, done_call (ss_host s), ?a\<lparr>ag_ledger := Apply now e (ag_ledger ?a)\<rparr>)"
    by (rule forwarded_event_delivered [where cfg = "\<lparr>hs_Addr = addr, hs_Secret = ic_Secret c, hs_Ledger = True, hs_MaxPayload = 0\<rparr>"
          and c = ?c and env = "cl_host env" and encode = "cl_encode env" and parse_url = "il_url (cl_lib env)"
          and ip = "il_loopback (cl_lib env)" and provider = provider and name = "[]"
          and raw = "decode_object (cl_lib env) payload" and received = "cl_now env" and e = e and payload = body
          and decode = decode and sha = "cl_sha env" and parse_time = "cl_time env" and listen = listen
          and split_host_port = split_host_port and decodeJSON = decodeJSON, OF assms(11) assms(13,14,15) _ _ _ rd _ _ _ assms(20,21)])
      (use assms(4,5,16-19) TrimSpace_newline in auto)
  then have "deliver_event env ?c e s = s\<lparr>ss_host := done_call (ss_host s),
      ss_net := ?a\<lparr>ag_ledger := Apply now e (ag_ledger ?a)\<rparr>\<rparr>"
    using assms(19,22) by (simp add: deliver_event_def)
  moreover have "readLimited (cl_stdin env) MaxHookPayload = Inr payload" using assms(9,10) by (simp add: readLimited_ok)
  ultimately have "runHookForward env (long_flags (forward_values c provider)) s =
      (None, s\<lparr>ss_host := done_call (ss_host s), ss_net := ?a\<lparr>ag_ledger := Apply now e (ag_ledger ?a)\<rparr>\<rparr>)"
    using fs p assms(4,11,12) by (simp add: runHookForward_def)
  with hook_command_words(1) [OF assms(6), of provider] show ?thesis by (simp add: runHookHelper_def)
qed

definition demo_agent_handler :: hook_handler where
  "demo_agent_handler = hook_routes (\<lambda>_. replicate 32 (CHR ''a'')) demo_lib (\<lambda>_. Some forwarded_demo) (\<lambda>_. None)
     (demo_endpoint\<lparr>hs_MaxPayload := MaxHookPayload\<rparr>)"

definition demo_hook_env :: "agent cli_env" where
  "demo_hook_env = demo_cli (local_agent demo_agent_handler 1000 ''http://127.0.0.1:47632'')"

theorem installed_hook_reaches_ledger_witness:
  "\<exists>r h args s'. Install (demo_host_env (\<lambda>_. True)) (demo_install_lib demo_documents) demo_install_config demo_install_host = (ok r, h) \<and>
     sh_words Bare None (hook_command demo_defaults ''claude'') = Some (''/bin/qm'' # ''hook'' # args) \<and>
     runHookHelper demo_hook_env args ((demo_cli_session demo_agent)\<lparr>ss_host := h\<rparr>) = (None, s') \<and>
     ss_net s' = demo_agent\<lparr>ag_ledger := Apply 1000 forwarded_demo (ag_ledger demo_agent)\<rparr>"
proof -
  obtain r h where inst: "Install (demo_host_env (\<lambda>_. True)) (demo_install_lib demo_documents) demo_install_config demo_install_host = (Inr r, h)"
    by (rule Install_calm [OF demo_install_ready(1-3) demo_install_paths demo_install_ready(4-8)])
  have parsed: "ParseEvent (cl_sha demo_hook_env) (cl_time demo_hook_env) False ''claude'' []
      (decode_object (cl_lib demo_hook_env) ''{}'') (cl_now demo_hook_env) = ok forwarded_demo" by code_simp
  have base: "forward_base \<lparr>fc_BaseURL = ic_HookURL demo_defaults, fc_Secret = [], fc_SecretFile = ic_SecretPath demo_defaults\<rparr> =
      ''http://127.0.0.1:47632''" by code_simp
  have paths: "\<not> is_temp (path_key (ic_SecretPath demo_defaults))" "TrimSpace (ic_Secret demo_defaults) = ic_Secret demo_defaults"
    "validateLoopbackURL (il_url (cl_lib demo_hook_env)) (il_loopback (cl_lib demo_hook_env)) ''http://127.0.0.1:47632'' = None"
    by code_simp+
  have endpoint: "RunHookServer Some (\<lambda>_. Some ''127.0.0.1'') (il_loopback (cl_lib demo_hook_env)) (cl_sha demo_hook_env) demo_lib
      (\<lambda>_. Some forwarded_demo) (\<lambda>_. None)
      \<lparr>hs_Addr = [], hs_Secret = ic_Secret demo_defaults, hs_Ledger = True, hs_MaxPayload = 0\<rparr> = ok demo_agent_handler"
    by (simp add: RunHookServer_def ServeHookServer_def isLoopbackAddress_def NewHookHandler_def demo_agent_handler_def
        demo_endpoint_def demo_defaults_def demo_hook_env_def demo_cli_def demo_lines_lib_def Let_def)
  from installed_hook_reaches_ledger [where s = "(demo_cli_session demo_agent)\<lparr>ss_host := h\<rparr>" and now = 1000
      and decode = "\<lambda>_. Some forwarded_demo" and body = "''{}''" and env = demo_hook_env and base = "''http://127.0.0.1:47632''",
      OF inst demo_install_ready(3) paths(1) _ paths(2) _ _ _ _ _ parsed _ _ _ _ _ paths(3) _ base [symmetric] _ endpoint]
  show ?thesis using inst
    by (auto simp: demo_defaults_def demo_hook_env_def demo_cli_def demo_lines_lib_def loopback_url_def demo_install_ready(1)
        MaxHookPayload_def forwarded_demo_def demo_cli_session_def)
qed

text \<open>
  The hook secret is created once and stays. When \<open>loadOrCreateSecret\<close> returned a secret and
  the file has not changed since, it returns the same secret again, whatever the random source
  gives now, and a hook that reads the file presents exactly this secret.
\<close>

theorem loaded_secret_is_stable:
  assumes "loadOrCreateSecret env (Some bytes) path h = (ok secret, h1)" and "bytes \<noteq> []" and "path \<noteq> []"
    and "h_files h2 (path_key path) = h_files h1 (path_key path)" and "all_calls_work env2"
  shows "fst (loadOrCreateSecret env2 random path h2) = ok secret \<and>
    fst (resolvedSecret env2 \<lparr>fc_BaseURL = url, fc_Secret = [], fc_SecretFile = path\<rparr> h2) = ok secret"
proof -
  obtain payload m where "h_files h2 (path_key path) = Some (payload, m)" "TrimSpace payload = secret" "secret \<noteq> []"
    using loadOrCreateSecret_ok [OF assms(1,2)] assms(4) by auto
  moreover from this have "os_ReadFile env2 path h2 = (Inr payload, done_call h2)"
    using assms(5) by (simp add: os_ReadFile_calm)
  ultimately show ?thesis using assms(3) by (simp add: loadOrCreateSecret_def resolvedSecret_def)
qed

theorem loaded_secret_is_stable_witness:
  "\<exists>h1. loadOrCreateSecret (demo_host_env (\<lambda>_. True)) (Some ''abc'') ''/h/s'' secret_host = (ok ''YWJj'', h1) \<and>
     fst (loadOrCreateSecret (demo_host_env (\<lambda>_. True)) (Some ''xyz'') ''/h/s'' h1) = ok ''YWJj''"
proof -
  have "fst (loadOrCreateSecret (demo_host_env (\<lambda>_. True)) (Some ''abc'') ''/h/s'' secret_host) = ok ''YWJj''" by code_simp
  then obtain h1 where "loadOrCreateSecret (demo_host_env (\<lambda>_. True)) (Some ''abc'') ''/h/s'' secret_host = (ok ''YWJj'', h1)"
    by (metis prod.collapse)
  with loaded_secret_is_stable [OF this, of h1 "demo_host_env (\<lambda>_. True)" "Some ''xyz''"] demo_install_ready(1) show ?thesis by auto
qed

end
