(* ===== verification/Store_Commands.thy ===== *)
theory Store_Commands
  imports Hook_Commands
begin

text \<open>
  The commands of \<open>cmd/quota-monitor/main.go\<close> that work on the database: \<open>token create\<close>, \<open>list\<close>
  and \<open>revoke\<close>, and \<open>ensureDisplayToken\<close>, which standalone mode uses to keep the display token
  file and the database in step.

  The session is the host's files, the databases on disk and what was printed. The environment
  gives the process variables, the fault oracles of the statements that open the database
  (\<open>se_open\<close>) and of the operation itself (\<open>se_io\<close>), the clock and the random bytes.
\<close>

section \<open>Environment and session\<close>

record store_env =
  se_host :: host_env
  se_getenv :: "string \<Rightarrow> string"
  se_expand :: "string \<Rightarrow> string"
  se_dur :: "string \<Rightarrow> duration option"
  se_cwd :: "string option"
  se_open :: io
  se_times :: "nat \<Rightarrow> time"
  se_io :: io
  se_now :: time
  se_sha :: "string \<Rightarrow> string"
  se_secret_bytes :: "string option"
  se_id_bytes :: "string option"
  se_prints :: bool

datatype store_output = TokenJSON token_record string | TokenList "token_record list" | Text string

record store_session =
  sx_host :: host
  sx_disk :: disk
  sx_out :: "store_output list"

datatype command_error =
    CommandFlags flag_error | CommandMessage string | DirectoryFailed | OpenError open_error
  | TokenError store_error | WriteFailedError | HomeMissing

definition envOr :: "(string \<Rightarrow> string) \<Rightarrow> string \<Rightarrow> string \<Rightarrow> string" where
  "envOr getenv name fallback =
     (let v = TrimSpace (getenv name) in if v \<noteq> [] then v else fallback)"

definition tokenDBFlag :: "store_env \<Rightarrow> string \<times> flag_value" where
  "tokenDBFlag env = (''db'', VString (envOr (se_getenv env) ''QUOTA_MONITOR_DB'' ''data/monitor.db''))"

definition openTokenStore :: "store_env \<Rightarrow> string \<Rightarrow> store_session \<Rightarrow> (command_error, string) result \<times> store_session" where
  "openTokenStore env path s =
     (let (made, h) = (if path \<noteq> '':memory:'' \<and> \<not> has_prefix path ''file:'' then syscall (se_host env) (sx_host s)
                       else (Inr (), sx_host s));
          s1 = s\<lparr>sx_host := h\<rparr>
      in case made of
           Inl _ \<Rightarrow> (Inl DirectoryFailed, s1)
         | Inr _ \<Rightarrow>
             (case Open (se_open env) (se_times env) (se_cwd env) path (sx_disk s1) of
                (Inl e, d) \<Rightarrow> (Inl (OpenError e), s1\<lparr>sx_disk := d\<rparr>)
              | (Inr dsn, d) \<Rightarrow> (Inr dsn, s1\<lparr>sx_disk := d\<rparr>)))"

text \<open>The token table of an opened file, and an operation on it.\<close>

definition tokens_at :: "disk \<Rightarrow> string \<Rightarrow> token_row list" where
  "tokens_at d dsn = (case df_data (d dsn) of None \<Rightarrow> [] | Some db \<Rightarrow> tokens db)"

definition put_tokens :: "string \<Rightarrow> token_row list \<Rightarrow> disk \<Rightarrow> disk" where
  "put_tokens dsn ts d = d(dsn := (d dsn)\<lparr>df_data := map_option (\<lambda>db. db\<lparr>tokens := ts\<rparr>) (df_data (d dsn))\<rparr>)"

definition print_store :: "store_env \<Rightarrow> store_output \<Rightarrow> store_session \<Rightarrow> command_error option \<times> store_session" where
  "print_store env out s =
     (if se_prints env then (None, s\<lparr>sx_out := sx_out s @ [out]\<rparr>) else (Some WriteFailedError, s))"

section \<open>Token commands\<close>

definition token_text :: "token_record \<Rightarrow> string \<Rightarrow> string" where
  "token_text created raw =
     ''Token ID: '' @ tok_ID created @ [CHR 0x0A] @ ''Scope: '' @ tok_Scope created @ [CHR 0x0A] @
     (if tok_AgentID created \<noteq> [] then ''Agent ID: '' @ tok_AgentID created @ [CHR 0x0A] else []) @
     ''Bearer token (shown once): '' @ raw @ [CHR 0x0A]"

definition runTokenCreate :: "store_env \<Rightarrow> string list \<Rightarrow> store_session \<Rightarrow> command_error option \<times> store_session" where
  "runTokenCreate env args s =
     (case Parse (se_dur env) [tokenDBFlag env, (''scope'', VString []), (''agent-id'', VString []), (''label'', VString []),
             (''json'', VBool False)] args of
        Inl e \<Rightarrow> (Some (CommandFlags e), s)
      | Inr (fs, rest) \<Rightarrow>
          if rest \<noteq> [] \<or> string_flag fs ''scope'' = [] then
            (Some (CommandMessage ''token create requires --scope and no positional arguments''), s)
          else case openTokenStore env (string_flag fs ''db'') s of
            (Inl e, s1) \<Rightarrow> (Some e, s1)
          | (Inr dsn, s1) \<Rightarrow>
              (case CreateToken (se_sha env) (se_secret_bytes env) (se_id_bytes env) (se_io env) (se_now env)
                      \<lparr>rq_Scope = string_flag fs ''scope'', rq_AgentID = string_flag fs ''agent-id'',
                       rq_Label = string_flag fs ''label''\<rparr> (tokens_at (sx_disk s1) dsn) of
                 (Inl e, ts) \<Rightarrow> (Some (TokenError e), s1\<lparr>sx_disk := put_tokens dsn ts (sx_disk s1)\<rparr>)
               | (Inr (created, raw), ts) \<Rightarrow>
                   let s2 = s1\<lparr>sx_disk := put_tokens dsn ts (sx_disk s1)\<rparr>
                   in if bool_flag fs ''json'' then print_store env (TokenJSON created raw) s2
                      else (None, snd (print_store env (Text (token_text created raw)) s2))))"

definition runTokenList :: "store_env \<Rightarrow> string list \<Rightarrow> store_session \<Rightarrow> command_error option \<times> store_session" where
  "runTokenList env args s =
     (case Parse (se_dur env) [tokenDBFlag env] args of
        Inl e \<Rightarrow> (Some (CommandFlags e), s)
      | Inr (fs, rest) \<Rightarrow>
          if rest \<noteq> [] then (Some (CommandMessage ''token list accepts no positional arguments''), s)
          else case openTokenStore env (string_flag fs ''db'') s of
            (Inl e, s1) \<Rightarrow> (Some e, s1)
          | (Inr dsn, s1) \<Rightarrow>
              (case ListTokens (se_io env) (tokens_at (sx_disk s1) dsn) of
                 Inl e \<Rightarrow> (Some (TokenError e), s1)
               | Inr records \<Rightarrow> print_store env (TokenList records) s1))"

definition runTokenRevoke :: "store_env \<Rightarrow> string list \<Rightarrow> store_session \<Rightarrow> command_error option \<times> store_session" where
  "runTokenRevoke env args s =
     (case Parse (se_dur env) [tokenDBFlag env, (''id'', VString [])] args of
        Inl e \<Rightarrow> (Some (CommandFlags e), s)
      | Inr (fs, rest) \<Rightarrow>
          if rest \<noteq> [] \<or> string_flag fs ''id'' = [] then (Some (CommandMessage ''token revoke requires --id''), s)
          else case openTokenStore env (string_flag fs ''db'') s of
            (Inl e, s1) \<Rightarrow> (Some e, s1)
          | (Inr dsn, s1) \<Rightarrow>
              (case RevokeToken (se_io env) (se_now env) (string_flag fs ''id'') (tokens_at (sx_disk s1) dsn) of
                 (Some e, ts) \<Rightarrow> (Some (TokenError e), s1\<lparr>sx_disk := put_tokens dsn ts (sx_disk s1)\<rparr>)
               | (None, ts) \<Rightarrow>
                   print_store env (Text (''revoked '' @ string_flag fs ''id'' @ [CHR 0x0A]))
                     (s1\<lparr>sx_disk := put_tokens dsn ts (sx_disk s1)\<rparr>)))"

definition runToken :: "store_env \<Rightarrow> string list \<Rightarrow> store_session \<Rightarrow> command_error option \<times> store_session" where
  "runToken env args s =
     (case args of
        [] \<Rightarrow> (Some (CommandMessage ''token requires create, list, or revoke''), s)
      | sub # rest \<Rightarrow>
          if sub = ''create'' then runTokenCreate env rest s
          else if sub = ''list'' then runTokenList env rest s
          else if sub = ''revoke'' then runTokenRevoke env rest s
          else (Some (CommandMessage ''unknown token command''), s))"

section \<open>The display token of standalone mode\<close>

definition trim_left_slashes :: "string \<Rightarrow> string" where
  "trim_left_slashes s = dropWhile (\<lambda>c. c = CHR ''/'' \<or> c = CHR 0x5C) s"

definition home_relative :: "string \<Rightarrow> bool" where
  "home_relative p = (p = ''~'' \<or> has_prefix p ''~/'' \<or> has_prefix p [CHR ''~'', CHR 0x5C])"

text \<open>A path below the user's home directory, for a path that starts with a tilde.\<close>

definition home_path :: "string option \<Rightarrow> string \<Rightarrow> string option" where
  "home_path home path =
     (if home_relative path then map_option (\<lambda>dir. path_Join [dir, trim_left_slashes (drop 1 path)]) home
      else Some path)"

definition resolveUserPath :: "(string \<Rightarrow> string) \<Rightarrow> string option \<Rightarrow> string \<Rightarrow> (command_error, string) result" where
  "resolveUserPath expand_env home v =
     (let path = expand_env (TrimSpace v)
      in if path = [] then Inl (CommandMessage ''path is empty'')
         else case home_path home path of
                None \<Rightarrow> Inl HomeMissing
              | Some p \<Rightarrow> Inr (Clean p))"

datatype display_error =
    DisplayFileEmpty | DisplayMismatch | SecureFailed | ReadFailed | CreateFailed store_error
  | DirectoryError | FileCreateFailed | FileWriteFailed

text \<open>
  The statements of a call have their own fault oracles: \<open>io_auth\<close> for \<open>AuthenticateToken\<close>,
  \<open>io_create\<close> for \<open>CreateToken\<close> and \<open>io_revoke\<close> for the revocation after a failure.
\<close>

record token_ops =
  to_auth :: io
  to_create :: io
  to_revoke :: io
  to_now :: "nat \<Rightarrow> time"

definition os_Chmod :: "host_env \<Rightarrow> string \<Rightarrow> file_mode \<Rightarrow> (host_error, unit) host_action" where
  "os_Chmod env path mode = and_then (syscall env) (\<lambda>_ h.
     case h_files h (path_key path) of
       None \<Rightarrow> (Inl NotExist, h)
     | Some (bytes, _) \<Rightarrow> (Inr (), set_file (path_key path) (Some (bytes, mode)) h))"

definition os_CreateExclusive :: "host_env \<Rightarrow> string \<Rightarrow> file_mode \<Rightarrow> (host_error, unit) host_action" where
  "os_CreateExclusive env path mode = and_then (syscall env) (\<lambda>_ h.
     case h_files h (path_key path) of
       Some _ \<Rightarrow> (Inl IOFailure, h)
     | None \<Rightarrow> (Inr (), set_file (path_key path) (Some ([], mode)) h))"

text \<open>Writing, syncing (only after a complete write) and closing the new file.\<close>

definition write_token_file :: "host_env \<Rightarrow> string \<Rightarrow> string \<Rightarrow> host \<Rightarrow> bool \<times> host" where
  "write_token_file env path bytes h =
     (case temp_Write env (path_key path) bytes h of
        (Inl _, h1) \<Rightarrow> (False, snd (syscall env h1))
      | (Inr _, h1) \<Rightarrow>
          (case syscall env h1 of
             (synced, h2) \<Rightarrow>
               (case syscall env h2 of
                  (shut, h3) \<Rightarrow> (is_ok synced \<and> is_ok shut, h3))))"

definition create_display_token ::
    "store_env \<Rightarrow> token_ops \<Rightarrow> string \<Rightarrow> host \<Rightarrow> token_row list \<Rightarrow> (display_error, bool) result \<times> host \<times> token_row list" where
  "create_display_token env ops path h ts =
     (case CreateToken (se_sha env) (se_secret_bytes env) (se_id_bytes env) (to_create ops) (to_now ops 0)
             \<lparr>rq_Scope = ScopeDisplayRead, rq_AgentID = [], rq_Label = ''standalone display''\<rparr> ts of
        (Inl e, ts1) \<Rightarrow> (Inl (CreateFailed e), h, ts1)
      | (Inr (created, raw), ts1) \<Rightarrow>
          let revoked = snd (RevokeToken (to_revoke ops) (to_now ops 1) (tok_ID created) ts1)
          in case syscall (se_host env) h of
               (Inl _, h1) \<Rightarrow> (Inl DirectoryError, h1, revoked)
             | (Inr _, h1) \<Rightarrow>
                 (case os_CreateExclusive (se_host env) path 384 h1 of
                    (Inl _, h2) \<Rightarrow> (Inl FileCreateFailed, h2, revoked)
                  | (Inr _, h2) \<Rightarrow>
                      (case write_token_file (se_host env) path (raw @ [CHR 0x0A]) h2 of
                         (True, h3) \<Rightarrow> (Inr True, h3, ts1)
                       | (False, h3) \<Rightarrow> (Inl FileWriteFailed, h3, revoked))))"

definition ensureDisplayToken ::
    "store_env \<Rightarrow> token_ops \<Rightarrow> string \<Rightarrow> host \<Rightarrow> token_row list \<Rightarrow> (display_error, bool) result \<times> host \<times> token_row list" where
  "ensureDisplayToken env ops path h ts =
     (case os_ReadFile (se_host env) path h of
        (Inr payload, h1) \<Rightarrow>
          let raw = TrimSpace payload
          in if raw = [] then (Inl DisplayFileEmpty, h1, ts)
             else case AuthenticateToken (se_sha env) (to_auth ops) (to_now ops 0) raw ScopeDisplayRead ts of
               (Inl _, ts1) \<Rightarrow> (Inl DisplayMismatch, h1, ts1)
             | (Inr _, ts1) \<Rightarrow>
                 (case os_Chmod (se_host env) path 384 h1 of
                    (Inl _, h2) \<Rightarrow> (Inl SecureFailed, h2, ts1)
                  | (Inr _, h2) \<Rightarrow> (Inr False, h2, ts1))
      | (Inl NotExist, h1) \<Rightarrow> create_display_token env ops path h1 ts
      | (Inl IOFailure, h1) \<Rightarrow> (Inl ReadFailed, h1, ts))"

section \<open>The display token file and the database stay in step\<close>

definition display_secret :: "store_env \<Rightarrow> bool" where
  "display_secret env = (case se_secret_bytes env of None \<Rightarrow> True | Some s \<Rightarrow> length s = 32)"

lemma TrimSpace_token: "TrimSpace (''qmon_'' @ b64_encode s @ [CHR 0x0A]) = ''qmon_'' @ b64_encode s"
proof -
  have "\<forall>c\<in>set (''qmon_'' @ b64_encode s). graphic c"
    using b64_graphic [of _ s] by (auto simp: graphic_def byte_def)
  from TrimSpace_newline [OF TrimSpace_graphic [OF this]] show ?thesis by simp
qed

lemma write_token_file_ok:
  assumes "write_token_file env path bytes h = (True, h')" and "h_files h (path_key path) = Some ([], mode)"
  shows "h_files h' (path_key path) = Some (bytes, mode)"
  using assms
  by (auto simp: write_token_file_def temp_Write_def syscall_def append_temp_def split: if_splits prod.splits)

lemma touch_live:
  "r \<in> set ts \<Longrightarrow> live_match sha raw scope r \<Longrightarrow> \<exists>r'\<in>set (touch_token tid now ts). live_match sha raw scope r'"
  by (rule bexI [of _ "if tk_id r = tid then r\<lparr>tk_last_used_at_ns := Some (UnixNano now)\<rparr> else r"])
    (auto simp: touch_token_def live_match_def)

lemma live_authenticates:
  assumes "tokens_wf ts" and "r \<in> set ts" and "live_match sha raw scope r" and "scope_Valid scope"
    and "16 \<le> length raw" and "length raw \<le> 256" and "io 0" and "io 1"
  shows "AuthenticateToken sha io now raw scope ts =
    (ok ((record_of_row r)\<lparr>tok_LastUsedAt := Some now\<rparr>), touch_token (tk_id r) now ts)"
  using AuthenticateToken_unique [of ts scope raw io sha now] find_unique_row [of ts r sha raw scope] assms
  by (simp add: tokens_wf_def)

lemma AuthenticateToken_length:
  "AuthenticateToken sha io now raw scope ts = (ok rec, ts') \<Longrightarrow> 16 \<le> length raw \<and> length raw \<le> 256"
  by (auto simp: AuthenticateToken_def split: if_splits)

lemma create_display_token_ok:
  assumes "display_secret env" and "tokens_wf ts" and "create_display_token env ops path h ts = (Inr b, h', ts')"
  shows "\<exists>raw r. h_files h' (path_key path) = Some (raw @ [CHR 0x0A], 384) \<and> TrimSpace (raw @ [CHR 0x0A]) = raw \<and>
    16 \<le> length raw \<and> length raw \<le> 256 \<and> r \<in> set ts' \<and> live_match (se_sha env) raw ScopeDisplayRead r \<and> tokens_wf ts'"
proof -
  let ?req = "\<lparr>rq_Scope = ScopeDisplayRead, rq_AgentID = [], rq_Label = ''standalone display''\<rparr>"
  from assms(3) obtain created raw where
      c: "CreateToken (se_sha env) (se_secret_bytes env) (se_id_bytes env) (to_create ops) (to_now ops 0) ?req ts
          = (Inr (created, raw), ts')"
    and f: "h_files h' (path_key path) = Some (raw @ [CHR 0x0A], 384)"
    by (auto simp: create_display_token_def Let_def os_CreateExclusive_def and_then_def syscall_def
        split: sum.splits prod.splits option.splits if_splits bool.splits dest!: write_token_file_ok)
  from CreateToken_ok [OF c] obtain s row where s: "se_secret_bytes env = Some s" "raw = ''qmon_'' @ b64_encode s"
    "insert_token row ts = Some ts'" "tk_digest row = se_sha env raw" "tk_scope row = ScopeDisplayRead"
    "tk_revoked_at_ns row = None" by auto
  moreover have "length raw = 48" using assms(1) s(1,2) by (simp add: display_secret_def length_b64)
  ultimately show ?thesis
    using f TrimSpace_token [of s] tokens_wf_insert [OF assms(2) s(3)]
    by (auto simp: insert_token_Some live_match_def)
qed

lemma ensureDisplayToken_ok:
  assumes "display_secret env" and "tokens_wf ts" and "ensureDisplayToken env ops path h ts = (Inr b, h', ts')"
  shows "\<exists>bytes r. h_files h' (path_key path) = Some (bytes, 384) \<and> 16 \<le> length (TrimSpace bytes) \<and>
    length (TrimSpace bytes) \<le> 256 \<and> r \<in> set ts' \<and> live_match (se_sha env) (TrimSpace bytes) ScopeDisplayRead r \<and> tokens_wf ts'"
proof (cases "fst (os_ReadFile (se_host env) path h)")
  case (Inl e)
  with assms(3) obtain h1 where "create_display_token env ops path h1 ts = (Inr b, h', ts')"
    by (auto simp: ensureDisplayToken_def split: prod.splits sum.splits host_error.splits)
  from create_display_token_ok [OF assms(1,2) this] show ?thesis by metis
next
  case (Inr payload)
  with assms(3) obtain h1 rec where
      a: "AuthenticateToken (se_sha env) (to_auth ops) (to_now ops 0) (TrimSpace payload) ScopeDisplayRead ts = (ok rec, ts')"
    and f: "h_files h' (path_key path) = Some (payload, 384)"
    by (auto simp: ensureDisplayToken_def Let_def os_ReadFile_def os_Chmod_def and_then_def syscall_def
        split: prod.splits sum.splits option.splits if_splits)
  from AuthenticateToken_sound [OF assms(2) a] obtain r where "r \<in> set ts" "live_match (se_sha env) (TrimSpace payload) ScopeDisplayRead r"
    and ts': "ts' = touch_token (tk_id r) (to_now ops 0) ts" by blast
  then obtain r' where "r' \<in> set ts'" "live_match (se_sha env) (TrimSpace payload) ScopeDisplayRead r'"
    using touch_live by metis
  with f AuthenticateToken_length [OF a] ts' tokens_wf_touch [OF assms(2)] show ?thesis by metis
qed

text \<open>Revoking a token that was just inserted restores the live rows of every scope.\<close>

lemma revoke_inserted_live:
  assumes "insert_token row ts = Some ts1" and "tk_revoked_at_ns row = None" and "io 0"
  shows "map tk_id (active_rows scope (snd (RevokeToken io now (tk_id row) ts1))) = map tk_id (active_rows scope ts)"
proof -
  have "tk_id r \<noteq> tk_id row" if "r \<in> set ts" for r
    using assms(1) imageI [OF that, of tk_id] by (auto simp: insert_token_Some)
  then have "map (\<lambda>r. if tk_id r = tk_id row \<and> tk_revoked_at_ns r = None then r\<lparr>tk_revoked_at_ns := Some (UnixNano now)\<rparr> else r) ts
      = ts"
    by (intro map_idI) auto
  with assms show ?thesis by (simp add: RevokeToken_def Let_def insert_token_Some active_rows_def)
qed

lemma touch_active: "map tk_id (active_rows scope (touch_token tid now ts)) = map tk_id (active_rows scope ts)"
  by (induction ts) (auto simp: touch_token_def active_rows_def)

lemma create_display_token_err:
  assumes "to_revoke ops 0" and "create_display_token env ops path h ts = (Inl e, h', ts')"
  shows "map tk_id (active_rows scope ts') = map tk_id (active_rows scope ts)"
proof -
  let ?create = "CreateToken (se_sha env) (se_secret_bytes env) (se_id_bytes env) (to_create ops) (to_now ops 0)
    \<lparr>rq_Scope = ScopeDisplayRead, rq_AgentID = [], rq_Label = ''standalone display''\<rparr> ts"
  show ?thesis
  proof (cases "fst ?create")
    case (Inl x)
    then obtain ts1 where c: "?create = (Inl x, ts1)" by (metis prod.collapse)
    with assms(2) CreateToken_err [OF c] show ?thesis by (simp add: create_display_token_def)
  next
    case (Inr y)
    then obtain created raw ts1 where c: "?create = (Inr (created, raw), ts1)" by (metis prod.collapse)
    then have "ts' = snd (RevokeToken (to_revoke ops) (to_now ops 1) (tok_ID created) ts1)"
      using assms(2)
      by (auto simp: create_display_token_def Let_def split: sum.splits prod.splits bool.splits)
    with CreateToken_ok [OF c] revoke_inserted_live assms(1) show ?thesis by metis
  qed
qed

lemma ensureDisplayToken_err:
  assumes "to_revoke ops 0" and "ensureDisplayToken env ops path h ts = (Inl e, h', ts')"
  shows "map tk_id (active_rows scope ts') = map tk_id (active_rows scope ts)"
proof (cases "fst (os_ReadFile (se_host env) path h)")
  case (Inl x)
  with assms(2) have "ts' = ts \<or> (\<exists>h1. create_display_token env ops path h1 ts = (Inl e, h', ts'))"
    by (auto simp: ensureDisplayToken_def split: prod.splits sum.splits host_error.splits)
  with create_display_token_err [OF assms(1)] show ?thesis by metis
next
  case (Inr payload)
  let ?auth = "AuthenticateToken (se_sha env) (to_auth ops) (to_now ops 0) (TrimSpace payload) ScopeDisplayRead ts"
  have "ts' = ts \<or> ts' = snd ?auth"
    using assms(2) Inr by (auto simp: ensureDisplayToken_def Let_def split: prod.splits sum.splits if_splits)
  with AuthenticateToken_snd touch_active show ?thesis by metis
qed

section \<open>Properties\<close>

text \<open>
  C13: After a successful \<open>ensureDisplayToken\<close>, whether the file was there or was just created, the
  display token file is private (0600) and its trimmed content is a token that the database accepts
  for reading the display: the next authentication with it succeeds.
\<close>

theorem display_token_matches_file:
  assumes "tokens_wf ts" and "display_secret env" and "ensureDisplayToken env ops path h ts = (Inr b, h', ts')"
    and "io 0" and "io 1"
  shows "\<exists>bytes rec. h_files h' (path_key path) = Some (bytes, 384) \<and>
    fst (AuthenticateToken (se_sha env) io now (TrimSpace bytes) ScopeDisplayRead ts') = ok rec"
proof -
  from ensureDisplayToken_ok [OF assms(2,1,3)] obtain bytes r where
    "h_files h' (path_key path) = Some (bytes, 384)" "16 \<le> length (TrimSpace bytes)" "length (TrimSpace bytes) \<le> 256"
    "r \<in> set ts'" "live_match (se_sha env) (TrimSpace bytes) ScopeDisplayRead r" "tokens_wf ts'" by blast
  with live_authenticates [of ts' r "se_sha env" "TrimSpace bytes" ScopeDisplayRead io now] assms(4,5)
  show ?thesis by (auto simp: scope_Valid_def)
qed

definition demo_store_env :: "(nat \<Rightarrow> bool) \<Rightarrow> store_env" where
  "demo_store_env works =
     \<lparr>se_host = demo_host_env works, se_getenv = (\<lambda>_. []), se_expand = (\<lambda>s. s), se_dur = (\<lambda>_. None),
      se_cwd = Some ''/srv'', se_open = (\<lambda>_. True), se_times = (\<lambda>_. 1000), se_io = (\<lambda>_. True), se_now = 1000,
      se_sha = demo_sha, se_secret_bytes = Some (replicate 32 (CHR 0x08)), se_id_bytes = Some (replicate 12 (CHR 0x02)),
      se_prints = True\<rparr>"

definition demo_token_ops :: token_ops where
  "demo_token_ops = \<lparr>to_auth = (\<lambda>_. True), to_create = (\<lambda>_. True), to_revoke = (\<lambda>_. True), to_now = (\<lambda>n. 1000 + int n)\<rparr>"

definition demo_display :: "(nat \<Rightarrow> bool) \<Rightarrow> (display_error, bool) result \<times> host \<times> token_row list" where
  "demo_display works =
     ensureDisplayToken (demo_store_env works) demo_token_ops ''/srv/display.token'' demo_host (snd demo_create)"

lemma demo_display_sha: "se_sha (demo_store_env works) = demo_sha" by (simp add: demo_store_env_def)

theorem display_token_matches_file_witness:
  "\<exists>h ts bytes rec. demo_display (\<lambda>_. True) = (Inr True, h, ts) \<and>
     h_files h (path_key ''/srv/display.token'') = Some (bytes, 384) \<and>
     fst (AuthenticateToken demo_sha (\<lambda>_. True) 2000 (TrimSpace bytes) ScopeDisplayRead ts) = ok rec"
proof -
  have "fst (demo_display (\<lambda>_. True)) = Inr True" by code_simp
  then obtain h ts where d: "demo_display (\<lambda>_. True) = (Inr True, h, ts)" by (metis prod.collapse)
  have "display_secret (demo_store_env (\<lambda>_. True))" by code_simp
  from display_token_matches_file [OF demo_create_wf this d [unfolded demo_display_def], of "\<lambda>_. True" 2000] d
  show ?thesis by (auto simp: demo_display_sha)
qed

text \<open>
  C39: A failed \<open>ensureDisplayToken\<close> leaves no live token behind: when the revocation after the failure
  goes through, the live tokens of every scope are those from before the call, wherever the
  failure was.
\<close>

theorem failed_display_token_is_revoked:
  assumes "to_revoke ops 0" and "ensureDisplayToken env ops path h ts = (Inl e, h', ts')"
  shows "map tk_id (active_rows scope ts') = map tk_id (active_rows scope ts)"
  using assms by (rule ensureDisplayToken_err)

theorem failed_display_token_is_revoked_witness:
  "\<exists>h ts. demo_display (\<lambda>n. n < 4) = (Inl FileWriteFailed, h, ts) \<and>
     map tk_id (active_rows ScopeDisplayRead ts) = map tk_id (active_rows ScopeDisplayRead (snd demo_create))"
proof -
  have "fst (demo_display (\<lambda>n. n < 4)) = Inl FileWriteFailed" by code_simp
  then obtain h ts where d: "demo_display (\<lambda>n. n < 4) = (Inl FileWriteFailed, h, ts)" by (metis prod.collapse)
  have "to_revoke demo_token_ops 0" by (simp add: demo_token_ops_def)
  from failed_display_token_is_revoked [OF this d [unfolded demo_display_def]] d show ?thesis by blast
qed

end
