(* ===== verification/Agent_Run.thy ===== *)
theory Agent_Run
  imports Agent "HOL-Library.Infinite_Set"
begin

text \<open>
  \<open>Agent.run\<close> of \<open>internal/agent/agent.go\<close>: the scheduler loop, the collection worker and the hook
  server as three goroutines that communicate over channels. A state holds what each of them is
  doing and the content of the channels; a step is one communication or one completed call. The
  select statement takes any branch that is ready.

  Calls that take time are two steps: \<open>ReportOnce\<close> begins when the snapshot is taken and ends when the
  delivery is over; a collection cycle begins when the request is taken and stores one result per
  step. The clock, the timers, the cancellation of the context and the requests of the hook server
  are steps of the environment.
\<close>

section \<open>State\<close>

datatype worker = WorkerIdle | Collecting "provider_name list" | WorkerStopped

datatype hook_exit = ContextCanceled | HookFailure string

datatype hook_state = HookOff | HookServing | HookReturned "hook_exit option" | HookGone

datatype timer = Armed time | Fired | Drained

datatype loop = Selecting | Reporting time agent_report | Leaving "string option" | Waiting "string option"
  | Returned "string option"

text \<open>
  \<open>rn_request\<close> is the buffered request channel, \<open>rn_tick\<close> the buffer of the ticker. The last two
  fields are history: when a tick was last served by the loop and when a collection last began.
\<close>

record run_state =
  rn_agent :: agent
  rn_now :: time
  rn_ctx_done :: bool
  rn_hook :: hook_state
  rn_request :: bool
  rn_worker :: worker
  rn_collection_cancelled :: bool
  rn_next_tick :: time
  rn_tick :: bool
  rn_timer :: timer
  rn_backoff :: duration
  rn_loop :: loop
  rn_closed :: "provider_name list"
  rn_last_tick :: "time option"
  rn_last_start :: "time option"

abbreviation rn_cfg :: "run_state \<Rightarrow> agent_config" where "rn_cfg s \<equiv> ag_cfg (rn_agent s)"

definition run_start :: "bool \<Rightarrow> time \<Rightarrow> agent \<Rightarrow> run_state" where
  "run_start requestInitialCollection now a =
     \<lparr>rn_agent = a, rn_now = now, rn_ctx_done = False,
      rn_hook = (if cfg_HookSecret (ag_cfg a) \<noteq> [] then HookServing else HookOff),
      rn_request = requestInitialCollection, rn_worker = WorkerIdle, rn_collection_cancelled = False,
      rn_next_tick = now + cfg_CollectInterval (ag_cfg a), rn_tick = False,
      rn_timer = Armed now, rn_backoff = cfg_ReportInterval (ag_cfg a), rn_loop = Selecting,
      rn_closed = [], rn_last_tick = None, rn_last_start = None\<rparr>"

lemma run_start_fields [simp]:
  "rn_agent (run_start init t a) = a" "rn_now (run_start init t a) = t" "rn_loop (run_start init t a) = Selecting"
  "rn_worker (run_start init t a) = WorkerIdle" "rn_closed (run_start init t a) = []"
  "rn_timer (run_start init t a) = Armed t" "rn_last_tick (run_start init t a) = None"
  "rn_last_start (run_start init t a) = None" "rn_request (run_start init t a) = init"
  "rn_next_tick (run_start init t a) = t + cfg_CollectInterval (ag_cfg a)"
  by (simp_all add: run_start_def)

section \<open>Steps\<close>

definition requestCollection :: "run_state \<Rightarrow> run_state" where
  "requestCollection s = (if rn_request s then s else s\<lparr>rn_request := True\<rparr>)"

text \<open>The error the loop returns for a value of the hook server's channel, if it is one.\<close>

definition fatal_hook_error :: "hook_exit option \<Rightarrow> string option" where
  "fatal_hook_error e = (case e of Some (HookFailure m) \<Rightarrow> Some (''hook server: '' @ m) | _ \<Rightarrow> None)"

text \<open>
  How a started hook server ends: its select takes the cancelled context, then shuts the server down
  and waits for \<open>Serve\<close>, or \<open>Serve\<close> ends by itself. \<open>ErrServerClosed\<close> is not an error.
\<close>

datatype serve_end = ErrServerClosed | ServeError string

definition hook_server_result :: "bool \<Rightarrow> string option \<Rightarrow> serve_end option \<Rightarrow> hook_exit option" where
  "hook_server_result cancelled shutdown serveErr =
     (let ended = (case serveErr of None \<Rightarrow> None | Some ErrServerClosed \<Rightarrow> None | Some (ServeError m) \<Rightarrow> Some (HookFailure m))
      in if cancelled then (case shutdown of Some m \<Rightarrow> Some (HookFailure m) | None \<Rightarrow> ended) else ended)"

fun delivered :: "delivery \<Rightarrow> bool" where
  "delivered (SinkResult success) = success"
| "delivered MarshalFailed = False"
| "delivered RequestFailed = False"
| "delivered (Responded status) = (status = 204)"

text \<open>The end of an attempt: the timer is set again and the backoff updated.\<close>

definition finish_report :: "time \<Rightarrow> delivery \<Rightarrow> run_state \<Rightarrow> run_state" where
  "finish_report attemptStarted d s =
     (case report_turn (rn_cfg s) (if delivered d then Some (rn_now s - attemptStarted) else None) (rn_backoff s) of
        (delay, backoff) \<Rightarrow> s\<lparr>rn_timer := Armed (rn_now s + delay), rn_backoff := backoff, rn_loop := Selecting\<rparr>)"

definition closeCollectors :: "run_state \<Rightarrow> run_state" where
  "closeCollectors s = s\<lparr>rn_closed := rn_closed s @ configuredCollectors (rn_cfg s)\<rparr>"

text \<open>The next time of a ticker that fires late: missed ticks are skipped.\<close>

definition next_tick_after :: "time \<Rightarrow> time \<Rightarrow> duration \<Rightarrow> time" where
  "next_tick_after due now period = due + period * (1 + (now - due) div period)"

datatype run_label = Environment | Worker | SelectDone | SelectHook | SelectTick | SelectReport | EndReport | Leave | CloseAll

inductive run_step :: "run_label \<Rightarrow> run_state \<Rightarrow> run_state \<Rightarrow> bool" where
  pass: "0 \<le> d \<Longrightarrow> run_step Environment s (s\<lparr>rn_now := rn_now s + d\<rparr>)"
| cancel: "run_step Environment s (s\<lparr>rn_ctx_done := True\<rparr>)"
| tick: "rn_next_tick s \<le> rn_now s \<Longrightarrow>
    run_step Environment s (s\<lparr>rn_tick := True,
      rn_next_tick := next_tick_after (rn_next_tick s) (rn_now s) (cfg_CollectInterval (rn_cfg s))\<rparr>)"
| fire: "rn_timer s = Armed due \<Longrightarrow> due \<le> rn_now s \<Longrightarrow> run_step Environment s (s\<lparr>rn_timer := Fired\<rparr>)"
| hook_event: "rn_hook s = HookServing \<Longrightarrow>
    run_step Environment s (s\<lparr>rn_agent := apply_input (HookEvent (rn_now s) e) (rn_agent s)\<rparr>)"
| status_line: "rn_hook s = HookServing \<Longrightarrow>
    run_step Environment s (s\<lparr>rn_agent := apply_input (StatusLine report) (rn_agent s)\<rparr>)"
| hook_setup_fails: "rn_hook s = HookServing \<Longrightarrow> run_step Environment s (s\<lparr>rn_hook := HookReturned (Some (HookFailure m))\<rparr>)"
| hook_ends: "rn_hook s = HookServing \<Longrightarrow> (cancelled \<longrightarrow> rn_ctx_done s) \<Longrightarrow>
    run_step Environment s (s\<lparr>rn_hook := HookReturned (hook_server_result cancelled shutdown serveErr)\<rparr>)"
| worker_take: "rn_worker s = WorkerIdle \<Longrightarrow> rn_request s \<Longrightarrow>
    run_step Worker s (s\<lparr>rn_request := False, rn_worker := Collecting (configuredCollectors (rn_cfg s)),
      rn_last_start := Some (rn_now s)\<rparr>)"
| worker_store: "rn_worker s = Collecting ps \<Longrightarrow> cr_provider item \<in> set ps \<Longrightarrow>
    (cfg_SequentialCollection (rn_cfg s) \<longrightarrow> cr_provider item = hd ps) \<Longrightarrow>
    run_step Worker s (s\<lparr>rn_agent := storeCollectionResult item (rn_agent s),
      rn_worker := Collecting (remove1 (cr_provider item) ps)\<rparr>)"
| worker_end: "rn_worker s = Collecting [] \<Longrightarrow> run_step Worker s (s\<lparr>rn_worker := WorkerIdle\<rparr>)"
| worker_stop: "rn_worker s = WorkerIdle \<Longrightarrow> rn_ctx_done s \<or> rn_collection_cancelled s \<Longrightarrow>
    run_step Worker s (s\<lparr>rn_worker := WorkerStopped\<rparr>)"
| select_done: "rn_loop s = Selecting \<Longrightarrow> rn_ctx_done s \<Longrightarrow> run_step SelectDone s (s\<lparr>rn_loop := Leaving None\<rparr>)"
| select_hook: "rn_loop s = Selecting \<Longrightarrow> rn_hook s = HookReturned e' \<Longrightarrow>
    run_step SelectHook s (s\<lparr>rn_hook := HookGone,
      rn_loop := (case fatal_hook_error e' of None \<Rightarrow> Selecting | Some m \<Rightarrow> Leaving (Some m))\<rparr>)"
| select_tick: "rn_loop s = Selecting \<Longrightarrow> rn_tick s \<Longrightarrow>
    run_step SelectTick s ((requestCollection s)\<lparr>rn_tick := False, rn_last_tick := Some (rn_now s)\<rparr>)"
| select_report: "rn_loop s = Selecting \<Longrightarrow> rn_timer s = Fired \<Longrightarrow>
    SnapshotReport (rn_now s) (rn_agent s) = (r, a) \<Longrightarrow>
    run_step SelectReport s (s\<lparr>rn_timer := Drained, rn_agent := a, rn_loop := Reporting (rn_now s) r\<rparr>)"
| end_report: "rn_loop s = Reporting attemptStarted r \<Longrightarrow> run_step EndReport s (finish_report attemptStarted outcome s)"
| leave: "rn_loop s = Leaving res \<Longrightarrow>
    run_step Leave s (s\<lparr>rn_collection_cancelled := True, rn_loop := Waiting res\<rparr>)"
| close_all: "rn_loop s = Waiting res \<Longrightarrow> rn_worker s = WorkerStopped \<Longrightarrow>
    run_step CloseAll s ((closeCollectors s)\<lparr>rn_loop := Returned res\<rparr>)"

inductive_cases run_stepE: "run_step l s s'"

inductive run_reach :: "run_state \<Rightarrow> run_state \<Rightarrow> bool" for s0 where
  start: "run_reach s0 s0"
| further: "run_reach s0 s \<Longrightarrow> run_step l s s' \<Longrightarrow> run_reach s0 s'"

text \<open>Without anything in between, the two halves of an attempt are \<open>ReportOnce\<close>.\<close>

lemma ReportOnce_halves:
  "ReportOnce deliver now a =
     (delivered (deliver (fst (SnapshotReport now a))), snd (SnapshotReport now a))"
  by (simp add: ReportOnce_def split: prod.split delivery.split)

section \<open>Invariants\<close>

lemma report_turn_frame [simp]:
  "rn_agent (finish_report t d s) = rn_agent s" "rn_now (finish_report t d s) = rn_now s"
  "rn_ctx_done (finish_report t d s) = rn_ctx_done s" "rn_request (finish_report t d s) = rn_request s"
  "rn_worker (finish_report t d s) = rn_worker s" "rn_closed (finish_report t d s) = rn_closed s"
  "rn_last_tick (finish_report t d s) = rn_last_tick s" "rn_last_start (finish_report t d s) = rn_last_start s"
  "rn_loop (finish_report t d s) = Selecting" "rn_collection_cancelled (finish_report t d s) = rn_collection_cancelled s"
  by (simp_all add: finish_report_def split: prod.split)

lemma request_frame [simp]:
  "rn_agent (requestCollection s) = rn_agent s" "rn_now (requestCollection s) = rn_now s"
  "rn_ctx_done (requestCollection s) = rn_ctx_done s" "rn_request (requestCollection s)"
  "rn_worker (requestCollection s) = rn_worker s" "rn_closed (requestCollection s) = rn_closed s"
  "rn_last_start (requestCollection s) = rn_last_start s" "rn_timer (requestCollection s) = rn_timer s"
  "rn_loop (requestCollection s) = rn_loop s" "rn_collection_cancelled (requestCollection s) = rn_collection_cancelled s"
  "rn_backoff (requestCollection s) = rn_backoff s"
  by (simp_all add: requestCollection_def)

lemma snapshot_cfg: "SnapshotReport now a = (r, a') \<Longrightarrow> ag_cfg a' = ag_cfg a"
  by (auto simp: SnapshotReport_def split: prod.splits)

lemma ingest_cfg [simp]: "ag_cfg (IngestStatusLine r a) = ag_cfg a"
  by (simp add: IngestStatusLine_def)

lemma step_cfg: "run_step l s s' \<Longrightarrow> rn_cfg s' = rn_cfg s"
  by (erule run_stepE) (auto simp: closeCollectors_def snapshot_cfg)

lemma reach_cfg: "run_reach s0 s \<Longrightarrow> rn_cfg s = rn_cfg s0"
  by (induction rule: run_reach.induct) (simp_all add: step_cfg)

lemma reach_invariant:
  assumes "run_reach s0 s" and "I s0" and "\<And>l s s'. run_step l s s' \<Longrightarrow> I s \<Longrightarrow> I s'"
  shows "I s"
  using assms by (induction rule: run_reach.induct) blast+

text \<open>The collectors are closed once, by the deferred function, after the worker has stopped.\<close>

definition closing_inv :: "run_state \<Rightarrow> bool" where
  "closing_inv s =
     (case rn_loop s of
        Returned _ \<Rightarrow> rn_worker s = WorkerStopped \<and> rn_closed s = configuredCollectors (rn_cfg s)
      | _ \<Rightarrow> rn_closed s = [])"

lemma closing_start: "closing_inv (run_start init t a)"
  by (simp add: closing_inv_def run_start_def)

lemma closing_step: "run_step l s s' \<Longrightarrow> closing_inv s \<Longrightarrow> closing_inv s'"
  by (frule step_cfg, erule run_stepE)
    (auto simp: closing_inv_def closeCollectors_def split: loop.splits option.splits)

lemma closing_reach: "run_reach (run_start init t a) s \<Longrightarrow> closing_inv s"
  by (erule reach_invariant) (auto intro: closing_step simp: closing_start)

lemma stopped_stays: "run_step l s s' \<Longrightarrow> rn_worker s = WorkerStopped \<Longrightarrow> rn_worker s' = WorkerStopped"
  by (erule run_stepE) (auto simp: closeCollectors_def)

text \<open>A tick the loop has served is followed by a collection, or the request is still buffered.\<close>

definition tick_inv :: "run_state \<Rightarrow> bool" where
  "tick_inv s =
     ((\<forall>u. rn_last_start s = Some u \<longrightarrow> u \<le> rn_now s) \<and>
      (\<forall>t. rn_last_tick s = Some t \<longrightarrow> t \<le> rn_now s \<and> (rn_request s \<or> (\<exists>u. rn_last_start s = Some u \<and> t \<le> u))))"

lemma tick_step: "run_step l s s' \<Longrightarrow> tick_inv s \<Longrightarrow> tick_inv s'"
  by (erule run_stepE) (fastforce simp: tick_inv_def closeCollectors_def)+

lemma tick_start: "tick_inv (run_start init t a)"
  by (simp add: tick_inv_def run_start_def)

lemma tick_reach: "run_reach (run_start init t a) s \<Longrightarrow> tick_inv s"
  by (erule reach_invariant) (auto intro: tick_step simp: tick_start)

text \<open>While the loop waits, the report timer is set, at most the longest delay ahead.\<close>

definition longest_delay :: "agent_config \<Rightarrow> duration" where
  "longest_delay cfg = max (cfg_ReportInterval cfg) (cfg_MaxBackoff cfg)"

definition intervals_ok :: "agent_config \<Rightarrow> bool" where
  "intervals_ok cfg = (0 < cfg_ReportInterval cfg \<and> 0 < cfg_MaxBackoff cfg \<and> longest_delay cfg \<le> 2 ^ 61)"

lemma report_turn_bounds:
  assumes "intervals_ok cfg" and "report_turn cfg outcome b = (delay, b')" and "0 < b" "b \<le> longest_delay cfg"
    and "pred_option (\<lambda>d. 0 \<le> d) outcome"
  shows "0 \<le> delay \<and> delay \<le> longest_delay cfg \<and> 0 < b' \<and> b' \<le> longest_delay cfg"
proof -
  have "wrap_int64 (b * 2) = b * 2"
    using assms(1,3,4) by (intro wrap_int64_id) (auto simp: intervals_ok_def int64_defs)
  with assms show ?thesis
    by (auto simp: report_turn_def Let_def intervals_ok_def longest_delay_def successfulReportDelay_def
        split: option.splits if_splits)
qed

definition schedule_inv :: "run_state \<Rightarrow> bool" where
  "schedule_inv s =
     (intervals_ok (rn_cfg s) \<and> 0 < rn_backoff s \<and> rn_backoff s \<le> longest_delay (rn_cfg s) \<and>
      (case rn_timer s of
         Armed due \<Rightarrow> due \<le> rn_now s + longest_delay (rn_cfg s)
       | Fired \<Rightarrow> True
       | Drained \<Rightarrow> rn_loop s \<noteq> Selecting) \<and>
      (\<forall>t r. rn_loop s = Reporting t r \<longrightarrow> t \<le> rn_now s))"

lemma schedule_finish:
  assumes "schedule_inv s" and "rn_loop s = Reporting t r"
  shows "schedule_inv (finish_report t d s)"
proof -
  let ?outcome = "if delivered d then Some (rn_now s - t) else None"
  obtain delay b' where turn: "report_turn (rn_cfg s) ?outcome (rn_backoff s) = (delay, b')" by fastforce
  have "pred_option (\<lambda>d. 0 \<le> d) ?outcome" using assms by (simp add: schedule_inv_def)
  from report_turn_bounds [OF _ turn _ _ this] assms turn show ?thesis
    by (simp add: schedule_inv_def finish_report_def)
qed

lemma schedule_step: "run_step l s s' \<Longrightarrow> schedule_inv s \<Longrightarrow> schedule_inv s'"
  by (frule step_cfg, erule run_stepE)
    (auto simp: schedule_finish, auto simp: schedule_inv_def closeCollectors_def split: timer.splits option.splits)

lemma schedule_start: "intervals_ok (ag_cfg a) \<Longrightarrow> schedule_inv (run_start init t a)"
  by (auto simp: schedule_inv_def run_start_def intervals_ok_def longest_delay_def)

lemma schedule_reach: "run_reach (run_start init t a) s \<Longrightarrow> intervals_ok (ag_cfg a) \<Longrightarrow> schedule_inv s"
  by (erule reach_invariant) (auto intro: schedule_step simp: schedule_start)

section \<open>Progress under fairness\<close>

text \<open>
  An infinite execution of a labelled transition system, and its fairness: a label of \<open>fair\<close> that is
  enabled again and again is taken again and again.
\<close>

definition enabled :: "('l \<Rightarrow> 's \<Rightarrow> 's \<Rightarrow> bool) \<Rightarrow> 'l \<Rightarrow> 's \<Rightarrow> bool" where
  "enabled step l s = (\<exists>s'. step l s s')"

definition fair_run :: "('l \<Rightarrow> 's \<Rightarrow> 's \<Rightarrow> bool) \<Rightarrow> 'l set \<Rightarrow> (nat \<Rightarrow> 'l) \<Rightarrow> (nat \<Rightarrow> 's) \<Rightarrow> bool" where
  "fair_run step fair act st =
     ((\<forall>i. step (act i) (st i) (st (Suc i))) \<and>
      (\<forall>l\<in>fair. (\<exists>\<^sub>\<infinity>i. enabled step l (st i)) \<longrightarrow> (\<exists>\<^sub>\<infinity>i. act i = l)))"

text \<open>
  The interface of the progress rules: a system that never gets stuck, with a set of labels that
  are treated fairly.
\<close>

locale progress =
  fixes step :: "'l \<Rightarrow> 's \<Rightarrow> 's \<Rightarrow> bool" and fair :: "'l set"
  assumes not_stuck: "\<exists>l s'. step l s s'"
begin

text \<open>Every state starts an infinite execution.\<close>

lemma execution_exists: "\<exists>act st. st 0 = s \<and> (\<forall>i. step (act i) (st i) (st (Suc i)))"
proof -
  obtain next_label next_state where n: "\<And>s. step (next_label s) s (next_state s)" using not_stuck by metis
  define st where "st = (\<lambda>i. (next_state ^^ i) s)"
  have "step (next_label (st i)) (st i) (st (Suc i))" for i using n by (simp add: st_def)
  then show ?thesis by (intro exI [of _ "\<lambda>i. next_label (st i)"] exI [of _ st]) (simp add: st_def)
qed

lemma fair_run_step: "fair_run step fair act st \<Longrightarrow> step (act i) (st i) (st (Suc i))"
  by (simp add: fair_run_def)

text \<open>While \<open>P\<close> holds until \<open>Q\<close>, a label enabled again and again in between is taken.\<close>

lemma fair_taken:
  assumes "fair_run step fair act st" and "l \<in> fair"
    and "\<And>m. n \<le> m \<Longrightarrow> \<exists>k\<ge>m. enabled step l (st k)"
  shows "\<exists>m\<ge>n. act m = l"
proof -
  have "\<exists>\<^sub>\<infinity>i. enabled step l (st i)"
    unfolding INFM_nat_le using assms(3) by (metis le_trans nat_le_linear)
  with assms(1,2) have "\<exists>\<^sub>\<infinity>i. act i = l" by (simp add: fair_run_def)
  then show ?thesis unfolding INFM_nat_le by blast
qed

lemma run_until:
  assumes "fair_run step fair act st" and "P (st n)"
    and "\<And>l s s'. P s \<Longrightarrow> step l s s' \<Longrightarrow> P s' \<or> Q s'"
    and "\<And>m. n \<le> m \<Longrightarrow> \<not> Q (st m)" and "n \<le> m"
  shows "P (st m)"
  using assms(5)
proof (induction m rule: dec_induct)
  case (step m)
  then show ?case using assms(3) [OF _ fair_run_step [OF assms(1)]] assms(4) [of "Suc m"] by auto
qed (rule assms(2))

lemma fair_progress:
  assumes run: "fair_run step fair act st" and "l \<in> fair" and P: "P (st n)"
    and keep: "\<And>a s s'. P s \<Longrightarrow> step a s s' \<Longrightarrow> P s' \<or> Q s'"
    and again: "\<And>m. n \<le> m \<Longrightarrow> P (st m) \<Longrightarrow> \<exists>k\<ge>m. enabled step l (st k) \<or> Q (st k)"
    and take: "\<And>s s'. P s \<Longrightarrow> step l s s' \<Longrightarrow> Q s'"
  shows "\<exists>m\<ge>n. Q (st m)"
proof (rule ccontr)
  assume none: "\<not> (\<exists>m\<ge>n. Q (st m))"
  then have hold: "P (st m)" if "n \<le> m" for m 
    using that by (intro run_until [where P = P and Q = Q, OF run P keep]) (use none in auto)
  have "\<exists>k\<ge>m. enabled step l (st k)" if "n \<le> m" for m
    using again [OF that hold [OF that]] none that le_trans by blast
  from fair_taken [OF run assms(2) this] obtain m where "n \<le> m" "act m = l" by blast
  with take [OF hold] fair_run_step [OF run, of m] have "Q (st (Suc m))" by metis
  with none \<open>n \<le> m\<close> show False by (metis le_SucI)
qed

text \<open>Progress by a measure that every step respects and the fair label decreases.\<close>

lemma fair_measure:
  assumes run: "fair_run step fair act st" and "l \<in> fair" and "P (st n)"
    and keep: "\<And>a s s'. P s \<Longrightarrow> step a s s' \<Longrightarrow> (P s' \<and> \<mu> s' \<le> (\<mu> s :: nat)) \<or> Q s'"
    and able: "\<And>s. P s \<Longrightarrow> enabled step l s \<or> Q s"
    and less: "\<And>s s'. P s \<Longrightarrow> step l s s' \<Longrightarrow> (P s' \<and> \<mu> s' < \<mu> s) \<or> Q s'"
  shows "\<exists>m\<ge>n. Q (st m)"
  using assms(3)
proof (induction "\<mu> (st n)" arbitrary: n rule: less_induct)
  case less
  let ?P = "\<lambda>s. P s \<and> \<mu> s = \<mu> (st n)" and ?Q = "\<lambda>s. (P s \<and> \<mu> s < \<mu> (st n)) \<or> Q s"
  have "\<exists>m\<ge>n. ?Q (st m)"
  proof (rule fair_progress [OF run assms(2), of ?P])
    show "?P (st n)" using less.prems by simp
    show "?P s' \<or> ?Q s'" if "?P s" "step a s s'" for a s s'
      using keep [of s a s'] that by (metis le_neq_implies_less)
    show "\<exists>k\<ge>m. enabled step l (st k) \<or> ?Q (st k)" if "?P (st m)" for m using able that by blast
    show "?Q s'" if "?P s" "step l s s'" for s s' using assms(6) [of s s'] that by metis
  qed
  then obtain m where "n \<le> m" "?Q (st m)" by blast
  with less.hyps [of m] show ?case by (metis le_trans)
qed

end

section \<open>The run ends after its context is cancelled\<close>

text \<open>
  The fair labels: the two goroutines go on, a call to a collector and a delivery return, and the
  select statement does not ignore the cancelled context for ever.
\<close>

definition fair_labels :: "run_label set" where
  "fair_labels = {Worker, SelectDone, EndReport, Leave, CloseAll}"

interpretation rl: progress run_step fair_labels
  by unfold_locales (use pass [of 0] in auto)

fun leaving_loop :: "loop \<Rightarrow> bool" where
  "leaving_loop (Leaving _) = True" | "leaving_loop (Waiting _) = True" | "leaving_loop (Returned _) = True"
| "leaving_loop _ = False"

fun returned_loop :: "loop \<Rightarrow> bool" where
  "returned_loop (Returned _) = True" | "returned_loop _ = False"

fun waiting_loop :: "loop \<Rightarrow> bool" where
  "waiting_loop (Waiting _) = True" | "waiting_loop _ = False"

lemma leaving_cases: "\<not> leaving_loop l \<Longrightarrow> l = Selecting \<or> (\<exists>t r. l = Reporting t r)"
  by (cases l) auto

fun worker_work :: "worker \<Rightarrow> nat" where
  "worker_work (Collecting ps) = 2 + length ps" | "worker_work WorkerIdle = 1" | "worker_work WorkerStopped = 0"

definition remaining_work :: "run_state \<Rightarrow> nat" where
  "remaining_work s = worker_work (rn_worker s) +
     (if rn_request s then 2 + length (configuredCollectors (rn_cfg s)) else 0)"

lemma done_stays: "run_step l s s' \<Longrightarrow> rn_ctx_done s \<Longrightarrow> rn_ctx_done s'"
  by (erule run_stepE) (auto simp: closeCollectors_def)

lemma report_returns:
  assumes "fair_run run_step fair_labels act st" and "rn_loop (st n) = Reporting t r"
  shows "\<exists>m\<ge>n. rn_loop (st m) = Selecting"
proof (rule rl.fair_progress [OF assms(1), of EndReport "\<lambda>s. rn_loop s = Reporting t r"])
  show "EndReport \<in> fair_labels" by (simp add: fair_labels_def)
  show "rn_loop s' = Reporting t r \<or> rn_loop s' = Selecting" if "rn_loop s = Reporting t r" "run_step a s s'" for a s s'
    using that(2,1) by (cases rule: run_step.cases) auto
  show "\<exists>k\<ge>m. enabled run_step EndReport (st k) \<or> rn_loop (st k) = Selecting" if "rn_loop (st m) = Reporting t r" for m
    using end_report [OF that] by (auto simp: enabled_def)
  show "rn_loop s' = Selecting" if "run_step EndReport s s'" for s s'
    using that by (cases rule: run_step.cases) auto
qed (rule assms(2))

lemma loop_leaves:
  assumes "fair_run run_step fair_labels act st" and "rn_ctx_done (st n)"
  shows "\<exists>m\<ge>n. leaving_loop (rn_loop (st m))"
proof (cases "leaving_loop (rn_loop (st n))")
  case False
  let ?P = "\<lambda>s. \<not> leaving_loop (rn_loop s) \<and> rn_ctx_done s" and ?Q = "\<lambda>s. leaving_loop (rn_loop s)"
  show ?thesis
  proof (rule rl.fair_progress [OF assms(1), of SelectDone ?P])
    show "SelectDone \<in> fair_labels" by (simp add: fair_labels_def)
    show "?P s' \<or> ?Q s'" if "?P s" "run_step a s s'" for a s s' using done_stays that by blast
    show "\<exists>k\<ge>m. enabled run_step SelectDone (st k) \<or> ?Q (st k)" if "n \<le> m" "?P (st m)" for m
    proof -
      from that obtain k where k: "m \<le> k" "rn_loop (st k) = Selecting"
        using leaving_cases report_returns [OF assms(1)] le_refl by metis
      have "rn_ctx_done (st k)"
        by (rule rl.run_until [OF assms(1), of rn_ctx_done m "\<lambda>_. False"]) (use that k done_stays in auto)
      with k select_done show ?thesis by (auto simp: enabled_def)
    qed
    show "?Q s'" if "run_step SelectDone s s'" for s s'
      using that by (cases rule: run_step.cases) auto
  qed (use False assms(2) in simp)
qed auto

definition cancel_inv :: "run_state \<Rightarrow> bool" where
  "cancel_inv s = (waiting_loop (rn_loop s) \<longrightarrow> rn_collection_cancelled s)"

lemma cancel_step: "run_step l s s' \<Longrightarrow> cancel_inv s \<Longrightarrow> cancel_inv s'"
  by (erule run_stepE) (auto simp: cancel_inv_def closeCollectors_def split: option.splits)

abbreviation shutting :: "run_state \<Rightarrow> bool" where
  "shutting s \<equiv> waiting_loop (rn_loop s) \<and> rn_collection_cancelled s"

abbreviation finished :: "run_state \<Rightarrow> bool" where "finished s \<equiv> returned_loop (rn_loop s)"

lemma loop_waits:
  assumes "fair_run run_step fair_labels act st" and "leaving_loop (rn_loop (st n))" and "cancel_inv (st n)"
  shows "\<exists>m\<ge>n. shutting (st m) \<or> finished (st m)"
proof (cases "rn_loop (st n)")
  case (Leaving r)
  have "\<exists>m\<ge>n. shutting (st m)"
  proof (rule rl.fair_progress [OF assms(1), of Leave "\<lambda>s. rn_loop s = Leaving r"])
    show "Leave \<in> fair_labels" by (simp add: fair_labels_def)
    show "rn_loop s' = Leaving r \<or> shutting s'" if "rn_loop s = Leaving r" "run_step a s s'" for a s s'
      using that(2,1) by (cases rule: run_step.cases) auto
    show "\<exists>k\<ge>m. enabled run_step Leave (st k) \<or> shutting (st k)" if "rn_loop (st m) = Leaving r" for m
      using leave [OF that] by (auto simp: enabled_def)
    show "shutting s'" if "run_step Leave s s'" for s s'
      using that by (cases rule: run_step.cases) auto
  qed (rule Leaving)
  then show ?thesis by blast
qed (use assms(2,3) in \<open>auto simp: cancel_inv_def\<close>)

lemma shutting_step:
  assumes "run_step a s s'" and "shutting s"
  shows "(shutting s' \<and> remaining_work s' \<le> remaining_work s \<and> (a = Worker \<longrightarrow> remaining_work s' < remaining_work s)) \<or> finished s'"
  using assms step_cfg [OF assms(1)]
  by (cases rule: run_step.cases)
    (auto simp: remaining_work_def length_remove1 closeCollectors_def dest: length_pos_if_in_set)

lemma worker_able: "shutting s \<Longrightarrow> rn_worker s \<noteq> WorkerStopped \<Longrightarrow> enabled run_step Worker s"
proof (cases "rn_worker s")
  case (Collecting ps)
  show ?thesis
  proof (cases ps)
    case Nil
    with Collecting worker_end show ?thesis by (auto simp: enabled_def)
  next
    case (Cons p qs)
    with Collecting worker_store [of s ps "\<lparr>cr_provider = p, cr_report = r, cr_failed = True\<rparr>" for r] show ?thesis
      by (auto simp: enabled_def)
  qed
qed (use worker_stop in \<open>auto simp: enabled_def\<close>)

lemma worker_stops:
  assumes "fair_run run_step fair_labels act st" and "shutting (st n)"
  shows "\<exists>m\<ge>n. shutting (st m) \<and> rn_worker (st m) = WorkerStopped \<or> finished (st m)"
proof (rule rl.fair_measure [OF assms(1), of Worker shutting _ remaining_work])
  show "Worker \<in> fair_labels" by (simp add: fair_labels_def)
qed (use assms(2) shutting_step worker_able in blast)+

lemma run_finishes:
  assumes "fair_run run_step fair_labels act st" and "leaving_loop (rn_loop (st n))" and "cancel_inv (st n)"
  shows "\<exists>m\<ge>n. finished (st m)"
proof -
  let ?P = "\<lambda>s. shutting s \<and> rn_worker s = WorkerStopped"
  obtain m where m: "n \<le> m" "?P (st m) \<or> finished (st m)"
    using loop_waits [OF assms] worker_stops [OF assms(1)] by (meson le_trans)
  have "\<exists>k\<ge>m. finished (st k)" if "?P (st m)"
  proof (rule rl.fair_progress [OF assms(1), of CloseAll ?P])
    show "CloseAll \<in> fair_labels" by (simp add: fair_labels_def)
    show "?P s' \<or> finished s'" if "?P s" "run_step a s s'" for a s s'
      using that shutting_step stopped_stays by blast
    show "\<exists>k\<ge>i. enabled run_step CloseAll (st k) \<or> finished (st k)" if "?P (st i)" for i
      using that close_all [of "st i"] by (cases "rn_loop (st i)") (auto simp: enabled_def)
    show "finished s'" if "run_step CloseAll s s'" for s s'
      using that by (cases rule: run_step.cases) auto
  qed (rule that)
  with m show ?thesis by (meson le_trans)
qed

lemma run_reaches:
  assumes "fair_run run_step fair_labels act st"
  shows "run_reach (st 0) (st n)"
  by (induction n) (auto intro: run_reach.intros rl.fair_run_step [OF assms])

section \<open>Properties\<close>


definition demo_act :: "nat \<Rightarrow> run_label" where
  "demo_act i = (if i = 1 then SelectDone else if i = 2 then Leave else if i = 3 then Worker else if i = 4 then CloseAll
     else Environment)"

definition demo_states :: "nat \<Rightarrow> run_state" where
  "demo_states i =
     (let s0 = run_start False (1000 * second) demo_new_agent;
          s1 = s0\<lparr>rn_ctx_done := True\<rparr>;
          s2 = s1\<lparr>rn_loop := Leaving None\<rparr>;
          s3 = s2\<lparr>rn_collection_cancelled := True, rn_loop := Waiting None\<rparr>;
          s4 = s3\<lparr>rn_worker := WorkerStopped\<rparr>;
          s5 = (closeCollectors s4)\<lparr>rn_loop := Returned None\<rparr>
      in if i = 0 then s0 else if i = 1 then s1 else if i = 2 then s2 else if i = 3 then s3 else if i = 4 then s4 else s5)"

lemma demo_step: "run_step (demo_act i) (demo_states i) (demo_states (Suc i))"
proof -
  consider "i = 0" | "i = 1" | "i = 2" | "i = 3" | "i = 4" | "4 < i" by linarith
  then show ?thesis
  proof cases
    case 1
    then show ?thesis using cancel by (simp add: demo_act_def demo_states_def Let_def)
  next
    case 2
    then show ?thesis using select_done by (simp add: demo_act_def demo_states_def Let_def)
  next
    case 3
    then show ?thesis using leave [of "demo_states i" None] by (simp add: demo_act_def demo_states_def Let_def)
  next
    case 4
    then show ?thesis using worker_stop by (simp add: demo_act_def demo_states_def Let_def)
  next
    case 5
    then show ?thesis using close_all [of "demo_states i" None] by (simp add: demo_act_def demo_states_def Let_def)
  next
    case 6
    then show ?thesis using pass [of 0 "demo_states i"] by (simp add: demo_act_def demo_states_def Let_def)
  qed
qed

lemma demo_idle: "4 < i \<Longrightarrow> l \<in> fair_labels \<Longrightarrow> \<not> enabled run_step l (demo_states i)"
  by (auto simp: fair_labels_def enabled_def demo_states_def Let_def closeCollectors_def elim!: run_stepE)

lemma demo_fair: "fair_run run_step fair_labels demo_act demo_states"
proof -
  have "\<not> (\<exists>\<^sub>\<infinity>i. enabled run_step l (demo_states i))" if "l \<in> fair_labels" for l
    using demo_idle [OF _ that] unfolding INFM_nat by blast
  with demo_step show ?thesis unfolding fair_run_def by blast
qed


text \<open>
  C29: Collectors are closed only after the collection worker has stopped: in no reachable state of a
  run is a collector closed that a collection could still use.
\<close>

theorem collectors_closed_after_worker:
  assumes "run_reach (run_start init t a) s" and "rn_closed s \<noteq> []"
  shows "rn_worker s = WorkerStopped"
  using closing_reach [OF assms(1)] assms(2) by (auto simp: closing_inv_def split: loop.splits)

theorem collectors_closed_after_worker_witness:
  "run_reach (run_start False (1000 * second) demo_new_agent) (demo_states 5) \<and> rn_worker (demo_states 5) = WorkerStopped"
proof -
  have "run_reach (run_start False (1000 * second) demo_new_agent) (demo_states 5)"
    using run_reaches [OF demo_fair, of 5] by (simp add: demo_states_def Let_def)
  moreover have "rn_closed (demo_states 5) \<noteq> []" by code_simp
  ultimately show ?thesis using collectors_closed_after_worker by blast
qed

text \<open>
  C30: Ticks are coalesced but never lost: after the loop has served a tick, a collection has begun at
  or after that moment, or its request is still in the channel.
\<close>

theorem tick_is_never_lost:
  assumes "run_reach (run_start init t a) s" and "rn_last_tick s = Some u"
  shows "rn_request s \<or> (\<exists>v. rn_last_start s = Some v \<and> u \<le> v)"
  using tick_reach [OF assms(1)] assms(2) by (auto simp: tick_inv_def)

definition demo_ticked :: run_state where
  "demo_ticked =
     (let s1 = (run_start False (1000 * second) demo_new_agent)\<lparr>rn_now := 1060 * second\<rparr>;
          s2 = s1\<lparr>rn_tick := True, rn_next_tick := 1120 * second\<rparr>;
          s3 = (requestCollection s2)\<lparr>rn_tick := False, rn_last_tick := Some (1060 * second)\<rparr>
      in s3\<lparr>rn_request := False, rn_worker := Collecting [ProviderCodex, ProviderClaude], rn_last_start := Some (1060 * second)\<rparr>)"

lemma demo_ticked_reach: "run_reach (run_start False (1000 * second) demo_new_agent) demo_ticked"
proof -
  let ?s0 = "run_start False (1000 * second) demo_new_agent"
  let ?s1 = "?s0\<lparr>rn_now := 1060 * second\<rparr>"
  let ?s2 = "?s1\<lparr>rn_tick := True, rn_next_tick := 1120 * second\<rparr>"
  let ?s3 = "(requestCollection ?s2)\<lparr>rn_tick := False, rn_last_tick := Some (1060 * second)\<rparr>"
  have c: "configuredCollectors (ag_cfg demo_new_agent) = [ProviderCodex, ProviderClaude]"
    "cfg_CollectInterval (ag_cfg demo_new_agent) = 60 * second" by code_simp+
  have "run_step Environment ?s0 ?s1" using pass [of "60 * second" ?s0] by (simp add: second_def)
  moreover have "run_step Environment ?s1 ?s2" using tick [of ?s1] by (simp add: c next_tick_after_def second_def)
  moreover have "run_step SelectTick ?s2 ?s3" using select_tick [of ?s2] by simp
  moreover have "run_step Worker ?s3 demo_ticked"
    using worker_take [of ?s3] by (simp add: demo_ticked_def c Let_def)
  ultimately show ?thesis by (meson run_reach.intros)
qed

theorem tick_is_never_lost_witness:
  "\<exists>v. rn_last_start demo_ticked = Some v \<and> 1060 * second \<le> v"
proof -
  have "rn_last_tick demo_ticked = Some (1060 * second)" "\<not> rn_request demo_ticked"
    by (simp_all add: demo_ticked_def Let_def)
  with tick_is_never_lost [OF demo_ticked_reach] show ?thesis by blast
qed

text \<open>
  C31: Heartbeats do not depend on the collectors: whenever the loop waits, whatever the worker is doing,
  the next report is due, or set to be due no later than the longer of the report interval and the
  largest backoff from now.
\<close>

theorem next_report_is_scheduled:
  assumes "run_reach (run_start init t a) s" and "intervals_ok (ag_cfg a)" and "rn_loop s = Selecting"
  shows "rn_timer s = Fired \<or> (\<exists>due\<le>rn_now s + longest_delay (ag_cfg a). rn_timer s = Armed due)"
  using schedule_reach [OF assms(1,2)] reach_cfg [OF assms(1)] assms(3)
  by (auto simp: schedule_inv_def run_start_def split: timer.splits)

theorem next_report_is_scheduled_witness:
  "rn_worker demo_ticked = Collecting [ProviderCodex, ProviderClaude] \<and>
     (rn_timer demo_ticked = Fired \<or> (\<exists>due\<le>rn_now demo_ticked + 2 * minute. rn_timer demo_ticked = Armed due))"
proof -
  have "intervals_ok (ag_cfg demo_new_agent)" "longest_delay (ag_cfg demo_new_agent) = 2 * minute"
    "rn_loop demo_ticked = Selecting" "rn_worker demo_ticked = Collecting [ProviderCodex, ProviderClaude]" by code_simp+
  with next_report_is_scheduled [OF demo_ticked_reach] show ?thesis by metis
qed

end
