(* ===== verification/Agent_Command.thy ===== *)
theory Agent_Command
  imports Store_Commands Agent_Run
begin

text \<open>
  The \<open>agent\<close> command of \<open>cmd/quota-monitor/main.go\<close>: the configuration file, the secret files it
  names, and what is handed to the agent. Parsing bytes as JSON is an argument (\<open>ae_json\<close>: the first
  value and what follows it); turning the value into the configuration structure, with its
  unknown-field check, is modelled.
\<close>

section \<open>The configuration file\<close>

record agentFileConfig =
  af_AgentID :: string
  af_ServerURL :: string
  af_TokenFile :: string
  af_HookAddr :: string
  af_HookSecretFile :: string
  af_CodexCommand :: string
  af_ClaudeCommand :: string
  af_PlanOverrides :: "(provider_name, string) gomap"
  af_ReportInterval :: string
  af_CollectInterval :: string
  af_SequentialCollection :: bool
  af_MaxBackoff :: string
  af_AllowInsecureHTTP :: bool

definition empty_config :: agentFileConfig where
  "empty_config =
     \<lparr>af_AgentID = [], af_ServerURL = [], af_TokenFile = [], af_HookAddr = [], af_HookSecretFile = [],
      af_CodexCommand = [], af_ClaudeCommand = [], af_PlanOverrides = [], af_ReportInterval = [],
      af_CollectInterval = [], af_SequentialCollection = False, af_MaxBackoff = [], af_AllowInsecureHTTP = False\<rparr>"

text \<open>Decoding a value into a field: \<open>null\<close> leaves the field alone, another type is an error.\<close>

definition decode_string :: "json \<Rightarrow> (string \<Rightarrow> 'c) \<Rightarrow> 'c \<Rightarrow> 'c option" where
  "decode_string v update cfg =
     (case v of JString s \<Rightarrow> Some (update s) | JNull \<Rightarrow> Some cfg | _ \<Rightarrow> None)"

definition decode_bool :: "json \<Rightarrow> (bool \<Rightarrow> 'c) \<Rightarrow> 'c \<Rightarrow> 'c option" where
  "decode_bool v update cfg = (case v of JBool b \<Rightarrow> Some (update b) | JNull \<Rightarrow> Some cfg | _ \<Rightarrow> None)"

fun decode_overrides :: "(string \<times> json) list \<Rightarrow> (provider_name, string) gomap \<Rightarrow> (provider_name, string) gomap option" where
  "decode_overrides [] m = Some m"
| "decode_overrides ((k, v) # rest) m =
     (case v of
        JString s \<Rightarrow> decode_overrides rest (gomap_put k s m)
      | JNull \<Rightarrow> decode_overrides rest (gomap_put k [] m)
      | _ \<Rightarrow> None)"

definition decode_field :: "string \<Rightarrow> json \<Rightarrow> agentFileConfig \<Rightarrow> agentFileConfig option" where
  "decode_field key v cfg =
     (if fold_eq key ''agentId'' then decode_string v (\<lambda>x. cfg\<lparr>af_AgentID := x\<rparr>) cfg
      else if fold_eq key ''serverUrl'' then decode_string v (\<lambda>x. cfg\<lparr>af_ServerURL := x\<rparr>) cfg
      else if fold_eq key ''tokenFile'' then decode_string v (\<lambda>x. cfg\<lparr>af_TokenFile := x\<rparr>) cfg
      else if fold_eq key ''hookAddr'' then decode_string v (\<lambda>x. cfg\<lparr>af_HookAddr := x\<rparr>) cfg
      else if fold_eq key ''hookSecretFile'' then decode_string v (\<lambda>x. cfg\<lparr>af_HookSecretFile := x\<rparr>) cfg
      else if fold_eq key ''codexCommand'' then decode_string v (\<lambda>x. cfg\<lparr>af_CodexCommand := x\<rparr>) cfg
      else if fold_eq key ''claudeCommand'' then decode_string v (\<lambda>x. cfg\<lparr>af_ClaudeCommand := x\<rparr>) cfg
      else if fold_eq key ''planOverrides'' then
        (case v of
           JObject pairs \<Rightarrow> map_option (\<lambda>m. cfg\<lparr>af_PlanOverrides := m\<rparr>) (decode_overrides pairs (af_PlanOverrides cfg))
         | JNull \<Rightarrow> Some (cfg\<lparr>af_PlanOverrides := []\<rparr>)
         | _ \<Rightarrow> None)
      else if fold_eq key ''reportInterval'' then decode_string v (\<lambda>x. cfg\<lparr>af_ReportInterval := x\<rparr>) cfg
      else if fold_eq key ''collectInterval'' then decode_string v (\<lambda>x. cfg\<lparr>af_CollectInterval := x\<rparr>) cfg
      else if fold_eq key ''sequentialCollection'' then decode_bool v (\<lambda>x. cfg\<lparr>af_SequentialCollection := x\<rparr>) cfg
      else if fold_eq key ''maxBackoff'' then decode_string v (\<lambda>x. cfg\<lparr>af_MaxBackoff := x\<rparr>) cfg
      else if fold_eq key ''allowInsecureHttp'' then decode_bool v (\<lambda>x. cfg\<lparr>af_AllowInsecureHTTP := x\<rparr>) cfg
      else None)"

fun decode_fields :: "(string \<times> json) list \<Rightarrow> agentFileConfig \<Rightarrow> agentFileConfig option" where
  "decode_fields [] cfg = Some cfg"
| "decode_fields ((k, v) # rest) cfg =
     (case decode_field k v cfg of None \<Rightarrow> None | Some cfg' \<Rightarrow> decode_fields rest cfg')"

definition decode_config :: "json \<Rightarrow> agentFileConfig option" where
  "decode_config v = (case v of JObject pairs \<Rightarrow> decode_fields pairs empty_config | JNull \<Rightarrow> Some empty_config | _ \<Rightarrow> None)"

datatype trailing = NothingMore | AnotherValue | OtherBytes

section \<open>The command\<close>

record agent_env =
  ae_host :: host_env
  ae_getenv :: "string \<Rightarrow> string"
  ae_expand :: "string \<Rightarrow> string"
  ae_dur :: "string \<Rightarrow> duration option"
  ae_json :: "string \<Rightarrow> (json \<times> trailing) option"
  ae_url :: "string \<Rightarrow> parsed_url option"
  ae_loopback :: "string \<Rightarrow> bool"
  ae_collect :: "provider_name \<Rightarrow> provider_report \<times> bool"
  ae_arrival :: "collectionResult list"
  ae_deliver :: "agent_report \<Rightarrow> delivery"
  ae_now :: time
  ae_prints :: bool

datatype agent_cmd_error =
    AgentFlags flag_error | AgentMessage string | ReadConfigFailed host_error | DecodeConfigFailed
  | TokenFileError string | HookSecretError string | IntervalError string | AgentRejected agent_error
  | ReportFailed | AgentPrintFailed

definition loadAgentConfig :: "agent_env \<Rightarrow> string \<Rightarrow> (agent_cmd_error, agentFileConfig) host_action" where
  "loadAgentConfig env path h =
     (case os_ReadFile (ae_host env) path h of
        (Inl e, h1) \<Rightarrow> (Inl (ReadConfigFailed e), h1)
      | (Inr payload, h1) \<Rightarrow>
          (case ae_json env payload of
             None \<Rightarrow> (Inl DecodeConfigFailed, h1)
           | Some (v, trail) \<Rightarrow>
               (case decode_config v of
                  None \<Rightarrow> (Inl DecodeConfigFailed, h1)
                | Some cfg \<Rightarrow>
                    if trail = AnotherValue then (Inl (AgentMessage ''decode agent config: trailing JSON value''), h1)
                    else if trail = OtherBytes then (Inl (AgentMessage ''decode agent config: trailing data''), h1)
                    else if af_AgentID cfg = [] \<or> af_ServerURL cfg = [] \<or> af_TokenFile cfg = [] \<or> af_HookSecretFile cfg = [] then
                      (Inl (AgentMessage ''agent config requires agentId, serverUrl, tokenFile, and hookSecretFile''), h1)
                    else (Inr cfg, h1))))"

definition readSecretFile :: "agent_env \<Rightarrow> string \<Rightarrow> string \<Rightarrow> (string, string) host_action" where
  "readSecretFile env baseDir path h =
     (if path = [] then (Inl ''secret file path is empty'', h)
      else case home_path (he_home (ae_host env)) (ae_expand env path) of
        None \<Rightarrow> (Inl ''home directory unknown'', h)
      | Some p \<Rightarrow>
          let target = (if is_rooted p then p else path_Join [baseDir, p])
          in case os_ReadFile (ae_host env) target h of
               (Inl _, h1) \<Rightarrow> (Inl ''read failed'', h1)
             | (Inr payload, h1) \<Rightarrow>
                 let secret = TrimSpace payload
                 in (if secret = [] then Inl ''secret file is empty'' else Inr secret, h1))"

definition durationOrDefault :: "(string \<Rightarrow> duration option) \<Rightarrow> string \<Rightarrow> duration \<Rightarrow> duration option" where
  "durationOrDefault parse_duration v fallback =
     (if TrimSpace v = [] then Some fallback
      else case parse_duration v of
        None \<Rightarrow> None
      | Some d \<Rightarrow> if d \<le> 0 then None else Some d)"

text \<open>The configuration \<open>runAgent\<close> builds from the file and what the file names.\<close>

definition agent_config_of :: "agentFileConfig \<Rightarrow> string \<Rightarrow> string \<Rightarrow> duration \<Rightarrow> duration \<Rightarrow> duration \<Rightarrow> agent_config" where
  "agent_config_of fc token hookSecret reportInterval collectInterval maxBackoff =
     \<lparr>cfg_AgentID = af_AgentID fc, cfg_ServerURL = af_ServerURL fc, cfg_Token = token, cfg_Codex = True, cfg_Claude = True,
      cfg_PlanOverrides = af_PlanOverrides fc, cfg_HookAddr = af_HookAddr fc, cfg_HookSecret = hookSecret,
      cfg_ReportInterval = reportInterval, cfg_CollectInterval = collectInterval,
      cfg_SequentialCollection = af_SequentialCollection fc, cfg_MaxBackoff = maxBackoff, cfg_ReportSink = False,
      cfg_AllowInsecureHTTP = af_AllowInsecureHTTP fc\<rparr>"

definition prepare_agent :: "agent_env \<Rightarrow> string \<Rightarrow> (agent_cmd_error, agent_config) host_action" where
  "prepare_agent env configPath =
     and_then (loadAgentConfig env configPath) (\<lambda>fc.
     and_then (map_error TokenFileError (readSecretFile env (Dir configPath) (af_TokenFile fc))) (\<lambda>token.
     and_then (map_error HookSecretError (readSecretFile env (Dir configPath) (af_HookSecretFile fc))) (\<lambda>hookSecret h.
       case durationOrDefault (ae_dur env) (af_ReportInterval fc) DefaultReportInterval of
         None \<Rightarrow> (Inl (IntervalError ''reportInterval''), h)
       | Some reportInterval \<Rightarrow>
           (case durationOrDefault (ae_dur env) (af_CollectInterval fc) DefaultCollectInterval of
              None \<Rightarrow> (Inl (IntervalError ''collectInterval''), h)
            | Some collectInterval \<Rightarrow>
                (case durationOrDefault (ae_dur env) (af_MaxBackoff fc) (2 * minute) of
                   None \<Rightarrow> (Inl (IntervalError ''maxBackoff''), h)
                 | Some maxBackoff \<Rightarrow>
                     (Inr (agent_config_of fc token hookSecret reportInterval collectInterval maxBackoff), h))))))"

datatype agent_outcome = AgentExits "agent_cmd_error option" "string list" | AgentRuns run_state

text \<open>\<open>--once\<close>: one collection, one report, and a line on the output when it was accepted.\<close>

definition run_once :: "agent_env \<Rightarrow> agent_config \<Rightarrow> agent_outcome" where
  "run_once env cfg =
     (case NewAgent (ae_url env) (ae_loopback env) cfg None of
        Inl e \<Rightarrow> AgentExits (Some (AgentRejected e)) []
      | Inr a \<Rightarrow>
          if \<not> fst (ReportOnce (ae_deliver env) (ae_now env) (CollectOnce (ae_collect env) (ae_arrival env) a))
          then AgentExits (Some ReportFailed) []
          else if ae_prints env then AgentExits None [''agent report accepted'']
          else AgentExits (Some AgentPrintFailed) [])"

text \<open>\<open>agent.Run\<close>: the scheduler starts, with an initial collection requested, unless \<open>New\<close> refuses.\<close>

definition agent_Run :: "agent_env \<Rightarrow> agent_config \<Rightarrow> agent_outcome" where
  "agent_Run env cfg =
     (case NewAgent (ae_url env) (ae_loopback env) cfg None of
        Inl e \<Rightarrow> AgentExits (Some (AgentRejected e)) []
      | Inr a \<Rightarrow> AgentRuns (run_start True (ae_now env) a))"

definition runAgent :: "agent_env \<Rightarrow> string list \<Rightarrow> host \<Rightarrow> agent_outcome \<times> host" where
  "runAgent env args h =
     (case Parse (ae_dur env)
             [(''config'', VString (envOr (ae_getenv env) ''QUOTA_MONITOR_AGENT_CONFIG'' ''agent.json'')), (''once'', VBool False)]
             args of
        Inl e \<Rightarrow> (AgentExits (Some (AgentFlags e)) [], h)
      | Inr (fs, rest) \<Rightarrow>
          if rest \<noteq> [] then (AgentExits (Some (AgentMessage ''agent accepts no positional arguments'')) [], h)
          else case prepare_agent env (string_flag fs ''config'') h of
            (Inl e, h1) \<Rightarrow> (AgentExits (Some e) [], h1)
          | (Inr cfg, h1) \<Rightarrow> (if bool_flag fs ''once'' then run_once env cfg else agent_Run env cfg, h1))"

section \<open>Properties\<close>

lemma durationOrDefault_positive: "durationOrDefault dur v fallback = Some d \<Longrightarrow> 0 < fallback \<Longrightarrow> 0 < d"
  by (auto simp: durationOrDefault_def split: if_splits option.splits)

lemma readSecretFile_nonempty: "readSecretFile env dir path h = (Inr secret, h') \<Longrightarrow> secret \<noteq> []"
  by (auto simp: readSecretFile_def Let_def split: if_splits option.splits prod.splits sum.splits)

lemma map_error_Inr: "map_error f m h = (Inr x, h') \<longleftrightarrow> m h = (Inr x, h')"
  by (auto simp: map_error_def split: prod.splits sum.splits)

lemma default_intervals: "0 < DefaultReportInterval" "0 < DefaultCollectInterval" "0 < 2 * minute"
  by (simp_all add: DefaultReportInterval_def DefaultCollectInterval_def duration_defs)

lemma prepare_agent_ok:
  assumes "prepare_agent env path h = (Inr cfg, h')"
  shows "cfg_Token cfg \<noteq> [] \<and> cfg_HookSecret cfg \<noteq> [] \<and> cfg_Codex cfg \<and> cfg_Claude cfg \<and> \<not> cfg_ReportSink cfg \<and>
    0 < cfg_ReportInterval cfg \<and> 0 < cfg_CollectInterval cfg \<and> 0 < cfg_MaxBackoff cfg"
proof -
  obtain fc token secret r c m h1 h2 h3 where
      f: "readSecretFile env (Dir path) (af_TokenFile fc) h1 = (Inr token, h2)"
        "readSecretFile env (Dir path) (af_HookSecretFile fc) h2 = (Inr secret, h3)"
    and d: "durationOrDefault (ae_dur env) (af_ReportInterval fc) DefaultReportInterval = Some r"
        "durationOrDefault (ae_dur env) (af_CollectInterval fc) DefaultCollectInterval = Some c"
        "durationOrDefault (ae_dur env) (af_MaxBackoff fc) (2 * minute) = Some m"
    and "cfg = agent_config_of fc token secret r c m"
    using assms unfolding prepare_agent_def
    by (auto elim!: and_then_cases simp: map_error_Inr split: option.splits)
  with f [THEN readSecretFile_nonempty] d [THEN durationOrDefault_positive] default_intervals show ?thesis
    by (simp add: agent_config_of_def)
qed

lemma NewAgent_cfg:
  assumes "NewAgent parse_url ip cfg led = ok a"
  shows "cfg_Token (ag_cfg a) = cfg_Token cfg \<and> cfg_HookSecret (ag_cfg a) = cfg_HookSecret cfg \<and>
    cfg_ServerURL (ag_cfg a) = cfg_ServerURL cfg \<and> cfg_Codex (ag_cfg a) = cfg_Codex cfg \<and> cfg_Claude (ag_cfg a) = cfg_Claude cfg \<and>
    cfg_AllowInsecureHTTP (ag_cfg a) = cfg_AllowInsecureHTTP cfg \<and>
    (0 < cfg_ReportInterval cfg \<longrightarrow> cfg_ReportInterval (ag_cfg a) = cfg_ReportInterval cfg) \<and>
    (0 < cfg_MaxBackoff cfg \<longrightarrow> cfg_MaxBackoff (ag_cfg a) = cfg_MaxBackoff cfg) \<and>
    server_url_error parse_url ip cfg = None"
  using assms by (auto simp: NewAgent_def positive_or_def split: if_splits option.splits sum.splits)

lemma server_url_safe:
  assumes "server_url_error parse_url ip cfg = None" and "\<not> cfg_ReportSink cfg"
  shows "\<exists>u. parse_url (cfg_ServerURL cfg) = Some u \<and> \<not> u_User u \<and>
    (u_Scheme u = ''https'' \<or> cfg_AllowInsecureHTTP cfg \<and> u_Scheme u = ''http'' \<and> isLoopbackHost ip (u_Hostname u))"
  using assms unfolding server_url_error_def by (auto split: if_splits option.splits)

lemma runAgent_runs:
  assumes "runAgent env args h = (AgentRuns s, h')"
  shows "\<exists>path cfg a. prepare_agent env path h = (Inr cfg, h') \<and> NewAgent (ae_url env) (ae_loopback env) cfg None = ok a \<and>
    s = run_start True (ae_now env) a"
  using assms
  by (auto simp: runAgent_def run_once_def agent_Run_def split: sum.splits prod.splits if_splits)


definition demo_agent_files :: host where
  "demo_agent_files = \<lparr>h_files = (\<lambda>k. if k = path_key ''/etc/qm/agent.json'' then Some (''config'', 384)
      else if k = path_key ''/etc/qm/token'' then Some (''qmon_abc '', 384)
      else if k = path_key ''/home/me/hook'' then Some (''s3cret'', 384) else None), h_calls = 0\<rparr>"

definition demo_agent_env :: agent_env where
  "demo_agent_env =
     \<lparr>ae_host = (demo_host_env (\<lambda>_. True))\<lparr>he_home := Some ''/home/me''\<rparr>, ae_getenv = (\<lambda>_. []), ae_expand = (\<lambda>s. s),
      ae_dur = (\<lambda>_. Some (30 * second)),
      ae_json = (\<lambda>_. Some (JObject [(''agentId'', JString ''host-1''), (''serverURL'', JString ''https://q''),
        (''tokenFile'', JString ''token''), (''hookSecretFile'', JString ''~/hook''), (''maxBackoff'', JString ''30s''),
        (''planOverrides'', JObject [(''claude'', JString ''max20'')])], NothingMore)),
      ae_url = demo_parse_url, ae_loopback = (\<lambda>_. False), ae_collect = demo_collect, ae_arrival = [],
      ae_deliver = (\<lambda>_. Responded 204), ae_now = 1000 * second, ae_prints = True\<rparr>"

fun runs_with :: "agent_outcome \<Rightarrow> run_state option" where
  "runs_with (AgentRuns s) = Some s" | "runs_with (AgentExits _ _) = None"


end
