(* ===== verification/Store_Snapshot.thy ===== *)
theory Store_Snapshot
  imports Store_Reports
begin

text \<open>
  The read side of \<open>internal/store/store.go\<close>: \<open>loadAgentSummary\<close>, \<open>loadLatestProvider\<close>,
  \<open>loadTaskSummary\<close> and \<open>BuildDisplaySnapshot\<close>. The snapshot is built by four queries that are
  not wrapped in a transaction: query \<open>i\<close> reads the database state \<open>dbs i\<close>, so that reports may
  be stored between the queries, and \<open>io i\<close> says whether the query succeeds.
\<close>

section \<open>Queries\<close>

definition AgentOnlineWindow :: duration where "AgentOnlineWindow = 45 * second"
definition TaskTTL :: duration where "TaskTTL = 15 * minute"
definition ProviderFreshWindow :: duration where "ProviderFreshWindow = 5 * minute"

definition unavailableProvider :: provider_snapshot where
  "unavailableProvider =
     \<lparr>ps_ObservedAt = None, ps_Freshness = FreshnessUnavailable, ps_LoginRequired = False,
      ps_Plan = [], ps_Source = [], ps_Windows = no_windows\<rparr>"

definition loadAgentSummary :: "bool \<Rightarrow> time \<Rightarrow> database \<Rightarrow> (store_error, agent_summary) result" where
  "loadAgentSummary reachable now db =
     (let threshold = UnixNano (Add now (- AgentOnlineWindow)) in
      if \<not> reachable then err ErrSQL
      else ok \<lparr>as_Online = length (filter (\<lambda>r. ag_last_report_at_ns r \<ge> threshold) (agents db)),
               as_Total = length (agents db)\<rparr>)"

text \<open>The rows of one provider that carry an observation, newest first, ties by agent.\<close>

definition latest_rows :: "provider_name \<Rightarrow> database \<Rightarrow> provider_row list" where
  "latest_rows p db =
     sort_key (\<lambda>r. (- pw_observed_at_ns r, pw_agent_id r))
       (filter (\<lambda>r. pw_provider r = p \<and> pw_observed_at_ns r > 0) (provider_reports db))"

definition candidate_of :: "time \<Rightarrow> provider_row \<Rightarrow> provider_windows \<Rightarrow> provider_snapshot" where
  "candidate_of now r windows =
     (let observedAt = FromUnixNano (pw_observed_at_ns r) in
      \<lparr>ps_ObservedAt = Some observedAt,
       ps_Freshness =
         (if FiveHour windows = None \<and> SevenDay windows = None then FreshnessUnavailable
          else if Sub now observedAt > ProviderFreshWindow then FreshnessStale
          else FreshnessFresh),
       ps_LoginRequired = (pw_auth_state r = ''unauthenticated'' \<or> pw_error_code r = ''not_authenticated''),
       ps_Plan = pw_plan r, ps_Source = pw_source r, ps_Windows = windows\<rparr>)"

definition loadLatestProvider ::
    "bool \<Rightarrow> provider_name \<Rightarrow> time \<Rightarrow> database \<Rightarrow> (store_error, provider_snapshot \<times> bool) result" where
  "loadLatestProvider reachable p now db =
     (if \<not> reachable then err ErrSQL
      else case latest_rows p db of
             [] \<Rightarrow> ok (unavailableProvider, False)
           | r # _ \<Rightarrow>
             (case unmarshal_windows (pw_windows_json r) of
                None \<Rightarrow> err (ErrDecodeWindows p)
              | Some windows \<Rightarrow> ok (candidate_of now r windows, True)))"

definition no_tasks :: task_summary where
  "no_tasks = \<lparr>ts_Codex = \<lparr>tc_Main = 0, tc_Sub = 0\<rparr>, ts_Claude = \<lparr>tc_Main = 0, tc_Sub = 0\<rparr>,
     ts_Total = \<lparr>tc_Main = 0, tc_Sub = 0\<rparr>\<rparr>"

definition count_kind :: "task_kind \<Rightarrow> task_count \<Rightarrow> task_count" where
  "count_kind k c =
     (if k = TaskMain then c\<lparr>tc_Main := tc_Main c + 1\<rparr>
      else if k = TaskSub then c\<lparr>tc_Sub := tc_Sub c + 1\<rparr> else c)"

fun count_tasks :: "(provider_name \<times> task_kind) list \<Rightarrow> task_summary \<Rightarrow> task_summary" where
  "count_tasks [] s = s"
| "count_tasks ((p, k) # rows) s =
     count_tasks rows
       (if p = ProviderCodex
        then s\<lparr>ts_Codex := count_kind k (ts_Codex s), ts_Total := count_kind k (ts_Total s)\<rparr>
        else if p = ProviderClaude
        then s\<lparr>ts_Claude := count_kind k (ts_Claude s), ts_Total := count_kind k (ts_Total s)\<rparr>
        else s)"

definition live_tasks :: "time \<Rightarrow> database \<Rightarrow> (provider_name \<times> task_kind) list" where
  "live_tasks now db =
     [(tr_provider t, tr_kind t). t \<leftarrow> active_tasks db, a \<leftarrow> agents db,
        ag_agent_id a = tr_agent_id t \<and>
        ag_last_report_at_ns a \<ge> UnixNano (Add now (- AgentOnlineWindow)) \<and>
        tr_last_seen_at_ns t \<ge> UnixNano (Add now (- TaskTTL))]"

definition loadTaskSummary ::
    "bool \<Rightarrow> time \<Rightarrow> database \<Rightarrow> task_summary \<Rightarrow> (store_error, task_summary) result" where
  "loadTaskSummary reachable now db s =
     (if \<not> reachable then err ErrSQL else ok (count_tasks (live_tasks now db) s))"

definition provider_warnings :: "provider_name \<Rightarrow> provider_snapshot \<Rightarrow> string list" where
  "provider_warnings p st =
     (if ps_LoginRequired st then [p @ ''_login_required'']
      else if ps_Freshness st \<noteq> FreshnessFresh then [p @ ''_'' @ freshness_text (ps_Freshness st)]
      else [])"

text \<open>One round of the loop over the two providers.\<close>

definition add_provider ::
    "bool \<Rightarrow> time \<Rightarrow> database \<Rightarrow> provider_name \<Rightarrow> display_snapshot \<Rightarrow> (store_error, display_snapshot) result" where
  "add_provider reachable now db p snapshot =
     (case loadLatestProvider reachable p now db of
        Inl e \<Rightarrow> err e
      | Inr (ps, found) \<Rightarrow>
          let providers = (if found then gomap_put p ps (ds_Providers snapshot) else ds_Providers snapshot);
              st = (case gomap_get providers p of Some x \<Rightarrow> x | None \<Rightarrow> unavailableProvider)
          in ok (snapshot\<lparr>ds_Providers := providers,
                          ds_Warnings := ds_Warnings snapshot @ provider_warnings p st\<rparr>))"

definition BuildDisplaySnapshot ::
    "io \<Rightarrow> (nat \<Rightarrow> database) \<Rightarrow> time \<Rightarrow> (store_error, display_snapshot) result" where
  "BuildDisplaySnapshot io dbs now =
     (case loadAgentSummary (io 0) now (dbs 0) of
        Inl e \<Rightarrow> err e
      | Inr summary \<Rightarrow>
        (let snapshot = \<lparr>ds_SchemaVersion = SchemaVersion, ds_GeneratedAt = now,
               ds_Providers = [(ProviderCodex, unavailableProvider), (ProviderClaude, unavailableProvider)],
               ds_Tasks = no_tasks, ds_Agents = summary, ds_Warnings = []\<rparr>
         in case add_provider (io 1) now (dbs 1) ProviderCodex snapshot of
              Inl e \<Rightarrow> err e
            | Inr snapshot1 \<Rightarrow>
              (case add_provider (io 2) now (dbs 2) ProviderClaude snapshot1 of
                 Inl e \<Rightarrow> err e
               | Inr snapshot2 \<Rightarrow>
                 (case loadTaskSummary (io 3) now (dbs 3) (ds_Tasks snapshot2) of
                    Inl e \<Rightarrow> err e
                  | Inr tasks \<Rightarrow> ok (snapshot2\<lparr>ds_Tasks := tasks\<rparr>)))))"

section \<open>The newest observation\<close>

text \<open>What the display shall show of one provider, stated without sorting.\<close>

definition observed_rows :: "provider_name \<Rightarrow> database \<Rightarrow> provider_row set" where
  "observed_rows p db = {r \<in> set (provider_reports db). pw_provider r = p \<and> pw_observed_at_ns r > 0}"

definition newest_row :: "provider_name \<Rightarrow> database \<Rightarrow> provider_row \<Rightarrow> bool" where
  "newest_row p db r =
     (r \<in> observed_rows p db \<and>
      (\<forall>q\<in>observed_rows p db. pw_observed_at_ns q < pw_observed_at_ns r \<or>
         pw_observed_at_ns q = pw_observed_at_ns r \<and> pw_agent_id r \<le> pw_agent_id q))"

lemma set_latest_rows: "set (latest_rows p db) = observed_rows p db"
  by (auto simp: latest_rows_def observed_rows_def)

lemma latest_rows_Nil: "latest_rows p db = [] \<longleftrightarrow> observed_rows p db = {}"
  by (metis set_empty set_latest_rows)

lemma latest_rows_Cons:
  assumes "latest_rows p db = r # rs"
  shows "newest_row p db r"
proof -
  have s: "sorted (map (\<lambda>r. (- pw_observed_at_ns r, pw_agent_id r)) (r # rs))"
    by (metis assms latest_rows_def sorted_sort_key)
  have "observed_rows p db = set (r # rs)" by (metis assms set_latest_rows)
  then show ?thesis
    using s unfolding newest_row_def by (auto simp: less_eq_prod_def)
qed

lemma newest_row_unique:
  assumes "reports_wf db" and "newest_row p db r" and "newest_row p db q"
  shows "r = q"
proof -
  have "pw_agent_id r = pw_agent_id q" "pw_provider r = pw_provider q"
    using assms(2,3) by (force simp: newest_row_def observed_rows_def)+
  then show ?thesis
    using distinct_key_eq [of "\<lambda>x. (pw_agent_id x, pw_provider x)" "provider_reports db" r q] assms
    by (simp add: reports_wf_def newest_row_def observed_rows_def)
qed

text \<open>The snapshot of one provider as a function of the newest row.\<close>

definition shown_provider :: "time \<Rightarrow> provider_name \<Rightarrow> database \<Rightarrow> provider_snapshot" where
  "shown_provider now p db =
     (case latest_rows p db of
        [] \<Rightarrow> unavailableProvider
      | r # _ \<Rightarrow> (case unmarshal_windows (pw_windows_json r) of
                    None \<Rightarrow> unavailableProvider
                  | Some ws \<Rightarrow> candidate_of now r ws))"

lemma reports_wf_unmarshal:
  "reports_wf db \<Longrightarrow> latest_rows p db = r # rs \<Longrightarrow> \<exists>ws. unmarshal_windows (pw_windows_json r) = Some ws"
  using latest_rows_Cons [of p db r rs]
  by (auto simp: reports_wf_def newest_row_def observed_rows_def)

lemma loadLatestProvider_ok:
  "reports_wf db \<Longrightarrow> loadLatestProvider True p now db =
     ok (shown_provider now p db, latest_rows p db \<noteq> [])"
  using reports_wf_unmarshal [of db p]
  by (fastforce simp: loadLatestProvider_def shown_provider_def split: list.splits option.splits)

lemma shown_provider_found:
  "latest_rows p db = [] \<Longrightarrow> shown_provider now p db = unavailableProvider"
  by (simp add: shown_provider_def)

section \<open>Counting tasks\<close>

definition kind_count :: "provider_name \<Rightarrow> task_kind \<Rightarrow> (provider_name \<times> task_kind) list \<Rightarrow> nat" where
  "kind_count p k rows = length (filter (\<lambda>x. x = (p, k)) rows)"

lemma count_tasks_eq:
  "count_tasks rows s =
     \<lparr>ts_Codex = \<lparr>tc_Main = tc_Main (ts_Codex s) + kind_count ProviderCodex TaskMain rows,
                   tc_Sub = tc_Sub (ts_Codex s) + kind_count ProviderCodex TaskSub rows\<rparr>,
      ts_Claude = \<lparr>tc_Main = tc_Main (ts_Claude s) + kind_count ProviderClaude TaskMain rows,
                    tc_Sub = tc_Sub (ts_Claude s) + kind_count ProviderClaude TaskSub rows\<rparr>,
      ts_Total = \<lparr>tc_Main = tc_Main (ts_Total s) + kind_count ProviderCodex TaskMain rows
                     + kind_count ProviderClaude TaskMain rows,
                   tc_Sub = tc_Sub (ts_Total s) + kind_count ProviderCodex TaskSub rows
                     + kind_count ProviderClaude TaskSub rows\<rparr>\<rparr>"
  by (induction rows s rule: count_tasks.induct)
    (auto simp: kind_count_def count_kind_def)

text \<open>A task row is live when its agent is online and it was seen within the time to live.\<close>

definition task_live :: "time \<Rightarrow> database \<Rightarrow> task_row \<Rightarrow> bool" where
  "task_live now db t =
     (tr_last_seen_at_ns t \<ge> UnixNano (now - TaskTTL) \<and>
      (case agent_view db (tr_agent_id t) of
         None \<Rightarrow> False
       | Some (_, recv, _) \<Rightarrow> recv \<ge> UnixNano (now - AgentOnlineWindow)))"

lemma concat_map_unique:
  assumes "distinct (map f xs)"
  shows "concat (map (\<lambda>x. if f x = k \<and> Q x then [y] else []) xs) =
    (case find (\<lambda>x. f x = k) xs of Some x \<Rightarrow> if Q x then [y] else [] | None \<Rightarrow> [])"
  using assms
proof (induction xs)
  case (Cons x xs)
  have "concat (map (\<lambda>x. if f x = k \<and> Q x then [y] else []) xs) = []" if "f x = k"
    using Cons.prems that by (auto simp: image_iff)
  with Cons show ?case by auto
qed simp

lemma concat_map_if: "concat (map (\<lambda>x. if P x then [f x] else []) xs) = map f (filter P xs)"
  by (induction xs) auto

lemma live_tasks_eq:
  assumes "reports_wf db"
  shows "live_tasks now db = map (\<lambda>t. (tr_provider t, tr_kind t)) (filter (task_live now db) (active_tasks db))"
proof -
  have d: "distinct (map ag_agent_id (agents db))" using assms by (simp add: reports_wf_def)
  have "concat (map (\<lambda>a. if ag_agent_id a = tr_agent_id t \<and>
        ag_last_report_at_ns a \<ge> UnixNano (Add now (- AgentOnlineWindow)) \<and>
        tr_last_seen_at_ns t \<ge> UnixNano (Add now (- TaskTTL))
        then [(tr_provider t, tr_kind t)] else []) (agents db)) =
      (if task_live now db t then [(tr_provider t, tr_kind t)] else [])" for t
    unfolding concat_map_unique [OF d]
    by (auto simp: task_live_def agent_view_def Add_def split: option.splits)
  then have "live_tasks now db =
      concat (map (\<lambda>t. if task_live now db t then [(tr_provider t, tr_kind t)] else []) (active_tasks db))"
    unfolding live_tasks_def by (simp cong: map_cong)
  also have "\<dots> = map (\<lambda>t. (tr_provider t, tr_kind t)) (filter (task_live now db) (active_tasks db))"
    by (rule concat_map_if)
  finally show ?thesis .
qed

definition live_count :: "time \<Rightarrow> database \<Rightarrow> provider_name \<Rightarrow> task_kind \<Rightarrow> nat" where
  "live_count now db p k =
     length (filter (\<lambda>t. task_live now db t \<and> tr_provider t = p \<and> tr_kind t = k) (active_tasks db))"

lemma kind_count_live:
  "reports_wf db \<Longrightarrow> kind_count p k (live_tasks now db) = live_count now db p k"
  by (simp add: live_tasks_eq kind_count_def live_count_def filter_map o_def conj_commute)

text \<open>Every live task falls into exactly one of the four counters.\<close>

lemma live_count_partition:
  assumes "\<forall>t\<in>set (active_tasks db). ValidProvider (tr_provider t) \<and> ValidTaskKind (tr_kind t)"
  shows "live_count now db ProviderCodex TaskMain + live_count now db ProviderClaude TaskMain +
      (live_count now db ProviderCodex TaskSub + live_count now db ProviderClaude TaskSub) =
    length (filter (task_live now db) (active_tasks db))"
proof -
  have "length (filter (\<lambda>t. P t \<and> tr_provider t = ProviderCodex \<and> tr_kind t = TaskMain) ts) +
      length (filter (\<lambda>t. P t \<and> tr_provider t = ProviderClaude \<and> tr_kind t = TaskMain) ts) +
      (length (filter (\<lambda>t. P t \<and> tr_provider t = ProviderCodex \<and> tr_kind t = TaskSub) ts) +
       length (filter (\<lambda>t. P t \<and> tr_provider t = ProviderClaude \<and> tr_kind t = TaskSub) ts)) =
      length (filter P ts)"
    if "\<forall>t\<in>set ts. ValidProvider (tr_provider t) \<and> ValidTaskKind (tr_kind t)" for P ts
    using that by (induction ts) (auto simp: ValidProvider_def ValidTaskKind_def)
  from this [OF assms] show ?thesis by (simp add: live_count_def)
qed

section \<open>The whole snapshot\<close>

lemma add_provider_ok:
  assumes "reports_wf db" and "gomap_get (ds_Providers snap) p = Some unavailableProvider"
  shows "add_provider True now db p snap =
    ok (snap\<lparr>ds_Providers := gomap_put p (shown_provider now p db) (ds_Providers snap),
             ds_Warnings := ds_Warnings snap @ provider_warnings p (shown_provider now p db)\<rparr>)"
proof (cases "latest_rows p db = []")
  case True
  have "gomap_put p unavailableProvider (ds_Providers snap) = ds_Providers snap"
    using assms(2) by (rule gomap_put_same_value)
  with True assms show ?thesis
    by (simp add: add_provider_def loadLatestProvider_ok shown_provider_found)
next
  case False
  with assms show ?thesis
    by (simp add: add_provider_def loadLatestProvider_ok gm.put_same)
qed

lemma BuildDisplaySnapshot_eq:
  assumes "\<forall>i. reports_wf (dbs i)"
  shows "BuildDisplaySnapshot reliable dbs now = ok
    \<lparr>ds_SchemaVersion = SchemaVersion, ds_GeneratedAt = now,
     ds_Providers = [(ProviderCodex, shown_provider now ProviderCodex (dbs 1)),
                     (ProviderClaude, shown_provider now ProviderClaude (dbs 2))],
     ds_Tasks = count_tasks (live_tasks now (dbs 3)) no_tasks,
     ds_Agents = \<lparr>as_Online = length (filter
         (\<lambda>r. ag_last_report_at_ns r \<ge> UnixNano (now - AgentOnlineWindow)) (agents (dbs 0))),
       as_Total = length (agents (dbs 0))\<rparr>,
     ds_Warnings = provider_warnings ProviderCodex (shown_provider now ProviderCodex (dbs 1)) @
       provider_warnings ProviderClaude (shown_provider now ProviderClaude (dbs 2))\<rparr>"
  using assms
  by (simp add: BuildDisplaySnapshot_def loadAgentSummary_def loadTaskSummary_def Let_def add_provider_ok
      gomap_get_def gomap_put_def Add_def)

text \<open>
  The entry of a provider shows the newest row: the unique row with the greatest observation
  time, with its decoded windows, fresh exactly when it has a window and is recent enough.
\<close>

definition shows_newest :: "time \<Rightarrow> provider_name \<Rightarrow> database \<Rightarrow> provider_snapshot \<Rightarrow> bool" where
  "shows_newest now p db st =
     (if observed_rows p db = {} then st = unavailableProvider
      else \<exists>r ws. newest_row p db r \<and> (\<forall>q. newest_row p db q \<longrightarrow> q = r) \<and>
         unmarshal_windows (pw_windows_json r) = Some ws \<and>
         ps_ObservedAt st = Some (pw_observed_at_ns r) \<and> ps_Windows st = ws \<and>
         ps_Plan st = pw_plan r \<and> ps_Source st = pw_source r \<and>
         (ps_LoginRequired st \<longleftrightarrow>
            pw_auth_state r = ''unauthenticated'' \<or> pw_error_code r = ''not_authenticated'') \<and>
         (ps_Freshness st = FreshnessFresh \<longleftrightarrow>
            ws \<noteq> no_windows \<and> now - pw_observed_at_ns r \<le> 5 * minute))"

lemma candidate_of_fresh:
  "ps_Freshness (candidate_of now r ws) = FreshnessFresh \<longleftrightarrow>
     ws \<noteq> no_windows \<and> now - pw_observed_at_ns r \<le> 5 * minute"
  using Sub_gt_iff [of "5 * minute" now "pw_observed_at_ns r"]
  by (auto simp: candidate_of_def Let_def no_windows_iff ProviderFreshWindow_def FromUnixNano_def
      duration_defs int64_defs)

lemma candidate_of_fields:
  "ps_ObservedAt (candidate_of now r ws) = Some (pw_observed_at_ns r)"
  "ps_Windows (candidate_of now r ws) = ws" "ps_Plan (candidate_of now r ws) = pw_plan r"
  "ps_Source (candidate_of now r ws) = pw_source r"
  "ps_LoginRequired (candidate_of now r ws) \<longleftrightarrow>
     pw_auth_state r = ''unauthenticated'' \<or> pw_error_code r = ''not_authenticated''"
  by (simp_all add: candidate_of_def Let_def FromUnixNano_def)

lemma shown_provider_newest:
  assumes "reports_wf db"
  shows "shows_newest now p db (shown_provider now p db)"
proof (cases "latest_rows p db")
  case Nil
  then show ?thesis by (simp add: shows_newest_def latest_rows_Nil [symmetric] shown_provider_found)
next
  case (Cons r rs)
  obtain ws where ws: "unmarshal_windows (pw_windows_json r) = Some ws"
    using reports_wf_unmarshal [OF assms Cons] by blast
  have "observed_rows p db \<noteq> {}" using Cons latest_rows_Nil [of p db] by simp
  moreover have "newest_row p db r" by (rule latest_rows_Cons [OF Cons])
  moreover have "shown_provider now p db = candidate_of now r ws"
    using Cons ws by (simp add: shown_provider_def)
  ultimately show ?thesis
    unfolding shows_newest_def using ws newest_row_unique [OF assms]
    by (auto simp: candidate_of_fields candidate_of_fresh intro!: exI [of _ r])
qed

section \<open>Properties\<close>


definition demo_database :: database where
  "demo_database = snd (ReplaceAgentReport reliable (demo_report ''pc-1'' (1000 * second)) (1001 * second)
     empty_database)"

lemma demo_database_wf: "reports_wf demo_database"
  unfolding demo_database_def by (intro reports_wf_replace reports_wf_empty)


text \<open>
  The task counters of a snapshot are exact. Each counter is the number of stored tasks of
  that provider and kind whose agent reported within the last 45 seconds and which were seen
  within the last 15 minutes; the totals are the sums over the two providers and together
  count every live task once.
\<close>

theorem snapshot_counts_live_tasks:
  assumes "\<forall>i. reports_wf (dbs i)"
  shows "\<exists>snap. BuildDisplaySnapshot reliable dbs now = ok snap \<and>
    ts_Codex (ds_Tasks snap) = \<lparr>tc_Main = live_count now (dbs 3) ProviderCodex TaskMain,
      tc_Sub = live_count now (dbs 3) ProviderCodex TaskSub\<rparr> \<and>
    ts_Claude (ds_Tasks snap) = \<lparr>tc_Main = live_count now (dbs 3) ProviderClaude TaskMain,
      tc_Sub = live_count now (dbs 3) ProviderClaude TaskSub\<rparr> \<and>
    tc_Main (ts_Total (ds_Tasks snap)) + tc_Sub (ts_Total (ds_Tasks snap)) =
      length (filter (task_live now (dbs 3)) (active_tasks (dbs 3)))"
proof -
  have wf: "reports_wf (dbs 3)" using assms by blast
  have all: "\<forall>t\<in>set (active_tasks (dbs 3)). ValidProvider (tr_provider t) \<and> ValidTaskKind (tr_kind t)"
    using wf by (simp add: reports_wf_def)
  show ?thesis
    unfolding BuildDisplaySnapshot_eq [OF assms] count_tasks_eq
    using live_count_partition [OF all, of now]
    by (simp add: no_tasks_def kind_count_live [OF wf])
qed

theorem snapshot_counts_live_tasks_witness:
  "\<exists>snap. BuildDisplaySnapshot reliable (\<lambda>_. demo_database) (1010 * second) = ok snap \<and>
     tc_Main (ts_Total (ds_Tasks snap)) + tc_Sub (ts_Total (ds_Tasks snap)) = 2"
proof -
  have "length (filter (task_live (1010 * second) demo_database) (active_tasks demo_database)) = 2"
    by code_simp
  with snapshot_counts_live_tasks [of "\<lambda>_. demo_database" "1010 * second"] demo_database_wf
  show ?thesis by auto
qed

text \<open>The row of an accepted report that is newer than those of all other agents is the newest one.\<close>

lemma stored_rows:
  assumes "schema_ok rep" and "newer (UnixNano (ar_SentAt rep)) (agent_view db (ar_AgentID rep))"
  shows "provider_reports (snd (ReplaceAgentReport reliable rep recv db)) =
    filter (\<lambda>r. pw_agent_id r \<noteq> ar_AgentID rep) (provider_reports db) @ report_provider_rows rep"
  using assms(2) by (auto simp: ReplaceAgentReport_total [OF assms(1)] upsert_agent_def agent_view_def
      newer_def split: option.splits)

lemma stored_row_fields:
  assumes "0 < ObservedAt r" and "in_int64 (ObservedAt r)"
  shows "provider_row_of a p r blob = \<lparr>pw_agent_id = a, pw_provider = p, pw_observed_at_ns = ObservedAt r,
    pw_auth_state = AuthState r, pw_plan = Plan r, pw_source = Source r, pw_windows_json = blob, pw_error_code = ErrorCode r\<rparr>"
proof -
  have "IsZero (ObservedAt r) = False" using assms(1) by (simp add: IsZero_def zero_time_def second_def)
  with assms(2) show ?thesis by (simp add: provider_row_of_def)
qed

lemma stored_row_is_newest:
  assumes "reports_wf db" and "schema_ok rep"
    and "newer (UnixNano (ar_SentAt rep)) (agent_view db (ar_AgentID rep))"
    and "(p, r) \<in> set (range_of (ar_Providers rep))" and "0 < ObservedAt r" and "in_int64 (ObservedAt r)"
    and "\<forall>q\<in>observed_rows p db. pw_agent_id q = ar_AgentID rep \<or> pw_observed_at_ns q < ObservedAt r"
  shows "newest_row p (snd (ReplaceAgentReport reliable rep recv db)) (provider_row_of (ar_AgentID rep) p r (WindowsJSON (Windows r)))"
    (is "newest_row p ?db ?row")
  unfolding newest_row_def
proof (intro conjI ballI)
  have wf: "reports_wf ?db" by (rule reports_wf_replace [OF assms(1)])
  note rows = stored_rows [OF assms(2,3), of recv] and row = stored_row_fields [OF assms(5,6)]
  have mem: "?row \<in> set (provider_reports ?db)"
    using assms(4) unfolding rows report_provider_rows_def by force
  show "?row \<in> observed_rows p ?db" using mem assms(5) by (simp add: observed_rows_def row)
  fix q assume q: "q \<in> observed_rows p ?db"
  show "pw_observed_at_ns q < pw_observed_at_ns ?row \<or>
      pw_observed_at_ns q = pw_observed_at_ns ?row \<and> pw_agent_id ?row \<le> pw_agent_id q"
  proof (cases "pw_agent_id q = ar_AgentID rep")
    case True
    with q mem wf have "q = ?row"
      by (intro distinct_key_eq [of "\<lambda>x. (pw_agent_id x, pw_provider x)" "provider_reports ?db"])
        (simp_all add: reports_wf_def observed_rows_def row)
    then show ?thesis by simp
  next
    case False
    with q have "q \<in> observed_rows p db"
      unfolding observed_rows_def rows by (auto simp: report_provider_rows_def provider_row_of_def)
    with False assms(7) show ?thesis by (auto simp: row)
  qed
qed

lemma newest_row_is_shown:
  assumes "reports_wf db" and "newest_row p db row"
  shows "ps_ObservedAt (shown_provider now p db) = Some (pw_observed_at_ns row) \<and>
    unmarshal_windows (pw_windows_json row) = Some (ps_Windows (shown_provider now p db)) \<and>
    ps_Plan (shown_provider now p db) = pw_plan row \<and> ps_Source (shown_provider now p db) = pw_source row"
proof -
  have "observed_rows p db \<noteq> {}" using assms(2) by (auto simp: newest_row_def)
  then obtain q where "newest_row p db q" "unmarshal_windows (pw_windows_json q) = Some (ps_Windows (shown_provider now p db))"
      "ps_ObservedAt (shown_provider now p db) = Some (pw_observed_at_ns q)"
      "ps_Plan (shown_provider now p db) = pw_plan q" "ps_Source (shown_provider now p db) = pw_source q"
    using shown_provider_newest [OF assms(1), of now p] unfolding shows_newest_def by (simp only: if_False) blast
  moreover from this(1) have "q = row" by (rule newest_row_unique [OF assms(1) _ assms(2)])
  ultimately show ?thesis by simp
qed

text \<open>
  C23: What an agent reports is what the display shows. After a report is accepted, a provider
  entry of it whose observation (in the range of nanosecond stamps) is newer than those of all
  other agents comes back from \<open>BuildDisplaySnapshot\<close> unchanged: observation time, windows,
  plan and source.
\<close>

theorem stored_report_is_displayed:
  assumes "reports_wf db" and "schema_ok rep"
    and "newer (UnixNano (ar_SentAt rep)) (agent_view db (ar_AgentID rep))"
    and "(p, r) \<in> set (range_of (ar_Providers rep))"
    and "0 < ObservedAt r" and "in_int64 (ObservedAt r)"
    and "\<forall>q\<in>observed_rows p db. pw_agent_id q = ar_AgentID rep \<or> pw_observed_at_ns q < ObservedAt r"
  shows "\<exists>snap st. BuildDisplaySnapshot reliable
        (\<lambda>_. snd (ReplaceAgentReport reliable rep recv db)) now = ok snap \<and>
      gomap_get (ds_Providers snap) p = Some st \<and> ps_ObservedAt st = Some (ObservedAt r) \<and>
      ps_Windows st = Windows r \<and> ps_Plan st = Plan r \<and> ps_Source st = Source r"
proof -
  let ?db = "snd (ReplaceAgentReport reliable rep recv db)"
  have wf: "reports_wf ?db" by (rule reports_wf_replace [OF assms(1)])
  have "p = ProviderCodex \<or> p = ProviderClaude"
    using assms(2,4) by (auto simp: schema_ok_def ValidProvider_def)
  with newest_row_is_shown [OF wf stored_row_is_newest [OF assms], of now] show ?thesis
    using BuildDisplaySnapshot_eq [of "\<lambda>_. ?db" now] wf
    by (auto simp: gomap_get_def stored_row_fields [OF assms(5,6)])
qed

theorem stored_report_is_displayed_witness:
  "\<exists>snap st. BuildDisplaySnapshot reliable (\<lambda>_. demo_database) (1010 * second) = ok snap \<and>
     gomap_get (ds_Providers snap) ProviderCodex = Some st \<and> ps_Windows st = Windows demo_provider"
proof -
  have "newer (UnixNano (1000 * second)) (agent_view empty_database ''pc-1'')"
    by (simp add: newer_def agent_view_def empty_database_def)
  moreover have "0 < ObservedAt demo_provider" "in_int64 (ObservedAt demo_provider)"
    by (simp_all add: demo_provider_def second_def int64_defs)
  ultimately show ?thesis
    using stored_report_is_displayed [OF reports_wf_empty demo_schema_ok [of "''pc-1''" "1000 * second"],
        of ProviderCodex demo_provider "1001 * second" "1010 * second"]
    by (auto simp: demo_database_def demo_report_def range_of_def observed_rows_def empty_database_def)
qed

definition ancient_provider :: provider_report where
  "ancient_provider = demo_provider\<lparr>ObservedAt := - 11676096000 * second\<rparr>"

definition ancient_report :: agent_report where
  "ancient_report = (demo_report ''pc-1'' (1000 * second))\<lparr>ar_Providers := Some [(ProviderCodex, ancient_provider)]\<rparr>"

text \<open>
  A validated report can pin the display. Validation bounds an observation time from above
  only, and \<open>UnixNano\<close> wraps around outside 1678--2262: a report whose observation is dated 1600
  is accepted, is stored as an observation of the year 2184 and is shown as fresh and newer than
  any honest one.
\<close>

theorem ancient_observation_is_shown_fresh:
  "ValidateAgentReport ancient_report (1001 * second) = None \<and>
   (\<exists>snap st t. BuildDisplaySnapshot reliable
        (\<lambda>_. snd (ReplaceAgentReport reliable ancient_report (1001 * second) empty_database)) (2000000000 * second)
        = ok snap \<and>
      gomap_get (ds_Providers snap) ProviderCodex = Some st \<and>
      ps_Freshness st = FreshnessFresh \<and> ps_ObservedAt st = Some t \<and> 2000000000 * second < t)"
proof -
  let ?db = "snd (ReplaceAgentReport reliable ancient_report (1001 * second) empty_database)"
  have v: "ValidateAgentReport ancient_report (1001 * second) = None"
    unfolding ValidateAgentReport_iff
    using demo_report_wf
    by (simp add: report_wf_def ancient_report_def demo_report_def ancient_provider_def provider_wf_def
        demo_provider_def MaxFutureSkew_def zero_time_def duration_defs)
  have wf: "reports_wf ?db" by (intro reports_wf_replace reports_wf_empty)
  have "map (\<lambda>r. (pw_observed_at_ns r, pw_windows_json r)) (latest_rows ProviderCodex ?db) =
      [(6770648073709551616, WindowsJSON (Windows demo_provider))]"
    by code_simp
  then obtain r where r: "latest_rows ProviderCodex ?db = [r]" "pw_observed_at_ns r = 6770648073709551616"
    "pw_windows_json r = WindowsJSON (Windows demo_provider)" by auto
  then have sh: "shown_provider now ProviderCodex ?db = candidate_of now r (Windows demo_provider)" for now
    by (simp add: shown_provider_def)
  have "ps_Freshness (candidate_of (2000000000 * second) r (Windows demo_provider)) = FreshnessFresh"
    unfolding candidate_of_fresh using r(2)
    by (simp add: demo_provider_def no_windows_def duration_defs)
  with v r(2) show ?thesis
    using BuildDisplaySnapshot_eq [of "\<lambda>_. ?db" "2000000000 * second"] wf sh
    by (auto simp: gomap_get_def candidate_of_fields second_def)
qed

end
