(* ===== verification/Limiter.thy ===== *)
theory Limiter
  imports Go_Time Go_Strings
begin

text \<open>
  \<open>fixedWindowLimiter\<close> of \<open>internal/server/server.go\<close>: a map from keys to the start and the count
  of the current window, pruned when it grows. The properties compare it with one automaton per
  key that is never pruned, which is the contract the server relies on.
\<close>

record fixedWindowEntry =
  fe_start :: time
  fe_count :: int

record fixedWindowLimiter =
  fl_window :: duration
  fl_entries :: "(string, fixedWindowEntry) gomap"

definition newFixedWindowLimiter :: "duration \<Rightarrow> fixedWindowLimiter" where
  "newFixedWindowLimiter w = \<lparr>fl_window = w, fl_entries = []\<rparr>"

definition limiter_prune :: "time \<Rightarrow> fixedWindowLimiter \<Rightarrow> fixedWindowLimiter" where
  "limiter_prune now l =
     (if length (fl_entries l) < 4096 then l
      else l\<lparr>fl_entries := gomap_drop (\<lambda>key entry.
        Sub now (fe_start entry) \<ge> 2 * fl_window l \<or> Before now (fe_start entry)) (fl_entries l)\<rparr>)"

definition Allow ::
    "string \<Rightarrow> time \<Rightarrow> int \<Rightarrow> fixedWindowLimiter \<Rightarrow> (bool \<times> duration) \<times> fixedWindowLimiter" where
  "Allow key now limit l =
     (let restart = ((True, 0), limiter_prune now
            (l\<lparr>fl_entries := gomap_put key \<lparr>fe_start = now, fe_count = 1\<rparr> (fl_entries l)\<rparr>))
      in case gomap_get (fl_entries l) key of
           None \<Rightarrow> restart
         | Some entry \<Rightarrow>
             if Sub now (fe_start entry) \<ge> fl_window l \<or> Before now (fe_start entry) then restart
             else if fe_count entry \<ge> limit
             then ((False, Sub (Add (fe_start entry) (fl_window l)) now), l)
             else ((True, 0), l\<lparr>fl_entries :=
                     gomap_put key (entry\<lparr>fe_count := fe_count entry + 1\<rparr>) (fl_entries l)\<rparr>))"

section \<open>One automaton per key\<close>

text \<open>An entry counts only while its window is open.\<close>

definition expired :: "duration \<Rightarrow> time \<Rightarrow> fixedWindowEntry \<Rightarrow> bool" where
  "expired w now e = (Sub now (fe_start e) \<ge> w \<or> Before now (fe_start e))"

definition open_entry :: "duration \<Rightarrow> time \<Rightarrow> fixedWindowEntry option \<Rightarrow> fixedWindowEntry option" where
  "open_entry w now e = (case e of None \<Rightarrow> None | Some x \<Rightarrow> if expired w now x then None else Some x)"

definition slot_allow ::
    "duration \<Rightarrow> int \<Rightarrow> time \<Rightarrow> fixedWindowEntry option \<Rightarrow> bool \<times> fixedWindowEntry option" where
  "slot_allow w limit now e =
     (case open_entry w now e of
        None \<Rightarrow> (True, Some \<lparr>fe_start = now, fe_count = 1\<rparr>)
      | Some x \<Rightarrow> if fe_count x \<ge> limit then (False, Some x)
                  else (True, Some (x\<lparr>fe_count := fe_count x + 1\<rparr>)))"

definition limiter_wf :: "fixedWindowLimiter \<Rightarrow> bool" where
  "limiter_wf l = (gomap_wf (fl_entries l) \<and> 0 < fl_window l \<and> 2 * fl_window l < max_int64)"

lemma limiter_wf_new: "0 < w \<Longrightarrow> 2 * w < max_int64 \<Longrightarrow> limiter_wf (newFixedWindowLimiter w)"
  by (simp add: limiter_wf_def newFixedWindowLimiter_def gm.wf_empty)

lemma limiter_prune_window [frame_simps]: "fl_window (limiter_prune now l) = fl_window l"
  by (simp add: limiter_prune_def)

lemma Allow_window [frame_simps]: "fl_window (snd (Allow key now limit l)) = fl_window l"
  by (simp add: Allow_def Let_def frame_simps split: option.split)

lemma limiter_wf_prune [inv_intros]: "limiter_wf l \<Longrightarrow> limiter_wf (limiter_prune now l)"
  by (simp add: limiter_wf_def limiter_prune_def gomap_wfs)

lemma limiter_wf_allow [inv_intros]: "limiter_wf l \<Longrightarrow> limiter_wf (snd (Allow key now limit l))"
proof -
  assume l: "limiter_wf l"
  then have "limiter_wf (l\<lparr>fl_entries := gomap_put key e (fl_entries l)\<rparr>)" for e
    by (simp add: limiter_wf_def gomap_wfs)
  with l show ?thesis by (simp add: Allow_def Let_def inv_intros split: option.split)
qed

lemma Sub_expired:
  "limiter_wf l \<Longrightarrow> expired (fl_window l) now e \<longleftrightarrow> now - fe_start e \<ge> fl_window l \<or> now < fe_start e"
  using Sub_ge_iff [of "fl_window l" now "fe_start e"]
  by (auto simp: expired_def limiter_wf_def Before_def min_int64_def max_int64_def)

text \<open>Under a clock that does not go back, no window starts in the future.\<close>

definition windows_past :: "time \<Rightarrow> fixedWindowLimiter \<Rightarrow> bool" where
  "windows_past now l = (\<forall>(k, e)\<in>set (fl_entries l). fe_start e \<le> now)"

lemma windows_past_mono: "windows_past now l \<Longrightarrow> now \<le> later \<Longrightarrow> windows_past later l"
  by (auto simp: windows_past_def)

lemma windows_past_get: "windows_past now l \<Longrightarrow> gomap_get (fl_entries l) k = Some e \<Longrightarrow> fe_start e \<le> now"
  by (auto simp: windows_past_def dest: gomap_get_in_set)

lemma windows_past_allow:
  assumes "limiter_wf l" and "windows_past now l"
  shows "windows_past now (snd (Allow key now limit l))"
proof -
  have put: "windows_past now (l\<lparr>fl_entries := gomap_put key e (fl_entries l)\<rparr>)" if "fe_start e \<le> now" for e
    using that assms by (auto simp: windows_past_def set_gomap_put limiter_wf_def)
  have prune: "windows_past now (limiter_prune now m)" if "windows_past now m" for m
    using that by (auto simp: windows_past_def limiter_prune_def set_gomap_drop)
  show ?thesis
    using put prune assms(2) windows_past_get [OF assms(2)]
    by (auto simp: Allow_def Let_def split: option.split)
qed

text \<open>Pruning removes closed windows only, so no later request can notice it.\<close>

lemma prune_invisible:
  assumes "limiter_wf l" and "windows_past now l" and "now \<le> later"
  shows "open_entry (fl_window l) later (gomap_get (fl_entries (limiter_prune now l)) k) =
    open_entry (fl_window l) later (gomap_get (fl_entries l) k)"
proof (cases "gomap_get (fl_entries l) k")
  case None
  with assms show ?thesis by (simp add: limiter_prune_def limiter_wf_def gm.get_drop)
next
  case (Some e)
  have past: "fe_start e \<le> now" by (rule windows_past_get [OF assms(2) Some])
  have "Sub now (fe_start e) \<ge> 2 * fl_window l \<longleftrightarrow> now - fe_start e \<ge> 2 * fl_window l"
    using assms(1) by (intro Sub_ge_iff) (auto simp: limiter_wf_def min_int64_def max_int64_def)
  then show ?thesis
    using Some assms past
    by (auto simp: limiter_prune_def limiter_wf_def gm.get_drop open_entry_def Sub_expired Before_def)
qed

lemma windows_past_put:
  assumes "limiter_wf l" and "windows_past now l" and "fe_start e \<le> now"
  shows "windows_past now (l\<lparr>fl_entries := gomap_put key e (fl_entries l)\<rparr>)"
  using assms by (auto simp: windows_past_def set_gomap_put limiter_wf_def)

lemma limiter_wf_put: "limiter_wf l \<Longrightarrow> limiter_wf (l\<lparr>fl_entries := gomap_put key e (fl_entries l)\<rparr>)"
  by (simp add: limiter_wf_def gomap_wfs)

text \<open>The limiter behaves, key by key, like the unpruned automaton.\<close>

lemma Allow_answer:
  "fst (fst (Allow key now limit l)) = fst (slot_allow (fl_window l) limit now (gomap_get (fl_entries l) key))"
  by (auto simp: Allow_def Let_def slot_allow_def open_entry_def expired_def split: option.split)

lemma Allow_other:
  assumes "limiter_wf l" and "windows_past now l" and "now \<le> later" and "k \<noteq> key"
  shows "open_entry (fl_window l) later (gomap_get (fl_entries (snd (Allow key now limit l))) k) =
    open_entry (fl_window l) later (gomap_get (fl_entries l) k)"
proof -
  let ?l = "l\<lparr>fl_entries := gomap_put key \<lparr>fe_start = now, fe_count = 1\<rparr> (fl_entries l)\<rparr>"
  have "open_entry (fl_window l) later (gomap_get (fl_entries (limiter_prune now ?l)) k) =
      open_entry (fl_window l) later (gomap_get (fl_entries l) k)"
    using prune_invisible [OF limiter_wf_put [OF assms(1)] windows_past_put [OF assms(1,2)] assms(3)] assms(4)
    by (simp add: gm.put_other)
  then show ?thesis
    using assms(4) by (auto simp: Allow_def Let_def gm.put_other split: option.split)
qed

lemma Allow_same:
  assumes "limiter_wf l" and "windows_past now l" and "now \<le> later"
  shows "open_entry (fl_window l) later (gomap_get (fl_entries (snd (Allow key now limit l))) key) =
    open_entry (fl_window l) later (snd (slot_allow (fl_window l) limit now (gomap_get (fl_entries l) key)))"
proof -
  let ?l = "l\<lparr>fl_entries := gomap_put key \<lparr>fe_start = now, fe_count = 1\<rparr> (fl_entries l)\<rparr>"
  have "open_entry (fl_window l) later (gomap_get (fl_entries (limiter_prune now ?l)) key) =
      open_entry (fl_window l) later (Some \<lparr>fe_start = now, fe_count = 1\<rparr>)"
    using prune_invisible [OF limiter_wf_put [OF assms(1)] windows_past_put [OF assms(1,2)] assms(3)]
    by (simp add: gm.put_same)
  then show ?thesis
    by (auto simp: Allow_def Let_def slot_allow_def gm.put_same open_entry_def [of _ now] expired_def [of _ now]
        split: option.split)
qed

lemma slot_allow_open:
  "slot_allow w limit now (open_entry w now e) = slot_allow w limit now e"
  by (cases e) (auto simp: slot_allow_def open_entry_def)

section \<open>Sequences of requests\<close>

fun allow_run ::
    "int \<Rightarrow> (string \<times> time) list \<Rightarrow> fixedWindowLimiter \<Rightarrow> bool list" where
  "allow_run limit [] l = []"
| "allow_run limit ((key, now) # rs) l =
     (let r = Allow key now limit l in fst (fst r) # allow_run limit rs (snd r))"

fun slot_run :: "duration \<Rightarrow> int \<Rightarrow> time list \<Rightarrow> fixedWindowEntry option \<Rightarrow> bool list" where
  "slot_run w limit [] e = []"
| "slot_run w limit (now # ts) e =
     (let r = slot_allow w limit now e in fst r # slot_run w limit ts (snd r))"

text \<open>The granted request times of one key.\<close>

definition granted :: "string \<Rightarrow> (string \<times> time) list \<Rightarrow> bool list \<Rightarrow> time list" where
  "granted k rs bs = map (\<lambda>x. snd (fst x)) (filter (\<lambda>x. fst (fst x) = k \<and> snd x) (zip rs bs))"

definition slot_granted :: "time list \<Rightarrow> bool list \<Rightarrow> time list" where
  "slot_granted ts bs = map fst (filter snd (zip ts bs))"

lemma slot_run_open:
  "ts \<noteq> [] \<longrightarrow> open_entry w (hd ts) e = open_entry w (hd ts) e' \<Longrightarrow>
     slot_run w limit ts e = slot_run w limit ts e'"
  by (cases ts) (auto simp: Let_def slot_allow_def)

lemma allow_run_refines:
  assumes "limiter_wf l" and "sorted (map snd rs)" and "rs \<noteq> [] \<longrightarrow> windows_past (snd (hd rs)) l"
    and "\<forall>t. (\<exists>a. (k, t) = a \<and> a \<in> set rs) \<longrightarrow>
       open_entry (fl_window l) t (gomap_get (fl_entries l) k) = open_entry (fl_window l) t e"
  shows "granted k rs (allow_run limit rs l) =
    slot_granted (map snd (filter (\<lambda>r. fst r = k) rs))
      (slot_run (fl_window l) limit (map snd (filter (\<lambda>r. fst r = k) rs)) e)"
  using assms
proof (induction rs arbitrary: l e)
  case Nil
  show ?case by (simp add: granted_def slot_granted_def)
next
  case (Cons r rs)
  obtain key now where r: "r = (key, now)" by (cases r)
  let ?l = "snd (Allow key now limit l)"
  have past: "windows_past now l" using Cons.prems(3) by (simp add: r)
  have wf: "limiter_wf ?l" by (rule limiter_wf_allow [OF Cons.prems(1)])
  have le: "now \<le> t" if "(k', t) \<in> set rs" for k' t using Cons.prems(2) that by (auto simp: r)
  have past': "rs \<noteq> [] \<longrightarrow> windows_past (snd (hd rs)) ?l"
    using windows_past_mono [OF windows_past_allow [OF Cons.prems(1) past]] le
    by (metis hd_in_set prod.collapse)
  have srt: "sorted (map snd rs)" using Cons.prems(2) by simp
  show ?case
  proof (cases "key = k")
    case True
    let ?e = "snd (slot_allow (fl_window l) limit now e)"
    have eq: "slot_allow (fl_window l) limit now (gomap_get (fl_entries l) k) = slot_allow (fl_window l) limit now e"
      using Cons.prems(4) True by (metis list.set_intros(1) r slot_allow_open)
    have "granted k rs (allow_run limit rs ?l) =
        slot_granted (map snd (filter (\<lambda>r. fst r = k) rs))
          (slot_run (fl_window ?l) limit (map snd (filter (\<lambda>r. fst r = k) rs)) ?e)"
      using Allow_same [OF Cons.prems(1) past] le True eq
      by (intro Cons.IH [OF wf srt past']) (auto simp: frame_simps)
    then show ?thesis
      using True eq Allow_answer [of key now limit l]
      by (simp add: r Let_def granted_def slot_granted_def frame_simps)
  next
    case False
    have "granted k rs (allow_run limit rs ?l) =
        slot_granted (map snd (filter (\<lambda>r. fst r = k) rs))
          (slot_run (fl_window ?l) limit (map snd (filter (\<lambda>r. fst r = k) rs)) e)"
      using Allow_other [OF Cons.prems(1) past] le False Cons.prems(4)
      by (intro Cons.IH [OF wf srt past']) (auto simp: frame_simps)
    then show ?thesis using False by (simp add: r Let_def granted_def frame_simps)
  qed
qed

section \<open>How many requests a key is granted\<close>

lemma slot_granted_simps [simp]:
  "slot_granted [] bs = []"
  "slot_granted (t # ts) (b # bs) = (if b then [t] else []) @ slot_granted ts bs"
  by (simp_all add: slot_granted_def)

lemma length_slot_run [simp]: "length (slot_run w limit ts e) = length ts"
  by (induction w limit ts e rule: slot_run.induct) (auto simp: Let_def)

lemma set_slot_granted: "set (slot_granted ts bs) \<subseteq> set ts"
  by (auto simp: slot_granted_def dest: set_zip_leftD)

text \<open>Exact meaning of an open window for a duration that \<open>Sub\<close> can represent.\<close>

lemma expired_iff:
  "0 < w \<Longrightarrow> w < max_int64 \<Longrightarrow> expired w now e \<longleftrightarrow> fe_start e + w \<le> now \<or> now < fe_start e"
  using Sub_ge_iff [of w now "fe_start e"]
  by (auto simp: expired_def Before_def min_int64_def max_int64_def)

lemma slot_run_in_window:
  assumes "0 < w" "w < max_int64" and "\<forall>t\<in>set ts. fe_start x \<le> t \<and> t < fe_start x + w"
  shows "int (length (slot_granted ts (slot_run w limit ts (Some x)))) \<le> max 0 (limit - fe_count x)"
  using assms(3)
proof (induction ts arbitrary: x)
  case (Cons t ts)
  have "\<not> expired w t x" using Cons.prems assms(1,2) by (simp add: expired_iff)
  then have s: "slot_allow w limit t (Some x) = (if fe_count x \<ge> limit then (False, Some x)
      else (True, Some (x\<lparr>fe_count := fe_count x + 1\<rparr>)))"
    by (simp add: slot_allow_def open_entry_def)
  show ?case
  proof (cases "fe_count x \<ge> limit")
    case True
    with Cons.IH [of x] Cons.prems s show ?thesis by (simp add: Let_def)
  next
    case False
    have "int (length (slot_granted ts (slot_run w limit ts (Some (x\<lparr>fe_count := fe_count x + 1\<rparr>)))))
        \<le> max 0 (limit - (fe_count x + 1))"
      using Cons.IH [of "x\<lparr>fe_count := fe_count x + 1\<rparr>"] Cons.prems by simp
    with False s show ?thesis by (simp add: Let_def)
  qed
qed simp

text \<open>From a fresh window on, requests less than one window apart get at most \<open>limit\<close> grants.\<close>

lemma slot_run_fresh:
  assumes "0 < w" "w < max_int64" "1 \<le> limit" and "sorted ts"
    and "\<forall>t\<in>set ts. t0 \<le> t \<and> t < t0 + w" and "ts \<noteq> [] \<longrightarrow> open_entry w (hd ts) e = None"
  shows "int (length (slot_granted ts (slot_run w limit ts e))) \<le> limit"
proof (cases ts)
  case (Cons t rest)
  have s: "slot_allow w limit t e = (True, Some \<lparr>fe_start = t, fe_count = 1\<rparr>)"
    using assms(6) Cons by (simp add: slot_allow_def)
  have "int (length (slot_granted rest (slot_run w limit rest (Some \<lparr>fe_start = t, fe_count = 1\<rparr>))))
      \<le> max 0 (limit - 1)"
    using slot_run_in_window [OF assms(1,2), of rest "\<lparr>fe_start = t, fe_count = 1\<rparr>" limit] assms(4,5) Cons
    by fastforce
  with s Cons assms(3) show ?thesis by (simp add: Let_def)
qed (use assms in simp)

lemma slot_run_any:
  assumes "0 < w" "w < max_int64" "1 \<le> limit" and "sorted ts"
    and "\<forall>t\<in>set ts. t0 \<le> t \<and> t < t0 + w"
  shows "int (length (slot_granted ts (slot_run w limit ts e))) \<le>
    limit + (case e of None \<Rightarrow> 0 | Some x \<Rightarrow> max 0 (limit - fe_count x))"
  using assms(4,5)
proof (induction ts arbitrary: e)
  case Nil
  with assms(3) show ?case by (simp split: option.split)
next
  case (Cons t ts)
  show ?case
  proof (cases "open_entry w t e")
    case None
    then have "int (length (slot_granted (t # ts) (slot_run w limit (t # ts) e))) \<le> limit"
      using Cons.prems by (intro slot_run_fresh [OF assms(1-3)]) auto
    moreover have "0 \<le> (case e of None \<Rightarrow> 0 | Some x \<Rightarrow> max 0 (limit - fe_count x))"
      by (simp split: option.split)
    ultimately show ?thesis by linarith
  next
    case (Some y)
    then have e: "e = Some y" by (auto simp: open_entry_def split: option.splits if_splits)
    have ih: "int (length (slot_granted ts (slot_run w limit ts (Some z)))) \<le> limit + max 0 (limit - fe_count z)"
      for z using Cons.IH [of "Some z"] Cons.prems by simp
    show ?thesis
    proof (cases "fe_count y \<ge> limit")
      case True
      with Some have "slot_allow w limit t e = (False, Some y)" by (simp add: slot_allow_def)
      with ih [of y] e show ?thesis by (simp add: Let_def)
    next
      case False
      with Some have "slot_allow w limit t e = (True, Some (y\<lparr>fe_count := fe_count y + 1\<rparr>))"
        by (simp add: slot_allow_def)
      with ih [of "y\<lparr>fe_count := fe_count y + 1\<rparr>"] e False show ?thesis by (simp add: Let_def)
    qed
  qed
qed

lemma slot_run_append:
  "\<exists>e'. slot_run w limit (xs @ ys) e = slot_run w limit xs e @ slot_run w limit ys e' \<and>
     (\<forall>x. e' = Some x \<longrightarrow> 1 \<le> fe_count x \<or> e = Some x \<or> (\<exists>y. e = Some y \<and> fe_count y \<le> fe_count x))"
proof (induction xs arbitrary: e)
  case (Cons t xs)
  obtain b e1 where s: "slot_allow w limit t e = (b, e1)" by (cases "slot_allow w limit t e")
  have e1: "\<forall>x. e1 = Some x \<longrightarrow> 1 \<le> fe_count x \<or> (\<exists>y. e = Some y \<and> fe_count y \<le> fe_count x)"
    using s by (auto simp: slot_allow_def open_entry_def split: option.splits if_splits)
  from Cons.IH [of e1] s e1 show ?case by (fastforce simp: Let_def)
qed auto

lemma slot_granted_append:
  "length xs = length bs \<Longrightarrow> slot_granted (xs @ ys) (bs @ cs) = slot_granted xs bs @ slot_granted ys cs"
  by (simp add: slot_granted_def)

lemma sorted_dropWhile_ge: "sorted (ts :: int list) \<Longrightarrow> \<forall>t\<in>set (dropWhile (\<lambda>t. t < a) ts). a \<le> t"
  by (induction ts) auto

text \<open>Grants of a sorted run inside one interval come from a contiguous part of the run.\<close>

lemma sorted_split_interval:
  assumes "sorted (ts :: int list)"
  obtains xs ys zs where "ts = xs @ ys @ zs" "\<forall>t\<in>set xs. t < a" "\<forall>t\<in>set ys. a \<le> t \<and> t < b"
    "\<forall>t\<in>set zs. b \<le> t \<or> t < a"
proof -
  let ?xs = "takeWhile (\<lambda>t. t < a) ts" and ?r = "dropWhile (\<lambda>t. t < a) ts"
  have r: "\<forall>t\<in>set ?r. a \<le> t" using assms by (rule sorted_dropWhile_ge)
  have z: "\<forall>t\<in>set (dropWhile (\<lambda>t. t < b) ?r). b \<le> t"
    using assms by (intro sorted_dropWhile_ge sorted_dropWhile)
  show thesis
  proof (rule that [of ?xs "takeWhile (\<lambda>t. t < b) ?r" "dropWhile (\<lambda>t. t < b) ?r"])
    show "\<forall>t\<in>set (takeWhile (\<lambda>t. t < b) ?r). a \<le> t \<and> t < b"
      using r set_takeWhileD by fastforce
  qed (use z in \<open>auto dest: set_takeWhileD\<close>)
qed

lemma slot_run_interval:
  assumes "0 < w" "w < max_int64" "1 \<le> limit" and "sorted ts"
    and "\<forall>x. e = Some x \<longrightarrow> 0 \<le> fe_count x"
  shows "int (length (filter (\<lambda>t. t0 \<le> t \<and> t < t0 + w) (slot_granted ts (slot_run w limit ts e)))) \<le> 2 * limit"
proof -
  obtain xs ys zs where ts: "ts = xs @ ys @ zs" "\<forall>t\<in>set xs. t < t0" "\<forall>t\<in>set ys. t0 \<le> t \<and> t < t0 + w"
    "\<forall>t\<in>set zs. t0 + w \<le> t \<or> t < t0" using sorted_split_interval [OF assms(4)] by blast
  obtain e1 where e1: "slot_run w limit ts e = slot_run w limit xs e @ slot_run w limit (ys @ zs) e1"
    "\<forall>x. e1 = Some x \<longrightarrow> 0 \<le> fe_count x"
    using slot_run_append [of w limit xs "ys @ zs" e] assms(5) ts(1) by force
  obtain e2 where e2: "slot_run w limit (ys @ zs) e1 = slot_run w limit ys e1 @ slot_run w limit zs e2"
    using slot_run_append [of w limit ys zs e1] by blast
  let ?in = "\<lambda>t. t0 \<le> t \<and> t < t0 + w"
  have out: "filter ?in (slot_granted us bs) = []" if "\<forall>t\<in>set us. \<not> ?in t" for us bs
    using that set_slot_granted [of us bs] by (auto simp: filter_empty_conv)
  have "slot_granted ts (slot_run w limit ts e) = slot_granted xs (slot_run w limit xs e) @
      slot_granted ys (slot_run w limit ys e1) @ slot_granted zs (slot_run w limit zs e2)"
    unfolding e1(1) e2 by (subst ts(1)) (simp add: slot_granted_append)
  then have "filter ?in (slot_granted ts (slot_run w limit ts e)) =
      filter ?in (slot_granted ys (slot_run w limit ys e1))"
    using ts(2,4) out [of xs] out [of zs] by fastforce
  then have "int (length (filter ?in (slot_granted ts (slot_run w limit ts e)))) \<le>
      int (length (slot_granted ys (slot_run w limit ys e1)))" by simp
  also have "\<dots> \<le> limit + (case e1 of None \<Rightarrow> 0 | Some x \<Rightarrow> max 0 (limit - fe_count x))"
    using ts assms(4) by (intro slot_run_any [OF assms(1-3) _ ts(3)]) (auto simp: sorted_append)
  also have "\<dots> \<le> 2 * limit" using e1(2) assms(3) by (auto split: option.split)
  finally show ?thesis .
qed

section \<open>Properties\<close>



text \<open>
  The limiter isolates keys. The decisions for one key are those of a private, never pruned
  automaton run on the requests of that key alone; traffic of other keys cannot use up or
  restore its allowance.
\<close>

theorem limiter_isolates_keys:
  assumes "0 < w" and "2 * w < max_int64" and "sorted (map snd rs)"
  shows "granted k rs (allow_run limit rs (newFixedWindowLimiter w)) =
    granted k (filter (\<lambda>r. fst r = k) rs) (allow_run limit (filter (\<lambda>r. fst r = k) rs) (newFixedWindowLimiter w))"
proof -
  have "granted k qs (allow_run limit qs (newFixedWindowLimiter w)) =
      slot_granted (map snd (filter (\<lambda>r. fst r = k) qs))
        (slot_run w limit (map snd (filter (\<lambda>r. fst r = k) qs)) None)" if "sorted (map snd qs)" for qs
    using allow_run_refines [OF limiter_wf_new [OF assms(1,2)] that, of k None limit]
    by (simp add: newFixedWindowLimiter_def windows_past_def gm.get_empty)
  from this [OF assms(3)] this [of "filter (\<lambda>r. fst r = k) rs"] sorted_filter [OF assms(3)]
  show ?thesis by simp
qed

theorem limiter_isolates_keys_witness:
  "granted ''a'' [(''b'', 0), (''a'', 1), (''b'', 2)]
     (allow_run 1 [(''b'', 0), (''a'', 1), (''b'', 2)] (newFixedWindowLimiter minute)) = [1]"
  using limiter_isolates_keys [of minute "[(''b'', 0), (''a'', 1), (''b'', 2)]" "''a''" 1]
  by (simp add: duration_defs max_int64_def granted_def Let_def Allow_def newFixedWindowLimiter_def
      gomap_get_def)

end
