(* ===== verification/Server.thy ===== *)
theory Server
  imports Store_Snapshot Limiter Firmware
begin

text \<open>
  The HTTP API of \<open>internal/server/server.go\<close>: construction, routing, authentication with its
  three rate limits and the semaphore, and every handler. A handler maps a request and the
  server state to a response and the new state. Outside inputs are explicit: the clock (\<open>en_clock
  i\<close> is the \<open>i\<close>-th reading), the outcome of each database statement, of the ping and of the file
  reads, and what the strict JSON decoder makes of the body (limited to 64 KiB).
\<close>

section \<open>Requests and responses\<close>

datatype decode_outcome = BodyTooLarge | BodyInvalid | BodyReport agent_report
datatype trailing_outcome = TrailingEOF | TrailingValue | TrailingTooLarge | TrailingInvalid

record http_request =
  hr_method :: string
  hr_path :: string
  hr_authorization :: string
  hr_remote :: string
  hr_body :: decode_outcome
  hr_trailing :: trailing_outcome

datatype payload =
    NoContent
  | ErrorBody string
  | HealthOK
  | SnapshotBody display_snapshot
  | ManifestBody manifest
  | ImageBody string manifest

record http_response =
  rs_status :: nat
  rs_retry_after :: "int option"
  rs_challenge :: bool
  rs_payload :: payload

definition writeError :: "nat \<Rightarrow> string \<Rightarrow> http_response" where
  "writeError status code =
     \<lparr>rs_status = status, rs_retry_after = None, rs_challenge = False, rs_payload = ErrorBody code\<rparr>"

definition writeJSON :: "nat \<Rightarrow> payload \<Rightarrow> http_response" where
  "writeJSON status p = \<lparr>rs_status = status, rs_retry_after = None, rs_challenge = False, rs_payload = p\<rparr>"

section \<open>The server\<close>

record server =
  sv_db :: database
  sv_limiter :: fixedWindowLimiter
  sv_agentRateLimit :: int
  sv_displayRateLimit :: int
  sv_authRateLimit :: int
  sv_globalAuthRateLimit :: int
  sv_slotCapacity :: int
  sv_slotsUsed :: int
  sv_firmwareDir :: string
  sv_firmware :: directory
  sv_healthCheckedAt :: time
  sv_healthErr :: bool

record server_config =
  cf_Store :: "database option"
  cf_FirmwareDir :: string
  cf_AgentRequestsPerMinute :: int
  cf_DisplayRequestsPerMinute :: int
  cf_AuthAttemptsPerMinute :: int
  cf_GlobalAuthAttemptsPerMinute :: int
  cf_ConcurrentAuth :: int

definition default_if_unset :: "int \<Rightarrow> int \<Rightarrow> int" where
  "default_if_unset v d = (if v \<le> 0 then d else v)"

definition New :: "server_config \<Rightarrow> directory \<Rightarrow> server option" where
  "New cfg fs =
     (case cf_Store cfg of
        None \<Rightarrow> None
      | Some db \<Rightarrow> Some
          \<lparr>sv_db = db, sv_limiter = newFixedWindowLimiter minute,
           sv_agentRateLimit = default_if_unset (cf_AgentRequestsPerMinute cfg) 120,
           sv_displayRateLimit = default_if_unset (cf_DisplayRequestsPerMinute cfg) 120,
           sv_authRateLimit = default_if_unset (cf_AuthAttemptsPerMinute cfg) 240,
           sv_globalAuthRateLimit = default_if_unset (cf_GlobalAuthAttemptsPerMinute cfg) 6000,
           sv_slotCapacity = default_if_unset (cf_ConcurrentAuth cfg) 8, sv_slotsUsed = 0,
           sv_firmwareDir = TrimSpace (cf_FirmwareDir cfg), sv_firmware = fs,
           sv_healthCheckedAt = zero_time, sv_healthErr = False\<rparr>)"

section \<open>Authentication\<close>

definition parseBearer :: "string \<Rightarrow> string option" where
  "parseBearer value =
     (case Fields value of
        [a, b] \<Rightarrow> if \<not> fold_eq a ''Bearer'' \<or> b = [] \<or> length b > 256 then None else Some b
      | _ \<Rightarrow> None)"

text \<open>\<open>net.SplitHostPort\<close>: the host, or \<open>None\<close> for an error.\<close>

fun index_of :: "char \<Rightarrow> string \<Rightarrow> nat option" where
  "index_of c [] = None"
| "index_of c (x # s) = (if x = c then Some 0 else map_option Suc (index_of c s))"

definition last_index_of :: "char \<Rightarrow> string \<Rightarrow> nat option" where
  "last_index_of c s = map_option (\<lambda>i. length s - 1 - i) (index_of c (rev s))"

definition SplitHostPort :: "string \<Rightarrow> string option" where
  "SplitHostPort hp =
     (case last_index_of (CHR '':'') hp of
        None \<Rightarrow> None
      | Some i \<Rightarrow>
        if hd hp = CHR ''['' then
          (case index_of (CHR '']'') hp of
             None \<Rightarrow> None
           | Some e \<Rightarrow>
             if e + 1 \<noteq> i then None
             else if CHR ''['' \<in> set (drop 1 hp) \<or> CHR '']'' \<in> set (drop (e + 1) hp) then None
             else Some (take (e - 1) (drop 1 hp)))
        else
          let host = take i hp in
          if CHR '':'' \<in> set host then None
          else if CHR ''['' \<in> set hp \<or> CHR '']'' \<in> set hp then None
          else Some host)"

definition clientAddress :: "string \<Rightarrow> string" where
  "clientAddress remote =
     (case SplitHostPort remote of
        Some host \<Rightarrow> if host \<noteq> [] then host else if remote = [] then ''unknown'' else remote
      | None \<Rightarrow> if remote = [] then ''unknown'' else remote)"

record server_env =
  en_clock :: "nat \<Rightarrow> time"
  en_token_io :: io
  en_store_io :: io
  en_ping :: bool
  en_fs_io :: syscalls
  en_fs_good :: "nat \<Rightarrow> bool"

text \<open>
  \<open>max(1, int(math.Ceil(retryAfter.Seconds())))\<close>; the delays are at most a minute, where the
  division by 1e9 in floating point does not cross an integer.
\<close>

definition retry_seconds :: "duration \<Rightarrow> int" where
  "retry_seconds d = max 1 (- ((- d) div second))"

definition rate_limited :: "duration \<Rightarrow> http_response" where
  "rate_limited d = (writeError 429 ''rate_limited'')\<lparr>rs_retry_after := Some (retry_seconds d)\<rparr>"

definition unauthorized :: http_response where
  "unauthorized = (writeError 401 ''unauthorized'')\<lparr>rs_challenge := True\<rparr>"

definition fingerprint :: "(string \<Rightarrow> string) \<Rightarrow> string option \<Rightarrow> string" where
  "fingerprint sha raw =
     (case raw of None \<Rightarrow> ''malformed'' | Some b \<Rightarrow> hex_encode (take 12 (sha b)))"

definition authenticate ::
    "(string \<Rightarrow> string) \<Rightarrow> server_env \<Rightarrow> http_request \<Rightarrow> string \<Rightarrow> int \<Rightarrow> server \<Rightarrow>
     (http_response, token_record) result \<times> server" where
  "authenticate sha env r scope limit s =
     (let now = en_clock env 0;
          g = Allow ''auth:global'' now (sv_globalAuthRateLimit s) (sv_limiter s);
          s1 = s\<lparr>sv_limiter := snd g\<rparr>
      in if \<not> fst (fst g) then (err (rate_limited (snd (fst g))), s1)
      else let bearer = parseBearer (hr_authorization r);
               key = ''auth:'' @ scope @ '':'' @ clientAddress (hr_remote r) @ '':'' @ fingerprint sha bearer;
               c = Allow key now (sv_authRateLimit s) (sv_limiter s1);
               s2 = s1\<lparr>sv_limiter := snd c\<rparr>
      in if \<not> fst (fst c) then (err (rate_limited (snd (fst c))), s2)
      else if sv_slotsUsed s2 \<ge> sv_slotCapacity s2
           then (err ((writeError 429 ''rate_limited'')\<lparr>rs_retry_after := Some 1\<rparr>), s2)
      else let s3 = s2\<lparr>sv_slotsUsed := sv_slotsUsed s2 + 1\<rparr>;
               release = (\<lambda>t. t\<lparr>sv_slotsUsed := sv_slotsUsed t - 1\<rparr>)
      in case bearer of
           None \<Rightarrow> (err unauthorized, release s3)
         | Some raw \<Rightarrow>
           (case AuthenticateToken sha (en_token_io env) (en_clock env 1) raw scope (tokens (sv_db s3)) of
              (Inl e, ts) \<Rightarrow> (err unauthorized, release (s3\<lparr>sv_db := (sv_db s3)\<lparr>tokens := ts\<rparr>\<rparr>))
            | (Inr rec, ts) \<Rightarrow>
                let s4 = s3\<lparr>sv_db := (sv_db s3)\<lparr>tokens := ts\<rparr>\<rparr>;
                    t = Allow (scope @ '':'' @ tok_ID rec) (en_clock env 2) limit (sv_limiter s4);
                    s5 = s4\<lparr>sv_limiter := snd t\<rparr>
                in if \<not> fst (fst t) then (err (rate_limited (snd (fst t))), release s5)
                   else (ok rec, release s5)))"

section \<open>Handlers\<close>

definition handleHealth :: "server_env \<Rightarrow> server \<Rightarrow> http_response \<times> server" where
  "handleHealth env s =
     (let now = en_clock env 0;
          s1 = (if IsZero (sv_healthCheckedAt s) \<or> Sub now (sv_healthCheckedAt s) \<ge> second \<or>
                   Before now (sv_healthCheckedAt s)
                then s\<lparr>sv_healthErr := \<not> en_ping env, sv_healthCheckedAt := now\<rparr> else s)
      in if sv_healthErr s1 then (writeError 503 ''unhealthy'', s1) else (writeJSON 200 HealthOK, s1))"

definition ensureJSONEOF :: "trailing_outcome \<Rightarrow> trailing_outcome option" where
  "ensureJSONEOF t = (if t = TrailingEOF then None else Some t)"

definition handleAgentReport ::
    "(string \<Rightarrow> string) \<Rightarrow> server_env \<Rightarrow> http_request \<Rightarrow> server \<Rightarrow> http_response \<times> server" where
  "handleAgentReport sha env r s =
     (case authenticate sha env r ScopeAgentWrite (sv_agentRateLimit s) s of
        (Inl resp, s1) \<Rightarrow> (resp, s1)
      | (Inr record, s1) \<Rightarrow>
        (case hr_body r of
           BodyTooLarge \<Rightarrow> (writeError 413 ''body_too_large'', s1)
         | BodyInvalid \<Rightarrow> (writeError 400 ''invalid_json'', s1)
         | BodyReport report \<Rightarrow>
           (case ensureJSONEOF (hr_trailing r) of
              Some TrailingTooLarge \<Rightarrow> (writeError 413 ''body_too_large'', s1)
            | Some _ \<Rightarrow> (writeError 400 ''invalid_json'', s1)
            | None \<Rightarrow>
              if tok_AgentID record \<noteq> ar_AgentID report then (writeError 403 ''agent_mismatch'', s1)
              else let now = en_clock env 3 in
              if ValidateAgentReport report now \<noteq> None then (writeError 400 ''invalid_report'', s1)
              else (case ReplaceAgentReport (en_store_io env) report now (sv_db s1) of
                      (Some e, db) \<Rightarrow>
                        (if e = ErrStaleReport then writeError 409 ''stale_report''
                         else writeError 500 ''storage_error'', s1\<lparr>sv_db := db\<rparr>)
                    | (None, db) \<Rightarrow> (writeJSON 204 NoContent, s1\<lparr>sv_db := db\<rparr>)))))"

definition handleDisplaySnapshot ::
    "(string \<Rightarrow> string) \<Rightarrow> server_env \<Rightarrow> http_request \<Rightarrow> server \<Rightarrow> http_response \<times> server" where
  "handleDisplaySnapshot sha env r s =
     (case authenticate sha env r ScopeDisplayRead (sv_displayRateLimit s) s of
        (Inl resp, s1) \<Rightarrow> (resp, s1)
      | (Inr record, s1) \<Rightarrow>
        (case BuildDisplaySnapshot (en_store_io env) (\<lambda>_. sv_db s1) (en_clock env 3) of
           Inl e \<Rightarrow> (writeError 500 ''storage_error'', s1)
         | Inr snapshot \<Rightarrow> (writeJSON 200 (SnapshotBody snapshot), s1)))"

definition writeFirmwareError :: "fw_error \<Rightarrow> http_response" where
  "writeFirmwareError e =
     (if e = ErrNotFound then writeError 404 ''firmware_not_found''
      else if e = ErrInvalidManifest \<or> e = ErrHashMismatch then writeError 503 ''firmware_invalid''
      else writeError 503 ''firmware_unavailable'')"

definition handleFirmwareManifest ::
    "(string \<Rightarrow> string) \<Rightarrow> (string \<Rightarrow> manifest option) \<Rightarrow> server_env \<Rightarrow> http_request \<Rightarrow> server \<Rightarrow>
     http_response \<times> server" where
  "handleFirmwareManifest sha dec env r s =
     (case authenticate sha env r ScopeDisplayRead (sv_displayRateLimit s) s of
        (Inl resp, s1) \<Rightarrow> (resp, s1)
      | (Inr record, s1) \<Rightarrow>
        (case LoadManifest dec (en_fs_io env) (sv_firmwareDir s1) (sv_firmware s1) of
           Inl e \<Rightarrow> (writeFirmwareError e, s1)
         | Inr m \<Rightarrow> (writeJSON 200 (ManifestBody m), s1)))"

definition handleFirmwareDownload ::
    "(string \<Rightarrow> string) \<Rightarrow> (string \<Rightarrow> manifest option) \<Rightarrow> server_env \<Rightarrow> http_request \<Rightarrow> string \<Rightarrow> server \<Rightarrow>
     http_response \<times> server" where
  "handleFirmwareDownload sha dec env r fileName s =
     (case authenticate sha env r ScopeDisplayRead (sv_displayRateLimit s) s of
        (Inl resp, s1) \<Rightarrow> (resp, s1)
      | (Inr record, s1) \<Rightarrow>
        if \<not> has_suffix fileName ''.bin'' \<or> count_sub fileName ''.bin'' \<noteq> 1
        then (writeError 404 ''firmware_not_found'', s1)
        else (case OpenVerifiedImage dec sha (en_fs_io env) (en_fs_good env) (sv_firmwareDir s1)
                     (trim_suffix fileName ''.bin'') (sv_firmware s1) of
                Inl e \<Rightarrow> (writeFirmwareError e, s1)
              | Inr (bytes, m) \<Rightarrow> (writeJSON 200 (ImageBody bytes m), s1)))"

section \<open>Routing\<close>

text \<open>\<open>path.Clean\<close> by its components.\<close>

fun clean_push :: "bool \<Rightarrow> string list \<Rightarrow> string list \<Rightarrow> string list" where
  "clean_push rooted stack [] = stack"
| "clean_push rooted stack (c # cs) =
     clean_push rooted
       (if c = [] \<or> c = ''.'' then stack
        else if c = ''..'' then
          (if stack \<noteq> [] \<and> last stack \<noteq> ''..'' then butlast stack
           else if rooted then stack else stack @ [c])
        else stack @ [c]) cs"

definition path_Clean :: "string \<Rightarrow> string" where
  "path_Clean p =
     (let rooted = (p \<noteq> [] \<and> hd p = CHR ''/'');
          body = join_char (CHR ''/'') (clean_push rooted [] (split_char (CHR ''/'') p))
      in if rooted then CHR ''/'' # body else if body = [] then ''.'' else body)"

datatype endpoint =
    EpHealth | EpReport | EpSnapshot | EpManifest | EpDownload string | EpMethod | EpUnknown

definition firmware_prefix :: string where
  "firmware_prefix = ''/api/v1/display/firmware/e32r28t/''"

definition is_get :: "string \<Rightarrow> bool" where
  "is_get m = (m = ''GET'' \<or> m = ''HEAD'')"

definition route :: "string \<Rightarrow> string \<Rightarrow> endpoint" where
  "route meth p =
     (if p = ''/healthz'' then (if is_get meth then EpHealth else EpMethod)
      else if p = ''/api/v1/agent/report'' then (if meth = ''POST'' then EpReport else EpMethod)
      else if p = ''/api/v1/display/snapshot'' then (if is_get meth then EpSnapshot else EpMethod)
      else if p = firmware_prefix @ ''manifest'' then (if is_get meth then EpManifest else EpMethod)
      else if has_prefix p firmware_prefix \<and> trim_prefix p firmware_prefix \<noteq> [] \<and>
              CHR ''/'' \<notin> set (trim_prefix p firmware_prefix)
           then (if is_get meth then EpDownload (trim_prefix p firmware_prefix) else EpMethod)
      else EpUnknown)"

definition ServeHTTP ::
    "(string \<Rightarrow> string) \<Rightarrow> (string \<Rightarrow> manifest option) \<Rightarrow> server_env \<Rightarrow> http_request \<Rightarrow> server \<Rightarrow>
     http_response \<times> server" where
  "ServeHTTP sha dec env r s =
     (if hr_path r = [] \<or> path_Clean (hr_path r) \<noteq> hr_path r then (writeError 404 ''not_found'', s)
      else case route (hr_method r) (hr_path r) of
             EpHealth \<Rightarrow> handleHealth env s
           | EpReport \<Rightarrow> handleAgentReport sha env r s
           | EpSnapshot \<Rightarrow> handleDisplaySnapshot sha env r s
           | EpManifest \<Rightarrow> handleFirmwareManifest sha dec env r s
           | EpDownload f \<Rightarrow> handleFirmwareDownload sha dec env r f s
           | EpMethod \<Rightarrow> (writeError 405 [], s)
           | EpUnknown \<Rightarrow> (writeError 404 [], s))"

section \<open>What authentication can change\<close>

text \<open>The part of the state that only a stored report may change.\<close>

definition same_reports :: "database \<Rightarrow> database \<Rightarrow> bool" where
  "same_reports d e =
     (agents d = agents e \<and> provider_reports d = provider_reports e \<and> active_tasks d = active_tasks e)"

lemma same_reports_refl [simp]: "same_reports d d"
  by (simp add: same_reports_def)

lemma same_reports_tokens [simp]: "same_reports (d\<lparr>tokens := ts\<rparr>) e \<longleftrightarrow> same_reports d e"
  by (simp add: same_reports_def)

lemma same_reports_view: "same_reports d e \<Longrightarrow> agent_view d = agent_view e"
  by (auto simp: same_reports_def agent_view_def)

lemma same_reports_wf: "same_reports d e \<Longrightarrow> reports_wf d = reports_wf e"
  by (simp add: same_reports_def reports_wf_def)

definition server_wf :: "server \<Rightarrow> bool" where
  "server_wf s =
     (tokens_wf (tokens (sv_db s)) \<and> reports_wf (sv_db s) \<and> limiter_wf (sv_limiter s) \<and>
      0 \<le> sv_slotsUsed s \<and> sv_slotsUsed s \<le> sv_slotCapacity s)"

text \<open>Everything an authentication leaves alone, whatever it answers.\<close>

definition auth_frame :: "server \<Rightarrow> server \<Rightarrow> bool" where
  "auth_frame s t =
     (same_reports (sv_db t) (sv_db s) \<and> sv_slotsUsed t = sv_slotsUsed s \<and>
      sv_slotCapacity t = sv_slotCapacity s \<and> sv_firmwareDir t = sv_firmwareDir s \<and>
      sv_firmware t = sv_firmware s \<and> sv_healthCheckedAt t = sv_healthCheckedAt s \<and>
      sv_healthErr t = sv_healthErr s \<and> sv_agentRateLimit t = sv_agentRateLimit s \<and>
      sv_displayRateLimit t = sv_displayRateLimit s \<and> sv_authRateLimit t = sv_authRateLimit s \<and>
      sv_globalAuthRateLimit t = sv_globalAuthRateLimit s)"

lemma authenticate_frame: "auth_frame s (snd (authenticate sha env r scope limit s))"
  by (auto simp: authenticate_def Let_def auth_frame_def split: option.split prod.split sum.split)

lemma authenticate_wf:
  assumes "server_wf s"
  shows "server_wf (snd (authenticate sha env r scope limit s))"
proof -
  have f: "auth_frame s (snd (authenticate sha env r scope limit s))" by (rule authenticate_frame)
  have l: "limiter_wf (sv_limiter (snd (authenticate sha env r scope limit s)))"
    using assms unfolding server_wf_def authenticate_def Let_def
    by (auto simp: inv_intros split: option.split prod.split sum.split)
  have "tokens_wf (snd (AuthenticateToken sha io now raw scope (tokens (sv_db s))))" for io now raw
    using assms by (intro tokens_wf_authenticate) (simp add: server_wf_def)
  then have t: "tokens_wf (tokens (sv_db (snd (authenticate sha env r scope limit s))))"
    using assms unfolding server_wf_def authenticate_def Let_def
    by (auto split: option.split prod.split sum.split) (metis snd_conv)+
  from f l t assms show ?thesis
    using same_reports_wf by (auto simp: server_wf_def auth_frame_def)
qed

lemma authenticate_ok:
  assumes "authenticate sha env r scope limit s = (ok rec, t)"
  obtains raw where "parseBearer (hr_authorization r) = Some raw"
    "AuthenticateToken sha (en_token_io env) (en_clock env 1) raw scope (tokens (sv_db s)) = (ok rec, tokens (sv_db t))"
    "same_reports (sv_db t) (sv_db s)"
  using assms by (auto simp: authenticate_def Let_def split: option.splits prod.splits sum.splits if_splits)

lemma authenticate_err_status:
  "authenticate sha env r scope limit s = (err resp, t) \<Longrightarrow> rs_status resp = 429 \<or> rs_status resp = 401"
  by (auto simp: authenticate_def Let_def rate_limited_def unauthorized_def writeError_def
      split: option.splits prod.splits sum.splits if_splits)

section \<open>The report handler\<close>

lemma handleAgentReport_cases:
  obtains (rejected) t where "same_reports (sv_db (snd (handleAgentReport sha env r s))) (sv_db s)"
      "rs_status (fst (handleAgentReport sha env r s)) \<noteq> 204"
      "snd (authenticate sha env r ScopeAgentWrite (sv_agentRateLimit s) s) = t"
      "snd (handleAgentReport sha env r s) = t"
  | (stored) rec t report db where
      "authenticate sha env r ScopeAgentWrite (sv_agentRateLimit s) s = (ok rec, t)"
      "hr_body r = BodyReport report" "hr_trailing r = TrailingEOF" "tok_AgentID rec = ar_AgentID report"
      "ValidateAgentReport report (en_clock env 3) = None"
      "ReplaceAgentReport (en_store_io env) report (en_clock env 3) (sv_db t) = (None, db)"
      "handleAgentReport sha env r s = (writeJSON 204 NoContent, t\<lparr>sv_db := db\<rparr>)"
proof -
  obtain a t where au: "authenticate sha env r ScopeAgentWrite (sv_agentRateLimit s) s = (a, t)"
    by (cases "authenticate sha env r ScopeAgentWrite (sv_agentRateLimit s) s")
  have fr: "same_reports (sv_db t) (sv_db s)"
    using authenticate_frame [of s sha env r ScopeAgentWrite "sv_agentRateLimit s"] au by (simp add: auth_frame_def)
  show thesis
  proof (cases a)
    case (Inl resp)
    with au fr authenticate_err_status [of sha env r ScopeAgentWrite "sv_agentRateLimit s" s resp t]
    show thesis by (intro rejected [of t]) (auto simp: handleAgentReport_def)
  next
    case (Inr rec)
    show thesis
    proof (cases "\<exists>report db. hr_body r = BodyReport report \<and> hr_trailing r = TrailingEOF \<and>
        tok_AgentID rec = ar_AgentID report \<and> ValidateAgentReport report (en_clock env 3) = None \<and>
        ReplaceAgentReport (en_store_io env) report (en_clock env 3) (sv_db t) = (None, db)")
      case True
      then obtain report db where o: "hr_body r = BodyReport report" "hr_trailing r = TrailingEOF"
        "tok_AgentID rec = ar_AgentID report" "ValidateAgentReport report (en_clock env 3) = None"
        "ReplaceAgentReport (en_store_io env) report (en_clock env 3) (sv_db t) = (None, db)" by blast
      show thesis
        by (rule stored [OF _ o]) (use au Inr o in \<open>simp_all add: handleAgentReport_def ensureJSONEOF_def\<close>)
    next
      case False
      have same: "t\<lparr>sv_db := sv_db t\<rparr> = t" by (cases t) simp
      have "handleAgentReport sha env r s = (fst (handleAgentReport sha env r s), t) \<and>
          rs_status (fst (handleAgentReport sha env r s)) \<noteq> 204"
        using False au Inr
        by (auto simp: handleAgentReport_def ensureJSONEOF_def writeError_def Let_def same
            dest: ReplaceAgentReport_error split: decode_outcome.splits trailing_outcome.splits option.splits prod.splits)
      then show thesis using au fr by (intro rejected [of t]) (auto simp: prod_eq_iff)
    qed
  qed
qed

section \<open>Every request keeps the invariant\<close>

lemma readers_state:
  "snd (handleDisplaySnapshot sha env r s) = snd (authenticate sha env r ScopeDisplayRead (sv_displayRateLimit s) s)"
  "snd (handleFirmwareManifest sha dec env r s) = snd (authenticate sha env r ScopeDisplayRead (sv_displayRateLimit s) s)"
  "snd (handleFirmwareDownload sha dec env r f s) = snd (authenticate sha env r ScopeDisplayRead (sv_displayRateLimit s) s)"
  by (auto simp: handleDisplaySnapshot_def handleFirmwareManifest_def handleFirmwareDownload_def
      split: prod.splits sum.splits if_splits)

lemma handleHealth_wf: "server_wf s \<Longrightarrow> server_wf (snd (handleHealth env s))"
  by (simp add: handleHealth_def Let_def server_wf_def)

lemma handleAgentReport_wf: "server_wf s \<Longrightarrow> server_wf (snd (handleAgentReport sha env r s))"
proof -
  assume s: "server_wf s"
  show ?thesis
  proof (cases rule: handleAgentReport_cases [of sha env r s])
    case (rejected t)
    then show ?thesis using authenticate_wf [OF s] by metis
  next
    case (stored rec t report db)
    have t: "server_wf t" using authenticate_wf [OF s] stored(1) by (metis snd_conv)
    have "reports_wf db"
      using reports_wf_replace [of "sv_db t" "en_store_io env" report "en_clock env 3"] t stored(6)
      by (simp add: server_wf_def)
    moreover have "tokens db = tokens (sv_db t)"
      using stored(6) by (rule ReplaceAgentReport_ok) simp
    ultimately show ?thesis using t stored(7) by (simp add: server_wf_def)
  qed
qed

lemma ServeHTTP_wf: "server_wf s \<Longrightarrow> server_wf (snd (ServeHTTP sha dec env r s))"
  by (simp add: ServeHTTP_def handleHealth_wf handleAgentReport_wf readers_state authenticate_wf
      split: endpoint.split)

lemma ServeHTTP_slots: "sv_slotsUsed (snd (ServeHTTP sha dec env r s)) = sv_slotsUsed s"
proof -
  have a: "sv_slotsUsed (snd (authenticate sha env r scope limit s)) = sv_slotsUsed s" for scope limit
    using authenticate_frame [of s sha env r scope limit] by (simp add: auth_frame_def)
  have h: "sv_slotsUsed (snd (handleAgentReport sha env r s)) = sv_slotsUsed s"
  proof (cases rule: handleAgentReport_cases [of sha env r s])
    case (rejected t)
    then show ?thesis using a by metis
  next
    case (stored rec t report db)
    then show ?thesis using a [of ScopeAgentWrite "sv_agentRateLimit s"] by simp
  qed
  show ?thesis
    by (simp add: ServeHTTP_def h a readers_state handleHealth_def Let_def split: endpoint.split)
qed

lemma BuildDisplaySnapshot_same:
  assumes "same_reports d e"
  shows "BuildDisplaySnapshot io (\<lambda>_. d) now = BuildDisplaySnapshot io (\<lambda>_. e) now"
proof -
  have q: "agents d = agents e" "provider_reports d = provider_reports e" "active_tasks d = active_tasks e"
    using assms by (simp_all add: same_reports_def)
  have "loadAgentSummary b now d = loadAgentSummary b now e"
    "add_provider b now d = add_provider b now e" "loadTaskSummary b now d = loadTaskSummary b now e" for b
    by (simp_all add: fun_eq_iff q loadAgentSummary_def add_provider_def loadLatestProvider_def latest_rows_def
        loadTaskSummary_def live_tasks_def)
  then show ?thesis by (simp only: BuildDisplaySnapshot_def)
qed

text \<open>A server in operation: requests in any order, and token administration in between.\<close>

inductive server_step :: "(string \<Rightarrow> string) \<Rightarrow> (string \<Rightarrow> manifest option) \<Rightarrow> server \<Rightarrow> server \<Rightarrow> bool"
  for sha dec where
  request: "server_step sha dec s (snd (ServeHTTP sha dec env r s))"
| administer: "token_step sha (tokens (sv_db s)) ts \<Longrightarrow>
     server_step sha dec s (s\<lparr>sv_db := (sv_db s)\<lparr>tokens := ts\<rparr>\<rparr>)"

inductive_cases server_stepE: "server_step sha dec s t"

lemma server_step_wf: "server_step sha dec s t \<Longrightarrow> server_wf s \<Longrightarrow> server_wf t"
proof (induction rule: server_step.induct)
  case (request s env r)
  then show ?case by (intro ServeHTTP_wf)
next
  case (administer s ts)
  then have "tokens_wf ts" using token_step_wf by (auto simp: server_wf_def)
  with administer show ?case by (simp add: server_wf_def reports_wf_def)
qed

lemma server_steps_wf: "(server_step sha dec)\<^sup>*\<^sup>* s t \<Longrightarrow> server_wf s \<Longrightarrow> server_wf t"
  by (induction rule: rtranclp_induct) (auto intro: server_step_wf)

lemma New_wf:
  "New cfg fs = Some s \<Longrightarrow> cf_Store cfg = Some empty_database \<Longrightarrow> server_wf s"
  by (auto simp: New_def server_wf_def tokens_wf_def empty_database_def reports_wf_def default_if_unset_def
      duration_defs max_int64_def intro!: limiter_wf_new)

section \<open>Properties\<close>

text \<open>
  C1: Only the owner of a live agent token can change stored reports, and only those of the agent
  the token is bound to. A request to the report endpoint is answered 204 exactly when a report
  was stored: then the bearer value hashes to a live \<open>agent:write\<close> row bound to the report's agent
  and the report passed validation; every other answer leaves all report tables untouched, and no
  other agent's data ever changes.
\<close>

theorem report_endpoint_authorised:
  assumes "server_wf s" and "handleAgentReport sha env r s = (resp, s')"
  shows "if rs_status resp = 204 then
      (\<exists>raw row report. parseBearer (hr_authorization r) = Some raw \<and> row \<in> set (tokens (sv_db s)) \<and>
         tk_digest row = sha raw \<and> tk_scope row = ScopeAgentWrite \<and> tk_revoked_at_ns row = None \<and>
         tk_agent_id row = Some (ar_AgentID report) \<and> hr_body r = BodyReport report \<and>
         ValidateAgentReport report (en_clock env 3) = None \<and>
         (\<forall>b. b \<noteq> ar_AgentID report \<longrightarrow> agent_view (sv_db s') b = agent_view (sv_db s) b))
    else same_reports (sv_db s') (sv_db s)"
proof (cases rule: handleAgentReport_cases [of sha env r s])
  case (rejected t)
  with assms(2) show ?thesis by simp
next
  case (stored rec t report db)
  from stored(1) obtain raw where raw: "parseBearer (hr_authorization r) = Some raw"
    "AuthenticateToken sha (en_token_io env) (en_clock env 1) raw ScopeAgentWrite (tokens (sv_db s)) =
       (ok rec, tokens (sv_db t))" "same_reports (sv_db t) (sv_db s)" by (rule authenticate_ok)
  have wf: "tokens_wf (tokens (sv_db s))" using assms(1) by (simp add: server_wf_def)
  obtain row where row: "row \<in> set (tokens (sv_db s))" "live_match sha raw ScopeAgentWrite row"
    "rec = (record_of_row row)\<lparr>tok_LastUsedAt := Some (en_clock env 1)\<rparr>"
    using AuthenticateToken_sound [OF wf raw(2)] by blast
  have rok: "token_row_ok row" using wf row(1) by (simp add: tokens_wf_def)
  have other: "agent_view db b = agent_view (sv_db s) b" if "b \<noteq> ar_AgentID report" for b
    using ReplaceAgentReport_other [OF stored(6) that] same_reports_view [OF raw(3)] by simp
  have "tk_agent_id row = Some (ar_AgentID report)"
    using rok row(2,3) stored(4)
    by (auto simp: token_row_ok_def live_match_def record_of_row_def split: option.splits)
  then show ?thesis
    using raw(1) row stored other assms(2)
    by (auto simp: live_match_def writeJSON_def intro!: exI [of _ raw] bexI [of _ row])
qed

definition demo_raw :: string where
  "demo_raw = ''qmon_BwcHBwcHBwcHBwcHBwcHBwcHBwcHBwcHBwcHBwcHBwc''"

definition demo_config :: "token_row list \<Rightarrow> server_config" where
  "demo_config ts = \<lparr>cf_Store = Some (empty_database\<lparr>tokens := ts\<rparr>), cf_FirmwareDir = [],
     cf_AgentRequestsPerMinute = 0, cf_DisplayRequestsPerMinute = 0, cf_AuthAttemptsPerMinute = 0,
     cf_GlobalAuthAttemptsPerMinute = 0, cf_ConcurrentAuth = 0\<rparr>"

definition demo_server :: server where
  "demo_server = the (New (demo_config (snd demo_create)) Map.empty)"

definition demo_server_env :: server_env where
  "demo_server_env = \<lparr>en_clock = (\<lambda>i. 1001 * second + int i), en_token_io = (\<lambda>_. True), en_store_io = (\<lambda>_. True),
     en_ping = True, en_fs_io = (\<lambda>_. True), en_fs_good = (\<lambda>_. True)\<rparr>"

definition demo_post :: "string \<Rightarrow> http_request" where
  "demo_post a = \<lparr>hr_method = ''POST'', hr_path = ''/api/v1/agent/report'', hr_authorization = ''Bearer '' @ demo_raw,
     hr_remote = ''10.0.0.1:5000'',
     hr_body = BodyReport \<lparr>ar_SchemaVersion = 1, ar_AgentID = a, ar_SentAt = 1000 * second,
        ar_Providers = Some [], ar_ActiveTasks = Some []\<rparr>, hr_trailing = TrailingEOF\<rparr>"

lemma demo_server_wf: "server_wf demo_server"
  using demo_create_wf
  by (simp add: demo_server_def demo_config_def New_def server_wf_def empty_database_def reports_wf_def
      default_if_unset_def duration_defs max_int64_def limiter_wf_new)

theorem report_endpoint_authorised_witness:
  "rs_status (fst (handleAgentReport demo_sha demo_server_env (demo_post ''pc-1'') demo_server)) = 204 \<and>
   (\<exists>row\<in>set (tokens (sv_db demo_server)). tk_agent_id row = Some ''pc-1'')"
proof -
  have c: "rs_status (fst (handleAgentReport demo_sha demo_server_env (demo_post ''pc-1'') demo_server)) = 204"
    by code_simp
  have b: "hr_body (demo_post ''pc-1'') = BodyReport report \<Longrightarrow> ar_AgentID report = ''pc-1''" for report
    by (auto simp: demo_post_def)
  from report_endpoint_authorised [OF demo_server_wf prod.collapse [symmetric], where sha = demo_sha
      and env = demo_server_env and r = "demo_post ''pc-1''"] c b
  show ?thesis by auto
qed

text \<open>
  C25: Every state the server can reach keeps its invariants. From a fresh server on an empty
  database, any sequence of requests (with any failures of the database) and of token
  administration keeps the constraints of all tables and the limiter's map, and every
  authentication slot taken is given back.
\<close>

theorem reachable_server_wf:
  assumes "New cfg fs = Some s0" and "cf_Store cfg = Some empty_database"
    and "(server_step sha dec)\<^sup>*\<^sup>* s0 s"
  shows "tokens_wf (tokens (sv_db s)) \<and> reports_wf (sv_db s) \<and> limiter_wf (sv_limiter s) \<and> sv_slotsUsed s = 0"
proof -
  have "server_wf s" using server_steps_wf [OF assms(3)] New_wf [OF assms(1,2)] by blast
  moreover have "sv_slotsUsed s = sv_slotsUsed s0"
    using assms(3)
  proof (induction rule: rtranclp_induct)
    case (step t u)
    from step(2) have "sv_slotsUsed u = sv_slotsUsed t"
      by (auto elim!: server_stepE simp: ServeHTTP_slots)
    with step show ?case by simp
  qed simp
  moreover have "sv_slotsUsed s0 = 0" using assms(1) by (auto simp: New_def split: option.splits)
  ultimately show ?thesis by (simp add: server_wf_def)
qed

theorem reachable_server_wf_witness:
  "\<exists>s0 s. New (demo_config []) Map.empty = Some s0 \<and>
     (server_step demo_sha demo_dec)\<^sup>*\<^sup>* s0 s \<and> tokens (sv_db s) = snd demo_create \<and> tokens_wf (tokens (sv_db s))"
proof -
  obtain s0 where s0: "New (demo_config []) Map.empty = Some s0" "tokens (sv_db s0) = []"
    by (simp add: New_def demo_config_def)
  have st: "cf_Store (demo_config []) = Some empty_database"
    by (simp add: demo_config_def empty_database_def)
  let ?s = "s0\<lparr>sv_db := (sv_db s0)\<lparr>tokens := snd demo_create\<rparr>\<rparr>"
  have "token_step demo_sha (tokens (sv_db s0)) (snd demo_create)"
    unfolding demo_create_def s0(2) by (metis prod.collapse token_step.create)
  then have "server_step demo_sha demo_dec s0 ?s" by (rule server_step.administer)
  then have steps: "(server_step demo_sha demo_dec)\<^sup>*\<^sup>* s0 ?s" by simp
  from reachable_server_wf [OF s0(1) st steps] s0 steps show ?thesis by auto
qed

text \<open>
  The display endpoint is total and read-only. In every well-formed state, on a working
  database, a request is answered 200 with the snapshot of the current tables, 401 or 429 and
  nothing else; a 200 requires a live \<open>display:read\<close> token (an agent token is not enough), and no
  stored report changes.
\<close>

theorem display_endpoint_total:
  assumes "server_wf s" and "en_store_io env = reliable"
    and "handleDisplaySnapshot sha env r s = (resp, s')"
  shows "same_reports (sv_db s') (sv_db s) \<and>
    (rs_status resp = 401 \<or> rs_status resp = 429 \<or>
     rs_status resp = 200 \<and>
       (\<exists>raw row snap. parseBearer (hr_authorization r) = Some raw \<and> row \<in> set (tokens (sv_db s)) \<and>
          tk_digest row = sha raw \<and> tk_scope row = ScopeDisplayRead \<and> tk_revoked_at_ns row = None \<and>
          rs_payload resp = SnapshotBody snap \<and>
          BuildDisplaySnapshot reliable (\<lambda>_. sv_db s) (en_clock env 3) = ok snap))"
proof -
  obtain a t where au: "authenticate sha env r ScopeDisplayRead (sv_displayRateLimit s) s = (a, t)"
    by (cases "authenticate sha env r ScopeDisplayRead (sv_displayRateLimit s) s")
  have fr: "same_reports (sv_db t) (sv_db s)"
    using authenticate_frame [of s sha env r ScopeDisplayRead "sv_displayRateLimit s"] au by (simp add: auth_frame_def)
  show ?thesis
  proof (cases a)
    case (Inl e)
    with au assms(3) fr authenticate_err_status [of sha env r ScopeDisplayRead "sv_displayRateLimit s" s e t]
    show ?thesis by (auto simp: handleDisplaySnapshot_def)
  next
    case (Inr rec)
    with au obtain raw where raw: "parseBearer (hr_authorization r) = Some raw"
      "AuthenticateToken sha (en_token_io env) (en_clock env 1) raw ScopeDisplayRead (tokens (sv_db s)) =
         (ok rec, tokens (sv_db t))" by (metis authenticate_ok)
    obtain row where row: "row \<in> set (tokens (sv_db s))" "live_match sha raw ScopeDisplayRead row"
      using AuthenticateToken_sound [OF _ raw(2)] assms(1) by (auto simp: server_wf_def)
    have wf: "reports_wf (sv_db s)" using assms(1) by (simp add: server_wf_def)
    have same: "BuildDisplaySnapshot reliable (\<lambda>_. sv_db t) now = BuildDisplaySnapshot reliable (\<lambda>_. sv_db s) now" for now
      using fr by (rule BuildDisplaySnapshot_same)
    obtain snap where "BuildDisplaySnapshot reliable (\<lambda>_. sv_db s) (en_clock env 3) = ok snap"
      using BuildDisplaySnapshot_eq [of "\<lambda>_. sv_db s"] wf by blast
    then show ?thesis
      using au Inr assms(2,3) raw(1) row fr same
      by (auto simp: handleDisplaySnapshot_def live_match_def writeJSON_def)
  qed
qed

definition demo_get :: http_request where
  "demo_get = \<lparr>hr_method = ''GET'', hr_path = ''/api/v1/display/snapshot'', hr_authorization = [],
     hr_remote = ''10.0.0.9:4000'', hr_body = BodyInvalid, hr_trailing = TrailingEOF\<rparr>"

theorem display_endpoint_total_witness:
  "\<exists>resp s'. handleDisplaySnapshot demo_sha demo_server_env demo_get demo_server = (resp, s') \<and>
     rs_status resp = 401 \<and> same_reports (sv_db s') (sv_db demo_server)"
proof -
  have "rs_status (fst (handleDisplaySnapshot demo_sha demo_server_env demo_get demo_server)) = 401"
    by code_simp
  moreover obtain resp s' where h: "handleDisplaySnapshot demo_sha demo_server_env demo_get demo_server = (resp, s')"
    by (cases "handleDisplaySnapshot demo_sha demo_server_env demo_get demo_server")
  ultimately show ?thesis
    using display_endpoint_total [OF demo_server_wf _ h] by (auto simp: demo_server_env_def)
qed


definition demo_display_row :: token_row where
  "demo_display_row = \<lparr>tk_id = ''tok_d'', tk_digest = demo_fw_sha ''qmon_display_001'', tk_scope = ScopeDisplayRead,
     tk_agent_id = None, tk_label = [], tk_created_at_ns = 1, tk_revoked_at_ns = None, tk_last_used_at_ns = None\<rparr>"

definition demo_fw_server :: server where
  "demo_fw_server = the (New ((demo_config [demo_display_row])\<lparr>cf_FirmwareDir := ''/fw''\<rparr>) demo_directory)"

definition demo_download :: http_request where
  "demo_download = demo_get\<lparr>hr_authorization := ''Bearer qmon_display_001''\<rparr>"

lemma demo_fw_server_wf: "server_wf demo_fw_server"
proof -
  have "token_row_ok demo_display_row" by code_simp
  then show ?thesis
    by (simp add: demo_fw_server_def demo_config_def New_def server_wf_def empty_database_def reports_wf_def
        default_if_unset_def duration_defs max_int64_def limiter_wf_new tokens_wf_def)
qed


text \<open>
  The public health endpoint cannot be used to hammer the database. Once it has checked,
  requests during the following second repeat the cached answer and leave the state alone,
  whatever a new ping would have said.
\<close>

theorem health_answer_is_cached:
  assumes "\<not> IsZero (en_clock env 0)" and "en_clock env 0 \<le> en_clock env' 0"
    and "en_clock env' 0 < en_clock env 0 + second"
    and "IsZero (sv_healthCheckedAt s) \<or> Sub (en_clock env 0) (sv_healthCheckedAt s) \<ge> second"
  shows "handleHealth env' (snd (handleHealth env s)) = handleHealth env s \<and>
    (rs_status (fst (handleHealth env s)) = 200 \<longleftrightarrow> en_ping env)"
proof -
  have "\<not> second \<le> Sub (en_clock env' 0) (en_clock env 0)"
    using assms(3) by (simp add: Sub_ge_iff second_def min_int64_def max_int64_def)
  then show ?thesis
    using assms by (auto simp: handleHealth_def Let_def Before_def writeJSON_def writeError_def)
qed

theorem health_answer_is_cached_witness:
  "handleHealth (demo_server_env\<lparr>en_ping := False\<rparr>) (snd (handleHealth demo_server_env demo_server)) =
   handleHealth demo_server_env demo_server"
  using health_answer_is_cached [of demo_server_env "demo_server_env\<lparr>en_ping := False\<rparr>" demo_server]
  by (simp add: demo_server_env_def demo_server_def New_def demo_config_def IsZero_def zero_time_def second_def)

end
