(* ===== verification/Standalone.thy ===== *)
theory Standalone
  imports Agent_Command Server
begin

text \<open>
  Standalone mode of \<open>cmd/quota-monitor/main.go\<close>: server, agent and database in one process. The
  agent's reports go through \<open>ReportSink\<close> into the database instead of over HTTP; a notifier turns
  changes of the login state into log lines; a provider that is switched off is replaced by a
  collector that reports \<open>disabled\<close>.
\<close>

section \<open>Parts\<close>

definition disabled_report :: "time \<Rightarrow> provider_report" where
  "disabled_report now =
     \<lparr>ObservedAt = now, AuthState = ''disabled'', Plan = ''off'', Source = ''standalone-disabled'',
      Windows = \<lparr>FiveHour = None, SevenDay = None\<rparr>, ErrorCode = []\<rparr>"

datatype log_format = LogJSON | LogText

definition newQuotaLogger :: "string \<Rightarrow> log_format option" where
  "newQuotaLogger format =
     (let f = ToLower (TrimSpace format)
      in if f = ''json'' then Some LogJSON else if f = ''text'' then Some LogText else None)"

datatype sink_error = LocalReportInvalid | SinkStore store_error

definition report_sink :: "io \<Rightarrow> time \<Rightarrow> agent_report \<Rightarrow> database \<Rightarrow> sink_error option \<times> database" where
  "report_sink io now report db =
     (if ValidateAgentReport report now \<noteq> None then (Some LocalReportInvalid, db)
      else case ReplaceAgentReport io report now db of (e, db') \<Rightarrow> (map_option SinkStore e, db'))"

section \<open>The status notifier\<close>

record providerStatusNotifier =
  pn_last :: "(provider_name, string) gomap"

definition newProviderStatusNotifier :: providerStatusNotifier where
  "newProviderStatusNotifier = \<lparr>pn_last = []\<rparr>"

text \<open>The four log lines; the first argument is the provider's name as it is printed.\<close>

datatype status_notice =
    LoginNeeded string string | LoginRecovered string | LoginNormal string | QuotaUnavailable string

definition login_required :: "provider_report \<Rightarrow> bool" where
  "login_required r = (AuthState r = ''unauthenticated'' \<or> ErrorCode r = ''not_authenticated'')"

definition display_name :: "provider_name \<Rightarrow> string" where
  "display_name p = (if p = ProviderClaude then ''Claude'' else ''Codex'')"

definition login_command :: "provider_name \<Rightarrow> string" where
  "login_command p = (if p = ProviderClaude then ''quota-monitor login claude'' else ''quota-monitor login codex'')"

definition status_notice_for :: "provider_name \<Rightarrow> provider_report \<Rightarrow> bool \<Rightarrow> status_notice option" where
  "status_notice_for p r was_out =
     (if login_required r then Some (LoginNeeded (display_name p) (login_command p))
      else if AuthState r = ''authenticated'' then
        Some (if was_out then LoginRecovered (display_name p) else LoginNormal (display_name p))
      else if ErrorCode r \<noteq> [] then Some (QuotaUnavailable (display_name p))
      else None)"

definition Observe ::
    "provider_name \<Rightarrow> provider_report \<Rightarrow> providerStatusNotifier \<Rightarrow> status_notice option \<times> providerStatusNotifier" where
  "Observe provider report n =
     (let state = AuthState report @ ''|'' @ ErrorCode report;
          previous = (case gomap_get (pn_last n) provider of None \<Rightarrow> [] | Some s \<Rightarrow> s)
      in if previous = state then (None, n)
         else (status_notice_for provider report
                 (has_prefix previous ''unauthenticated|'' \<or> has_suffix previous ''|not_authenticated''),
               n\<lparr>pn_last := gomap_put provider state (pn_last n)\<rparr>))"

fun observe_all :: "(provider_name \<times> provider_report) list \<Rightarrow> providerStatusNotifier \<Rightarrow> status_notice option list" where
  "observe_all [] n = []"
| "observe_all ((p, r) # rest) n = (case Observe p r n of (line, n') \<Rightarrow> line # observe_all rest n')"

text \<open>
  What the notifier is for, without its string encoding: a line when the login or error state of a
  provider differs from the one seen last (\<open>seen\<close>, the latest observation first).
\<close>

fun same_status :: "provider_report option \<Rightarrow> provider_report \<Rightarrow> bool" where
  "same_status None r = False"
| "same_status (Some q) r = (AuthState q = AuthState r \<and> ErrorCode q = ErrorCode r)"

fun expected_notices :: "(provider_name, provider_report) gomap \<Rightarrow> (provider_name \<times> provider_report) list \<Rightarrow> status_notice option list" where
  "expected_notices seen [] = []"
| "expected_notices seen ((p, r) # rest) =
     (if same_status (gomap_get seen p) r then None
      else status_notice_for p r (pred_option login_required (gomap_get seen p) \<and> gomap_get seen p \<noteq> None))
     # expected_notices (gomap_put p r seen) rest"

definition bar_free :: "provider_report \<Rightarrow> bool" where
  "bar_free r = (CHR ''|'' \<notin> set (AuthState r) \<and> CHR ''|'' \<notin> set (ErrorCode r))"

definition status_text :: "provider_report \<Rightarrow> string" where
  "status_text r = AuthState r @ ''|'' @ ErrorCode r"

lemma bar_split:
  assumes "CHR ''|'' \<notin> set a" "CHR ''|'' \<notin> set c" "a @ CHR ''|'' # b = c @ CHR ''|'' # d"
  shows "a = c \<and> b = d"
  using assms
proof (induction a arbitrary: c)
  case Nil
  then show ?case by (cases c) auto
next
  case (Cons x a)
  then show ?case by (cases c) auto
qed

lemma status_text_eq: "bar_free q \<Longrightarrow> bar_free r \<Longrightarrow> status_text q = status_text r \<longleftrightarrow> same_status (Some q) r"
  using bar_split [of "AuthState q" "AuthState r"] by (auto simp: status_text_def bar_free_def)

lemma status_text_prefix: "bar_free r \<Longrightarrow> has_prefix (status_text r) ''unauthenticated|'' \<longleftrightarrow> AuthState r = ''unauthenticated''"
  using bar_split [of "AuthState r" "''unauthenticated''" "ErrorCode r"]
  by (auto simp: has_prefix_iff prefix_def status_text_def bar_free_def)

lemma status_text_suffix: "bar_free r \<Longrightarrow> has_suffix (status_text r) ''|not_authenticated'' \<longleftrightarrow> ErrorCode r = ''not_authenticated''"
  using bar_split [of "rev (ErrorCode r)" "rev ''not_authenticated''" "rev (AuthState r)"]
  by (auto simp: has_suffix_def has_prefix_iff prefix_def status_text_def bar_free_def)

definition sees :: "providerStatusNotifier \<Rightarrow> (provider_name, provider_report) gomap \<Rightarrow> bool" where
  "sees n seen = (\<forall>p. gomap_get (pn_last n) p = map_option status_text (gomap_get seen p) \<and> pred_option bar_free (gomap_get seen p))"

lemma Observe_text:
  "Observe p r n =
     (let previous = (case gomap_get (pn_last n) p of None \<Rightarrow> [] | Some s \<Rightarrow> s)
      in if previous = status_text r then (None, n)
         else (status_notice_for p r (has_prefix previous ''unauthenticated|'' \<or> has_suffix previous ''|not_authenticated''),
               n\<lparr>pn_last := gomap_put p (status_text r) (pn_last n)\<rparr>))"
  by (simp add: Observe_def Let_def status_text_def)

lemma status_text_nonempty [simp]: "status_text r \<noteq> []" "[] \<noteq> status_text r"
  by (simp_all add: status_text_def)

lemma Observe_step:
  assumes "sees n seen" and "bar_free r"
  shows "fst (Observe p r n) = hd (expected_notices seen [(p, r)]) \<and> sees (snd (Observe p r n)) (gomap_put p r seen)"
proof (cases "gomap_get seen p")
  case None
  with assms show ?thesis
    by (auto simp: Observe_text Let_def sees_def gomap_gets has_suffix_def)
next
  case (Some q)
  with assms have q: "bar_free q" "gomap_get (pn_last n) p = Some (status_text q)" by (auto simp: sees_def dest: spec [of _ p])
  then show ?thesis using Some assms status_text_eq [OF q(1) assms(2)]
    by (auto simp: Observe_text Let_def sees_def gomap_gets login_required_def status_text_prefix status_text_suffix)
qed

lemma observe_all_expected:
  "sees n seen \<Longrightarrow> \<forall>(p, r)\<in>set obs. bar_free r \<Longrightarrow> observe_all obs n = expected_notices seen obs"
proof (induction obs arbitrary: n seen)
  case (Cons x obs)
  obtain p r where x: "x = (p, r)" by fastforce
  with Cons.prems have "bar_free r" by auto
  from Observe_step [OF Cons.prems(1) this, of p] Cons show ?case by (auto simp: x split: prod.splits)
qed simp


definition demo_observed :: "string \<Rightarrow> string \<Rightarrow> provider_report" where
  "demo_observed auth code = (disabled_report 0)\<lparr>AuthState := auth, ErrorCode := code\<rparr>"


section \<open>Start-up\<close>

text \<open>
  \<open>sn_store\<close> is the environment of the database commands; \<open>sn_listen\<close> says for which addresses the
  listener can be opened, \<open>sn_firmware\<close> is the firmware directory on disk, \<open>sn_linux\<close> the platform.
  \<open>sn_collect\<close> and \<open>sn_arrival\<close> are the results of the enabled collectors and their order.
\<close>

record standalone_env =
  sn_store :: store_env
  sn_ops :: token_ops
  sn_random :: "string option"
  sn_linux :: bool
  sn_listen :: "string \<Rightarrow> bool"
  sn_firmware :: "string \<Rightarrow> directory"
  sn_url :: "string \<Rightarrow> parsed_url option"
  sn_loopback :: "string \<Rightarrow> bool"
  sn_collect :: "provider_name \<Rightarrow> provider_report \<times> bool"
  sn_arrival :: "collectionResult list \<Rightarrow> collectionResult list"
  sn_sink_io :: io
  sn_report_time :: time
  sn_sink_time :: time

datatype standalone_error =
    StandaloneFlags flag_error | StandaloneMessage string | UnsupportedLogFormat | StandaloneStore command_error
  | DisplayPathError command_error | DisplayTokenError display_error | HookSecretPathError command_error
  | HookSecretFailed cli_error | ServerConfigError | ListenError | StandaloneAgent agent_error
  | InitialSnapshot sink_error | APIFailed string | CollectorFailed string | CollectorStuck | ShutdownFailed string

definition defaultFirmwareDir :: "bool \<Rightarrow> string" where
  "defaultFirmwareDir linux = (if linux then ''/var/lib/quota-monitor/firmware'' else path_Join [''data'', ''firmware''])"

definition standalone_flags :: "standalone_env \<Rightarrow> flag_set" where
  "standalone_flags env =
     (let or = (\<lambda>name fallback. VString (envOr (se_getenv (sn_store env)) name fallback))
      in [(''listen'', or ''QUOTA_MONITOR_LISTEN'' ''127.0.0.1:8787''),
          (''db'', or ''QUOTA_MONITOR_DB'' ''data/monitor.db''),
          (''display-token-file'', or ''QUOTA_MONITOR_DISPLAY_TOKEN_FILE'' ''data/display.token''),
          (''hook-addr'', or ''QUOTA_MONITOR_HOOK_ADDR'' ''127.0.0.1:47632''),
          (''hook-secret-file'', or ''QUOTA_MONITOR_HOOK_SECRET_FILE'' ''data/hook-secret''),
          (''agent-id'', or ''QUOTA_MONITOR_AGENT_ID'' ''cloud-standalone''),
          (''codex-command'', or ''QUOTA_MONITOR_CODEX_COMMAND'' ''codex''),
          (''claude-command'', or ''QUOTA_MONITOR_CLAUDE_COMMAND'' ''claude''),
          (''codex'', VBool True), (''claude'', VBool True), (''codex-plan'', VString []), (''claude-plan'', VString []),
          (''collect-interval'', VDuration DefaultCollectInterval), (''sequential-collection'', VBool True),
          (''persist-interval'', VDuration DefaultReportInterval),
          (''log-format'', or ''QUOTA_MONITOR_LOG_FORMAT'' ''text''),
          (''firmware-dir'', or ''QUOTA_MONITOR_FIRMWARE_DIR'' (defaultFirmwareDir (sn_linux env)))])"

definition plan_overrides :: "flag_set \<Rightarrow> (provider_name, string) gomap" where
  "plan_overrides fs =
     (let codex = string_flag fs ''codex-plan''; claude = string_flag fs ''claude-plan'';
          m = (if TrimSpace codex \<noteq> [] then gomap_put ProviderCodex codex [] else [])
      in if TrimSpace claude \<noteq> [] then gomap_put ProviderClaude claude m else m)"

text \<open>Both collectors are always set: one that is switched off is the disabled one.\<close>

definition standalone_config :: "flag_set \<Rightarrow> string \<Rightarrow> agent_config" where
  "standalone_config fs hookSecret =
     \<lparr>cfg_AgentID = string_flag fs ''agent-id'', cfg_ServerURL = [], cfg_Token = [], cfg_Codex = True, cfg_Claude = True,
      cfg_PlanOverrides = plan_overrides fs, cfg_HookAddr = string_flag fs ''hook-addr'', cfg_HookSecret = hookSecret,
      cfg_ReportInterval = duration_flag fs ''persist-interval'', cfg_CollectInterval = duration_flag fs ''collect-interval'',
      cfg_SequentialCollection = bool_flag fs ''sequential-collection'', cfg_MaxBackoff = 0, cfg_ReportSink = True,
      cfg_AllowInsecureHTTP = False\<rparr>"

definition standalone_collect :: "standalone_env \<Rightarrow> flag_set \<Rightarrow> provider_name \<Rightarrow> provider_report \<times> bool" where
  "standalone_collect env fs p =
     (if bool_flag fs (if p = ProviderCodex then ''codex'' else ''claude'') then sn_collect env p
      else (disabled_report (sn_report_time env), False))"

definition hook_secret_for :: "standalone_env \<Rightarrow> flag_set \<Rightarrow> (standalone_error, string) host_action" where
  "hook_secret_for env fs h =
     (if TrimSpace (string_flag fs ''hook-addr'') = [] then (Inr [], h)
      else case resolveUserPath (se_expand (sn_store env)) (he_home (se_host (sn_store env))) (string_flag fs ''hook-secret-file'') of
        Inl e \<Rightarrow> (Inl (HookSecretPathError e), h)
      | Inr path \<Rightarrow> map_error HookSecretFailed (loadOrCreateSecret (se_host (sn_store env)) (sn_random env) path) h)"

definition display_token_for ::
    "standalone_env \<Rightarrow> flag_set \<Rightarrow> string \<Rightarrow> store_session \<Rightarrow> (standalone_error, unit) result \<times> store_session" where
  "display_token_for env fs dsn s =
     (case resolveUserPath (se_expand (sn_store env)) (he_home (se_host (sn_store env))) (string_flag fs ''display-token-file'') of
        Inl e \<Rightarrow> (Inl (DisplayPathError e), s)
      | Inr path \<Rightarrow>
          (case ensureDisplayToken (sn_store env) (sn_ops env) path (sx_host s) (tokens_at (sx_disk s) dsn) of
             (res, h, ts) \<Rightarrow>
               let s1 = s\<lparr>sx_host := h, sx_disk := put_tokens dsn ts (sx_disk s)\<rparr>
               in case res of
                    Inl e \<Rightarrow> (Inl (DisplayTokenError e), s1)
                  | Inr created \<Rightarrow>
                      (Inr (), if created then snd (print_store (sn_store env)
                         (Text (''created display token file '' @ path @ ''; copy its qmon_ value to the ESP32'' @ [CHR 0x0A])) s1)
                       else s1)))"

text \<open>The first report: collected and persisted before the schedulers start.\<close>

definition initial_report ::
    "standalone_env \<Rightarrow> flag_set \<Rightarrow> agent \<Rightarrow> database \<Rightarrow> (standalone_error, agent) result \<times> database" where
  "initial_report env fs a db =
     (let collect = standalone_collect env fs;
          a1 = CollectOnce collect (sn_arrival env (collection_items collect (ag_cfg a))) a;
          (report, a2) = SnapshotReport (sn_report_time env) a1
      in case report_sink (sn_sink_io env) (sn_sink_time env) report db of
           (Some e, db') \<Rightarrow> (Inl (InitialSnapshot e), db')
         | (None, db') \<Rightarrow> (Inr a2, db'))"

record standalone =
  sa_run :: run_state
  sa_server :: server
  sa_format :: log_format

definition put_database :: "string \<Rightarrow> database \<Rightarrow> store_session \<Rightarrow> store_session" where
  "put_database dsn db s = s\<lparr>sx_disk := (sx_disk s)(dsn := (sx_disk s dsn)\<lparr>df_data := Some db\<rparr>)\<rparr>"

text \<open>After the database is open: token, secret, server, listener, agent, first report.\<close>

definition start_services ::
    "standalone_env \<Rightarrow> flag_set \<Rightarrow> log_format \<Rightarrow> string \<Rightarrow> store_session \<Rightarrow>
     (standalone_error, standalone) result \<times> store_session" where
  "start_services env fs fmt dsn s =
     (case display_token_for env fs dsn s of
        (Inl e, s1) \<Rightarrow> (Inl e, s1)
      | (Inr _, s1) \<Rightarrow>
          (case hook_secret_for env fs (sx_host s1) of
             (Inl e, h) \<Rightarrow> (Inl e, s1\<lparr>sx_host := h\<rparr>)
           | (Inr hookSecret, h) \<Rightarrow>
               let s2 = s1\<lparr>sx_host := h\<rparr>; dir = string_flag fs ''firmware-dir''
               in case New \<lparr>cf_Store = df_data (sx_disk s2 dsn), cf_FirmwareDir = dir, cf_AgentRequestsPerMinute = 0,
                            cf_DisplayRequestsPerMinute = 0, cf_AuthAttemptsPerMinute = 0,
                            cf_GlobalAuthAttemptsPerMinute = 0, cf_ConcurrentAuth = 0\<rparr> (sn_firmware env dir) of
                    None \<Rightarrow> (Inl ServerConfigError, s2)
                  | Some api \<Rightarrow>
                      if \<not> sn_listen env (string_flag fs ''listen'') then (Inl ListenError, s2)
                      else case NewAgent (sn_url env) (sn_loopback env) (standalone_config fs hookSecret) None of
                        Inl e \<Rightarrow> (Inl (StandaloneAgent e), s2)
                      | Inr a \<Rightarrow>
                          (case initial_report env fs a (sv_db api) of
                             (Inl e, db) \<Rightarrow> (Inl e, put_database dsn db s2)
                           | (Inr a', db) \<Rightarrow>
                               (Inr \<lparr>sa_run = run_start False (sn_report_time env) a', sa_server = api\<lparr>sv_db := db\<rparr>,
                                     sa_format = fmt\<rparr>, put_database dsn db s2))))"

definition runStandalone ::
    "standalone_env \<Rightarrow> string list \<Rightarrow> store_session \<Rightarrow> (standalone_error, standalone) result \<times> store_session" where
  "runStandalone env args s =
     (case Parse (se_dur (sn_store env)) (standalone_flags env) args of
        Inl e \<Rightarrow> (Inl (StandaloneFlags e), s)
      | Inr (fs, rest) \<Rightarrow>
          if rest \<noteq> [] then (Inl (StandaloneMessage ''standalone accepts no positional arguments''), s)
          else if \<not> bool_flag fs ''codex'' \<and> \<not> bool_flag fs ''claude'' then
            (Inl (StandaloneMessage ''standalone requires at least one of --codex or --claude''), s)
          else if duration_flag fs ''collect-interval'' \<le> 0 \<or> duration_flag fs ''persist-interval'' \<le> 0 then
            (Inl (StandaloneMessage ''collect and persist intervals must be positive''), s)
          else case newQuotaLogger (string_flag fs ''log-format'') of
            None \<Rightarrow> (Inl UnsupportedLogFormat, s)
          | Some fmt \<Rightarrow>
              (case openTokenStore (sn_store env) (string_flag fs ''db'') s of
                 (Inl e, s1) \<Rightarrow> (Inl (StandaloneStore e), s1)
               | (Inr dsn, s1) \<Rightarrow> start_services env fs fmt dsn s1))"

text \<open>
  The end of the run: which of the three channels was ready first, what the shutdown of the server
  returned, and what came from the agent within ten seconds.
\<close>

datatype first_event = SignalReceived | ServerEnded "string option" | AgentEnded "string option"

datatype agent_end = AgentEndedLate "string option" | AgentTimedOut

definition standalone_result ::
    "first_event \<Rightarrow> string option \<Rightarrow> agent_end \<Rightarrow> standalone_error option" where
  "standalone_result first shutdownErr late =
     (let runErr = (case first of
             SignalReceived \<Rightarrow> None
           | ServerEnded e \<Rightarrow> map_option APIFailed e
           | AgentEnded e \<Rightarrow> map_option CollectorFailed e);
          runErr = (case first of
             AgentEnded _ \<Rightarrow> runErr
           | _ \<Rightarrow> (case late of
                AgentEndedLate e \<Rightarrow> if runErr = None then map_option CollectorFailed e else runErr
              | AgentTimedOut \<Rightarrow> if runErr = None then Some CollectorStuck else runErr))
      in if runErr = None then map_option ShutdownFailed shutdownErr else runErr)"

section \<open>The first snapshot\<close>

lemma filter_other: "filter (\<lambda>x. f x = b) (filter (\<lambda>x. f x \<noteq> b) xs) = []"
  by (auto simp: filter_empty_conv)

text \<open>A successful transaction, whatever could have failed, makes the report the agent's view.\<close>

lemma ReplaceAgentReport_stored:
  assumes "ReplaceAgentReport io rep recv db = (None, db')"
  shows "agent_view db' (ar_AgentID rep) = Some (UnixNano (ar_SentAt rep), report_content rep recv)"
  using assms
proof (rule ReplaceAgentReport_ok)
  fix ags
  assume u: "upsert_agent (ar_AgentID rep) (UnixNano (ar_SentAt rep)) (UnixNano recv) (agents db) = Some ags"
    and d: "db' = db\<lparr>agents := ags,
        provider_reports := filter (\<lambda>r. pw_agent_id r \<noteq> ar_AgentID rep) (provider_reports db) @ report_provider_rows rep,
        active_tasks := filter (\<lambda>r. tr_agent_id r \<noteq> ar_AgentID rep) (active_tasks db) @ report_task_rows rep\<rparr>"
  show ?thesis
    by (simp add: d agent_view_def upsert_agent_find [OF u] report_rows_owner report_content_def filter_other del: filter_filter)
qed

lemma report_sink_ok:
  "report_sink io now rep db = (None, db') \<Longrightarrow>
     ValidateAgentReport rep now = None \<and>
     agent_view db' (ar_AgentID rep) = Some (UnixNano (ar_SentAt rep), report_content rep now)"
  by (auto simp: report_sink_def split: if_splits prod.splits dest: ReplaceAgentReport_stored)

lemma fold_store_present:
  "p \<in> cr_provider ` set items \<or> gomap_get (ag_providers a) p \<noteq> None \<Longrightarrow>
     gomap_get (ag_providers (fold storeCollectionResult items a)) p \<noteq> None"
  by (induction items arbitrary: a) (auto simp: store_get)

lemma fold_store_cfg: "ag_cfg (fold storeCollectionResult items a) = ag_cfg a"
  by (induction items arbitrary: a) simp_all

lemma collect_present:
  assumes "mset arrival = mset (collection_items collect (ag_cfg a))" and "p \<in> set (configuredCollectors (ag_cfg a))"
  shows "p \<in> fst ` set (ag_providers (CollectOnce collect arrival a))"
proof -
  have "cr_provider ` set arrival = set (configuredCollectors (ag_cfg a))"
    "cr_provider ` set (collection_items collect (ag_cfg a)) = set (configuredCollectors (ag_cfg a))"
    using mset_eq_setD [OF assms(1)] by (auto simp: collection_items_def image_image)
  with assms(2) have "gomap_get (ag_providers (CollectOnce collect arrival a)) p \<noteq> None"
    using fold_store_present [of p _ a] by (simp add: CollectOnce_def del: not_None_eq)
  then show ?thesis by (metis gomap_get_def map_of_eq_None_iff)
qed

lemma initial_report_ok:
  assumes "initial_report env fs a db = (Inr a', db')" and "\<And>xs. mset (sn_arrival env xs) = mset xs"
    and "ag_cfg a = cfg" and "configuredCollectors cfg = [ProviderCodex, ProviderClaude]"
  shows "\<exists>report. {ProviderCodex, ProviderClaude} \<subseteq> fst ` set (range_of (ar_Providers report)) \<and> ag_cfg a' = cfg \<and>
    agent_view db' (cfg_AgentID cfg) = Some (UnixNano (sn_report_time env), report_content report (sn_sink_time env))"
proof -
  let ?collect = "standalone_collect env fs"
  let ?a1 = "CollectOnce ?collect (sn_arrival env (collection_items ?collect (ag_cfg a))) a"
  obtain report a2 where snap: "SnapshotReport (sn_report_time env) ?a1 = (report, a2)" by fastforce
  with assms(1) have r: "a' = a2" "report_sink (sn_sink_io env) (sn_sink_time env) report db = (None, db')"
    by (auto simp: initial_report_def Let_def split: prod.splits option.splits)
  have cfg: "ag_cfg ?a1 = cfg" using assms(3) by (simp add: CollectOnce_def fold_store_cfg)
  have f: "ar_AgentID report = cfg_AgentID cfg" "ar_SentAt report = sn_report_time env" "ag_cfg a2 = cfg"
      "ar_Providers report = Some (map (\<lambda>(p, r). (p, override_plan cfg p r)) (ag_providers ?a1))"
    using snap cfg by (auto simp: SnapshotReport_def split: prod.splits)
  have keys: "fst ` set (map (\<lambda>(p, r). (p, override_plan cfg p r)) m) = fst ` set m" for m by force
  have "{ProviderCodex, ProviderClaude} \<subseteq> fst ` set (range_of (ar_Providers report))"
    unfolding f(4) range_of_def option.case keys
    using assms(3,4) collect_present [OF assms(2), of _ a ?collect] by simp
  with report_sink_ok [OF r(2)] f(1-3) r(1) show ?thesis by metis
qed

text \<open>
  C20: The schedulers of standalone mode start from a complete snapshot. When the start-up succeeds, the database
  behind the API, which is the one on disk, holds a report of the local agent with an entry for
  both providers, sent at start-up; the schedulers start without requesting the same collection
  again.
\<close>

theorem standalone_starts_complete:
  assumes "runStandalone env args s = (Inr sa, s')" and "\<forall>xs. mset (sn_arrival env xs) = mset xs"
  shows "\<exists>dsn report. df_data (sx_disk s' dsn) = Some (sv_db (sa_server sa)) \<and>
    {ProviderCodex, ProviderClaude} \<subseteq> fst ` set (range_of (ar_Providers report)) \<and> \<not> rn_request (sa_run sa) \<and>
    agent_view (sv_db (sa_server sa)) (cfg_AgentID (rn_cfg (sa_run sa))) =
      Some (UnixNano (sn_report_time env), report_content report (sn_sink_time env))"
proof -
  from assms(1) obtain fs fmt dsn s1 where "start_services env fs fmt dsn s1 = (Inr sa, s')"
    by (auto simp: runStandalone_def split: sum.splits prod.splits if_splits option.splits)
  then obtain secret api a a' db s2 where
      new: "NewAgent (sn_url env) (sn_loopback env) (standalone_config fs secret) None = ok a"
    and init: "initial_report env fs a (sv_db api) = (Inr a', db)"
    and sa: "sa = \<lparr>sa_run = run_start False (sn_report_time env) a', sa_server = api\<lparr>sv_db := db\<rparr>, sa_format = fmt\<rparr>"
      "s' = put_database dsn db s2"
    by (auto simp: start_services_def Let_def split: sum.splits prod.splits if_splits option.splits)
  have "configuredCollectors (ag_cfg a) = [ProviderCodex, ProviderClaude]"
    using NewAgent_cfg [OF new] by (simp add: configuredCollectors_def standalone_config_def)
  from initial_report_ok [OF init _ refl this] assms(2) show ?thesis
    by (auto simp: sa put_database_def)
qed

definition demo_standalone :: standalone_env where
  "demo_standalone =
     \<lparr>sn_store = demo_store_env (\<lambda>_. True), sn_ops = demo_token_ops, sn_random = Some (replicate 32 (CHR 0x05)), sn_linux = True,
      sn_listen = (\<lambda>_. True), sn_firmware = (\<lambda>_ _. None), sn_url = (\<lambda>_. None), sn_loopback = (\<lambda>_. False),
      sn_collect = (\<lambda>_. (demo_poll (1000 * second) no_windows, False)), sn_arrival = rev, sn_sink_io = (\<lambda>_. True),
      sn_report_time = 1000 * second, sn_sink_time = 1001 * second\<rparr>"

definition demo_start :: "(standalone_error, standalone) result \<times> store_session" where
  "demo_start = runStandalone demo_standalone [''--db'', ''/srv/m.db'', ''-claude=false'', ''--hook-addr'', []]
     \<lparr>sx_host = demo_host, sx_disk = (\<lambda>_. fresh_file), sx_out = []\<rparr>"

theorem standalone_starts_complete_witness:
  "\<exists>sa s' dsn. demo_start = (Inr sa, s') \<and> df_data (sx_disk s' dsn) = Some (sv_db (sa_server sa)) \<and>
     agent_view (sv_db (sa_server sa)) (cfg_AgentID (rn_cfg (sa_run sa))) \<noteq> None"
proof -
  have "is_ok (fst demo_start)" by code_simp
  then obtain sa s' where d: "demo_start = (Inr sa, s')" by (metis is_ok_fstE prod.collapse)
  have "\<forall>xs. mset (sn_arrival demo_standalone xs) = mset xs" by (simp add: demo_standalone_def)
  from standalone_starts_complete [OF d [unfolded demo_start_def] this] d show ?thesis by (metis option.discI)
qed

end
