(* ===== verification/Service_Files.thy ===== *)
theory Service_Files
  imports Host_Files
begin

text \<open>
  \<open>internal/agent/service.go\<close>: the command line of a service, the scheduled task for Windows and
  the user unit for systemd, as functions from the configuration to the text of the file, on a
  Unix host (where \<open>filepath.Dir\<close> and \<open>path.Dir\<close> agree). A line feed is written \<open>newline\<close>.
\<close>

section \<open>Definitions\<close>

record ServiceFileConfig =
  sf_Executable :: string
  sf_ConfigPath :: string
  sf_FirmwareDirectory :: string
  sf_WorkingDirectory :: string
  sf_WindowsUserID :: string
  sf_Mode :: string

datatype service_error = NoExecutable | ConfigPathRequired | UnsupportedMode string

definition newline :: char where "newline = CHR 0x0A"
definition quote :: char where "quote = CHR 0x22"
definition backslash :: char where "backslash = CHR 0x5C"

text \<open>\<open>strings.NewReplacer\<close> with one-byte patterns replaces byte by byte.\<close>

definition systemd_byte :: "char \<Rightarrow> string" where
  "systemd_byte c =
     (if c = backslash then [backslash, backslash]
      else if c = quote then [backslash, quote]
      else if c = CHR ''%'' then ''%%''
      else [c])"

definition systemdEscape :: "string \<Rightarrow> string" where
  "systemdEscape value = [quote] @ concat (map systemd_byte value) @ [quote]"

text \<open>\<open>html.EscapeString\<close>\<close>

definition html_byte :: "char \<Rightarrow> string" where
  "html_byte c =
     (if c = CHR ''&'' then ''&amp;''
      else if c = CHR 0x27 then ''&#39;''
      else if c = CHR ''<'' then ''&lt;''
      else if c = CHR ''>'' then ''&gt;''
      else if c = quote then ''&#34;''
      else [c])"

definition EscapeString :: "string \<Rightarrow> string" where
  "EscapeString s = concat (map html_byte s)"

text \<open>The description and the arguments of the service.\<close>

definition serviceCommand :: "ServiceFileConfig \<Rightarrow> (service_error, string \<times> string) result" where
  "serviceCommand cfg =
     (let mode = (let m = ToLower (TrimSpace (sf_Mode cfg)) in if m = [] then ''agent'' else m)
      in if mode = ''agent'' then
           (if sf_ConfigPath cfg = [] then Inl ConfigPathRequired
            else ok (''Codex and Claude quota monitor agent'', ''agent --config '' @ systemdEscape (sf_ConfigPath cfg)))
         else if mode = ''standalone'' then ok (''Codex and Claude standalone quota monitor'', ''standalone'')
         else Inl (UnsupportedMode (sf_Mode cfg)))"

definition task_arguments :: "ServiceFileConfig \<Rightarrow> string \<Rightarrow> string" where
  "task_arguments cfg arguments =
     (if has_prefix arguments ''agent --config '' then
        ''agent --config &quot;'' @ EscapeString (sf_ConfigPath cfg) @ ''&quot;''
      else if fold_eq (TrimSpace (sf_Mode cfg)) ''standalone'' \<and> sf_FirmwareDirectory cfg \<noteq> [] then
        arguments @ '' --firmware-dir &quot;'' @ EscapeString (sf_FirmwareDirectory cfg) @ ''&quot;''
      else arguments)"

definition task_working :: "ServiceFileConfig \<Rightarrow> string" where
  "task_working cfg = (if sf_WorkingDirectory cfg = [] then Dir (sf_Executable cfg) else sf_WorkingDirectory cfg)"

definition unlines :: "string list \<Rightarrow> string" where
  "unlines ls = concat (map (\<lambda>l. l @ [newline]) ls)"

definition task_principal :: "ServiceFileConfig \<Rightarrow> string" where
  "task_principal cfg =
     (if sf_WindowsUserID cfg = [] then []
      else [newline] @ ''      <UserId>'' @ EscapeString (sf_WindowsUserID cfg) @ ''</UserId>'')"

definition task_xml :: "string \<Rightarrow> string \<Rightarrow> string \<Rightarrow> string \<Rightarrow> string" where
  "task_xml user executable arguments working = unlines
     [''<?xml version=\"1.0\" encoding=\"UTF-8\"?>'',
      ''<Task version=\"1.4\" xmlns=\"http://schemas.microsoft.com/windows/2004/02/mit/task\">'',
      ''  <Triggers>'',
      ''    <LogonTrigger><Enabled>true</Enabled></LogonTrigger>'',
      ''  </Triggers>'',
      ''  <Principals>'',
      ''    <Principal id=\"Author\">'' @ user,
      ''      <LogonType>InteractiveToken</LogonType>'',
      ''      <RunLevel>LeastPrivilege</RunLevel>'',
      ''    </Principal>'',
      ''  </Principals>'',
      ''  <Settings>'',
      ''    <MultipleInstancesPolicy>IgnoreNew</MultipleInstancesPolicy>'',
      ''    <DisallowStartIfOnBatteries>false</DisallowStartIfOnBatteries>'',
      ''    <StopIfGoingOnBatteries>false</StopIfGoingOnBatteries>'',
      ''    <ExecutionTimeLimit>PT0S</ExecutionTimeLimit>'',
      ''    <RestartOnFailure><Interval>PT1M</Interval><Count>10</Count></RestartOnFailure>'',
      ''  </Settings>'',
      ''  <Actions Context=\"Author\">'',
      ''    <Exec>'',
      ''      <Command>'' @ executable @ ''</Command>'',
      ''      <Arguments>'' @ arguments @ ''</Arguments>'',
      ''      <WorkingDirectory>'' @ working @ ''</WorkingDirectory>'',
      ''    </Exec>'',
      ''  </Actions>'',
      ''</Task>'']"

definition GenerateWindowsTaskXML :: "ServiceFileConfig \<Rightarrow> (service_error, string) result" where
  "GenerateWindowsTaskXML cfg =
     (if sf_Executable cfg = [] then Inl NoExecutable
      else case serviceCommand cfg of
        Inl e \<Rightarrow> Inl e
      | Inr (_, arguments) \<Rightarrow>
          ok (task_xml (task_principal cfg) (EscapeString (sf_Executable cfg)) (task_arguments cfg arguments)
                (EscapeString (task_working cfg))))"

definition unit_arguments :: "ServiceFileConfig \<Rightarrow> string \<Rightarrow> string" where
  "unit_arguments cfg arguments =
     (if fold_eq (TrimSpace (sf_Mode cfg)) ''standalone'' then
        (if sf_FirmwareDirectory cfg = [] then
           arguments @ '' --firmware-dir=\"%h/.local/share/quota-monitor/firmware\"''
         else arguments @ '' --firmware-dir '' @ systemdEscape (sf_FirmwareDirectory cfg))
      else arguments)"

definition unit_working :: "ServiceFileConfig \<Rightarrow> string" where
  "unit_working cfg =
     (if sf_WorkingDirectory cfg = [] then
        (if sf_ConfigPath cfg \<noteq> [] then Dir (sf_ConfigPath cfg) else Dir (sf_Executable cfg))
      else sf_WorkingDirectory cfg)"

definition systemd_unit :: "string \<Rightarrow> string \<Rightarrow> string \<Rightarrow> string list" where
  "systemd_unit description working command =
     [''[Unit]'',
      ''Description='' @ description,
      ''After=network-online.target'',
      ''Wants=network-online.target'',
      [],
      ''[Service]'',
      ''Type=simple'',
      ''WorkingDirectory='' @ working,
      ''# Covers conventional per-user and system-wide CLI installs. nvm/asdf paths'',
      ''# are versioned, so agent.json should use absolute codexCommand and'',
      ''# claudeCommand values on those installations.'',
      ''Environment=\"PATH=%h/.local/bin:%h/.local/share/pnpm:%h/.npm-global/bin:/usr/local/bin:/usr/bin:/bin\"'',
      ''ExecStart='' @ command,
      ''Restart=on-failure'',
      ''RestartSec=15s'',
      ''NoNewPrivileges=true'',
      ''PrivateTmp=true'',
      ''ProtectSystem=full'',
      ''# Provider CLIs and quota-monitor update per-user credential, cache, database,'',
      ''# token, and firmware files. \"strict\" would make HOME read-only as part of the'',
      ''# whole filesystem even with ProtectHome=false; \"full\" still protects'',
      ''# /usr, /boot, and /etc while leaving the unprivileged user'' @ [CHR 0x27] @ ''s state writable.'',
      ''ProtectHome=false'',
      ''UMask=0077'',
      [],
      ''[Install]'',
      ''WantedBy=default.target'']"

definition GenerateSystemdUnit :: "ServiceFileConfig \<Rightarrow> (service_error, string) result" where
  "GenerateSystemdUnit cfg =
     (if sf_Executable cfg = [] then Inl NoExecutable
      else case serviceCommand cfg of
        Inl e \<Rightarrow> Inl e
      | Inr (description, arguments) \<Rightarrow>
          ok (unlines (systemd_unit description (systemdEscape (unit_working cfg))
                (systemdEscape (sf_Executable cfg) @ '' '' @ unit_arguments cfg arguments))))"

section \<open>Modes\<close>

lemma ToLower_plain: "CHR ''k'' \<notin> set (ToLower s) \<Longrightarrow> CHR ''i'' \<notin> set (ToLower s) \<Longrightarrow> ToLower s = map lower_byte s"
  by (induction s rule: ToLower.induct) (auto split: if_splits)

lemma fold_eq_lower: "map lower_byte s = map lower_byte p \<Longrightarrow> fold_eq s p"
  by (induction s p rule: list_induct2') auto

definition service_mode :: "ServiceFileConfig \<Rightarrow> string" where
  "service_mode cfg = (let m = ToLower (TrimSpace (sf_Mode cfg)) in if m = [] then ''agent'' else m)"

lemma standalone_folds: "service_mode cfg = ''standalone'' \<Longrightarrow> fold_eq (TrimSpace (sf_Mode cfg)) ''standalone''"
proof -
  assume "service_mode cfg = ''standalone''"
  then have m: "ToLower (TrimSpace (sf_Mode cfg)) = ''standalone''"
    by (auto simp: service_mode_def Let_def split: if_splits)
  then have "map lower_byte (TrimSpace (sf_Mode cfg)) = ''standalone''"
    using ToLower_plain [of "TrimSpace (sf_Mode cfg)"] by simp
  also have "\<dots> = map lower_byte ''standalone''" by code_simp
  finally show ?thesis by (rule fold_eq_lower)
qed

lemma agent_not_standalone: "service_mode cfg = ''agent'' \<Longrightarrow> \<not> fold_eq (TrimSpace (sf_Mode cfg)) ''standalone''"
proof
  assume "service_mode cfg = ''agent''" and f: "fold_eq (TrimSpace (sf_Mode cfg)) ''standalone''"
  then have m: "ToLower (TrimSpace (sf_Mode cfg)) \<in> {[], ''agent''}"
    by (auto simp: service_mode_def Let_def split: if_splits)
  then have "map lower_byte (TrimSpace (sf_Mode cfg)) \<in> {[], ''agent''}"
    using ToLower_plain [of "TrimSpace (sf_Mode cfg)"] by auto
  moreover have "lower_byte (CHR 0xC5) = CHR 0xC5" "lower_byte (CHR ''s'') = CHR ''s''" by code_simp+
  ultimately show False using f by (cases "TrimSpace (sf_Mode cfg)") auto
qed

lemma serviceCommand_cases:
  "serviceCommand cfg = ok (description, arguments) \<longleftrightarrow>
     (service_mode cfg = ''agent'' \<and> sf_ConfigPath cfg \<noteq> [] \<and> description = ''Codex and Claude quota monitor agent'' \<and>
        arguments = ''agent --config '' @ systemdEscape (sf_ConfigPath cfg)) \<or>
     (service_mode cfg = ''standalone'' \<and> description = ''Codex and Claude standalone quota monitor'' \<and> arguments = ''standalone'')"
  unfolding serviceCommand_def service_mode_def [symmetric] Let_def [of "service_mode cfg"] by auto

section \<open>Reading a task document\<close>

text \<open>
  A reader of the fragment of XML the task uses: a document is a sequence of tags, each with the
  text that follows it, character references decoded.
\<close>

definition entities :: "(string \<times> char) list" where
  "entities = [(''lt;'', CHR ''<''), (''gt;'', CHR ''>''), (''amp;'', CHR ''&''), (''#39;'', CHR 0x27),
     (''#34;'', quote), (''quot;'', quote)]"

function xml_text :: "string \<Rightarrow> string" where
  "xml_text [] = []"
| "xml_text (c # s) =
     (if c = CHR ''&'' then
        (case find (\<lambda>(e, _). has_prefix s e) entities of
           None \<Rightarrow> c # xml_text s
         | Some (e, d) \<Rightarrow> d # xml_text (drop (length e) s))
      else c # xml_text s)"
  by pat_completeness auto
termination
  by (relation "measure length") auto

definition xml_elements :: "string \<Rightarrow> (string \<times> string) list" where
  "xml_elements xml =
     map (\<lambda>p. (takeWhile (\<lambda>c. c \<noteq> CHR ''>'') p, xml_text (drop 1 (dropWhile (\<lambda>c. c \<noteq> CHR ''>'') p))))
       (tl (split_char (CHR ''<'') xml))"

fun render :: "(string \<times> string) list \<Rightarrow> string" where
  "render [] = []"
| "render ((t, x) # es) = CHR ''<'' # t @ CHR ''>'' # x @ render es"

definition tag_ok :: "string \<times> string \<Rightarrow> bool" where
  "tag_ok e = (CHR ''<'' \<notin> set (fst e) \<and> CHR ''>'' \<notin> set (fst e) \<and> CHR ''<'' \<notin> set (snd e))"

lemma split_render:
  "list_all tag_ok es \<Longrightarrow> CHR ''<'' \<notin> set p \<Longrightarrow>
     split_char (CHR ''<'') (p @ render es) = p # map (\<lambda>(t, x). t @ CHR ''>'' # x) es"
proof (induction es arbitrary: p rule: render.induct)
  case (2 t x es)
  then have "split_char (CHR ''<'') ((t @ CHR ''>'' # x) @ render es) =
      (t @ CHR ''>'' # x) # map (\<lambda>(t, x). t @ CHR ''>'' # x) es"
    by (intro "2.IH") (auto simp: tag_ok_def)
  with 2 show ?case by (simp add: split_char_append)
qed (simp add: split_char_notin)

lemma xml_elements_render:
  "list_all tag_ok es \<Longrightarrow> xml_elements (render es) = map (\<lambda>(t, x). (t, xml_text x)) es"
proof -
  assume a: "list_all tag_ok es"
  have "takeWhile (\<lambda>c. c \<noteq> CHR ''>'') (t @ CHR ''>'' # x) = t \<and>
      drop 1 (dropWhile (\<lambda>c. c \<noteq> CHR ''>'') (t @ CHR ''>'' # x)) = x" if "(t, x) \<in> set es" for t x
  proof -
    have "\<forall>c\<in>set t. c \<noteq> CHR ''>''" using a that by (force simp: list_all_iff tag_ok_def)
    then show ?thesis by (simp add: takeWhile_tail dropWhile_append2)
  qed
  with split_render [OF a, of "[]"] show ?thesis by (auto simp: xml_elements_def)
qed

lemma xml_text_escape: "xml_text (EscapeString s @ t) = s @ xml_text t"
proof (induction s)
  case (Cons c s)
  have "EscapeString (c # s) @ t = html_byte c @ EscapeString s @ t" by (simp add: EscapeString_def)
  moreover have "xml_text (html_byte c @ u) = c # xml_text u" for u
    by (auto simp: html_byte_def entities_def quote_def)
  ultimately show ?case using Cons.IH by simp
qed (simp add: EscapeString_def)

lemma escape_no_tag: "CHR ''<'' \<notin> set (EscapeString s)"
  by (auto simp: EscapeString_def html_byte_def quote_def split: if_splits)

text \<open>The task as a document: tags and plain texts.\<close>

definition task_document :: "string \<Rightarrow> string \<Rightarrow> string \<Rightarrow> string \<Rightarrow> (string \<times> string) list" where
  "task_document user executable arguments working =
     (let n = \<lambda>k. newline # replicate k (CHR '' '') in
      [(''?xml version=\"1.0\" encoding=\"UTF-8\"?'', n 0),
       (''Task version=\"1.4\" xmlns=\"http://schemas.microsoft.com/windows/2004/02/mit/task\"'', n 2),
       (''Triggers'', n 4), (''LogonTrigger'', []), (''Enabled'', ''true''), (''/Enabled'', []), (''/LogonTrigger'', n 2),
       (''/Triggers'', n 2), (''Principals'', n 4), (''Principal id=\"Author\"'', n 6)] @
      (if user = [] then [] else [(''UserId'', user), (''/UserId'', n 6)]) @
      [(''LogonType'', ''InteractiveToken''), (''/LogonType'', n 6), (''RunLevel'', ''LeastPrivilege''), (''/RunLevel'', n 4),
       (''/Principal'', n 2), (''/Principals'', n 2), (''Settings'', n 4),
       (''MultipleInstancesPolicy'', ''IgnoreNew''), (''/MultipleInstancesPolicy'', n 4),
       (''DisallowStartIfOnBatteries'', ''false''), (''/DisallowStartIfOnBatteries'', n 4),
       (''StopIfGoingOnBatteries'', ''false''), (''/StopIfGoingOnBatteries'', n 4),
       (''ExecutionTimeLimit'', ''PT0S''), (''/ExecutionTimeLimit'', n 4),
       (''RestartOnFailure'', []), (''Interval'', ''PT1M''), (''/Interval'', []), (''Count'', ''10''), (''/Count'', []),
       (''/RestartOnFailure'', n 2), (''/Settings'', n 2), (''Actions Context=\"Author\"'', n 4), (''Exec'', n 6),
       (''Command'', executable), (''/Command'', n 6), (''Arguments'', arguments), (''/Arguments'', n 6),
       (''WorkingDirectory'', working), (''/WorkingDirectory'', n 4), (''/Exec'', n 2), (''/Actions'', n 0), (''/Task'', n 0)])"

lemma task_xml_render:
  "task_xml (if user = [] then [] else [newline] @ ''      <UserId>'' @ user @ ''</UserId>'') executable arguments working =
     render (task_document user executable arguments working)"
  by (simp add: task_xml_def task_document_def unlines_def Let_def numeral_eq_Suc)

lemma xml_text_plain [simp]: "CHR ''&'' \<notin> set s \<Longrightarrow> xml_text s = s"
  by (induction s) auto

lemma EscapeString_Nil [simp]: "EscapeString s = [] \<longleftrightarrow> s = []"
  by (cases s) (auto simp: EscapeString_def html_byte_def)

lemma xml_text_escaped [simp]: "xml_text (EscapeString s) = s"
  using xml_text_escape [of s "[]"] by simp

lemma task_document_decoded:
  "map (\<lambda>(t, x). (t, xml_text x)) (task_document (EscapeString user) (EscapeString executable) arguments (EscapeString working)) =
     task_document user executable (xml_text arguments) working"
  by (simp add: task_document_def Let_def newline_def numeral_eq_Suc)

lemma task_document_tags:
  "CHR ''<'' \<notin> set arguments \<Longrightarrow>
     list_all tag_ok (task_document (EscapeString user) (EscapeString executable) arguments (EscapeString working))"
  by (simp add: task_document_def Let_def tag_ok_def newline_def escape_no_tag numeral_eq_Suc)

lemma task_arguments_text:
  assumes "serviceCommand cfg = ok (description, arguments)"
  shows "CHR ''<'' \<notin> set (task_arguments cfg arguments)"
    and "xml_text (task_arguments cfg arguments) =
      (if service_mode cfg = ''agent'' then ''agent --config '' @ [quote] @ sf_ConfigPath cfg @ [quote]
       else if sf_FirmwareDirectory cfg = [] then ''standalone''
       else ''standalone --firmware-dir '' @ [quote] @ sf_FirmwareDirectory cfg @ [quote])"
proof -
  have "arguments = ''standalone'' \<and> service_mode cfg \<noteq> ''agent'' \<or> service_mode cfg = ''agent'' \<and>
      has_prefix arguments ''agent --config ''"
    using assms by (auto simp: serviceCommand_cases)
  then show "CHR ''<'' \<notin> set (task_arguments cfg arguments)"
    by (auto simp: task_arguments_def escape_no_tag)
  show "xml_text (task_arguments cfg arguments) =
      (if service_mode cfg = ''agent'' then ''agent --config '' @ [quote] @ sf_ConfigPath cfg @ [quote]
       else if sf_FirmwareDirectory cfg = [] then ''standalone''
       else ''standalone --firmware-dir '' @ [quote] @ sf_FirmwareDirectory cfg @ [quote])"
    using assms standalone_folds [of cfg]
    by (auto simp: serviceCommand_cases task_arguments_def entities_def quote_def xml_text_escape)
qed

section \<open>Reading a unit\<close>

text \<open>
  How systemd splits a command line, for the fragment the unit uses: items are separated by
  blanks; an item in double quotes ends at the closing quote, which must end the item; inside,
  a backslash protects a backslash or a quote and \<open>%%\<close> is a percent sign. The reader gives up on
  everything else that has a meaning of its own: other escapes, other specifiers, a dollar sign
  (a variable) and a line feed.
\<close>

datatype item_state = Gap | Plain string | Quoted string | Closed string

definition item_char :: "char \<Rightarrow> bool" where
  "item_char c = (is_lower c \<or> is_upper c \<or> is_digit c \<or> c = CHR ''-'')"

fun unit_words :: "item_state \<Rightarrow> string \<Rightarrow> string list option" where
  "unit_words Gap [] = Some []"
| "unit_words (Plain w) [] = Some [w]"
| "unit_words (Closed w) [] = Some [w]"
| "unit_words (Quoted w) [] = None"
| "unit_words Gap (c # s) =
     (if c = CHR '' '' then unit_words Gap s
      else if c = quote then unit_words (Quoted []) s
      else if item_char c then unit_words (Plain [c]) s
      else None)"
| "unit_words (Plain w) (c # s) =
     (if c = CHR '' '' then map_option ((#) w) (unit_words Gap s)
      else if item_char c then unit_words (Plain (w @ [c])) s
      else None)"
| "unit_words (Closed w) (c # s) =
     (if c = CHR '' '' then map_option ((#) w) (unit_words Gap s) else None)"
| "unit_words (Quoted w) [c] = (if c = quote then Some [w] else None)"
| "unit_words (Quoted w) (c # d # s) =
     (if c = quote then unit_words (Closed w) (d # s)
      else if c = backslash then
        (if d = backslash \<or> d = quote then unit_words (Quoted (w @ [d])) s else None)
      else if c = CHR ''%'' then
        (if d = CHR ''%'' then unit_words (Quoted (w @ [CHR ''%''])) s else None)
      else if c = CHR ''$'' \<or> c = newline then None
      else unit_words (Quoted (w @ [c])) (d # s))"

definition unit_text :: "string \<Rightarrow> bool" where
  "unit_text s = list_all (\<lambda>c. c \<noteq> CHR ''$'' \<and> c \<noteq> newline) s"

lemma unit_words_quoted:
  "unit_text v \<Longrightarrow> unit_words (Quoted w) (concat (map systemd_byte v) @ quote # s) = unit_words (Closed (w @ v)) s"
proof (induction v arbitrary: w)
  case Nil
  then show ?case by (cases s) auto
next
  case (Cons c v)
  let ?r = "concat (map systemd_byte v) @ quote # s"
  obtain d r where r: "?r = d # r" by (cases ?r) auto
  have "quote \<noteq> backslash" "CHR ''%'' \<noteq> quote" "CHR ''%'' \<noteq> backslash" "quote \<noteq> CHR ''%''"
    by (simp_all add: quote_def backslash_def)
  with Cons.prems have "unit_words (Quoted w) (systemd_byte c @ ?r) = unit_words (Quoted (w @ [c])) ?r"
    by (auto simp: systemd_byte_def unit_text_def r)
  with Cons show ?case by (simp add: unit_text_def)
qed

lemma unit_words_escape:
  "unit_text v \<Longrightarrow> unit_words Gap (systemdEscape v @ s) = unit_words (Closed v) s"
  using unit_words_quoted [of v "[]" s] by (simp add: systemdEscape_def quote_def)

lemma split_unlines:
  "list_all (\<lambda>l. newline \<notin> set l) ls \<Longrightarrow> split_char newline (unlines ls) = ls @ [[]]"
  by (induction ls) (auto simp: unlines_def split_char_append)

lemma escape_no_newline: "unit_text v \<Longrightarrow> newline \<notin> set (systemdEscape v)"
  by (auto simp: systemdEscape_def systemd_byte_def unit_text_def list_all_iff newline_def quote_def backslash_def
      split: if_splits)

lemma unit_exec_words:
  assumes "GenerateSystemdUnit cfg = ok contents"
    and "list_all unit_text [sf_Executable cfg, sf_ConfigPath cfg, sf_FirmwareDirectory cfg, unit_working cfg]"
    and "service_mode cfg = ''agent'' \<or> sf_FirmwareDirectory cfg \<noteq> []"
  shows "\<exists>command. filter (\<lambda>l. has_prefix l ''ExecStart='') (split_char newline contents) = [''ExecStart='' @ command] \<and>
    unit_words Gap command = Some (sf_Executable cfg #
      (if service_mode cfg = ''agent'' then [''agent'', ''--config'', sf_ConfigPath cfg]
       else [''standalone'', ''--firmware-dir'', sf_FirmwareDirectory cfg]))"
proof -
  from assms(1) obtain description arguments where c: "serviceCommand cfg = ok (description, arguments)"
    by (auto simp: GenerateSystemdUnit_def split: if_splits sum.splits)
  define command where "command = systemdEscape (sf_Executable cfg) @ '' '' @ unit_arguments cfg arguments"
  define ls where "ls = systemd_unit description (systemdEscape (unit_working cfg)) command"
  have t: "contents = unlines ls"
    using assms(1) c by (auto simp: GenerateSystemdUnit_def command_def ls_def split: if_splits)
  have u: "unit_text (sf_Executable cfg)" "unit_text (sf_ConfigPath cfg)" "unit_text (sf_FirmwareDirectory cfg)"
    "unit_text (unit_working cfg)" using assms(2) by auto
  have args: "unit_arguments cfg arguments =
      (if service_mode cfg = ''agent'' then ''agent --config '' @ systemdEscape (sf_ConfigPath cfg)
       else ''standalone --firmware-dir '' @ systemdEscape (sf_FirmwareDirectory cfg))"
    using c assms(3) standalone_folds [of cfg] agent_not_standalone [of cfg]
    by (auto simp: serviceCommand_cases unit_arguments_def)
  then have "newline \<notin> set command" and "newline \<notin> set description"
    using escape_no_newline u c by (auto simp: command_def newline_def serviceCommand_cases)
  with escape_no_newline [OF u(4)] have "split_char newline contents = ls @ [[]]"
    unfolding t by (intro split_unlines) (auto simp: ls_def systemd_unit_def newline_def)
  then have "filter (\<lambda>l. has_prefix l ''ExecStart='') (split_char newline contents) = [''ExecStart='' @ command]"
    by (simp add: ls_def systemd_unit_def)
  moreover have "unit_words Gap command = Some (sf_Executable cfg #
      (if service_mode cfg = ''agent'' then [''agent'', ''--config'', sf_ConfigPath cfg]
       else [''standalone'', ''--firmware-dir'', sf_FirmwareDirectory cfg]))"
    using unit_words_escape [OF u(2), of "[]"] unit_words_escape [OF u(3), of "[]"]
    unfolding command_def args
    by (simp add: unit_words_escape u quote_def item_char_def byte_class_defs)
  ultimately show ?thesis by blast
qed

section \<open>Properties\<close>

text \<open>
  The Windows task says what was configured. Whatever characters the paths and the user
  identifier contain, the generated document has exactly the elements of the task, in order,
  and reading its text gives back the executable, the command line with the quoted
  configuration path or firmware directory, the working directory and the user: no value can add
  or close an element.
\<close>

theorem windows_task_is_faithful:
  assumes "GenerateWindowsTaskXML cfg = ok xml"
  shows "xml_elements xml = task_document (sf_WindowsUserID cfg) (sf_Executable cfg)
    (if service_mode cfg = ''agent'' then ''agent --config '' @ [quote] @ sf_ConfigPath cfg @ [quote]
     else if sf_FirmwareDirectory cfg = [] then ''standalone''
     else ''standalone --firmware-dir '' @ [quote] @ sf_FirmwareDirectory cfg @ [quote]) (task_working cfg)"
proof -
  from assms obtain description arguments where c: "serviceCommand cfg = ok (description, arguments)"
    and x: "xml = task_xml (task_principal cfg) (EscapeString (sf_Executable cfg)) (task_arguments cfg arguments)
      (EscapeString (task_working cfg))"
    by (auto simp: GenerateWindowsTaskXML_def split: if_splits sum.splits)
  have "xml = render (task_document (EscapeString (sf_WindowsUserID cfg)) (EscapeString (sf_Executable cfg))
      (task_arguments cfg arguments) (EscapeString (task_working cfg)))"
    unfolding x task_xml_render [symmetric] by (simp add: task_principal_def)
  then show ?thesis
    using xml_elements_render [OF task_document_tags [OF task_arguments_text(1) [OF c]]]
    by (simp only: task_document_decoded task_arguments_text(2) [OF c])
qed

definition demo_service :: "string \<Rightarrow> ServiceFileConfig" where
  "demo_service mode = \<lparr>sf_Executable = ''/opt/a&b/qm'', sf_ConfigPath = ''/etc/100%/<a>.json'', sf_FirmwareDirectory = [],
     sf_WorkingDirectory = [], sf_WindowsUserID = [], sf_Mode = mode\<rparr>"

theorem windows_task_is_faithful_witness:
  "\<exists>xml. GenerateWindowsTaskXML (demo_service '' Agent'') = ok xml \<and>
     xml_elements xml = task_document [] ''/opt/a&b/qm'' (''agent --config '' @ [quote] @ ''/etc/100%/<a>.json'' @ [quote]) ''/opt/a&b''"
proof -
  have m: "service_mode (demo_service '' Agent'') = ''agent''" "task_working (demo_service '' Agent'') = ''/opt/a&b''"
    by code_simp+
  have c: "serviceCommand (demo_service '' Agent'') = ok (''Codex and Claude quota monitor agent'',
      ''agent --config '' @ systemdEscape (sf_ConfigPath (demo_service '' Agent'')))"
    unfolding serviceCommand_cases using m by (simp add: demo_service_def)
  then obtain xml where "GenerateWindowsTaskXML (demo_service '' Agent'') = ok xml"
    by (simp add: GenerateWindowsTaskXML_def demo_service_def)
  with windows_task_is_faithful [OF this] m show ?thesis by (auto simp: demo_service_def)
qed

text \<open>
  The systemd unit starts what was configured. For paths without line feeds and dollar signs
  the unit has exactly one \<open>ExecStart\<close> line, and systemd's splitting of it gives the executable
  followed by the mode's arguments with the configured path as one argument, blanks, quotes,
  backslashes and percent signs in it included (a standalone service with an explicit firmware
  directory).
\<close>

theorem systemd_unit_is_faithful:
  assumes "GenerateSystemdUnit cfg = ok contents"
    and "list_all unit_text [sf_Executable cfg, sf_ConfigPath cfg, sf_FirmwareDirectory cfg, unit_working cfg]"
    and "service_mode cfg = ''agent'' \<or> sf_FirmwareDirectory cfg \<noteq> []"
  shows "\<exists>command. filter (\<lambda>l. has_prefix l ''ExecStart='') (split_char newline contents) = [''ExecStart='' @ command] \<and>
    unit_words Gap command = Some (sf_Executable cfg #
      (if service_mode cfg = ''agent'' then [''agent'', ''--config'', sf_ConfigPath cfg]
       else [''standalone'', ''--firmware-dir'', sf_FirmwareDirectory cfg]))"
  using assms by (rule unit_exec_words)

theorem systemd_unit_is_faithful_witness:
  "\<exists>contents command. GenerateSystemdUnit (demo_service []) = ok contents \<and>
     filter (\<lambda>l. has_prefix l ''ExecStart='') (split_char newline contents) = [''ExecStart='' @ command] \<and>
     unit_words Gap command = Some [''/opt/a&b/qm'', ''agent'', ''--config'', ''/etc/100%/<a>.json'']"
proof -
  have m: "service_mode (demo_service []) = ''agent''"
    "list_all unit_text [sf_Executable (demo_service []), sf_ConfigPath (demo_service []),
       sf_FirmwareDirectory (demo_service []), unit_working (demo_service [])]"
    by code_simp+
  have "serviceCommand (demo_service []) = ok (''Codex and Claude quota monitor agent'',
      ''agent --config '' @ systemdEscape (sf_ConfigPath (demo_service [])))"
    unfolding serviceCommand_cases using m by (simp add: demo_service_def)
  then obtain contents where "GenerateSystemdUnit (demo_service []) = ok contents"
    by (simp add: GenerateSystemdUnit_def demo_service_def)
  with systemd_unit_is_faithful [OF this m(2)] m(1) show ?thesis by (auto simp: demo_service_def)
qed

end
