(* ===== verification/Command_Line.thy ===== *)
theory Command_Line
  imports Standalone Service_Files
begin

text \<open>
  The remaining commands of \<open>cmd/quota-monitor/main.go\<close>, \<open>login\<close>, \<open>service\<close>, \<open>server\<close>, \<open>firmware\<close> and
  \<open>doctor\<close>, and \<open>run\<close>, which dispatches on the first argument and turns the result of a command into
  an exit status.

  The world is the host's files, the databases, the published firmware, the network and what was
  written to the two output streams. A command that keeps running (\<open>agent\<close>, \<open>server\<close>, \<open>standalone\<close>)
  gives the state it runs from; its exit status follows from how the run ends.
\<close>

section \<open>The world\<close>

datatype out_item = HookOut cli_output | StoreOut store_output | Line string | Content string | ManifestJSON manifest | Usage "string list"

datatype login_error = LoginUsage | LoginProvider string | LoginNotFound | LoginCommandFailed | LoginPrint

datatype service_cmd_error =
    ServiceUsage string | ServiceFlags flag_error | ServicePath | ServiceTarget string | ServiceContent service_error
  | ServiceFile host_error | ServicePrint

datatype server_cmd_error = ServerFlags flag_error | ServerUsage | ServerStore command_error | ServerLogFormat | ServerNew
  | ServerFailed string | ServerShutdown string

datatype firmware_cmd_error = FirmwareUsage string | FirmwareFlags flag_error | FirmwareFailed fw_error | FirmwarePrint

datatype doctor_error = DoctorFlags flag_error | DoctorUsage string | DoctorRequest | DoctorStatus string string | DoctorPrint

datatype failure =
    HookError cli_error | TokenCommandError command_error | AgentError agent_cmd_error | StandaloneError standalone_error
  | LoginError login_error | ServiceError service_cmd_error | ServerError server_cmd_error
  | FirmwareError firmware_cmd_error | DoctorError doctor_error | VersionPrint

datatype err_item = HookNotice notice | ErrorLine failure | UnknownCommand string | UsageError "string list"

record 'w world =
  wd_host :: host
  wd_net :: 'w
  wd_disk :: disk
  wd_firmware :: "string \<Rightarrow> directory"
  wd_out :: "out_item list"
  wd_err :: "err_item list"
  wd_started :: "string list list"

section \<open>Login\<close>

text \<open>
  \<open>goos\<close>, \<open>lookPath\<close> and the home directory are arguments, as in the code; \<open>regular\<close> says which
  existing files are regular.
\<close>

definition resolveLoginExecutableForOS ::
    "host_env \<Rightarrow> (string \<Rightarrow> bool) \<Rightarrow> string \<Rightarrow> string \<Rightarrow> (string \<Rightarrow> string option) \<Rightarrow> string option \<Rightarrow> (login_error, string) host_action" where
  "resolveLoginExecutableForOS env regular name goos lookPath home h =
     (case lookPath name of
        Some path \<Rightarrow> (Inr path, h)
      | None \<Rightarrow>
          if goos = ''windows'' then (Inl LoginNotFound, h)
          else case home of
            None \<Rightarrow> (Inl LoginNotFound, h)
          | Some dir \<Rightarrow>
              let candidate = path_Join [dir, ''.local'', ''bin'', name]
              in case os_Stat env candidate h of
                   (Inl _, h1) \<Rightarrow> (Inl LoginNotFound, h1)
                 | (Inr _, h1) \<Rightarrow> (if regular candidate then Inr candidate else Inl LoginNotFound, h1))"

record login_env =
  lo_host :: host_env
  lo_goos :: string
  lo_lookPath :: "string \<Rightarrow> string option"
  lo_regular :: "string \<Rightarrow> bool"
  lo_run :: "string list \<Rightarrow> bool"
  lo_prints :: bool

definition login_program :: "string \<Rightarrow> (string \<times> string list) option" where
  "login_program provider =
     (if provider = ''codex'' then Some (''codex'', [''login'', ''--device-auth''])
      else if provider = ''claude'' then Some (''claude'', [''auth'', ''login'', ''--claudeai''])
      else None)"

definition runLogin :: "login_env \<Rightarrow> string list \<Rightarrow> 'w world \<Rightarrow> login_error option \<times> 'w world" where
  "runLogin env args w =
     (case args of
        [arg] \<Rightarrow>
          let provider = ToLower (TrimSpace arg)
          in case login_program provider of
               None \<Rightarrow> (Some (LoginProvider provider), w)
             | Some (executable, commandArgs) \<Rightarrow>
                 (case resolveLoginExecutableForOS (lo_host env) (lo_regular env) executable (lo_goos env) (lo_lookPath env)
                         (he_home (lo_host env)) (wd_host w) of
                    (Inl e, h) \<Rightarrow> (Some e, w\<lparr>wd_host := h\<rparr>)
                  | (Inr path, h) \<Rightarrow>
                      let w1 = w\<lparr>wd_host := h, wd_started := wd_started w @ [path # commandArgs]\<rparr>
                      in if \<not> lo_run env (path # commandArgs) then (Some LoginCommandFailed, w1)
                         else if lo_prints env then
                           (None, w1\<lparr>wd_out := wd_out w1 @ [Line (provider @ '' login completed; standalone will refresh automatically'')]\<rparr>)
                         else (Some LoginPrint, w1))
      | _ \<Rightarrow> (Some LoginUsage, w))"

section \<open>Service files\<close>

definition ascii_letter :: "char \<Rightarrow> bool" where
  "ascii_letter c = (is_upper c \<or> is_lower c)"

definition service_absolute :: "string \<Rightarrow> bool" where
  "service_absolute v =
     (has_prefix v ''/'' \<or> has_prefix v [CHR 0x5C, CHR 0x5C] \<or>
      (case v of
         a # b # c # _ \<Rightarrow> ascii_letter a \<and> b = CHR '':'' \<and> (c = CHR 0x5C \<or> c = CHR ''/'')
       | _ \<Rightarrow> False))"

definition resolveServicePath :: "string option \<Rightarrow> string \<Rightarrow> string option" where
  "resolveServicePath cwd v = (if service_absolute v then Some v else filepath_Abs cwd v)"

record service_env =
  sc_host :: host_env
  sc_windows :: bool
  sc_executable :: string
  sc_cwd :: "string option"
  sc_dur :: "string \<Rightarrow> duration option"
  sc_prints :: bool

definition service_flags :: "service_env \<Rightarrow> flag_set" where
  "service_flags env =
     [(''target'', VString (if sc_windows env then ''windows'' else ''systemd'')), (''mode'', VString ''agent''),
      (''executable'', VString (sc_executable env)), (''config'', VString []), (''firmware-dir'', VString []),
      (''working-directory'', VString []), (''windows-user-id'', VString []), (''output'', VString [])]"

definition service_content :: "string \<Rightarrow> ServiceFileConfig \<Rightarrow> (service_cmd_error, string) result" where
  "service_content target cfg =
     (let t = ToLower target
      in if t = ''windows'' then map_sum ServiceContent id (GenerateWindowsTaskXML cfg)
         else if t = ''systemd'' \<or> t = ''linux'' then map_sum ServiceContent id (GenerateSystemdUnit cfg)
         else Inl (ServiceTarget target))"

definition print_line :: "bool \<Rightarrow> 'e \<Rightarrow> out_item \<Rightarrow> 'w world \<Rightarrow> 'e option \<times> 'w world" where
  "print_line works e item w = (if works then (None, w\<lparr>wd_out := wd_out w @ [item]\<rparr>) else (Some e, w))"

definition write_service :: "service_env \<Rightarrow> string \<Rightarrow> string \<Rightarrow> 'w world \<Rightarrow> service_cmd_error option \<times> 'w world" where
  "write_service env outputPath content w =
     (if outputPath = [] then print_line (sc_prints env) ServicePrint (Content content) w
      else case syscall (sc_host env) (wd_host w) of
        (Inl e, h) \<Rightarrow> (Some (ServiceFile e), w\<lparr>wd_host := h\<rparr>)
      | (Inr _, h) \<Rightarrow>
          (case os_WriteFile (sc_host env) outputPath content 384 h of
             (Inl e, h1) \<Rightarrow> (Some (ServiceFile e), w\<lparr>wd_host := h1\<rparr>)
           | (Inr _, h1) \<Rightarrow> print_line (sc_prints env) ServicePrint (Line (''wrote '' @ outputPath)) (w\<lparr>wd_host := h1\<rparr>)))"

definition runService :: "service_env \<Rightarrow> string list \<Rightarrow> 'w world \<Rightarrow> service_cmd_error option \<times> 'w world" where
  "runService env args w =
     (if args = [] \<or> hd args \<noteq> ''generate'' then (Some (ServiceUsage ''service requires generate''), w)
      else case Parse (sc_dur env) (service_flags env) (tl args) of
        Inl e \<Rightarrow> (Some (ServiceFlags e), w)
      | Inr (fs, rest) \<Rightarrow>
          if rest \<noteq> [] \<or> string_flag fs ''executable'' = [] then
            (Some (ServiceUsage ''service generate accepts no positional arguments and requires --executable''), w)
          else if fold_eq (string_flag fs ''mode'') ''agent'' \<and> string_flag fs ''config'' = [] then
            (Some (ServiceUsage ''service generate --mode agent requires --config''), w)
          else case resolveServicePath (sc_cwd env) (string_flag fs ''executable'') of
            None \<Rightarrow> (Some ServicePath, w)
          | Some executable \<Rightarrow>
              (case (if string_flag fs ''config'' = [] then Some [] else resolveServicePath (sc_cwd env) (string_flag fs ''config'')) of
                 None \<Rightarrow> (Some ServicePath, w)
               | Some config \<Rightarrow>
                   (case service_content (string_flag fs ''target'')
                           \<lparr>sf_Executable = executable, sf_ConfigPath = config, sf_FirmwareDirectory = string_flag fs ''firmware-dir'',
                            sf_WorkingDirectory = string_flag fs ''working-directory'',
                            sf_WindowsUserID = string_flag fs ''windows-user-id'', sf_Mode = string_flag fs ''mode''\<rparr> of
                      Inl e \<Rightarrow> (Some e, w)
                    | Inr content \<Rightarrow> write_service env (string_flag fs ''output'') content w)))"

section \<open>Server\<close>

record server_cmd_env =
  sd_store :: store_env
  sd_linux :: bool

definition server_flags :: "server_cmd_env \<Rightarrow> flag_set" where
  "server_flags env =
     (let or = (\<lambda>name fallback. VString (envOr (se_getenv (sd_store env)) name fallback))
      in [(''listen'', or ''QUOTA_MONITOR_LISTEN'' ''127.0.0.1:8787''), (''db'', or ''QUOTA_MONITOR_DB'' ''data/monitor.db''),
          (''log-format'', or ''QUOTA_MONITOR_LOG_FORMAT'' ''json''),
          (''firmware-dir'', or ''QUOTA_MONITOR_FIRMWARE_DIR'' (defaultFirmwareDir (sd_linux env)))])"

text \<open>The store commands on the world: they see its host, its databases and its output.\<close>

definition store_view :: "'w world \<Rightarrow> store_session" where
  "store_view w = \<lparr>sx_host = wd_host w, sx_disk = wd_disk w, sx_out = []\<rparr>"

definition store_update :: "store_session \<Rightarrow> 'w world \<Rightarrow> 'w world" where
  "store_update s w = w\<lparr>wd_host := sx_host s, wd_disk := sx_disk s, wd_out := wd_out w @ map StoreOut (sx_out s)\<rparr>"

definition runServer :: "server_cmd_env \<Rightarrow> string list \<Rightarrow> 'w world \<Rightarrow> (server_cmd_error, server) result \<times> 'w world" where
  "runServer env args w =
     (case Parse (se_dur (sd_store env)) (server_flags env) args of
        Inl e \<Rightarrow> (Inl (ServerFlags e), w)
      | Inr (fs, rest) \<Rightarrow>
          if rest \<noteq> [] then (Inl ServerUsage, w)
          else case openTokenStore (sd_store env) (string_flag fs ''db'') (store_view w) of
            (Inl e, s) \<Rightarrow> (Inl (ServerStore e), store_update s w)
          | (Inr dsn, s) \<Rightarrow>
              let w1 = store_update s w; format = ToLower (string_flag fs ''log-format''); dir = string_flag fs ''firmware-dir''
              in if format \<noteq> ''json'' \<and> format \<noteq> ''text'' then (Inl ServerLogFormat, w1)
                 else case New \<lparr>cf_Store = df_data (wd_disk w1 dsn), cf_FirmwareDir = dir, cf_AgentRequestsPerMinute = 0,
                              cf_DisplayRequestsPerMinute = 0, cf_AuthAttemptsPerMinute = 0,
                              cf_GlobalAuthAttemptsPerMinute = 0, cf_ConcurrentAuth = 0\<rparr> (wd_firmware w1 dir) of
                        None \<Rightarrow> (Inl ServerNew, w1)
                      | Some api \<Rightarrow> (Inr api, w1))"

text \<open>How a running server ends: by a signal and its shutdown, or by an error of the listener.\<close>

datatype server_end = ServerSignal "string option" | ServerListenEnds serve_end

definition server_result :: "server_end \<Rightarrow> server_cmd_error option" where
  "server_result e =
     (case e of
        ServerSignal shutdown \<Rightarrow> map_option ServerShutdown shutdown
      | ServerListenEnds ErrServerClosed \<Rightarrow> None
      | ServerListenEnds (ServeError m) \<Rightarrow> Some (ServerFailed m))"

section \<open>Firmware\<close>

record firmware_cmd_env =
  fe_getenv :: "string \<Rightarrow> string"
  fe_linux :: bool
  fe_dur :: "string \<Rightarrow> duration option"
  fe_encode :: "manifest \<Rightarrow> string option"
  fe_decode :: "string \<Rightarrow> manifest option"
  fe_sha :: "string \<Rightarrow> string"
  fe_io :: syscalls
  fe_env :: publish_env
  fe_prints :: bool

definition firmware_flags :: "firmware_cmd_env \<Rightarrow> flag_set" where
  "firmware_flags env =
     [(''board'', VString []), (''version'', VString []), (''file'', VString []),
      (''firmware-dir'', VString (envOr (fe_getenv env) ''QUOTA_MONITOR_FIRMWARE_DIR'' (defaultFirmwareDir (fe_linux env))))]"

definition runFirmware :: "firmware_cmd_env \<Rightarrow> string list \<Rightarrow> 'w world \<Rightarrow> firmware_cmd_error option \<times> 'w world" where
  "runFirmware env args w =
     (if args = [] \<or> hd args \<noteq> ''publish'' then (Some (FirmwareUsage ''firmware requires publish''), w)
      else case Parse (fe_dur env) (firmware_flags env) (tl args) of
        Inl e \<Rightarrow> (Some (FirmwareFlags e), w)
      | Inr (fs, rest) \<Rightarrow>
          if rest \<noteq> [] then (Some (FirmwareUsage ''firmware publish accepts no positional arguments''), w)
          else if TrimSpace (string_flag fs ''board'') = [] \<or> TrimSpace (string_flag fs ''version'') = [] \<or>
                  TrimSpace (string_flag fs ''file'') = [] then
            (Some (FirmwareUsage ''firmware publish requires --board, --version, and --file''), w)
          else
            let dir = string_flag fs ''firmware-dir'';
                (result, ops) = Publish (fe_encode env) (fe_decode env) (fe_sha env) (fe_io env) (fe_env env)
                  \<lparr>po_Directory = dir, po_Board = string_flag fs ''board'', po_Version = string_flag fs ''version'',
                   po_SourcePath = string_flag fs ''file'', po_PublishedAt = zero_time\<rparr> (wd_firmware w dir);
                w1 = w\<lparr>wd_firmware := (wd_firmware w)(dir := fold apply_op ops (wd_firmware w dir))\<rparr>
            in case result of
                 Inl e \<Rightarrow> (Some (FirmwareFailed e), w1)
               | Inr m \<Rightarrow> print_line (fe_prints env) FirmwarePrint (ManifestJSON m) w1)"

section \<open>Doctor\<close>

text \<open>The health request is an argument: the status line and the body of the response, if there is one.\<close>

record doctor_env =
  de_dur :: "string \<Rightarrow> duration option"
  de_get :: "string \<Rightarrow> (nat \<times> string \<times> string) option"
  de_prints :: bool

definition runDoctor :: "doctor_env \<Rightarrow> string list \<Rightarrow> 'w world \<Rightarrow> doctor_error option \<times> 'w world" where
  "runDoctor env args w =
     (case Parse (de_dur env) [(''health-url'', VString [])] args of
        Inl e \<Rightarrow> (Some (DoctorFlags e), w)
      | Inr (fs, rest) \<Rightarrow>
          if rest \<noteq> [] then (Some (DoctorUsage ''doctor accepts no positional arguments''), w)
          else if string_flag fs ''health-url'' = [] then (Some (DoctorUsage ''doctor currently requires --health-url''), w)
          else case de_get env (string_flag fs ''health-url'') of
            None \<Rightarrow> (Some DoctorRequest, w)
          | Some (code, status, body) \<Rightarrow>
              let shown = TrimSpace (take 4096 body)
              in if code \<noteq> 200 then (Some (DoctorStatus status shown), w)
                 else print_line (de_prints env) DoctorPrint (Line (''server healthy: '' @ shown)) w)"

section \<open>Dispatch\<close>

definition printUsage :: "string list" where
  "printUsage =
     [''quota-monitor - Codex and Claude quota monitor'',
      [],
      ''Usage:'',
      ''  quota-monitor standalone [options]'',
      ''  quota-monitor server [options]'',
      ''  quota-monitor agent [options]'',
      ''  quota-monitor hooks install|uninstall [options]'',
      ''  quota-monitor service generate [options]'',
      ''  quota-monitor token create|list|revoke [options]'',
      ''  quota-monitor firmware publish [options]'',
      ''  quota-monitor doctor [options]'',
      ''  quota-monitor login codex|claude'',
      ''  quota-monitor version'',
      [],
      ''Run a command with --help for its options.'']"

record 'w program_env =
  pg_cli :: "'w cli_env"
  pg_store :: store_env
  pg_agent :: agent_env
  pg_standalone :: standalone_env
  pg_login :: login_env
  pg_service :: service_env
  pg_server :: server_cmd_env
  pg_firmware :: firmware_cmd_env
  pg_doctor :: doctor_env
  pg_version :: string
  pg_prints :: bool

datatype 'w program_result =
    Exits nat "'w world" | RunsAgent run_state "'w world" | RunsServer server "'w world" | RunsStandalone standalone "'w world"

text \<open>The end of \<open>run\<close>: an error is written to the error stream and the status is 1.\<close>

definition finish :: "failure option \<Rightarrow> 'w world \<Rightarrow> 'w program_result" where
  "finish e w =
     (case e of None \<Rightarrow> Exits 0 w | Some f \<Rightarrow> Exits 1 (w\<lparr>wd_err := wd_err w @ [ErrorLine f]\<rparr>))"

text \<open>The hook commands on the world.\<close>

definition on_session :: "'w cli_command \<Rightarrow> 'w world \<Rightarrow> failure option \<times> 'w world" where
  "on_session command w =
     (case command \<lparr>ss_host = wd_host w, ss_net = wd_net w, ss_out = [], ss_err = []\<rparr> of
        (e, s) \<Rightarrow> (map_option HookError e,
          w\<lparr>wd_host := ss_host s, wd_net := ss_net s, wd_out := wd_out w @ map HookOut (ss_out s),
             wd_err := wd_err w @ map HookNotice (ss_err s)\<rparr>))"

definition on_store :: "(store_session \<Rightarrow> command_error option \<times> store_session) \<Rightarrow> 'w world \<Rightarrow> failure option \<times> 'w world" where
  "on_store command w =
     (case command (store_view w) of (e, s) \<Rightarrow> (map_option TokenCommandError e, store_update s w))"

definition start_agent :: "agent_env \<Rightarrow> string list \<Rightarrow> 'w world \<Rightarrow> 'w program_result" where
  "start_agent env args w =
     (case runAgent env args (wd_host w) of
        (AgentExits e ls, h) \<Rightarrow> finish (map_option AgentError e) (w\<lparr>wd_host := h, wd_out := wd_out w @ map Line ls\<rparr>)
      | (AgentRuns s, h) \<Rightarrow> RunsAgent s (w\<lparr>wd_host := h\<rparr>))"

definition start_standalone :: "standalone_env \<Rightarrow> string list \<Rightarrow> 'w world \<Rightarrow> 'w program_result" where
  "start_standalone env args w =
     (case runStandalone env args (store_view w) of
        (Inl e, s) \<Rightarrow> finish (Some (StandaloneError e)) (store_update s w)
      | (Inr sa, s) \<Rightarrow> RunsStandalone sa (store_update s w))"

definition start_server :: "server_cmd_env \<Rightarrow> string list \<Rightarrow> 'w world \<Rightarrow> 'w program_result" where
  "start_server env args w =
     (case runServer env args w of
        (Inl e, w1) \<Rightarrow> finish (Some (ServerError e)) w1
      | (Inr api, w1) \<Rightarrow> RunsServer api w1)"

definition run :: "'w program_env \<Rightarrow> string list \<Rightarrow> 'w world \<Rightarrow> 'w program_result" where
  "run env args w =
     (case args of
        [] \<Rightarrow> Exits 2 (w\<lparr>wd_err := wd_err w @ [UsageError printUsage]\<rparr>)
      | cmd # rest \<Rightarrow>
          if cmd = ''standalone'' then start_standalone (pg_standalone env) rest w
          else if cmd = ''server'' then start_server (pg_server env) rest w
          else if cmd = ''agent'' then start_agent (pg_agent env) rest w
          else if cmd = ''hooks'' then (case on_session (runHooks (pg_cli env) rest) w of (e, w1) \<Rightarrow> finish e w1)
          else if cmd = ''hook'' then (case on_session (runHookHelper (pg_cli env) rest) w of (e, w1) \<Rightarrow> finish e w1)
          else if cmd = ''service'' then
            (case runService (pg_service env) rest w of (e, w1) \<Rightarrow> finish (map_option ServiceError e) w1)
          else if cmd = ''token'' then (case on_store (runToken (pg_store env) rest) w of (e, w1) \<Rightarrow> finish e w1)
          else if cmd = ''firmware'' then
            (case runFirmware (pg_firmware env) rest w of (e, w1) \<Rightarrow> finish (map_option FirmwareError e) w1)
          else if cmd = ''doctor'' then
            (case runDoctor (pg_doctor env) rest w of (e, w1) \<Rightarrow> finish (map_option DoctorError e) w1)
          else if cmd = ''login'' then
            (case runLogin (pg_login env) rest w of (e, w1) \<Rightarrow> finish (map_option LoginError e) w1)
          else if cmd = ''version'' \<or> cmd = ''--version'' \<or> cmd = ''-version'' then
            (case print_line (pg_prints env) VersionPrint (Line (pg_version env)) w of (e, w1) \<Rightarrow> finish e w1)
          else if cmd = ''help'' \<or> cmd = ''--help'' \<or> cmd = ''-h'' then Exits 0 (w\<lparr>wd_out := wd_out w @ [Usage printUsage]\<rparr>)
          else Exits 2 (w\<lparr>wd_err := wd_err w @ [UnknownCommand cmd, UsageError printUsage]\<rparr>))"

text \<open>The exit status of a command that kept running, from the error its run ends with.\<close>

definition run_exit :: "failure option \<Rightarrow> nat" where
  "run_exit e = (if e = None then 0 else 1)"

section \<open>From the generated service to the running agent\<close>

text \<open>What the agent command does for a given configuration file.\<close>

definition agent_with_config :: "agent_env \<Rightarrow> string \<Rightarrow> 'w world \<Rightarrow> 'w program_result" where
  "agent_with_config env path w =
     (case prepare_agent env path (wd_host w) of
        (Inl e, h) \<Rightarrow> finish (Some (AgentError e)) (w\<lparr>wd_host := h\<rparr>)
      | (Inr cfg, h) \<Rightarrow>
          (case NewAgent (ae_url env) (ae_loopback env) cfg None of
             Inl e \<Rightarrow> finish (Some (AgentError (AgentRejected e))) (w\<lparr>wd_host := h\<rparr>)
           | Inr a \<Rightarrow> RunsAgent (run_start True (ae_now env) a) (w\<lparr>wd_host := h\<rparr>)))"

lemma run_agent_config: "run env [''agent'', ''--config'', path] w = agent_with_config (pg_agent env) path w"
proof -
  let ?env = "pg_agent env"
  let ?fs = "[(''config'', VString (envOr (ae_getenv ?env) ''QUOTA_MONITOR_AGENT_CONFIG'' ''agent.json'')), (''once'', VBool False)]"
  have "Parse (ae_dur ?env) ?fs [''--config'', path] = ok (gomap_put ''config'' (VString path) ?fs, [])"
    using Parse_long_flags [of "[(''config'', path)]" ?fs]
    by (simp add: long_flags_def plain_name_def is_string_flag_def gomap_get_def)
  moreover have "string_flag (gomap_put ''config'' (VString path) ?fs) ''config'' = path"
    "\<not> bool_flag (gomap_put ''config'' (VString path) ?fs) ''once''"
    by (simp_all add: string_flag_def bool_flag_def gomap_gets gomap_get_def gomap_put_def)
  ultimately show ?thesis
    by (auto simp: run_def start_agent_def runAgent_def agent_with_config_def agent_Run_def split: sum.splits prod.splits)
qed

definition generate_arguments :: "string \<Rightarrow> string \<Rightarrow> string list" where
  "generate_arguments executable config =
     ''generate'' # long_flags [(''target'', ''systemd''), (''executable'', executable), (''config'', config)]"

lemma generate_flags:
  obtains fs where "Parse dur (service_flags env) (tl (generate_arguments e c)) = ok (fs, [])"
    "string_flag fs ''target'' = ''systemd''" "string_flag fs ''executable'' = e" "string_flag fs ''config'' = c"
    "string_flag fs ''mode'' = ''agent''" "string_flag fs ''output'' = []" "string_flag fs ''firmware-dir'' = []"
    "string_flag fs ''working-directory'' = []" "string_flag fs ''windows-user-id'' = []"
proof -
  let ?vs = "[(''target'', ''systemd''), (''executable'', e), (''config'', c)]"
  let ?fs = "fold (\<lambda>(n, v). gomap_put n (VString v)) ?vs (service_flags env)"
  have "Parse dur (service_flags env) (long_flags ?vs) = ok (?fs, [])"
    by (intro Parse_long_flags) (simp add: plain_name_def is_string_flag_def service_flags_def gomap_get_def)
  then have "Parse dur (service_flags env) (tl (generate_arguments e c)) = ok (?fs, [])"
    by (simp add: generate_arguments_def)
  then show thesis
    by (rule that) (simp_all add: string_flag_def gomap_gets, simp_all add: service_flags_def gomap_get_def)
qed

lemma map_sum_ok: "map_sum f id r = ok x \<longleftrightarrow> r = ok x"
  by (cases r) auto

lemma service_absolute_nonempty: "service_absolute v \<Longrightarrow> v \<noteq> []"
  by (auto simp: service_absolute_def)


definition demo_service_env :: service_env where
  "demo_service_env = \<lparr>sc_host = demo_host_env (\<lambda>_. True), sc_windows = False, sc_executable = ''/usr/bin/qm'', sc_cwd = None,
     sc_dur = (\<lambda>_. None), sc_prints = True\<rparr>"

definition demo_world :: "'w \<Rightarrow> 'w world" where
  "demo_world net = \<lparr>wd_host = demo_agent_files, wd_net = net, wd_disk = (\<lambda>_. fresh_file), wd_firmware = (\<lambda>_ _. None), wd_out = [],
     wd_err = [], wd_started = []\<rparr>"


section \<open>Exit status\<close>

fun is_notice :: "err_item \<Rightarrow> bool" where
  "is_notice (HookNotice _) = True" | "is_notice _ = False"

definition complaints :: "'w world \<Rightarrow> err_item list" where
  "complaints w = filter (\<lambda>x. \<not> is_notice x) (wd_err w)"

lemma complaints_frames [simp]:
  "complaints (w\<lparr>wd_host := h\<rparr>) = complaints w" "complaints (w\<lparr>wd_out := out\<rparr>) = complaints w"
  "complaints (w\<lparr>wd_firmware := fw\<rparr>) = complaints w" "complaints (w\<lparr>wd_started := st\<rparr>) = complaints w"
  "complaints (store_update s w) = complaints w" "complaints (snd (on_session c w)) = complaints w"
  "complaints (snd (on_store d w)) = complaints w" "complaints (snd (print_line b e i w)) = complaints w"
  by (auto simp: complaints_def store_update_def on_session_def on_store_def print_line_def filter_map filter_empty_conv
      split: prod.split)

lemma command_complaints:
  "complaints (snd (runService senv args w)) = complaints w"
  "complaints (snd (runFirmware fenv args w)) = complaints w"
  "complaints (snd (runDoctor denv args w)) = complaints w"
  "complaints (snd (runLogin lenv args w)) = complaints w"
  "complaints (snd (runServer sdenv args w)) = complaints w"
  by (auto simp: runService_def write_service_def runFirmware_def runDoctor_def runLogin_def runServer_def Let_def
      split: sum.split prod.split option.split list.split)

definition ends_well :: "'w world \<Rightarrow> 'w program_result \<Rightarrow> bool" where
  "ends_well w r =
     (case r of
        Exits n w' \<Rightarrow>
          n = 0 \<and> complaints w' = complaints w \<or> n = 1 \<and> (\<exists>f. complaints w' = complaints w @ [ErrorLine f]) \<or>
          n = 2 \<and> (\<exists>us. complaints w' = complaints w @ us @ [UsageError printUsage])
      | _ \<Rightarrow> True)"

lemma ends_finish: "complaints w1 = complaints w \<Longrightarrow> ends_well w (finish e w1)"
  by (auto simp: ends_well_def finish_def complaints_def split: option.split)

lemma ends_start:
  "ends_well w (start_agent aenv args w)" "ends_well w (start_standalone snenv args w)"
  "ends_well w (start_server sdenv args w)"
proof -
  show "ends_well w (start_agent aenv args w)" "ends_well w (start_standalone snenv args w)"
    by (auto simp: start_agent_def start_standalone_def ends_well_def [of w "RunsAgent s x" for s x]
        ends_well_def [of w "RunsStandalone s x" for s x] intro!: ends_finish split: prod.split sum.split agent_outcome.split)
  show "ends_well w (start_server sdenv args w)"
    using command_complaints(5) [of sdenv args w]
    by (auto simp: start_server_def ends_well_def [of w "RunsServer s x" for s x] intro!: ends_finish split: prod.split sum.split)
qed

lemma ends_run: "ends_well w (run env args w)"
proof (cases args)
  case Nil
  then show ?thesis by (auto simp: run_def ends_well_def complaints_def)
next
  case (Cons cmd rest)
  have "ends_well w (Exits 0 (w\<lparr>wd_out := out\<rparr>))" for out
    by (simp add: ends_well_def)
  moreover have "ends_well w (Exits 2 (w\<lparr>wd_err := wd_err w @ [UnknownCommand cmd, UsageError printUsage]\<rparr>))"
    by (auto simp: ends_well_def complaints_def)
  ultimately show ?thesis
    by (simp add: Cons run_def case_prod_beta ends_start ends_finish command_complaints)
qed

text \<open>
  The exit status tells whether the command worked. Whatever the command line, a command that ends
  does so with status 0 and nothing on the error stream but notices of the hook commands, with
  status 1 and one more error line, or, for an unknown or missing command, with status 2 and
  the usage text.
\<close>

theorem exit_status_tells:
  assumes "run env args w = Exits n w'"
  shows "n = 0 \<and> complaints w' = complaints w \<or>
    n = 1 \<and> (\<exists>f. complaints w' = complaints w @ [ErrorLine f]) \<or>
    n = 2 \<and> (\<exists>us. complaints w' = complaints w @ us @ [UsageError printUsage])"
  using ends_run [of w env args] unfolding assms by (simp add: ends_well_def)

definition demo_login :: login_env where
  "demo_login = \<lparr>lo_host = (demo_host_env (\<lambda>_. True))\<lparr>he_home := Some ''/home/me''\<rparr>, lo_goos = ''linux'', lo_lookPath = (\<lambda>_. None),
     lo_regular = (\<lambda>_. True), lo_run = (\<lambda>_. True), lo_prints = True\<rparr>"

definition demo_doctor :: doctor_env where
  "demo_doctor = \<lparr>de_dur = (\<lambda>_. None), de_get = (\<lambda>_. Some (503, ''503 Service Unavailable'', ''down'')), de_prints = True\<rparr>"

definition demo_program :: "unit program_env" where
  "demo_program =
     \<lparr>pg_cli = demo_cli (\<lambda>_ _ w. (None, w)), pg_store = demo_store_env (\<lambda>_. True), pg_agent = demo_agent_env,
      pg_standalone = demo_standalone, pg_login = demo_login, pg_service = demo_service_env,
      pg_server = \<lparr>sd_store = demo_store_env (\<lambda>_. True), sd_linux = True\<rparr>,
      pg_firmware = \<lparr>fe_getenv = (\<lambda>_. []), fe_linux = True, fe_dur = (\<lambda>_. None), fe_encode = demo_enc, fe_decode = demo_dec,
        fe_sha = demo_fw_sha, fe_io = calm, fe_env = demo_env, fe_prints = True\<rparr>,
      pg_doctor = demo_doctor,
      pg_version = ''dev'', pg_prints = True\<rparr>"

theorem exit_status_tells_witness:
  "\<exists>w' f. run demo_program [''doctor'', ''--health-url=https://q/healthz''] (demo_world ()) = Exits 1 w' \<and> complaints w' = [ErrorLine f]"
proof -
  let ?r = "run demo_program [''doctor'', ''--health-url=https://q/healthz''] (demo_world ())"
  have "fst (runDoctor demo_doctor [''--health-url=https://q/healthz''] (demo_world ())) =
      Some (DoctorStatus ''503 Service Unavailable'' ''down'')" by code_simp
  then obtain w' where r: "?r = Exits 1 w'"
    by (cases "runDoctor demo_doctor [''--health-url=https://q/healthz''] (demo_world ())")
      (simp add: run_def finish_def demo_program_def)
  have "complaints (demo_world ()) = []" by (simp add: complaints_def demo_world_def)
  with exit_status_tells [OF r] r show ?thesis by auto
qed

lemma run_hook:
  assumes "runHookHelper (pg_cli env) args \<lparr>ss_host = wd_host w, ss_net = wd_net w, ss_out = [], ss_err = []\<rparr> = (None, s)"
  shows "run env (''hook'' # args) w = Exits 0 (w\<lparr>wd_host := ss_host s, wd_net := ss_net s,
    wd_out := wd_out w @ map HookOut (ss_out s), wd_err := wd_err w @ map HookNotice (ss_err s)\<rparr>)"
  using assms by (simp add: run_def on_session_def finish_def)

text \<open>
  C38: An installed hook never makes the provider tool fail. The commands an installation writes, split
  by a POSIX shell and run by the program on any input, host and network, exit with status 0,
  leave every file alone, and the event hook prints nothing on standard output.
\<close>

theorem installed_hooks_exit_zero:
  assumes "ic_TargetOS c \<noteq> ''windows''" and "ic_SecretPath c \<noteq> []" and "ic_StatePath c \<noteq> []" and "provider \<noteq> []"
  shows "\<exists>fargs sargs w1 w2.
    sh_words Bare None (hook_command c provider) = Some (ic_Executable c # fargs) \<and>
    sh_words Bare None (status_command c) = Some (ic_Executable c # sargs) \<and>
    run env fargs w = Exits 0 w1 \<and> h_files (wd_host w1) = h_files (wd_host w) \<and> wd_out w1 = wd_out w \<and>
    run env sargs w = Exits 0 w2 \<and> h_files (wd_host w2) = h_files (wd_host w)"
proof -
  let ?s = "\<lparr>ss_host = wd_host w, ss_net = wd_net w, ss_out = [], ss_err = []\<rparr>"
  obtain fargs sargs s1 s2 where r:
    "sh_words Bare None (hook_command c provider) = Some (ic_Executable c # ''hook'' # fargs)"
    "sh_words Bare None (status_command c) = Some (ic_Executable c # ''hook'' # sargs)"
    "runHookHelper (pg_cli env) fargs ?s = (None, s1)" "h_files (ss_host s1) = h_files (wd_host w)" "ss_out s1 = []"
    "runHookHelper (pg_cli env) sargs ?s = (None, s2)" "h_files (ss_host s2) = h_files (wd_host w)"
    using installed_hooks_quiet [OF assms, of "pg_cli env" ?s] by auto
  from run_hook [OF r(3)] run_hook [OF r(6)] r(1,2,4,5,7) show ?thesis by fastforce
qed

theorem installed_hooks_exit_zero_witness:
  "\<exists>fargs w1. sh_words Bare None (hook_command demo_hooked ''codex'') = Some (''/opt/qm'' # fargs) \<and>
     run demo_program fargs (demo_world ()) = Exits 0 w1 \<and> wd_out w1 = []"
  using installed_hooks_exit_zero [of demo_hooked "''codex''" demo_program "demo_world ()"]
  by (auto simp: demo_hooked_def demo_world_def)

text \<open>
  Login starts nothing but the provider's own login. Whatever the arguments and the files of the
  host, at most one program is started, with the fixed arguments of \<open>codex\<close> or \<open>claude\<close>; it is the one
  the search path gives or, where there is none, an existing regular file below \<open>.local/bin\<close> of
  the user's home directory.
\<close>

theorem login_starts_only_provider:
  shows "wd_started (snd (runLogin env args w)) = wd_started w \<or>
    (\<exists>provider name fixed path. login_program provider = Some (name, fixed) \<and>
       wd_started (snd (runLogin env args w)) = wd_started w @ [path # fixed] \<and>
       (lo_lookPath env name = Some path \<or>
        (\<exists>home. lo_lookPath env name = None \<and> he_home (lo_host env) = Some home \<and> path = path_Join [home, ''.local'', ''bin'', name] \<and>
           h_files (wd_host w) (path_key path) \<noteq> None \<and> lo_regular env path)))"
proof -
  have stat: "h_files h (path_key path) \<noteq> None" if "os_Stat henv path h = (Inr m, h')" for henv path h m h'
    using os_Stat_spec [OF that] by auto
  show ?thesis
    by (auto simp: runLogin_def resolveLoginExecutableForOS_def Let_def dest!: stat
        split: list.split option.split prod.split sum.split)
qed

end
