(* ===== verification/Report_Targets.thy ===== *)
theory Report_Targets
  imports Standalone
begin

text \<open>
  The two places a report can go to, behind the interface \<open>ReportSink\<close> of \<open>agent.go\<close> stands for: the
  server's report endpoint and the local database of standalone mode. What the agent relies on is
  stated once, as the locale \<open>report_target\<close>, and holds of both.
\<close>

section \<open>The contract\<close>

text \<open>The accepted reports of a sequence of submissions, in their order, and the final state.\<close>

fun submissions ::
    "('x \<Rightarrow> agent_report \<Rightarrow> 's \<Rightarrow> bool \<times> 's) \<Rightarrow> ('x \<times> agent_report) list \<Rightarrow> 's \<Rightarrow> ('x \<times> agent_report) list \<times> 's" where
  "submissions submit [] s = ([], s)"
| "submissions submit ((x, rep) # rest) s =
     (case submit x rep s of
        (accepted, s1) \<Rightarrow>
          (case submissions submit rest s1 of
             (l, s2) \<Rightarrow> (if accepted then (x, rep) # l else l, s2)))"

text \<open>The reports of one agent among the accepted ones, and what the last one leaves to be seen.\<close>

definition of_agent :: "string \<Rightarrow> ('x \<times> agent_report) list \<Rightarrow> ('x \<times> agent_report) list" where
  "of_agent a l = filter (\<lambda>(x, rep). ar_AgentID rep = a) l"

definition last_seen ::
    "('x \<Rightarrow> time) \<Rightarrow> (int \<times> agent_content) option \<Rightarrow> ('x \<times> agent_report) list \<Rightarrow> (int \<times> agent_content) option" where
  "last_seen received before l =
     (if l = [] then before
      else case last l of (x, rep) \<Rightarrow> Some (UnixNano (ar_SentAt rep), report_content rep (received x)))"

fun stamps_increase :: "(int \<times> agent_content) option \<Rightarrow> ('x \<times> agent_report) list \<Rightarrow> bool" where
  "stamps_increase before [] = True"
| "stamps_increase before ((x, rep) # l) =
     (newer (UnixNano (ar_SentAt rep)) before \<and> stamps_increase (Some (UnixNano (ar_SentAt rep), report_content rep 0)) l)"

lemma stamps_increase_cong: "map_option fst b = map_option fst c \<Longrightarrow> stamps_increase b l = stamps_increase c l"
  by (cases l) (auto simp: newer_def split: option.splits prod.splits)

locale report_target =
  fixes submit :: "'x \<Rightarrow> agent_report \<Rightarrow> 's \<Rightarrow> bool \<times> 's"
    and shown :: "'s \<Rightarrow> string \<Rightarrow> (int \<times> agent_content) option"
    and received :: "'x \<Rightarrow> time"
  assumes stored: "submit x rep s = (True, s') \<Longrightarrow>
      shown s' (ar_AgentID rep) = Some (UnixNano (ar_SentAt rep), report_content rep (received x))"
    and newer_only: "submit x rep s = (True, s') \<Longrightarrow> newer (UnixNano (ar_SentAt rep)) (shown s (ar_AgentID rep))"
    and others: "submit x rep s = (True, s') \<Longrightarrow> a \<noteq> ar_AgentID rep \<Longrightarrow> shown s' a = shown s a"
    and kept: "submit x rep s = (False, s') \<Longrightarrow> shown s' = shown s"
begin

lemma submitted_seen:
  "submissions submit xs s = (l, s') \<Longrightarrow>
     shown s' a = last_seen received (shown s a) (of_agent a l) \<and> stamps_increase (shown s a) (of_agent a l)"
proof (induction xs arbitrary: s l)
  case Nil
  then show ?case by (simp add: last_seen_def of_agent_def)
next
  case (Cons xrep xs)
  obtain x rep where xr: "xrep = (x, rep)" by fastforce
  obtain acc s1 where s1: "submit x rep s = (acc, s1)" by fastforce
  obtain l1 where l1: "submissions submit xs s1 = (l1, s')" "l = (if acc then (x, rep) # l1 else l1)"
    using Cons.prems s1 xr by (auto split: prod.splits)
  note IH = Cons.IH [OF l1(1)]
  show ?case
  proof (cases "acc \<and> ar_AgentID rep = a")
    case True
    with s1 stored newer_only have st: "shown s1 a = Some (UnixNano (ar_SentAt rep), report_content rep (received x))"
      "newer (UnixNano (ar_SentAt rep)) (shown s a)" by auto
    with IH True l1(2) stamps_increase_cong [of "shown s1 a" "Some (UnixNano (ar_SentAt rep), report_content rep 0)"]
    show ?thesis by (auto simp: of_agent_def last_seen_def)
  next
    case False
    then have "shown s1 a = shown s a" using s1 others kept by (cases acc) auto
    with IH False l1(2) show ?thesis by (auto simp: of_agent_def)
  qed
qed

end

section \<open>The database of standalone mode\<close>

definition sink_submit :: "io \<times> time \<Rightarrow> agent_report \<Rightarrow> database \<Rightarrow> bool \<times> database" where
  "sink_submit x report db = (case report_sink (fst x) (snd x) report db of (e, db') \<Rightarrow> (e = None, db'))"

lemma ReplaceAgentReport_newer:
  assumes "ReplaceAgentReport io rep recv db = (None, db')"
  shows "newer (UnixNano (ar_SentAt rep)) (agent_view db (ar_AgentID rep))"
  using assms
  by (rule ReplaceAgentReport_ok)
    (auto simp: newer_def agent_view_def upsert_agent_def split: option.splits if_splits)

interpretation sink: report_target sink_submit agent_view snd
proof unfold_locales
  fix x :: "io \<times> time" and rep s s' a
  show "newer (UnixNano (ar_SentAt rep)) (agent_view s (ar_AgentID rep))"
    "agent_view s' (ar_AgentID rep) = Some (UnixNano (ar_SentAt rep), report_content rep (snd x))"
    "a \<noteq> ar_AgentID rep \<Longrightarrow> agent_view s' a = agent_view s a"
    if "sink_submit x rep s = (True, s')"
    using that
    by (auto simp: sink_submit_def report_sink_def split: if_splits prod.splits
        dest: ReplaceAgentReport_stored ReplaceAgentReport_newer ReplaceAgentReport_other)
  show "agent_view s' = agent_view s" if "sink_submit x rep s = (False, s')"
    using that by (auto simp: sink_submit_def report_sink_def split: if_splits prod.splits dest: ReplaceAgentReport_error)
qed

section \<open>The server's endpoint\<close>

text \<open>An upload: the environment and the headers of the request, with the report as its only body.\<close>

definition server_submit ::
    "(string \<Rightarrow> string) \<Rightarrow> server_env \<times> http_request \<Rightarrow> agent_report \<Rightarrow> server \<Rightarrow> bool \<times> server" where
  "server_submit sha x report s =
     (case handleAgentReport sha (fst x) ((snd x)\<lparr>hr_body := BodyReport report, hr_trailing := TrailingEOF\<rparr>) s of
        (resp, s') \<Rightarrow> (delivered (Responded (rs_status resp)), s'))"

definition server_view :: "server \<Rightarrow> string \<Rightarrow> (int \<times> agent_content) option" where
  "server_view s = agent_view (sv_db s)"

definition upload_time :: "server_env \<times> http_request \<Rightarrow> time" where
  "upload_time x = en_clock (fst x) 3"

lemma server_submit_true:
  assumes "server_submit sha x rep s = (True, s')"
  shows "\<exists>db. agent_view db = server_view s \<and>
    ReplaceAgentReport (en_store_io (fst x)) rep (upload_time x) db = (None, sv_db s')"
proof -
  let ?r = "(snd x)\<lparr>hr_body := BodyReport rep, hr_trailing := TrailingEOF\<rparr>"
  have st: "rs_status (fst (handleAgentReport sha (fst x) ?r s)) = 204" "snd (handleAgentReport sha (fst x) ?r s) = s'"
    using assms by (auto simp: server_submit_def split: prod.splits)
  show ?thesis
  proof (cases rule: handleAgentReport_cases [of sha "fst x" ?r s])
    case (rejected t)
    with st show ?thesis by simp
  next
    case (stored rec t report db)
    have "same_reports (sv_db t) (sv_db s)"
      using authenticate_frame [of s sha "fst x" ?r ScopeAgentWrite "sv_agentRateLimit s"] stored(1) by (simp add: auth_frame_def)
    then have "agent_view (sv_db t) = server_view s" by (simp add: server_view_def same_reports_view)
    with stored st show ?thesis by (intro exI [of _ "sv_db t"]) (auto simp: upload_time_def)
  qed
qed

lemma server_submit_false:
  assumes "server_submit sha x rep s = (False, s')"
  shows "server_view s' = server_view s"
proof -
  let ?r = "(snd x)\<lparr>hr_body := BodyReport rep, hr_trailing := TrailingEOF\<rparr>"
  have st: "rs_status (fst (handleAgentReport sha (fst x) ?r s)) \<noteq> 204" "snd (handleAgentReport sha (fst x) ?r s) = s'"
    using assms by (auto simp: server_submit_def split: prod.splits)
  show ?thesis
    by (cases rule: handleAgentReport_cases [of sha "fst x" ?r s])
      (use st same_reports_view in \<open>auto simp: server_view_def writeJSON_def\<close>)
qed

interpretation srv: report_target "server_submit sha" server_view upload_time for sha
proof unfold_locales
  fix x :: "server_env \<times> http_request" and rep s s' a
  assume t: "server_submit sha x rep s = (True, s')"
  from server_submit_true [OF t] obtain db where db: "agent_view db = server_view s"
    "ReplaceAgentReport (en_store_io (fst x)) rep (upload_time x) db = (None, sv_db s')" by blast
  show "server_view s' (ar_AgentID rep) = Some (UnixNano (ar_SentAt rep), report_content rep (upload_time x))"
    using ReplaceAgentReport_stored [OF db(2)] by (simp add: server_view_def)
  show "newer (UnixNano (ar_SentAt rep)) (server_view s (ar_AgentID rep))"
    using ReplaceAgentReport_newer [OF db(2)] db(1) by metis
  show "a \<noteq> ar_AgentID rep \<Longrightarrow> server_view s' a = server_view s a"
    using ReplaceAgentReport_other [OF db(2), of a] db(1) by (simp add: server_view_def)
qed (rule server_submit_false)

section \<open>Properties\<close>

text \<open>
  C3: The server shows each agent's last accepted upload. After any sequence of uploads by any
  agents, with any tokens, bodies, clocks and database failures, what the database says of an
  agent is the content of the last upload answered with 204 that named it, received at the
  time of that request, or what it said before if there was none; and the stamps of its accepted
  uploads strictly increase.
\<close>

theorem last_accepted_upload_is_shown:
  assumes "submissions (server_submit sha) uploads s = (accepted, s')"
  shows "server_view s' a = last_seen upload_time (server_view s a) (of_agent a accepted) \<and>
    stamps_increase (server_view s a) (of_agent a accepted)"
  using assms by (rule srv.submitted_seen)

definition demo_upload :: "string \<Rightarrow> (server_env \<times> http_request) \<times> agent_report" where
  "demo_upload a = ((demo_server_env, demo_post a), (demo_report a (1000 * second))\<lparr>ar_Providers := Some [], ar_ActiveTasks := Some []\<rparr>)"

theorem last_accepted_upload_is_shown_witness:
  "\<exists>accepted s'. submissions (server_submit demo_sha) [demo_upload ''pc-1''] demo_server = (accepted, s') \<and> length accepted = 1 \<and>
     server_view s' ''pc-1'' = last_seen upload_time (server_view demo_server ''pc-1'') (of_agent ''pc-1'' accepted)"
proof -
  let ?r = "submissions (server_submit demo_sha) [demo_upload ''pc-1''] demo_server"
  have "length (fst ?r) = 1" by code_simp
  moreover obtain accepted s' where r: "?r = (accepted, s')" by fastforce
  ultimately show ?thesis using last_accepted_upload_is_shown [OF r, of "''pc-1''"] r by auto
qed

text \<open>The same contract holds of the local database in standalone mode.\<close>

theorem last_accepted_local_report_is_shown:
  assumes "submissions sink_submit reports db = (accepted, db')"
  shows "agent_view db' a = last_seen snd (agent_view db a) (of_agent a accepted) \<and>
    stamps_increase (agent_view db a) (of_agent a accepted)"
  using assms by (rule sink.submitted_seen)

end
