(* ===== verification/Firmware_Power.thy ===== *)
theory Firmware_Power
  imports Firmware
begin

text \<open>
  What \<open>syncDirectory\<close> is for, and the Windows variant of the platform functions. The directory that a
  reader sees and the directories that a loss of power can leave behind are tracked side by side:
  a rename, a removal and the creation of a file may be lost until the directory is flushed. The
  contents of the staging files are flushed by \<open>File.Sync\<close> before the first rename, so a write is
  not undone; a staging file that loses its contents before that is read by nobody.
\<close>

section \<open>Directories after a loss of power\<close>

fun power_op :: "fs_op \<Rightarrow> directory \<times> directory list \<Rightarrow> directory \<times> directory list" where
  "power_op OpSyncDir (v, D) = (v, [v])"
| "power_op (OpWrite n bytes) (v, D) = (apply_op (OpWrite n bytes) v, map (apply_op (OpWrite n bytes)) D)"
| "power_op f (v, D) = (apply_op f v, D @ map (apply_op f) D)"

definition after_power_loss :: "fs_op list \<Rightarrow> directory \<Rightarrow> directory list" where
  "after_power_loss ops d = snd (fold power_op ops (d, [d]))"

definition power_holds :: "(directory \<Rightarrow> bool) \<Rightarrow> directory \<times> directory list \<Rightarrow> bool" where
  "power_holds P s = (P (fst s) \<and> list_all P (snd s))"

fun all_power :: "(directory \<Rightarrow> bool) \<Rightarrow> directory \<times> directory list \<Rightarrow> fs_op list \<Rightarrow> bool" where
  "all_power P s [] = power_holds P s"
| "all_power P s (f # ops) = (power_holds P s \<and> all_power P (power_op f s) ops)"

lemma all_power_prefix: "all_power P s ops \<Longrightarrow> power_holds P (fold power_op (take k ops) s)"
proof (induction ops arbitrary: s k)
  case (Cons f ops)
  then show ?case by (cases k) auto
qed simp

lemma all_power_append:
  "all_power P s (xs @ ys) \<longleftrightarrow> all_power P s xs \<and> all_power P (fold power_op xs s) ys"
proof (induction xs arbitrary: s)
  case Nil
  show ?case by (cases ys) auto
qed simp

lemma all_power_mono: "all_power P s ops \<Longrightarrow> (\<And>d. P d \<Longrightarrow> Q d) \<Longrightarrow> all_power Q s ops"
  by (induction ops arbitrary: s) (auto simp: power_holds_def list_all_iff)

lemma power_op_holds:
  "power_holds P s \<Longrightarrow> (\<And>d. P d \<Longrightarrow> P (apply_op f d)) \<Longrightarrow> power_holds P (power_op f s)"
  by (cases s; cases f) (auto simp: power_holds_def list_all_iff simp del: apply_op.simps)

lemma all_power_keeps:
  assumes "\<And>f d. f \<in> set ops \<Longrightarrow> P d \<Longrightarrow> P (apply_op f d)" and "power_holds P s"
  shows "all_power P s ops"
  using assms
proof (induction ops arbitrary: s)
  case (Cons f ops)
  then have "power_holds P (power_op f s)" by (intro power_op_holds) auto
  with Cons show ?case by auto
qed simp

lemma visible_power: "fst (fold power_op ops s) = run_ops ops (fst s)"
proof (induction ops arbitrary: s)
  case (Cons f ops)
  have "fst (power_op f s) = apply_op f (fst s)" by (cases s; cases f) auto
  with Cons show ?case by (simp add: run_ops_def)
qed (simp add: run_ops_def)

section \<open>The operations of a publication\<close>

text \<open>Operations that no reader of the old directory notices.\<close>

fun touched :: "fs_op \<Rightarrow> string set" where
  "touched OpLockFile = {''.publish.lock''}"
| "touched (OpWrite n _) = {n}"
| "touched (OpRemove n) = {n}"
| "touched (OpRename a b) = {a, b}"
| "touched OpSyncDir = {}"

definition unnoticed :: "publish_env \<Rightarrow> string \<Rightarrow> fs_op list \<Rightarrow> bool" where
  "unnoticed env target ops = (\<forall>f\<in>set ops. touched f \<subseteq> insert target (staging env))"

lemma unnoticed_simps [simp]:
  "unnoticed env target []"
  "unnoticed env target (f # ops) \<longleftrightarrow> touched f \<subseteq> insert target (staging env) \<and> unnoticed env target ops"
  by (auto simp: unnoticed_def)

lemma touched_frame: "n \<notin> touched f \<Longrightarrow> apply_op f d n = d n"
  by (cases f) (auto split: option.split)

lemma unnoticed_old:
  assumes "unnoticed env target ops" and "f \<in> set ops" and "old_dir env target d0 d"
  shows "old_dir env target d0 (apply_op f d)"
  unfolding old_dir_def
proof (intro allI impI)
  fix n assume n: "n \<notin> staging env" "n \<noteq> target"
  with assms(1,2) have "n \<notin> touched f" by (auto simp: unnoticed_def)
  with assms(3) n show "apply_op f d n = d0 n" by (simp add: touched_frame old_dir_def)
qed

text \<open>The installation: image rename, directory sync, manifest rename, and then only clean-up of staging files.\<close>

definition installs :: "publish_env \<Rightarrow> string \<Rightarrow> fs_op list \<Rightarrow> bool" where
  "installs env target ops = (\<exists>post. set post \<subseteq> {OpSyncDir, OpRemove (image_temp env), OpRemove (manifest_temp env)} \<and>
     ops = [OpRename (image_temp env) target, OpSyncDir, OpRename (manifest_temp env) ManifestName] @ post)"

lemma commit_ops:
  "unnoticed env target (snd (publish_commit io env target m)) \<or> installs env target (snd (publish_commit io env target m))"
  using staging_names(3,4) [of env] by (auto simp: publish_commit_def Let_def installs_def)

lemma manifest_ops:
  "unnoticed env target (snd (publish_manifest enc io env target m)) \<or>
   (\<exists>x ops. manifest_Validate m = None \<and> enc m = Some x \<and> installs env target ops \<and>
      snd (publish_manifest enc io env target m) =
        [OpWrite (manifest_temp env) [], OpWrite (manifest_temp env) (x @ [CHR 0x0A])] @ ops)"
proof (cases "manifest_Validate m = None \<and> (\<exists>x. enc m = Some x) \<and> (\<forall>i\<in>{15,16,17,18,19}. io i)")
  case True
  with commit_ops [of env target io m] staging_names(4) [of env] show ?thesis
    by (auto simp: publish_manifest_def Let_def case_prod_unfold)
next
  case False
  with staging_names(3,4) [of env] show ?thesis
    by (auto simp: publish_manifest_def Let_def split: option.splits)
qed

lemma image_ops:
  assumes "po_Board opts = BoardE32R28T"
  shows "unnoticed env (ImageName BoardE32R28T (po_Version opts)) (snd (publish_image enc sha io env opts n bytes)) \<or>
    (\<exists>data x ops. manifest_Validate (new_manifest sha env opts data) = None \<and> enc (new_manifest sha env opts data) = Some x \<and>
       installs env (ImageName BoardE32R28T (po_Version opts)) ops \<and>
       snd (publish_image enc sha io env opts n bytes) = [OpWrite (image_temp env) [], OpWrite (image_temp env) data,
         OpWrite (manifest_temp env) [], OpWrite (manifest_temp env) (x @ [CHR 0x0A])] @ ops)"
proof -
  let ?data = "read_upto (MaxImageSize + 1) bytes" and ?target = "ImageName BoardE32R28T (po_Version opts)"
  let ?out = "publish_manifest enc io env ?target (new_manifest sha env opts ?data)"
  have t1: "image_temp env \<in> staging env" by (rule staging_names)
  have "snd (publish_image enc sha io env opts n bytes) = [OpWrite (image_temp env) [], OpWrite (image_temp env) ?data] @ snd ?out \<or>
      unnoticed env ?target (snd (publish_image enc sha io env opts n bytes))"
    unfolding publish_image_def Let_def assms case_prod_unfold using t1 by (auto split: sum.split)
  with manifest_ops [of env ?target enc io "new_manifest sha env opts ?data"] t1 show ?thesis
    by (elim disjE exE conjE) auto
qed

section \<open>Publication and power loss\<close>

text \<open>
  The installation keeps the promise to readers whatever is lost: the image is on disk before the
  manifest that names it can be.
\<close>

lemma install_power:
  assumes t: "target = ImageName BoardE32R28T v" and ops: "installs env target ops"
    and old: "power_holds (old_dir env target d0) s"
    and staged: "fst s (image_temp env) = Some (Regular data)" "fst s (manifest_temp env) = Some (Regular tx)"
  shows "all_power (served env target data tx True d0) s ops"
proof -
  note n = staging_names [of env] target_names [OF t]
  let ?t1 = "image_temp env" and ?t2 = "manifest_temp env" and ?P = "served env target data tx True d0"
  obtain post where post: "set post \<subseteq> {OpSyncDir, OpRemove ?t1, OpRemove ?t2}"
    and o: "ops = [OpRename ?t1 target, OpSyncDir, OpRename ?t2 ManifestName] @ post"
    using ops by (auto simp: installs_def)
  define d1 where "d1 = apply_op (OpRename ?t1 target) (fst s)"
  define d2 where "d2 = apply_op (OpRename ?t2 ManifestName) d1"
  let ?s1 = "power_op (OpRename ?t1 target) s"
  have d1: "d1 = (fst s)(?t1 := None, target \<mapsto> Regular data)" using staged by (simp add: d1_def)
  then have o1: "old_dir env target d0 d1" using old n by (simp add: power_holds_def)
  have d2: "d2 = d1(?t2 := None, ManifestName \<mapsto> Regular tx)" using staged n by (auto simp: d2_def d1)
  have n2: "new_dir env target data tx d0 d2"
    using o1 n unfolding new_dir_def old_dir_def d2 by (auto simp: d1)
  have s1: "power_holds (old_dir env target d0) ?s1"
    using old o1 n unnoticed_old [of env target "[OpRename ?t1 target]"]
    by (intro power_op_holds) (auto simp del: apply_op.simps)
  have s2: "power_op OpSyncDir ?s1 = (d1, [d1])" "power_op (OpRename ?t2 ManifestName) (d1, [d1]) = (d2, [d1, d2])"
    by (cases s) (simp_all add: d1_def d2_def del: apply_op.simps)
  have "all_power ?P (d2, [d1, d2]) post"
  proof (rule all_power_keeps)
    show "?P (apply_op f d)" if "f \<in> set post" "?P d" for f d
      using that post n new_dir_update [OF _ t] by (auto simp: served_def)
  qed (use o1 n2 in \<open>simp add: power_holds_def served_def\<close>)
  moreover have "power_holds ?P s" "power_holds ?P ?s1"
    using old s1 by (auto simp: power_holds_def served_def list_all_iff)
  ultimately show ?thesis using o1 n2 by (simp add: o s2 power_holds_def served_def del: power_op.simps)
qed

definition published_power ::
    "(manifest \<Rightarrow> string option) \<Rightarrow> (string \<Rightarrow> string) \<Rightarrow> publish_env \<Rightarrow> publish_options \<Rightarrow> directory \<Rightarrow> fs_op list \<Rightarrow> bool" where
  "published_power enc sha env opts d ops = (\<exists>data x. let m = new_manifest sha env opts data in
     all_power (served env (ImageName BoardE32R28T (po_Version opts)) data (x @ [CHR 0x0A])
       (manifest_Validate m = None \<and> enc m = Some x) d) (d, [d]) ops)"

lemma image_power:
  assumes "po_Board opts = BoardE32R28T"
  shows "published_power enc sha env opts d (OpLockFile # snd (publish_image enc sha io env opts n bytes))"
proof -
  let ?t = "ImageName BoardE32R28T (po_Version opts)" and ?ops = "snd (publish_image enc sha io env opts n bytes)"
  have start: "power_holds (old_dir env ?t d) (d, [d])" by (simp add: power_holds_def old_dir_def)
  have quiet: "all_power (old_dir env ?t d) (d, [d]) ops" if "unnoticed env ?t ops" for ops
    using unnoticed_old [OF that] start by (intro all_power_keeps)
  from image_ops [OF assms, of env enc sha io n bytes] show ?thesis
  proof (elim disjE exE conjE)
    assume "unnoticed env ?t ?ops"
    then have "all_power (old_dir env ?t d) (d, [d]) (OpLockFile # ?ops)" using staging_names(5) by (intro quiet) simp
    then show ?thesis
      unfolding published_power_def Let_def by (intro exI) (erule all_power_mono, simp add: served_def)
  next
    fix data x ops
    let ?tx = "x @ [CHR 0x0A]"
    let ?pre = "[OpLockFile, OpWrite (image_temp env) [], OpWrite (image_temp env) data,
         OpWrite (manifest_temp env) [], OpWrite (manifest_temp env) ?tx]"
    assume m: "manifest_Validate (new_manifest sha env opts data) = None" "enc (new_manifest sha env opts data) = Some x"
      and ops: "installs env ?t ops" and o: "?ops = [OpWrite (image_temp env) [], OpWrite (image_temp env) data,
         OpWrite (manifest_temp env) [], OpWrite (manifest_temp env) ?tx] @ ops"
    have pre: "all_power (old_dir env ?t d) (d, [d]) ?pre"
      using staging_names(3,4,5) [of env] by (intro quiet) simp
    have "fst (fold power_op ?pre (d, [d])) (image_temp env) = Some (Regular data)"
      "fst (fold power_op ?pre (d, [d])) (manifest_temp env) = Some (Regular ?tx)"
      unfolding visible_power using staging_names(2) [of env] by (simp_all add: run_ops_def)
    with install_power [OF refl ops] all_power_prefix [OF pre, of 5]
    have "all_power (served env ?t data ?tx True d) (fold power_op ?pre (d, [d])) ops" by simp
    then have "all_power (served env ?t data ?tx True d) (d, [d]) (?pre @ ops)"
      unfolding all_power_append using all_power_mono [OF pre] by (auto simp: served_def)
    then show ?thesis unfolding published_power_def Let_def o using m by (intro exI [of _ data] exI [of _ x]) simp
  qed
qed

lemma Publish_power_cases:
  "snd (Publish enc dec sha io env opts d) \<in> {[], [OpLockFile]} \<or>
   po_Board opts = BoardE32R28T \<and> d (ImageName BoardE32R28T (po_Version opts)) = None \<and>
   published_power enc sha env opts d (snd (Publish enc dec sha io env opts d))"
proof (cases "TrimSpace (po_Directory opts) \<noteq> [] \<and> po_Board opts = BoardE32R28T \<and>
    TrimSpace (po_SourcePath opts) \<noteq> [] \<and> io 0 \<and> io 1 \<and> io 2 \<and> io 3 \<and> ParseVersion (po_Version opts) \<noteq> None")
  case False
  then show ?thesis by (auto simp: Publish_def split: option.split)
next
  case True
  then obtain v where v: "ParseVersion (po_Version opts) = Some v" by blast
  let ?d = "apply_op OpLockFile d"
  have P: "snd (Publish enc dec sha io env opts d) = OpLockFile # snd (publish_locked enc dec sha io env opts v ?d)"
    using True v by (simp add: Publish_def case_prod_unfold Let_def del: apply_op.simps)
  from True publish_locked_cases [of opts enc dec sha io env v ?d] image_power [of opts enc sha env d io]
  show ?thesis unfolding P lock_old_dir(3) by auto
qed

lemma power_loss_reads:
  assumes "codec_ok enc dec"
    and im: "\<And>m'. current_manifest dec d = Some m' \<Longrightarrow> image_matches sha d m'"
    and e: "e \<in> set (after_power_loss (take k (snd (Publish enc dec sha io env opts d))) d)"
    and cur: "current_manifest dec e = Some m"
  shows "(current_manifest dec d = Some m \<or> mf_Version m = po_Version opts) \<and> image_matches sha e m"
  using Publish_power_cases [of enc dec sha io env opts d]
proof (elim disjE conjE)
  assume "snd (Publish enc dec sha io env opts d) \<in> {[], [OpLockFile]}"
  then have "e \<in> {d, apply_op OpLockFile d}"
    using e by (cases k) (auto simp: after_power_loss_def simp del: apply_op.simps)
  with cur im lock_file_reads [OF _ im] show ?thesis by auto
next
  let ?t = "ImageName BoardE32R28T (po_Version opts)"
  assume a: "po_Board opts = BoardE32R28T" "d ?t = None"
    and p: "published_power enc sha env opts d (snd (Publish enc dec sha io env opts d))"
  then obtain data x where "all_power (served env ?t data (x @ [CHR 0x0A]) (manifest_Validate (new_manifest sha env opts data) = None \<and>
       enc (new_manifest sha env opts data) = Some x) d) (d, [d]) (snd (Publish enc dec sha io env opts d))"
    unfolding published_power_def Let_def by blast
  from all_power_prefix [OF this, of k] e
  have "served env ?t data (x @ [CHR 0x0A]) (manifest_Validate (new_manifest sha env opts data) = None \<and>
       enc (new_manifest sha env opts data) = Some x) d e"
    by (auto simp: power_holds_def after_power_loss_def list_all_iff)
  then show ?thesis by (rule served_reads [OF _ assms(1) a(2) refl a(1) refl cur im])
qed

text \<open>A successful publication ends with a directory sync and the removal of the staging names.\<close>

lemma commit_ok_tail:
  "publish_commit io env target m = (ok m', ops) \<Longrightarrow>
   \<exists>a. ops = a @ [OpSyncDir, OpRemove (manifest_temp env), OpRemove (image_temp env)]"
  by (auto simp: publish_commit_def Let_def split: if_splits)

lemma manifest_ok_tail:
  assumes "publish_manifest enc io env target m = (ok m', ops)"
  shows "\<exists>a. ops = a @ [OpSyncDir, OpRemove (manifest_temp env), OpRemove (image_temp env)]"
proof -
  from assms obtain pre ops' where "publish_commit io env target m = (ok m', ops')" "ops = pre @ ops'"
    unfolding publish_manifest_def Let_def by (auto split: option.splits if_splits prod.splits intro: that [of _ "_ # _ # []"])
  with commit_ok_tail [of io env target m m' ops'] show ?thesis by (metis append.assoc)
qed

lemma image_ok_tail:
  assumes "publish_image enc sha io env opts n bytes = (ok m', ops)"
  shows "\<exists>a. ops = a @ [OpSyncDir, OpRemove (manifest_temp env), OpRemove (image_temp env)]"
proof -
  from assms obtain target m pre ops' where "publish_manifest enc io env target m = (ok m', ops')" "ops = pre @ ops'"
    unfolding publish_image_def Let_def by (auto split: sum.splits if_splits prod.splits intro: that [of _ _ _ "_ # _ # []"])
  with manifest_ok_tail [of enc io env target m m' ops'] show ?thesis by (metis append.assoc)
qed

lemma publish_ok_tail:
  assumes "Publish enc dec sha io env opts d = (ok m', ops)"
  shows "\<exists>a. ops = a @ [OpSyncDir, OpRemove (manifest_temp env), OpRemove (image_temp env)]"
proof -
  from assms obtain v ops' where p: "publish_locked enc dec sha io env opts v (apply_op OpLockFile d) = (ok m', ops')"
    "ops = OpLockFile # ops'" and b: "po_Board opts = BoardE32R28T" "TrimSpace (po_Directory opts) \<noteq> []"
    unfolding Publish_def Let_def by (auto split: if_splits option.splits prod.splits simp del: apply_op.simps)
  from publish_locked_cases [OF b, of enc dec sha io env v "apply_op OpLockFile d"] p(1)
  obtain n bytes where "publish_image enc sha io env opts n bytes = (ok m', ops')" by auto
  from image_ok_tail [OF this] p(2) show ?thesis by (metis append_Cons)
qed

lemma durable_agrees:
  assumes "Publish enc dec sha io env opts d = (ok m, ops)" and "e \<in> set (after_power_loss ops d)" and "n \<notin> staging env"
  shows "e n = run_ops ops d n"
proof -
  from publish_ok_tail [OF assms(1)] obtain a
    where a: "ops = a @ [OpSyncDir, OpRemove (manifest_temp env), OpRemove (image_temp env)]" by blast
  have "n \<noteq> image_temp env" "n \<noteq> manifest_temp env" using assms(3) staging_names(3,4) [of env] by auto
  moreover have "fold power_op (a @ [OpSyncDir]) (d, [d]) = (run_ops a d, [run_ops a d])"
    using visible_power [of a "(d, [d])"] by (cases "fold power_op a (d, [d])") simp
  ultimately show ?thesis using assms(2) by (auto simp: a after_power_loss_def run_ops_def)
qed

section \<open>Windows\<close>

text \<open>
  \<open>atomic_replace_windows.go\<close>: the lock is \<open>LockFileEx\<close> on the same lock file, the replacement is a rename
  as well, and \<open>syncDirectory\<close> does nothing and cannot fail.
\<close>

definition windows_calls :: "syscalls \<Rightarrow> syscalls" where
  "windows_calls io = io(21 := True, 23 := True)"

definition Publish_windows ::
    "(manifest \<Rightarrow> string option) \<Rightarrow> (string \<Rightarrow> manifest option) \<Rightarrow> (string \<Rightarrow> string) \<Rightarrow> syscalls \<Rightarrow> publish_env \<Rightarrow>
     publish_options \<Rightarrow> directory \<Rightarrow> (fw_error, manifest) result \<times> fs_op list" where
  "Publish_windows enc dec sha io env opts d =
     (case Publish enc dec sha (windows_calls io) env opts d of
        (r, ops) \<Rightarrow> (r, filter (\<lambda>f. f \<noteq> OpSyncDir) ops))"

lemma take_filter: "\<exists>j. take k (filter P xs) = filter P (take j xs)"
proof (induction xs arbitrary: k)
  case (Cons x xs)
  show ?case
  proof (cases "P x")
    case True
    show ?thesis
    proof (cases k)
      case 0
      then show ?thesis by (intro exI [of _ 0]) simp
    next
      case (Suc i)
      from Cons.IH [of i] obtain j where "take i (filter P xs) = filter P (take j xs)" by blast
      with Suc True show ?thesis by (intro exI [of _ "Suc j"]) simp
    qed
  next
    case False
    from Cons.IH [of k] obtain j where "take k (filter P xs) = filter P (take j xs)" by blast
    with False show ?thesis by (intro exI [of _ "Suc j"]) simp
  qed
qed simp

lemma run_unsynced: "run_ops (filter (\<lambda>f. f \<noteq> OpSyncDir) ops) d = run_ops ops d"
  by (induction ops arbitrary: d) (auto simp: run_ops_def)

section \<open>Properties\<close>





text \<open>
  On Windows, where nothing flushes a directory, publication is still safe against the death of
  the process: readers find the old or the new version, with its image, at every instant.
\<close>

theorem publish_windows_crash_safe:
  assumes "codec_ok enc dec"
    and "\<And>m. LoadManifest dec calm path d = ok m \<Longrightarrow>
       \<exists>bytes. OpenVerifiedImage dec sha calm calm path (mf_Version m) d = ok (bytes, m)"
    and "LoadManifest dec calm path (run_ops (take k (snd (Publish_windows enc dec sha io env opts d))) d) = ok m"
  shows "(LoadManifest dec calm path d = ok m \<or> mf_Version m = po_Version opts) \<and>
    (\<exists>bytes. OpenVerifiedImage dec sha calm calm path (mf_Version m)
       (run_ops (take k (snd (Publish_windows enc dec sha io env opts d))) d) = ok (bytes, m))"
proof -
  let ?P = "Publish enc dec sha (windows_calls io) env opts d"
  obtain j where j: "run_ops (take k (snd (Publish_windows enc dec sha io env opts d))) d = run_ops (take j (snd ?P)) d"
    using take_filter [of k "\<lambda>f. f \<noteq> OpSyncDir" "snd ?P"] run_unsynced by (auto simp: Publish_windows_def case_prod_unfold)
  from assms(3) j have path: "TrimSpace path \<noteq> []" and cur: "current_manifest dec (run_ops (take j (snd ?P)) d) = Some m"
    using LoadManifest_ok by auto
  note im = verified_matches [OF path assms(2)]
  from publish_prefix_reads [OF assms(1) im cur] show ?thesis
    unfolding j using OpenVerifiedImage_calm [OF path cur] LoadManifest_calm [OF path] by blast
qed

end
