(* ===== verification/Codex_Collect.thy ===== *)
theory Codex_Collect
  imports Codex_Normalize Hook_Events
begin

text \<open>
  \<open>internal/collector/codex.go\<close>, one collection: starting the app-server child, the JSON-RPC
  requests, the classification of authentication errors, and \<open>Collect\<close> with its single forced
  token refresh. The child process is not part of the repository: the record \<open>child\<close> holds its
  observable behaviour as functions over an arbitrary world \<open>'w\<close>, with \<open>json.Unmarshal\<close> into the two
  answer structs. The session keeps a log of what the collector did to the child, which the
  theorems speak about.
\<close>

section \<open>Errors\<close>

record rpc_error =
  re_Code :: int
  re_Message :: string
  re_Data :: "json option"

record rpc_response =
  resp_ID :: int
  resp_Method :: string
  resp_Result :: "json option"
  resp_Error :: "rpc_error option"

text \<open>\<open>Wrapped\<close> is \<open>fmt.Errorf\<close> with \<open>%w\<close>; \<open>errors.As\<close> looks through it.\<close>

datatype codex_error = RpcError rpc_error | Wrapped string codex_error | PlainError string

fun as_rpc_error :: "codex_error \<Rightarrow> rpc_error option" where
  "as_rpc_error (RpcError e) = Some e"
| "as_rpc_error (Wrapped _ e) = as_rpc_error e"
| "as_rpc_error (PlainError _) = None"

definition refreshable_entry :: "string \<Rightarrow> json \<Rightarrow> bool" where
  "refreshable_entry key child =
     (let compactKey = ToLower (filter (\<lambda>c. c \<noteq> CHR ''_'') key) in
      if compactKey \<in> set [''code'', ''errorcode'', ''type''] then
        (case child of
           JString s \<Rightarrow> ToLower (TrimSpace s) \<in> set [''token_expired'', ''refresh_token_expired'',
              ''invalid_token'', ''invalid_grant'']
         | _ \<Rightarrow> False)
      else if compactKey \<in> set [''httpstatus'', ''status'', ''statuscode''] then
        (case child of JNumber n \<Rightarrow> f64_eq n (F64 401) | _ \<Rightarrow> False)
      else False)"

fun codexAuthErrorDataIsRefreshable :: "json \<Rightarrow> bool" where
  "codexAuthErrorDataIsRefreshable (JObject members) =
     list_ex (\<lambda>(key, child). refreshable_entry key child \<or> codexAuthErrorDataIsRefreshable child) members"
| "codexAuthErrorDataIsRefreshable (JArray children) = list_ex codexAuthErrorDataIsRefreshable children"
| "codexAuthErrorDataIsRefreshable (JString s) =
     (contains (ToLower s) ''token_expired'' \<or> contains (ToLower s) ''invalid_grant'')"
| "codexAuthErrorDataIsRefreshable _ = False"

definition isCodexRefreshableAuthError :: "codex_error \<Rightarrow> bool" where
  "isCodexRefreshableAuthError e =
     (case as_rpc_error e of
        None \<Rightarrow> False
      | Some appErr \<Rightarrow>
        (let message = ToLower (re_Message appErr) in
         if contains message ''token_expired'' \<or> contains message ''invalid_grant'' \<or>
            contains message ''refresh token is expired'' \<or>
            (contains message ''401 unauthorized'' \<and> contains message ''expired'')
         then True
         else case re_Data appErr of
                None \<Rightarrow> False
              | Some data \<Rightarrow> codexAuthErrorDataIsRefreshable data))"

section \<open>The child process and the session\<close>

datatype call_answer =
    Answer rpc_response
  | WriteFailed string
  | TimedOut string
  | Disconnected string

record 'w child =
  ch_alive :: "'w \<Rightarrow> bool"
  ch_spawn :: "'w \<Rightarrow> string option \<times> 'w"
  ch_request :: "string \<Rightarrow> bool \<Rightarrow> 'w \<Rightarrow> call_answer \<times> 'w"
  ch_notify :: "string \<Rightarrow> 'w \<Rightarrow> string option \<times> 'w"
  ch_exit :: "'w \<Rightarrow> string option \<times> 'w"
  ch_now :: "'w \<Rightarrow> time"
  ch_account :: "json \<Rightarrow> account_response option"
  ch_limits :: "json \<Rightarrow> rate_limits_response option"

datatype child_event = Spawned | Asked string bool | Notified string | Killed

record 'w session =
  ss_proc :: bool
  ss_log :: "child_event list"
  ss_world :: 'w

definition log_event :: "child_event \<Rightarrow> 'w session \<Rightarrow> 'w session" where
  "log_event e s = s\<lparr>ss_log := ss_log s @ [e]\<rparr>"

definition set_world :: "'w \<Rightarrow> 'w session \<Rightarrow> 'w session" where
  "set_world w s = s\<lparr>ss_world := w\<rparr>"

text \<open>\<open>stopProcess\<close> runs once per process: kill, close \<open>done\<close>, forget the process.\<close>

definition stopProcess :: "'w session \<Rightarrow> 'w session" where
  "stopProcess s = (if ss_proc s then (log_event Killed s)\<lparr>ss_proc := False\<rparr> else s)"

text \<open>
  \<open>callOnProcess\<close>. A write error and a timeout stop the process; a disconnect is seen after
  \<open>readLoop\<close> has stopped it. A null or absent result leaves the zero value in place.
\<close>

definition callOnProcess ::
    "'w child \<Rightarrow> string \<Rightarrow> bool \<Rightarrow> 'w session \<Rightarrow> (codex_error, json option) result \<times> 'w session" where
  "callOnProcess ch meth refresh s =
     (case ch_request ch meth refresh (ss_world s) of
        (answer, w) \<Rightarrow>
          (let s1 = log_event (Asked meth refresh) (set_world w s) in
           case answer of
             WriteFailed e \<Rightarrow> (err (PlainError e), stopProcess s1)
           | TimedOut e \<Rightarrow> (err (Wrapped meth (PlainError e)), stopProcess s1)
           | Disconnected e \<Rightarrow> (err (Wrapped meth (PlainError e)), stopProcess s1)
           | Answer r \<Rightarrow>
               ((case resp_Error r of Some e \<Rightarrow> err (RpcError e) | None \<Rightarrow> ok (resp_Result r)), s1)))"

definition decode_result ::
    "string \<Rightarrow> (json \<Rightarrow> 'a option) \<Rightarrow> 'a \<Rightarrow> (codex_error, json option) result \<Rightarrow> (codex_error, 'a) result" where
  "decode_result meth decode zero r =
     (case r of
        Inl e \<Rightarrow> err e
      | Inr None \<Rightarrow> ok zero
      | Inr (Some j) \<Rightarrow>
          if j = JNull then ok zero
          else (case decode j of Some v \<Rightarrow> ok v
                | None \<Rightarrow> err (PlainError (''decode '' @ meth @ '' response''))))"

definition call ::
    "'w child \<Rightarrow> string \<Rightarrow> bool \<Rightarrow> (json \<Rightarrow> 'a option) \<Rightarrow> 'a \<Rightarrow> 'w session \<Rightarrow>
     (codex_error, 'a) result \<times> 'w session" where
  "call ch meth refresh decode zero s =
     (if \<not> ss_proc s then (err (PlainError ''codex app-server is not running''), s)
      else case callOnProcess ch meth refresh s of
             (r, s1) \<Rightarrow> (decode_result meth decode zero r, s1))"

definition ensureStarted :: "'w child \<Rightarrow> 'w session \<Rightarrow> codex_error option \<times> 'w session" where
  "ensureStarted ch s =
     (if ss_proc s \<and> ch_alive ch (ss_world s) then (None, s)
      else case ch_spawn ch (ss_world s) of
        (Some e, w) \<Rightarrow> (Some (PlainError e), set_world w s)
      | (None, w) \<Rightarrow>
        (case callOnProcess ch ''initialize'' False ((log_event Spawned (set_world w s))\<lparr>ss_proc := True\<rparr>) of
           (Inl e, s1) \<Rightarrow> (Some (Wrapped ''initialize codex app-server'' e), stopProcess s1)
         | (Inr _, s1) \<Rightarrow>
           (case ch_notify ch ''initialized'' (ss_world s1) of
              (Some e, w1) \<Rightarrow> (Some (Wrapped ''notify codex initialized'' (PlainError e)),
                 stopProcess (log_event (Notified ''initialized'') (set_world w1 s1)))
            | (None, w1) \<Rightarrow> (None, log_event (Notified ''initialized'') (set_world w1 s1)))))"

definition resetCurrentProcessAndWait :: "'w child \<Rightarrow> 'w session \<Rightarrow> codex_error option \<times> 'w session" where
  "resetCurrentProcessAndWait ch s =
     (if \<not> ss_proc s then (None, s)
      else case ch_exit ch (ss_world s) of
        (None, w) \<Rightarrow> (None, set_world w (stopProcess s))
      | (Some e, w) \<Rightarrow> (Some (Wrapped ''wait for codex app-server exit'' (PlainError e)),
           set_world w (stopProcess s)))"

definition codex_Close :: "'w session \<Rightarrow> 'w session" where
  "codex_Close s = (if ss_proc s then stopProcess s else s)"

text \<open>Releasing idle resources waits for the child's exit without a deadline.\<close>

definition ReleaseIdleResources :: "'w child \<Rightarrow> 'w session \<Rightarrow> 'w session" where
  "ReleaseIdleResources ch s =
     (if \<not> ss_proc s then s else set_world (snd (ch_exit ch (ss_world s))) (stopProcess s))"

section \<open>Collection\<close>

definition zero_account :: account_response where
  "zero_account = \<lparr>Account = None, RequiresOpenAIAuth = False\<rparr>"

definition zero_limits :: rate_limits_response where
  "zero_limits = \<lparr>RateLimits = \<lparr>rs_LimitID = None, rs_PlanType = None, rs_Primary = None,
     rs_Secondary = None\<rparr>, RateLimitsByLimitID = []\<rparr>"

abbreviation codex_unavailable :: "'w child \<Rightarrow> string \<Rightarrow> 'w session \<Rightarrow> provider_report" where
  "codex_unavailable ch code s \<equiv> unavailableReport ''codex-app-server'' code (ch_now ch (ss_world s))"

definition collectAttempt ::
    "'w child \<Rightarrow> bool \<Rightarrow> 'w session \<Rightarrow> (provider_report \<times> codex_error option) \<times> 'w session" where
  "collectAttempt ch refreshToken s =
     (case ensureStarted ch s of
        (Some e, s1) \<Rightarrow> ((codex_unavailable ch ''start_failed'' s1, Some e), s1)
      | (None, s1) \<Rightarrow>
        (case call ch ''account/read'' refreshToken (ch_account ch) zero_account s1 of
           (Inl e, s2) \<Rightarrow> ((codex_unavailable ch ''account_read_failed'' s2, Some e), s2)
         | (Inr account, s2) \<Rightarrow>
           if Account account = None \<and> RequiresOpenAIAuth account then
             (case resetCurrentProcessAndWait ch s2 of
                (Some e, s3) \<Rightarrow> ((codex_unavailable ch ''account_read_failed'' s3, Some e), s3)
              | (None, s3) \<Rightarrow> ((codexLoginRequiredReport (ch_now ch (ss_world s3)), None), s3))
           else
             (case call ch ''account/rateLimits/read'' False (ch_limits ch) zero_limits s2 of
                (Inl e, s3) \<Rightarrow> ((codex_unavailable ch ''rate_limits_read_failed'' s3, Some e), s3)
              | (Inr limits, s3) \<Rightarrow>
                  ((normalizeCodex account limits (ch_now ch (ss_world s3)), None), s3))))"

definition codex_retry ::
    "'w child \<Rightarrow> 'w session \<Rightarrow> (provider_report \<times> codex_error option) \<times> 'w session" where
  "codex_retry ch s =
     (case collectAttempt ch True s of
        ((report, None), s1) \<Rightarrow> ((report, None), s1)
      | ((report, Some e), s1) \<Rightarrow>
        (case resetCurrentProcessAndWait ch s1 of
           (Some resetErr, s2) \<Rightarrow> ((report, Some resetErr), s2)
         | (None, s2) \<Rightarrow>
             if isCodexRefreshableAuthError e
             then ((codexLoginRequiredReport (ch_now ch (ss_world s2)), None), s2)
             else ((report, Some e), s2)))"

definition codex_Collect ::
    "'w child \<Rightarrow> 'w session \<Rightarrow> (provider_report \<times> codex_error option) \<times> 'w session" where
  "codex_Collect ch s =
     (case collectAttempt ch False s of
        ((report, None), s1) \<Rightarrow> ((report, None), s1)
      | ((report, Some e), s1) \<Rightarrow>
        (case resetCurrentProcessAndWait ch s1 of
           (Some resetErr, s2) \<Rightarrow> ((report, Some resetErr), s2)
         | (None, s2) \<Rightarrow>
             if \<not> isCodexRefreshableAuthError e then ((report, Some e), s2)
             else codex_retry ch s2))"

section \<open>What one operation does to the child\<close>

text \<open>The number of times the collector has forced a token refresh.\<close>

definition forced :: "'w session \<Rightarrow> nat" where
  "forced s = count_list (ss_log s) (Asked ''account/read'' True)"

lemma session_frame [simp]:
  "ss_proc (log_event e s) = ss_proc s" "ss_proc (set_world w s) = ss_proc s"
  "forced (set_world w s) = forced s" "forced (s\<lparr>ss_proc := b\<rparr>) = forced s"
  "forced (log_event e s) = forced s + (if e = Asked ''account/read'' True then 1 else 0)"
  by (simp_all add: log_event_def set_world_def forced_def)

lemma stopProcess_simps [simp]: "\<not> ss_proc (stopProcess s)" "forced (stopProcess s) = forced s"
  by (simp_all add: stopProcess_def)

lemma callOnProcess_forced:
  assumes "callOnProcess ch meth refresh s = (r, s')"
  shows "forced s' = forced s + (if meth = ''account/read'' \<and> refresh then 1 else 0)"
  using assms
  by (auto simp: callOnProcess_def Let_def split: prod.splits call_answer.splits)

lemma call_forced:
  assumes "call ch meth refresh decode zero s = (r, s')"
  shows "forced s' \<le> forced s + (if meth = ''account/read'' \<and> refresh then 1 else 0)"
  using assms callOnProcess_forced [of ch meth refresh s]
  by (fastforce simp: call_def split: prod.splits if_splits)

lemma call_forced_other:
  "call ch meth refresh decode zero s = (r, s') \<Longrightarrow> \<not> refresh \<Longrightarrow> forced s' = forced s"
  using callOnProcess_forced [of ch meth refresh s]
  by (fastforce simp: call_def split: prod.splits if_splits)

lemma ensureStarted_forced:
  assumes "ensureStarted ch s = (e, s')"
  shows "forced s' = forced s"
proof (cases "ss_proc s \<and> ch_alive ch (ss_world s)")
  case True
  then show ?thesis using assms by (simp add: ensureStarted_def)
next
  case False
  obtain o1 w where sp: "ch_spawn ch (ss_world s) = (o1, w)" by (cases "ch_spawn ch (ss_world s)")
  let ?t = "(log_event Spawned (set_world w s))\<lparr>ss_proc := True\<rparr>"
  obtain r s1 where c: "callOnProcess ch ''initialize'' False ?t = (r, s1)"
    by (cases "callOnProcess ch ''initialize'' False ?t")
  have "forced s1 = forced s" using callOnProcess_forced [OF c] by simp
  then show ?thesis
    using assms False sp c
    by (auto simp: ensureStarted_def split: option.splits sum.splits prod.splits)
qed

lemma reset_stops:
  "resetCurrentProcessAndWait ch s = (e, s') \<Longrightarrow> \<not> ss_proc s' \<and> forced s' = forced s"
  by (auto simp: resetCurrentProcessAndWait_def split: if_splits prod.splits option.splits)

text \<open>
  Closing and releasing leave no child, so the next collection starts a new one; doing it again
  changes nothing.
\<close>

lemma release_stops:
  "\<not> ss_proc (codex_Close s)" "\<not> ss_proc (ReleaseIdleResources ch s)"
  "codex_Close (codex_Close s) = codex_Close s"
  "ReleaseIdleResources ch (ReleaseIdleResources ch s) = ReleaseIdleResources ch s"
  by (simp_all add: codex_Close_def ReleaseIdleResources_def)

section \<open>What an attempt can return\<close>

text \<open>
  The three outcomes of an attempt: an error, the login-required report with the child stopped,
  or the normalisation of two decoded answers of a session that is logged in.
\<close>

definition attempt_result :: "provider_report \<Rightarrow> codex_error option \<Rightarrow> 'w session \<Rightarrow> bool" where
  "attempt_result r e s =
     (e \<noteq> None \<or> (\<exists>t. r = codexLoginRequiredReport t \<and> \<not> ss_proc s) \<or>
      (\<exists>account limits t. \<not> (Account account = None \<and> RequiresOpenAIAuth account) \<and>
         r = normalizeCodex account limits t))"

lemma attempt_resultI:
  "attempt_result r (Some x) s"
  "\<not> ss_proc s \<Longrightarrow> attempt_result (codexLoginRequiredReport t) None s"
  "\<not> (Account account = None \<and> RequiresOpenAIAuth account) \<Longrightarrow>
     attempt_result (normalizeCodex account limits t) None s"
  unfolding attempt_result_def by blast+

definition forced_bounds :: "bool \<Rightarrow> 'w session \<Rightarrow> 'w session \<Rightarrow> bool" where
  "forced_bounds refresh s s' =
     (forced s \<le> forced s' \<and> forced s' \<le> forced s + (if refresh then 1 else 0))"

lemma account_call_bounds:
  "call ch meth refresh decode zero s = (r, s') \<Longrightarrow> forced_bounds refresh s s'"
  using callOnProcess_forced [of ch meth refresh s]
  by (fastforce simp: call_def forced_bounds_def split: prod.splits if_splits)

lemma collectAttempt_spec:
  assumes "collectAttempt ch refresh s = ((r, e), s')"
  shows "attempt_result r e s' \<and> forced_bounds refresh s s'"
proof -
  obtain e1 s1 where st: "ensureStarted ch s = (e1, s1)" by (cases "ensureStarted ch s")
  obtain a s2 where ac: "call ch ''account/read'' refresh (ch_account ch) zero_account s1 = (a, s2)"
    by (cases "call ch ''account/read'' refresh (ch_account ch) zero_account s1")
  obtain e3 s3 where re: "resetCurrentProcessAndWait ch s2 = (e3, s3)"
    by (cases "resetCurrentProcessAndWait ch s2")
  obtain l s4 where li: "call ch ''account/rateLimits/read'' False (ch_limits ch) zero_limits s2 = (l, s4)"
    by (cases "call ch ''account/rateLimits/read'' False (ch_limits ch) zero_limits s2")
  note def = collectAttempt_def st ac re li option.case sum.case prod.case
  have b1: "forced_bounds refresh s s1"
    using ensureStarted_forced [OF st] by (simp add: forced_bounds_def)
  have b2: "forced_bounds refresh s s2"
    using ensureStarted_forced [OF st] account_call_bounds [OF ac] by (simp add: forced_bounds_def)
  have b3: "forced_bounds refresh s s3" and stopped: "\<not> ss_proc s3"
    using b2 reset_stops [OF re] by (simp_all add: forced_bounds_def)
  have b4: "forced_bounds refresh s s4"
    using b2 call_forced_other [OF li] by (simp add: forced_bounds_def)
  show ?thesis
  proof (cases "e1 = None \<and> is_ok a")
    case False
    then show ?thesis
      using assms b1 b2 attempt_resultI(1) by (cases e1; cases a) (auto simp: def)
  next
    case True
    then obtain account where ok: "e1 = None" "a = Inr account" by (cases a) auto
    show ?thesis
    proof (cases "Account account = None \<and> RequiresOpenAIAuth account")
      case True
      then show ?thesis
        using assms b3 stopped attempt_resultI(1,2) by (cases e3) (auto simp: def ok)
    next
      case False
      then show ?thesis
        using assms b4 attempt_resultI(1) attempt_resultI(3) [OF False] by (cases l) (auto simp: def ok)
    qed
  qed
qed

lemma codex_retry_spec:
  assumes "codex_retry ch s = ((r, e), s')"
  shows "attempt_result r e s' \<and> forced_bounds True s s' \<and> (e \<noteq> None \<longrightarrow> \<not> ss_proc s')"
proof -
  obtain r1 e1 s1 where at: "collectAttempt ch True s = ((r1, e1), s1)"
    by (metis prod.exhaust)
  obtain e2 s2 where re: "resetCurrentProcessAndWait ch s1 = (e2, s2)"
    by (cases "resetCurrentProcessAndWait ch s1")
  have b: "forced_bounds True s s2" "\<not> ss_proc s2"
    using collectAttempt_spec [OF at] reset_stops [OF re] by (simp_all add: forced_bounds_def)
  show ?thesis
    using assms collectAttempt_spec [OF at] b attempt_resultI
    by (auto simp: codex_retry_def at re split: option.splits if_splits)
qed

text \<open>Every way \<open>Collect\<close> can go: it succeeds at once, fails at once, or retries with a refresh.\<close>

lemma codex_Collect_cases:
  assumes "codex_Collect ch s = ((r, e), s')"
  obtains (first) "e = None" "attempt_result r None s'" "forced s' = forced s"
  | (failed) x where "e = Some x" "\<not> ss_proc s'" "forced s' = forced s"
  | (retry) r1 x s1 s2 where "collectAttempt ch False s = ((r1, Some x), s1)"
      "isCodexRefreshableAuthError x" "resetCurrentProcessAndWait ch s1 = (None, s2)"
      "codex_retry ch s2 = ((r, e), s')" "forced s2 = forced s"
proof -
  obtain r1 e1 s1 where at: "collectAttempt ch False s = ((r1, e1), s1)" by (metis prod.exhaust)
  obtain e2 s2 where re: "resetCurrentProcessAndWait ch s1 = (e2, s2)"
    by (cases "resetCurrentProcessAndWait ch s1")
  have f: "forced s1 = forced s" "attempt_result r1 e1 s1" "forced s2 = forced s" "\<not> ss_proc s2"
    using collectAttempt_spec [OF at] reset_stops [OF re] by (auto simp: forced_bounds_def)
  show thesis
  proof (cases e1)
    case None
    then show thesis using assms f first by (simp add: codex_Collect_def at)
  next
    case (Some x)
    show thesis
    proof (cases "e2 = None \<and> isCodexRefreshableAuthError x")
      case True
      then show thesis using assms f retry [OF at [unfolded Some]] re
        by (simp add: codex_Collect_def at Some)
    next
      case False
      then show thesis using assms f failed
        by (auto simp: codex_Collect_def at re Some split: option.splits if_splits)
    qed
  qed
qed

section \<open>Properties\<close>

text \<open>
  C33: Codex credentials are refreshed at most once per collection. One \<open>Collect\<close> sends at most one
  \<open>account/read\<close> that forces a token refresh, whatever the app-server answers, and sends one only
  after an attempt without it failed with an error that says the token has expired.
\<close>

theorem codex_refresh_at_most_once:
  assumes "codex_Collect ch s = ((r, e), s')"
  shows "forced s' = forced s \<or>
    (forced s' = forced s + 1 \<and>
     (\<exists>x. snd (fst (collectAttempt ch False s)) = Some x \<and> isCodexRefreshableAuthError x))"
  using assms
proof (cases rule: codex_Collect_cases)
  case (retry r1 x s1 s2)
  have "forced_bounds True s2 s'" using codex_retry_spec [OF retry(4)] by simp
  then have "forced s' = forced s \<or> forced s' = forced s + 1"
    using retry(5) by (auto simp: forced_bounds_def)
  then show ?thesis using retry(1,2) by auto
qed simp_all

definition demo_answer :: "json option \<Rightarrow> rpc_error option \<Rightarrow> call_answer" where
  "demo_answer res e = Answer \<lparr>resp_ID = 1, resp_Method = [], resp_Result = res, resp_Error = e\<rparr>"

definition demo_expired :: rpc_error where
  "demo_expired = \<lparr>re_Code = 1, re_Message = ''auth failed'',
     re_Data = Some (JObject [(''error'', JObject [(''http_status'', JNumber (F64 401))])])\<rparr>"

text \<open>A child that answers only after a forced refresh, and one whose refresh fails as well.\<close>

definition demo_child :: "bool \<Rightarrow> unit child" where
  "demo_child recovers =
     \<lparr>ch_alive = (\<lambda>_. True), ch_spawn = (\<lambda>w. (None, w)),
      ch_request = (\<lambda>meth refresh w.
        (if meth = ''account/read'' \<and> \<not> (refresh \<and> recovers) then demo_answer None (Some demo_expired)
         else demo_answer (Some (JObject [])) None, w)),
      ch_notify = (\<lambda>_ w. (None, w)), ch_exit = (\<lambda>w. (None, w)), ch_now = (\<lambda>_. 9),
      ch_account = (\<lambda>_. Some demo_account), ch_limits = (\<lambda>_. Some demo_limits)\<rparr>"

definition demo_session :: "unit session" where
  "demo_session = \<lparr>ss_proc = False, ss_log = [], ss_world = ()\<rparr>"

lemma demo_expired_refreshable: "isCodexRefreshableAuthError (RpcError demo_expired)"
  by code_simp

lemmas demo_child_eval = codex_Collect_def codex_retry_def collectAttempt_def ensureStarted_def
  callOnProcess_def resetCurrentProcessAndWait_def call_def decode_result_def demo_child_def
  demo_session_def demo_answer_def log_event_def set_world_def stopProcess_def
  demo_expired_refreshable

lemma demo_recovers:
  "codex_Collect (demo_child True) demo_session =
     ((normalizeCodex demo_account demo_limits 9, None),
      \<lparr>ss_proc = True, ss_log = [Spawned, Asked ''initialize'' False, Notified ''initialized'',
         Asked ''account/read'' False, Killed, Spawned, Asked ''initialize'' False,
         Notified ''initialized'', Asked ''account/read'' True, Asked ''account/rateLimits/read'' False],
       ss_world = ()\<rparr>)"
  by (simp add: demo_child_eval demo_account_def)

lemma demo_login_required:
  "codex_Collect (demo_child False) demo_session =
     ((codexLoginRequiredReport 9, None),
      \<lparr>ss_proc = False, ss_log = [Spawned, Asked ''initialize'' False, Notified ''initialized'',
         Asked ''account/read'' False, Killed, Spawned, Asked ''initialize'' False,
         Notified ''initialized'', Asked ''account/read'' True, Killed],
       ss_world = ()\<rparr>)"
  by (simp add: demo_child_eval demo_account_def)

theorem codex_refresh_at_most_once_witness:
  "forced (snd (codex_Collect (demo_child True) demo_session)) = 1 \<and>
   (\<exists>x. snd (fst (collectAttempt (demo_child True) False demo_session)) = Some x \<and>
      isCodexRefreshableAuthError x)"
proof -
  have "forced (snd (codex_Collect (demo_child True) demo_session)) = 1"
    by (simp add: demo_recovers forced_def)
  moreover have "forced demo_session = 0" by (simp add: forced_def demo_session_def)
  ultimately show ?thesis
    using codex_refresh_at_most_once [OF demo_recovers] by (simp add: demo_recovers)
qed

text \<open>
  A failed Codex collection leaves no half-used child behind, and a success means what it says.
  After an error or a login-required answer the app-server child has been stopped, so the next
  collection starts a fresh one. A collection without error returns either the login-required
  report, which has no windows, or the normalised answers of an account that is logged in, and
  then its authentication state is never \<open>unauthenticated\<close>.
\<close>

theorem codex_failure_releases_child:
  assumes "codex_Collect ch s = ((r, e), s')"
  shows "(e \<noteq> None \<or> AuthState r = ''unauthenticated'' \<longrightarrow> \<not> ss_proc s') \<and>
    (e = None \<longrightarrow> (\<exists>t. r = codexLoginRequiredReport t) \<or>
       (\<exists>account limits t. r = normalizeCodex account limits t \<and> AuthState r \<noteq> ''unauthenticated''))"
proof -
  have auth: "AuthState (normalizeCodex account limits t) \<noteq> ''unauthenticated''"
    if "\<not> (Account account = None \<and> RequiresOpenAIAuth account)" for account limits t
    using that by (auto simp: normalizeCodex_def codex_auth_state_def)
  have "attempt_result r e s' \<and> (e \<noteq> None \<longrightarrow> \<not> ss_proc s')"
    using assms
  proof (cases rule: codex_Collect_cases)
    case (retry r1 x s1 s2)
    then show ?thesis using codex_retry_spec [OF retry(4)] by simp
  qed (simp_all add: attempt_resultI)
  then show ?thesis unfolding attempt_result_def using auth by auto
qed

theorem codex_failure_releases_child_witness:
  "fst (fst (codex_Collect (demo_child False) demo_session)) = codexLoginRequiredReport 9 \<and>
   \<not> ss_proc (snd (codex_Collect (demo_child False) demo_session)) \<and>
   ss_proc (snd (codex_Collect (demo_child True) demo_session))"
  using codex_failure_releases_child [OF demo_login_required]
  by (simp add: demo_login_required demo_recovers codexLoginRequiredReport_def)

end
