(* ===== verification/Codex_RPC.thy ===== *)
theory Codex_RPC
  imports Codex_Collect
begin

text \<open>
  \<open>internal/collector/codex.go\<close>, the concurrency of one \<open>CodexCollector\<close>: callers that register a
  response channel under a fresh request id, the read loop of each child process that takes the
  channel out of the pending map and sends to it, timeouts, and \<open>stopProcess\<close>. The steps are the
  critical sections of \<open>c.mu\<close> and the channel operations, interleaved arbitrarily; a failed write
  gives a request up the way a timeout does. A channel is
  named by the id of the request it was made for; request ids are unbounded (the code's \<open>int64\<close>
  counter would need \<open>2^63\<close> requests to wrap).
\<close>

section \<open>State and operations\<close>

datatype call_state = Waiting nat | Answered rpc_response | GaveUp

record rpc_state =
  rp_proc :: "nat option"
  rp_spawned :: nat
  rp_done :: "nat \<Rightarrow> bool"
  rp_cleared :: "nat \<Rightarrow> bool"
  rp_pending :: "(int, int) gomap"
  rp_nextID :: int
  rp_chan :: "int \<Rightarrow> rpc_response list"
  rp_reader :: "nat \<Rightarrow> (int \<times> rpc_response) option"
  rp_call :: "int \<Rightarrow> call_state option"

definition rpc_init :: rpc_state where
  "rpc_init = \<lparr>rp_proc = None, rp_spawned = 0, rp_done = (\<lambda>_. False), rp_cleared = (\<lambda>_. False),
     rp_pending = [], rp_nextID = 0, rp_chan = (\<lambda>_. []), rp_reader = (\<lambda>_. None), rp_call = (\<lambda>_. None)\<rparr>"

text \<open>\<open>ensureStarted\<close>: a process that is current and not done is kept, otherwise a new one starts.\<close>

definition may_start :: "rpc_state \<Rightarrow> bool" where
  "may_start s = (case rp_proc s of None \<Rightarrow> True | Some p \<Rightarrow> rp_done s p)"

definition start_process :: "rpc_state \<Rightarrow> rpc_state" where
  "start_process s = s\<lparr>rp_proc := Some (rp_spawned s), rp_spawned := Suc (rp_spawned s)\<rparr>"

definition begin_call :: "nat \<Rightarrow> rpc_state \<Rightarrow> rpc_state" where
  "begin_call p s =
     (let i = rp_nextID s + 1 in
      s\<lparr>rp_nextID := i, rp_pending := gomap_put i i (rp_pending s),
        rp_call := (rp_call s)(i := Some (Waiting p))\<rparr>)"

definition removePending :: "int \<Rightarrow> rpc_state \<Rightarrow> rpc_state" where
  "removePending i s = s\<lparr>rp_pending := gomap_del i (rp_pending s)\<rparr>"

definition give_up :: "int \<Rightarrow> rpc_state \<Rightarrow> rpc_state" where
  "give_up i s = (removePending i s)\<lparr>rp_call := (rp_call s)(i := Some GaveUp)\<rparr>"

definition receive :: "int \<Rightarrow> rpc_response \<Rightarrow> rpc_state \<Rightarrow> rpc_state" where
  "receive i r s =
     s\<lparr>rp_call := (rp_call s)(i := Some (Answered r)), rp_chan := (rp_chan s)(i := tl (rp_chan s i))\<rparr>"

text \<open>The body of \<open>readLoop\<close>: notifications are skipped, the entry is taken out under the lock.\<close>

definition take_response :: "nat \<Rightarrow> rpc_response \<Rightarrow> rpc_state \<Rightarrow> rpc_state" where
  "take_response p r s =
     (if resp_ID r = 0 \<or> resp_Method r \<noteq> [] then s
      else case gomap_get (rp_pending s) (resp_ID r) of
             None \<Rightarrow> s
           | Some ch \<Rightarrow> (removePending (resp_ID r) s)\<lparr>rp_reader := (rp_reader s)(p := Some (ch, r))\<rparr>)"

text \<open>A send on a channel of capacity one proceeds while its buffer is empty.\<close>

definition may_send :: "int \<Rightarrow> rpc_state \<Rightarrow> bool" where
  "may_send ch s = (length (rp_chan s ch) < 1)"

definition send_response :: "nat \<Rightarrow> int \<Rightarrow> rpc_response \<Rightarrow> rpc_state \<Rightarrow> rpc_state" where
  "send_response p ch r s =
     s\<lparr>rp_chan := (rp_chan s)(ch := rp_chan s ch @ [r]), rp_reader := (rp_reader s)(p := None)\<rparr>"

text \<open>\<open>stopProcess\<close> in its two halves: closing \<open>done\<close>, then the critical section.\<close>

definition begin_stop :: "nat \<Rightarrow> rpc_state \<Rightarrow> rpc_state" where
  "begin_stop p s = s\<lparr>rp_done := (rp_done s)(p := True)\<rparr>"

definition finish_stop :: "nat \<Rightarrow> rpc_state \<Rightarrow> rpc_state" where
  "finish_stop p s =
     s\<lparr>rp_proc := (if rp_proc s = Some p then None else rp_proc s), rp_pending := [],
       rp_cleared := (rp_cleared s)(p := True)\<rparr>"

inductive rpc_step :: "rpc_state \<Rightarrow> rpc_state \<Rightarrow> bool" where
  start: "may_start s \<Longrightarrow> rpc_step s (start_process s)"
| call: "p < rp_spawned s \<Longrightarrow> rpc_step s (begin_call p s)"
| received: "rp_call s i = Some (Waiting p) \<Longrightarrow> rp_chan s i = r # rs \<Longrightarrow> rpc_step s (receive i r s)"
| timeout: "rp_call s i = Some (Waiting p) \<Longrightarrow> rpc_step s (give_up i s)"
| disconnected: "rp_call s i = Some (Waiting p) \<Longrightarrow> rp_done s p \<Longrightarrow> rpc_step s (give_up i s)"
| read: "p < rp_spawned s \<Longrightarrow> rp_reader s p = None \<Longrightarrow> rpc_step s (take_response p r s)"
| send: "rp_reader s p = Some (ch, r) \<Longrightarrow> may_send ch s \<Longrightarrow> rpc_step s (send_response p ch r s)"
| stopping: "p < rp_spawned s \<Longrightarrow> \<not> rp_done s p \<Longrightarrow> rpc_step s (begin_stop p s)"
| stopped: "rp_done s p \<Longrightarrow> \<not> rp_cleared s p \<Longrightarrow> rpc_step s (finish_stop p s)"

inductive rpc_reachable :: "rpc_state \<Rightarrow> bool" where
  init: "rpc_reachable rpc_init"
| step: "rpc_reachable s \<Longrightarrow> rpc_step s s' \<Longrightarrow> rpc_reachable s'"

inductive_cases rpc_stepE: "rpc_step s s'"

section \<open>The invariant: one ticket per request\<close>

definition is_pending :: "rpc_state \<Rightarrow> int \<Rightarrow> bool" where
  "is_pending s i = (gomap_get (rp_pending s) i \<noteq> None)"

definition is_held :: "rpc_state \<Rightarrow> nat \<Rightarrow> int \<Rightarrow> bool" where
  "is_held s p i = (\<exists>r. rp_reader s p = Some (i, r))"

definition is_answered :: "rpc_state \<Rightarrow> int \<Rightarrow> bool" where
  "is_answered s i = (\<exists>r. rp_call s i = Some (Answered r))"

text \<open>
  A request's ticket is in at most one place: the pending map, one read loop, the channel, or
  with the caller.
\<close>

definition ticket_ok :: "rpc_state \<Rightarrow> int \<Rightarrow> bool" where
  "ticket_ok s i =
     ((is_pending s i \<longrightarrow> (\<forall>p. \<not> is_held s p i) \<and> rp_chan s i = [] \<and> \<not> is_answered s i) \<and>
      (\<forall>p. is_held s p i \<longrightarrow> (\<forall>q. is_held s q i \<longrightarrow> q = p) \<and> rp_chan s i = [] \<and> \<not> is_answered s i) \<and>
      (rp_chan s i \<noteq> [] \<longrightarrow> length (rp_chan s i) = 1 \<and> \<not> is_answered s i))"

definition fresh_ok :: "rpc_state \<Rightarrow> int \<Rightarrow> bool" where
  "fresh_ok s i = (rp_nextID s < i \<longrightarrow>
     \<not> is_pending s i \<and> (\<forall>p. \<not> is_held s p i) \<and> rp_chan s i = [] \<and> rp_call s i = None)"

text \<open>What travels under an id belongs to that id.\<close>

definition routed_ok :: "rpc_state \<Rightarrow> bool" where
  "routed_ok s =
     ((\<forall>i ch. gomap_get (rp_pending s) i = Some ch \<longrightarrow> ch = i) \<and>
      (\<forall>p ch r. rp_reader s p = Some (ch, r) \<longrightarrow> resp_ID r = ch) \<and>
      (\<forall>i. \<forall>r\<in>set (rp_chan s i). resp_ID r = i) \<and>
      (\<forall>i r. rp_call s i = Some (Answered r) \<longrightarrow> resp_ID r = i))"

definition rpc_inv :: "rpc_state \<Rightarrow> bool" where
  "rpc_inv s = (gomap_wf (rp_pending s) \<and> (\<forall>i. ticket_ok s i) \<and> (\<forall>i. fresh_ok s i) \<and> routed_ok s)"

lemmas rpc_op_defs = start_process_def begin_call_def give_up_def removePending_def receive_def
  send_response_def begin_stop_def finish_stop_def Let_def

lemmas rpc_place_defs = is_pending_def is_held_def is_answered_def

lemma rpc_inv_init: "rpc_inv rpc_init"
  by (simp add: rpc_inv_def rpc_init_def ticket_ok_def fresh_ok_def routed_ok_def rpc_place_defs
      gomap_wfs gomap_gets)

lemma rpc_inv_cong:
  assumes "rp_pending s' = rp_pending s" "rp_reader s' = rp_reader s" "rp_chan s' = rp_chan s"
    "rp_call s' = rp_call s" "rp_nextID s' = rp_nextID s"
  shows "rpc_inv s' = rpc_inv s"
  using assms
  by (simp add: rpc_inv_def ticket_ok_def fresh_ok_def routed_ok_def rpc_place_defs)

lemma rpc_invD:
  assumes "rpc_inv s"
  shows "gomap_wf (rp_pending s)" "ticket_ok s i" "fresh_ok s i" "routed_ok s"
  using assms by (simp_all add: rpc_inv_def)

lemma rpc_inv_begin_call:
  assumes "rpc_inv s"
  shows "rpc_inv (begin_call p s)"
proof -
  let ?i = "rp_nextID s + 1" and ?s = "begin_call p s"
  have fresh: "\<not> is_pending s ?i" "\<not> is_held s q ?i" "rp_chan s ?i = []" "rp_call s ?i = None"
    "\<not> is_answered s ?i" for q
    using rpc_invD(3) [OF assms, of ?i] by (auto simp: fresh_ok_def is_answered_def)
  have places: "is_pending ?s i = (i = ?i \<or> is_pending s i)" "is_held ?s q i = is_held s q i"
    "rp_chan ?s i = rp_chan s i" "is_answered ?s i = is_answered s i" for i q
    using fresh by (auto simp: rpc_op_defs rpc_place_defs gomap_gets)
  have "ticket_ok ?s i" for i
    using rpc_invD(2) [OF assms, of i] fresh by (cases "i = ?i") (auto simp: ticket_ok_def places)
  moreover have "fresh_ok ?s i" for i
  proof -
    have "rp_call ?s i = rp_call s i" if "i \<noteq> ?i" using that by (simp add: begin_call_def Let_def)
    moreover have "rp_nextID ?s = ?i" by (simp add: begin_call_def Let_def)
    moreover have "fresh_ok s i" using assms by (simp add: rpc_inv_def)
    ultimately show ?thesis by (auto simp: fresh_ok_def places)
  qed
  moreover have "routed_ok ?s"
    using assms by (auto simp: rpc_inv_def routed_ok_def begin_call_def Let_def gomap_gets)
  moreover have "gomap_wf (rp_pending ?s)"
    using assms by (simp add: rpc_inv_def begin_call_def Let_def gomap_wfs)
  ultimately show ?thesis by (simp add: rpc_inv_def)
qed

lemma rpc_inv_removePending:
  assumes "rpc_inv s"
  shows "rpc_inv (removePending i s) \<and> \<not> is_pending (removePending i s) i"
proof -
  let ?s = "removePending i s"
  have wf: "gomap_wf (rp_pending s)" using assms by (simp add: rpc_inv_def)
  have places: "is_pending ?s j = (j \<noteq> i \<and> is_pending s j)" "is_held ?s q j = is_held s q j"
    "rp_chan ?s j = rp_chan s j" "is_answered ?s j = is_answered s j" "rp_call ?s j = rp_call s j"
    "rp_nextID ?s = rp_nextID s" for j q
    using wf by (auto simp: removePending_def rpc_place_defs gomap_gets)
  have "routed_ok ?s"
    using assms wf by (auto simp: rpc_inv_def routed_ok_def removePending_def gomap_gets)
  moreover have "gomap_wf (rp_pending ?s)" using wf by (simp add: removePending_def gomap_wfs)
  moreover have "ticket_ok ?s j" for j
    using rpc_invD(2) [OF assms, of j] by (auto simp: ticket_ok_def places)
  moreover have "fresh_ok ?s j" for j
    using rpc_invD(3) [OF assms, of j] by (auto simp: fresh_ok_def places)
  ultimately show ?thesis by (simp add: rpc_inv_def places)
qed

lemma rpc_inv_give_up:
  assumes "rpc_inv s" and "rp_call s i = Some (Waiting p)"
  shows "rpc_inv (give_up i s)"
proof -
  let ?t = "removePending i s" and ?s = "give_up i s"
  have t: "rpc_inv ?t" using rpc_inv_removePending [OF assms(1)] by simp
  have places: "is_pending ?s j = is_pending ?t j" "is_held ?s q j = is_held ?t q j"
    "rp_chan ?s j = rp_chan ?t j" "is_answered ?s j = is_answered ?t j" "rp_nextID ?s = rp_nextID ?t"
    "rp_pending ?s = rp_pending ?t" "rp_reader ?s = rp_reader ?t" for j q
    using assms(2) by (auto simp: rpc_op_defs rpc_place_defs)
  have known: "i \<le> rp_nextID s"
    using rpc_invD(3) [OF assms(1), of i] assms(2) by (auto simp: fresh_ok_def not_less [symmetric])
  have "fresh_ok ?s j" for j
    using t known unfolding rpc_inv_def fresh_ok_def places
    by (auto simp: give_up_def removePending_def)
  moreover have "routed_ok ?s"
    using t by (auto simp: rpc_inv_def routed_ok_def rpc_op_defs)
  ultimately show ?thesis using t by (simp add: rpc_inv_def ticket_ok_def places)
qed

lemma rpc_inv_receive:
  assumes "rpc_inv s" and "rp_call s i = Some (Waiting p)" and "rp_chan s i = r # rs"
  shows "rpc_inv (receive i r s)"
proof -
  let ?s = "receive i r s"
  have one: "rs = []" "\<not> is_pending s i" "\<not> is_held s q i" for q
    using rpc_invD(2) [OF assms(1), of i] assms(3) by (auto simp: ticket_ok_def)
  have places: "is_pending ?s j = is_pending s j" "is_held ?s q j = is_held s q j"
    "rp_chan ?s j = (if j = i then [] else rp_chan s j)"
    "is_answered ?s j = (j = i \<or> is_answered s j)" for j q
    using assms(3) one by (auto simp: receive_def rpc_place_defs)
  have "ticket_ok ?s j" for j
    using assms(1) one by (cases "j = i") (auto simp: rpc_inv_def ticket_ok_def places)
  moreover have "fresh_ok ?s j" for j
    using assms(1,3) by (force simp: rpc_inv_def fresh_ok_def receive_def rpc_place_defs)
  moreover have "routed_ok ?s"
    using assms(1,3) one(1) by (auto simp: rpc_inv_def routed_ok_def receive_def)
  ultimately show ?thesis using assms(1) by (simp add: rpc_inv_def receive_def)
qed

lemma rpc_inv_take:
  assumes "rpc_inv s" and "rp_reader s p = None"
  shows "rpc_inv (take_response p r s)"
proof (cases "resp_ID r = 0 \<or> resp_Method r \<noteq> [] \<or> \<not> is_pending s (resp_ID r)")
  case True
  then have "take_response p r s = s" by (auto simp: take_response_def is_pending_def)
  with assms show ?thesis by simp
next
  case False
  let ?i = "resp_ID r" and ?t = "removePending (resp_ID r) s" and ?s = "take_response p r s"
  have get: "gomap_get (rp_pending s) ?i = Some ?i"
    using assms(1) False by (auto simp: rpc_inv_def routed_ok_def is_pending_def)
  have s: "?s = ?t\<lparr>rp_reader := (rp_reader s)(p := Some (?i, r))\<rparr>"
    using False get by (simp add: take_response_def)
  have t: "rpc_inv ?t" "\<not> is_pending ?t ?i" using rpc_inv_removePending [OF assms(1)] by simp_all
  have free: "\<not> is_held s q ?i" "rp_chan s ?i = []" "\<not> is_answered s ?i" for q
    using assms(1) False by (auto simp: rpc_inv_def ticket_ok_def)
  have tf: "is_held ?t q j = is_held s q j" "rp_chan ?t j = rp_chan s j" "is_answered ?t j = is_answered s j"
    "rp_nextID ?t = rp_nextID s" for q j by (simp_all add: removePending_def rpc_place_defs)
  have places: "is_pending ?s j = is_pending ?t j" "is_held ?s q j = (q = p \<and> j = ?i \<or> is_held s q j)"
    "rp_chan ?s j = rp_chan ?t j" "is_answered ?s j = is_answered ?t j" "rp_nextID ?s = rp_nextID ?t"
    "rp_call ?s j = rp_call ?t j" for j q
    using assms(2) unfolding s by (auto simp: rpc_place_defs removePending_def)
  have tj: "ticket_ok ?t j" "fresh_ok ?t j" for j using t(1) by (simp_all add: rpc_inv_def)
  have "ticket_ok ?s j" for j
    using tj(1) [of j] free t(2) by (cases "j = ?i") (auto simp: ticket_ok_def places tf)
  moreover have "\<not> rp_nextID s < ?i" using assms(1) False by (auto simp: rpc_inv_def fresh_ok_def)
  then have "fresh_ok ?s j" for j
    using tj(2) [of j] by (cases "j = ?i") (auto simp: fresh_ok_def places tf)
  moreover have "routed_ok ?s"
    using t(1) unfolding s by (auto simp: rpc_inv_def routed_ok_def removePending_def)
  ultimately show ?thesis using t(1) s by (simp add: rpc_inv_def)
qed

lemma rpc_inv_send:
  assumes "rpc_inv s" and "rp_reader s p = Some (ch, r)"
  shows "rpc_inv (send_response p ch r s)"
proof -
  let ?s = "send_response p ch r s"
  have h: "is_held s p ch" using assms(2) by (simp add: is_held_def)
  have one: "\<not> is_pending s ch" "rp_chan s ch = []" "\<not> is_answered s ch" "is_held s q ch \<Longrightarrow> q = p" for q
    using assms(1) h by (auto simp: rpc_inv_def ticket_ok_def)
  have places: "is_pending ?s j = is_pending s j" "is_held ?s q j = (q \<noteq> p \<and> is_held s q j)"
    "rp_chan ?s j = (if j = ch then [r] else rp_chan s j)" "is_answered ?s j = is_answered s j"
    "rp_call ?s j = rp_call s j" "rp_nextID ?s = rp_nextID s" for j q
    using one(2) by (auto simp: send_response_def rpc_place_defs)
  have "ticket_ok ?s j" for j
    using assms(1) one by (cases "j = ch") (auto simp: rpc_inv_def ticket_ok_def places)
  moreover have "fresh_ok ?s j" for j
    using assms(1) h by (cases "j = ch") (auto simp: rpc_inv_def fresh_ok_def places)
  moreover have "routed_ok ?s"
    using assms one(2) by (auto simp: rpc_inv_def routed_ok_def send_response_def)
  ultimately show ?thesis using assms(1) by (simp add: rpc_inv_def send_response_def)
qed

lemma rpc_inv_clear:
  assumes "rpc_inv s"
  shows "rpc_inv (finish_stop p s)"
  using assms
  by (simp add: rpc_inv_def finish_stop_def ticket_ok_def fresh_ok_def routed_ok_def rpc_place_defs
      gomap_wfs gomap_gets)

lemma rpc_inv_step: "rpc_step s s' \<Longrightarrow> rpc_inv s \<Longrightarrow> rpc_inv s'"
proof (induction rule: rpc_step.induct)
  case (start s)
  then show ?case by (subst rpc_inv_cong [of _ s]) (simp_all add: start_process_def)
next
  case (stopping p s)
  then show ?case by (subst rpc_inv_cong [of _ s]) (simp_all add: begin_stop_def)
qed (simp_all add: rpc_inv_begin_call rpc_inv_receive rpc_inv_give_up rpc_inv_take rpc_inv_send rpc_inv_clear)

lemma rpc_reachable_inv: "rpc_reachable s \<Longrightarrow> rpc_inv s"
  by (induction rule: rpc_reachable.induct) (auto simp: rpc_inv_init intro: rpc_inv_step)

section \<open>Properties\<close>

text \<open>
  C34: The read loop never blocks and never misroutes. In every interleaving of callers, timeouts,
  several child processes and their read loops, a response that a read loop has matched can be
  sent at once (the buffered channel of its request is empty), it belongs to the request whose
  channel it is sent on, and a call only ever returns the response with its own request id.
\<close>

theorem rpc_reader_never_blocks:
  assumes "rpc_reachable s"
  shows "(\<forall>p ch r. rp_reader s p = Some (ch, r) \<longrightarrow> may_send ch s \<and> resp_ID r = ch) \<and>
    (\<forall>i r. rp_call s i = Some (Answered r) \<longrightarrow>
       resp_ID r = i \<and> \<not> is_pending s i \<and> rp_chan s i = [] \<and> (\<forall>p. \<not> is_held s p i))"
proof -
  note inv = rpc_reachable_inv [OF assms]
  have "may_send ch s \<and> resp_ID r = ch" if "rp_reader s p = Some (ch, r)" for p ch r
  proof -
    have "is_held s p ch" using that by (simp add: is_held_def)
    then have "rp_chan s ch = []" using rpc_invD(2) [OF inv, of ch] by (auto simp: ticket_ok_def)
    then show ?thesis using that rpc_invD(4) [OF inv] by (auto simp: may_send_def routed_ok_def)
  qed
  moreover have "resp_ID r = i \<and> \<not> is_pending s i \<and> rp_chan s i = [] \<and> (\<forall>p. \<not> is_held s p i)"
    if "rp_call s i = Some (Answered r)" for i r
  proof -
    have "is_answered s i" using that by (simp add: is_answered_def)
    then show ?thesis
      using rpc_invD(2) [OF inv, of i] rpc_invD(4) [OF inv] that by (auto simp: ticket_ok_def routed_ok_def)
  qed
  ultimately show ?thesis by blast
qed

definition demo_response :: rpc_response where
  "demo_response = \<lparr>resp_ID = 1, resp_Method = [], resp_Result = Some (JBool True), resp_Error = None\<rparr>"

definition demo_matched :: rpc_state where
  "demo_matched = take_response 0 demo_response (begin_call 0 (start_process rpc_init))"

lemma demo_matched_reachable: "rpc_reachable demo_matched"
proof -
  have "rpc_reachable (start_process rpc_init)"
    by (rule rpc_reachable.step [OF rpc_reachable.init rpc_step.start]) (simp add: may_start_def rpc_init_def)
  then have "rpc_reachable (begin_call 0 (start_process rpc_init))"
    by (rule rpc_reachable.step [OF _ rpc_step.call]) (simp add: start_process_def)
  then show ?thesis unfolding demo_matched_def
    by (rule rpc_reachable.step [OF _ rpc_step.read])
      (simp_all add: start_process_def begin_call_def rpc_init_def Let_def)
qed

theorem rpc_reader_never_blocks_witness:
  "rp_reader demo_matched 0 = Some (1, demo_response) \<and> may_send 1 demo_matched"
proof -
  have "rp_reader demo_matched 0 = Some (1, demo_response)"
    by (simp add: demo_matched_def take_response_def demo_response_def begin_call_def start_process_def
        rpc_init_def removePending_def gomap_gets Let_def)
  with rpc_reader_never_blocks [OF demo_matched_reachable] show ?thesis by blast
qed

text \<open>
  A request whose ticket has vanished: registered, but neither pending, nor with a read loop, nor
  in its channel. No continuation ever answers it.
\<close>

definition lost :: "rpc_state \<Rightarrow> int \<Rightarrow> bool" where
  "lost s i = (i \<le> rp_nextID s \<and> \<not> is_pending s i \<and> (\<forall>p. \<not> is_held s p i) \<and> rp_chan s i = [] \<and>
     \<not> is_answered s i)"

lemma lost_step:
  assumes "rpc_step s s'" and "rpc_inv s" and "lost s i"
  shows "lost s' i"
  using assms
proof (induction rule: rpc_step.induct)
  case (call p s)
  then have "i \<noteq> rp_nextID s + 1" by (auto simp: lost_def)
  with call show ?case by (auto simp: lost_def begin_call_def rpc_place_defs gomap_gets Let_def)
next
  case (received s j p r rs)
  then have "j \<noteq> i" by (auto simp: lost_def)
  with received show ?case by (auto simp: lost_def receive_def rpc_place_defs)
next
  case (read p s r)
  then show ?case
    using rpc_invD(1,4) [OF read(3)]
    by (auto simp: lost_def take_response_def removePending_def rpc_place_defs gomap_gets routed_ok_def
        split: option.splits)
next
  case (send s p ch r)
  then have "ch \<noteq> i" by (auto simp: lost_def is_held_def)
  with send show ?case by (auto simp: lost_def send_response_def rpc_place_defs)
next
  case (timeout s j p)
  then show ?case using rpc_invD(1) [OF timeout(2)]
    by (auto simp: lost_def give_up_def removePending_def rpc_place_defs gomap_gets)
next
  case (disconnected s j p)
  then show ?case using rpc_invD(1) [OF disconnected(3)]
    by (auto simp: lost_def give_up_def removePending_def rpc_place_defs gomap_gets)
qed (simp_all add: lost_def start_process_def begin_stop_def finish_stop_def rpc_place_defs gomap_gets)

lemma lost_forever: "rpc_step\<^sup>*\<^sup>* s s' \<Longrightarrow> rpc_inv s \<Longrightarrow> lost s i \<Longrightarrow> lost s' i \<and> rpc_inv s'"
  by (induction rule: rtranclp_induct) (auto intro: lost_step rpc_inv_step)

text \<open>
  The child of an idle collector dies: its read loop closes \<open>done\<close> (\<open>begin_stop 0\<close>); a collection
  sees the closed channel, starts a new child and registers a request on it; only then does the
  read loop of the old child enter its critical section (\<open>finish_stop 0\<close>).
\<close>

definition race_state :: rpc_state where
  "race_state =
     finish_stop 0 (begin_call 1 (start_process (begin_stop 0 (start_process rpc_init))))"

lemmas race_eval = race_state_def rpc_op_defs rpc_init_def may_start_def

lemma race_reachable: "rpc_reachable race_state"
proof -
  have "rpc_reachable (start_process rpc_init)"
    by (rule rpc_reachable.step [OF rpc_reachable.init rpc_step.start]) (simp add: race_eval)
  then have "rpc_reachable (begin_stop 0 (start_process rpc_init))"
    by (rule rpc_reachable.step [OF _ rpc_step.stopping]) (simp_all add: race_eval)
  then have "rpc_reachable (start_process (begin_stop 0 (start_process rpc_init)))"
    by (rule rpc_reachable.step [OF _ rpc_step.start]) (simp add: race_eval)
  then have "rpc_reachable (begin_call 1 (start_process (begin_stop 0 (start_process rpc_init))))"
    by (rule rpc_reachable.step [OF _ rpc_step.call]) (simp add: race_eval)
  then show ?thesis unfolding race_state_def
    by (rule rpc_reachable.step [OF _ rpc_step.stopped]) (simp_all add: race_eval)
qed

text \<open>
  Stopping an old child can orphan a request of its successor. There is a reachable state in
  which a request waits on the current, living child, and no continuation whatever answers it:
  the old child's \<open>stopProcess\<close> empties the whole pending map, the requests of the new child
  included, so the call can only end by its timeout.
\<close>

theorem restart_race_orphans_call:
  "\<exists>s i p. rpc_reachable s \<and> rp_call s i = Some (Waiting p) \<and> rp_proc s = Some p \<and> \<not> rp_done s p \<and>
     \<not> (\<exists>s' r. rpc_step\<^sup>*\<^sup>* s s' \<and> rp_call s' i = Some (Answered r))"
proof -
  have "rp_call race_state 1 = Some (Waiting 1)" "rp_proc race_state = Some 1" "\<not> rp_done race_state 1"
    by (simp_all add: race_eval)
  moreover have "lost race_state 1" by (simp add: lost_def rpc_place_defs race_eval gomap_gets)
  then have "\<not> is_answered s' 1" if "rpc_step\<^sup>*\<^sup>* race_state s'" for s'
    using lost_forever [OF that rpc_reachable_inv [OF race_reachable]] by (simp add: lost_def)
  then have "\<not> (\<exists>s' r. rpc_step\<^sup>*\<^sup>* race_state s' \<and> rp_call s' 1 = Some (Answered r))"
    unfolding is_answered_def by blast
  ultimately show ?thesis using race_reachable by blast
qed

end
