(* ===== verification/Regex.thy ===== *)
theory Regex
  imports Go_JSON
begin

text \<open>
  The part of Go's \<open>regexp\<close> that the collectors use: leftmost-first matching over UTF-8 text with
  captures, repetition of a character class (greedy or lazy, bounded or not), alternation, the
  anchors and the word boundary. A matcher maps a position to the list of positions it can end
  at, in order of preference, so the first element is the match Go reports.
\<close>

section \<open>Positions and expressions\<close>

text \<open>A position: the bytes before it (newest first), the bytes after it, and the captures so far.\<close>

record spot =
  sp_done :: string
  sp_rest :: string
  sp_caps :: "(nat \<times> string) list"

datatype regex =
    Rune "string \<Rightarrow> bool"
  | Rep bool "string \<Rightarrow> bool" nat "nat option"
  | Empty
  | Seq regex regex
  | Alt regex regex
  | Cap nat regex
  | TextStart
  | TextEnd
  | WordBoundary

text \<open>The next rune; a byte that starts no valid encoding is a rune by itself.\<close>

definition next_rune :: "string \<Rightarrow> string" where
  "next_rune s = take (max 1 (rune_width s)) s"

definition advance :: "string \<Rightarrow> spot \<Rightarrow> spot" where
  "advance r p = p\<lparr>sp_done := rev r @ sp_done p, sp_rest := drop (length r) (sp_rest p)\<rparr>"

definition step_rune :: "(string \<Rightarrow> bool) \<Rightarrow> spot \<Rightarrow> spot option" where
  "step_rune P p =
     (if sp_rest p = [] then None
      else let r = next_rune (sp_rest p) in if P r then Some (advance r p) else None)"

text \<open>The positions after zero, one, two, ... runes of a class, at most \<open>n\<close> of them.\<close>

fun rep_spots :: "(string \<Rightarrow> bool) \<Rightarrow> nat \<Rightarrow> spot \<Rightarrow> spot list" where
  "rep_spots P 0 p = [p]"
| "rep_spots P (Suc n) p = p # (case step_rune P p of None \<Rightarrow> [] | Some q \<Rightarrow> rep_spots P n q)"

definition word_byte :: "char \<Rightarrow> bool" where
  "word_byte c = (is_lower c \<or> is_upper c \<or> is_digit c \<or> c = CHR ''_'')"

definition at_word :: "string \<Rightarrow> bool" where
  "at_word s = (case s of [] \<Rightarrow> False | c # _ \<Rightarrow> word_byte c)"

fun matches :: "regex \<Rightarrow> spot \<Rightarrow> spot list" where
  "matches (Rune P) p = (case step_rune P p of None \<Rightarrow> [] | Some q \<Rightarrow> [q])"
| "matches (Rep greedy P low high) p =
     (let bound = (case high of None \<Rightarrow> length (sp_rest p) | Some m \<Rightarrow> m);
          qs = drop low (rep_spots P bound p)
      in if greedy then rev qs else qs)"
| "matches Empty p = [p]"
| "matches (Seq r1 r2) p = concat (map (matches r2) (matches r1 p))"
| "matches (Alt r1 r2) p = matches r1 p @ matches r2 p"
| "matches (Cap i r) p =
     map (\<lambda>q. q\<lparr>sp_caps := (i, rev (take (length (sp_done q) - length (sp_done p)) (sp_done q))) # sp_caps q\<rparr>)
       (matches r p)"
| "matches TextStart p = (if sp_done p = [] then [p] else [])"
| "matches TextEnd p = (if sp_rest p = [] then [p] else [])"
| "matches WordBoundary p = (if at_word (sp_done p) \<noteq> at_word (sp_rest p) then [p] else [])"

section \<open>Searching\<close>

definition start_spot :: "string \<Rightarrow> spot" where
  "start_spot s = \<lparr>sp_done = [], sp_rest = s, sp_caps = []\<rparr>"

lemma next_rune_nonempty: "s \<noteq> [] \<Longrightarrow> next_rune s \<noteq> []"
  by (simp add: next_rune_def)

text \<open>The leftmost match from a position on: where it starts and where it ends.\<close>

function find_match :: "regex \<Rightarrow> spot \<Rightarrow> (spot \<times> spot) option" where
  "find_match r p =
     (case matches r p of
        q # _ \<Rightarrow> Some (p, q)
      | [] \<Rightarrow> if sp_rest p = [] then None else find_match r (advance (next_rune (sp_rest p)) p))"
  by pat_completeness auto
termination
  by (relation "measure (\<lambda>(r, p). length (sp_rest p))")
    (auto simp: advance_def next_rune_nonempty)

declare find_match.simps [simp del]

definition match_text :: "spot \<times> spot \<Rightarrow> string" where
  "match_text m = rev (take (length (sp_done (snd m)) - length (sp_done (fst m))) (sp_done (snd m)))"

definition MatchString :: "regex \<Rightarrow> string \<Rightarrow> bool" where
  "MatchString r s = (find_match r (start_spot s) \<noteq> None)"

definition FindString :: "regex \<Rightarrow> string \<Rightarrow> string" where
  "FindString r s = (case find_match r (start_spot s) of None \<Rightarrow> [] | Some m \<Rightarrow> match_text m)"

text \<open>A group that did not take part has the empty text, as in \<open>FindStringSubmatch\<close>.\<close>

definition cap_text :: "spot \<Rightarrow> nat \<Rightarrow> string" where
  "cap_text q i = (case map_of (sp_caps q) i of None \<Rightarrow> [] | Some s \<Rightarrow> s)"

definition FindStringSubmatch :: "regex \<Rightarrow> string \<Rightarrow> (nat \<Rightarrow> string) option" where
  "FindStringSubmatch r s = map_option (\<lambda>m. cap_text (snd m)) (find_match r (start_spot s))"

text \<open>
  The successive matches of an expression that matches no empty text, each search starting at the
  end of the previous match, and the text left when the matches are cut out.
\<close>

function find_all :: "regex \<Rightarrow> spot \<Rightarrow> (spot \<times> spot) list \<times> string" where
  "find_all r p =
     (case find_match r p of
        None \<Rightarrow> ([], sp_rest p)
      | Some (a, q) \<Rightarrow>
          if length (sp_rest q) < length (sp_rest p)
          then (case find_all r (q\<lparr>sp_caps := []\<rparr>) of
                  (ms, left) \<Rightarrow> ((a, q) # ms, take (length (sp_done a) - length (sp_done p)) (sp_rest p) @ left))
          else ([], sp_rest p))"
  by pat_completeness auto
termination
  by (relation "measure (\<lambda>(r, p). length (sp_rest p))") auto

declare find_all.simps [simp del]

definition FindAllStringSubmatch :: "regex \<Rightarrow> string \<Rightarrow> (nat \<Rightarrow> string) list" where
  "FindAllStringSubmatch r s = map (\<lambda>m. cap_text (snd m)) (fst (find_all r (start_spot s)))"

definition ReplaceAllEmpty :: "regex \<Rightarrow> string \<Rightarrow> string" where
  "ReplaceAllEmpty r s = snd (find_all r (start_spot s))"

section \<open>Building blocks\<close>

text \<open>Character classes on runes, without and with case folding.\<close>

definition one_of :: "string \<Rightarrow> string \<Rightarrow> bool" where
  "one_of cs r = (case r of [c] \<Rightarrow> c \<in> set cs | _ \<Rightarrow> False)"

definition in_bytes :: "nat \<Rightarrow> nat \<Rightarrow> string \<Rightarrow> bool" where
  "in_bytes a b r = (case r of [c] \<Rightarrow> between a b c | _ \<Rightarrow> False)"

definition white :: "string \<Rightarrow> bool" where
  "white = one_of [CHR 0x09, CHR 0x0A, CHR 0x0C, CHR 0x0D, CHR '' '']"

definition digit_rune :: "string \<Rightarrow> bool" where
  "digit_rune = in_bytes 48 57"

definition any_rune :: "string \<Rightarrow> bool" where
  "any_rune r = (r \<noteq> [CHR 0x0A])"

definition none_of :: "string \<Rightarrow> string \<Rightarrow> bool" where
  "none_of cs r = (\<not> one_of cs r)"

text \<open>Simple case folding: the Kelvin sign folds to k and the long s to s.\<close>

definition fold_rune :: "char \<Rightarrow> string \<Rightarrow> bool" where
  "fold_rune c r =
     ((case r of [d] \<Rightarrow> lower_byte d = lower_byte c | _ \<Rightarrow> False) \<or>
      (lower_byte c = CHR ''k'' \<and> r = [CHR 0xE2, CHR 0x84, CHR 0xAA]) \<or>
      (lower_byte c = CHR ''s'' \<and> r = [CHR 0xC5, CHR 0xBF]))"

definition letter_fold :: "string \<Rightarrow> bool" where
  "letter_fold r = list_ex (\<lambda>c. fold_rune c r) ''abcdefghijklmnopqrstuvwxyz''"

fun sequence :: "regex list \<Rightarrow> regex" where
  "sequence [] = Empty"
| "sequence [r] = r"
| "sequence (r # s # rs) = Seq r (sequence (s # rs))"

fun choice :: "regex list \<Rightarrow> regex" where
  "choice [] = Rune (\<lambda>_. False)"
| "choice [r] = r"
| "choice (r # s # rs) = Alt r (choice (s # rs))"

definition literal :: "string \<Rightarrow> regex" where
  "literal s = sequence (map (\<lambda>c. Rune (one_of [c])) s)"

definition literal_fold :: "string \<Rightarrow> regex" where
  "literal_fold s = sequence (map (\<lambda>c. Rune (fold_rune c)) s)"

definition optional :: "regex \<Rightarrow> regex" where
  "optional r = Alt r Empty"

definition star :: "(string \<Rightarrow> bool) \<Rightarrow> regex" where
  "star P = Rep True P 0 None"

definition plus :: "(string \<Rightarrow> bool) \<Rightarrow> regex" where
  "plus P = Rep True P 1 None"

definition lazy_plus :: "(string \<Rightarrow> bool) \<Rightarrow> regex" where
  "lazy_plus P = Rep False P 1 None"

definition exactly :: "nat \<Rightarrow> (string \<Rightarrow> bool) \<Rightarrow> regex" where
  "exactly n P = Rep True P n (Some n)"

definition from_to :: "nat \<Rightarrow> nat \<Rightarrow> (string \<Rightarrow> bool) \<Rightarrow> regex" where
  "from_to m n P = Rep True P m (Some n)"

section \<open>What a match consumes\<close>

text \<open>A position reached from another one by consuming text in between.\<close>

definition reaches :: "spot \<Rightarrow> spot \<Rightarrow> bool" where
  "reaches p q = (\<exists>w. sp_rest p = w @ sp_rest q \<and> sp_done q = rev w @ sp_done p)"

lemma reaches_refl [simp]: "reaches p p"
  by (simp add: reaches_def)

lemma reaches_trans: "reaches p q \<Longrightarrow> reaches q r \<Longrightarrow> reaches p r"
  unfolding reaches_def by (metis append.assoc rev_append)

lemma reaches_advance: "reaches p (advance (next_rune (sp_rest p)) p)"
proof -
  have "sp_rest p = next_rune (sp_rest p) @ drop (length (next_rune (sp_rest p))) (sp_rest p)"
    unfolding next_rune_def by (metis append_take_drop_id append_eq_conv_conj)
  then show ?thesis by (auto simp: reaches_def advance_def)
qed

lemma step_rune_Some:
  "step_rune P p = Some q \<longleftrightarrow> sp_rest p \<noteq> [] \<and> P (next_rune (sp_rest p)) \<and> q = advance (next_rune (sp_rest p)) p"
  by (auto simp: step_rune_def Let_def)

lemma rep_spots_reach: "q \<in> set (rep_spots P n p) \<Longrightarrow> reaches p q"
proof (induction P n p rule: rep_spots.induct)
  case (2 P n p)
  then show ?case
    by (cases "step_rune P p") (auto simp: step_rune_Some intro: reaches_trans [OF reaches_advance])
qed simp

text \<open>Every match ends at a position reached by consuming part of the remaining text.\<close>

lemma matches_reach: "q \<in> set (matches r p) \<Longrightarrow> reaches p q"
proof (induction r arbitrary: p q)
  case (Rune P)
  then show ?case
    by (cases "step_rune P p") (auto simp: step_rune_Some reaches_advance)
next
  case (Rep greedy P low high)
  then show ?case
    by (auto simp: Let_def split: if_splits dest!: in_set_dropD intro: rep_spots_reach)
next
  case (Seq r1 r2)
  then show ?case using reaches_trans by fastforce
next
  case (Cap i r)
  then show ?case by (fastforce simp: reaches_def)
qed (auto split: if_splits)

lemma matches_SeqE:
  assumes "q \<in> set (matches (Seq r s) p)"
  obtains q1 where "q1 \<in> set (matches r p)" and "q \<in> set (matches s q1)"
  using assms by auto

section \<open>What a match starts with\<close>

definition starts :: "(string \<Rightarrow> bool) \<Rightarrow> regex \<Rightarrow> bool" where
  "starts P r = (\<forall>p. matches r p \<noteq> [] \<longrightarrow> sp_rest p \<noteq> [] \<and> P (next_rune (sp_rest p)))"

lemma starts_Rune: "(\<And>x. Q x \<Longrightarrow> P x) \<Longrightarrow> starts P (Rune Q)"
  by (auto simp: starts_def step_rune_Some split: option.splits)

lemma starts_Seq: "starts P r \<Longrightarrow> starts P (Seq r s)"
  unfolding starts_def matches.simps by (metis concat.simps(1) list.simps(8))

lemma starts_Alt: "starts P r \<Longrightarrow> starts P s \<Longrightarrow> starts P (Alt r s)"
  by (auto simp: starts_def)

lemma starts_mono: "starts P r \<Longrightarrow> (\<And>x. P x \<Longrightarrow> Q x) \<Longrightarrow> starts Q r"
  by (auto simp: starts_def)

lemma starts_literal_fold: "starts (fold_rune c) (literal_fold (c # cs))"
  by (cases cs) (simp_all add: literal_fold_def starts_Rune starts_Seq)

lemma starts_literal: "starts (one_of [c]) (literal (c # cs))"
  by (cases cs) (simp_all add: literal_def starts_Rune starts_Seq)

text \<open>An expression anchored at the start of the text is tried at the first position only.\<close>

lemma find_match_anchored_later: "sp_done p \<noteq> [] \<Longrightarrow> find_match (Seq TextStart r) p = None"
proof (induction "length (sp_rest p)" arbitrary: p rule: less_induct)
  case less
  show ?case
  proof (cases "sp_rest p = []")
    case False
    let ?q = "advance (next_rune (sp_rest p)) p"
    have "length (sp_rest ?q) < length (sp_rest p)" "sp_done ?q \<noteq> []"
      using False less.prems next_rune_nonempty by (auto simp: advance_def)
    with less show ?thesis by (subst find_match.simps) simp
  qed (use less.prems in \<open>subst find_match.simps, simp\<close>)
qed

lemma find_match_anchored:
  "find_match (Seq TextStart r) (start_spot s) =
     (case matches r (start_spot s) of [] \<Rightarrow> None | q # _ \<Rightarrow> Some (start_spot s, q))"
proof (cases "matches r (start_spot s)")
  case Nil
  show ?thesis
  proof (cases "s = []")
    case False
    then have "sp_done (advance (next_rune s) (start_spot s)) \<noteq> []"
      using next_rune_nonempty by (simp add: advance_def)
    with Nil show ?thesis
      by (subst find_match.simps) (simp add: find_match_anchored_later start_spot_def)
  qed (use Nil in \<open>subst find_match.simps, simp add: start_spot_def\<close>)
qed (subst find_match.simps, simp add: start_spot_def)

text \<open>White space consumed by a repetition of \<open>white\<close>.\<close>

definition white_byte :: "char \<Rightarrow> bool" where
  "white_byte c = (c \<in> {CHR 0x09, CHR 0x0A, CHR 0x0C, CHR 0x0D, CHR '' ''})"

lemma next_rune_single: "next_rune s = [c] \<Longrightarrow> \<exists>t. s = c # t"
  unfolding next_rune_def by (metis append_Cons append_take_drop_id)

lemma white_iff: "white r \<longleftrightarrow> (\<exists>c. r = [c] \<and> white_byte c)"
  by (auto simp: white_def one_of_def white_byte_def split: list.splits)

text \<open>A repetition of a class of single bytes consumes such bytes only and captures nothing.\<close>

lemma rep_spots_bytes:
  assumes "\<And>r. P r \<Longrightarrow> \<exists>c. r = [c] \<and> B c" and "q \<in> set (rep_spots P n p)"
  shows "\<exists>ws. sp_rest p = ws @ sp_rest q \<and> sp_done q = rev ws @ sp_done p \<and> list_all B ws \<and> sp_caps q = sp_caps p"
  using assms
proof (induction P n p rule: rep_spots.induct)
  case (2 P n p)
  show ?case
  proof (cases "q = p")
    case False
    with 2(3) obtain p1 where p1: "step_rune P p = Some p1" "q \<in> set (rep_spots P n p1)"
      by (cases "step_rune P p") auto
    then obtain c t where ct: "sp_rest p = c # t" "B c" "sp_rest p1 = t" "sp_done p1 = c # sp_done p" "sp_caps p1 = sp_caps p"
      using next_rune_single 2(2) by (fastforce simp: step_rune_Some advance_def)
    obtain ws where "t = ws @ sp_rest q" "sp_done q = rev ws @ c # sp_done p" "list_all B ws" "sp_caps q = sp_caps p"
      using 2(1) [OF p1(1) 2(2) p1(2)] ct(3-5) by auto
    with ct(1,2) show ?thesis by (intro exI [of _ "c # ws"]) simp
  qed (auto intro: exI [of _ "[]"])
qed (auto intro: exI [of _ "[]"])

text \<open>A group keeps its text while expressions without that group match.\<close>

fun without_cap :: "nat \<Rightarrow> regex \<Rightarrow> bool" where
  "without_cap i (Seq r s) = (without_cap i r \<and> without_cap i s)"
| "without_cap i (Alt r s) = (without_cap i r \<and> without_cap i s)"
| "without_cap i (Cap j r) = (i \<noteq> j \<and> without_cap i r)"
| "without_cap i r = True"

lemma step_rune_caps: "step_rune P p = Some q \<Longrightarrow> sp_caps q = sp_caps p"
  by (auto simp: step_rune_Some advance_def)

lemma rep_spots_caps: "q \<in> set (rep_spots P n p) \<Longrightarrow> sp_caps q = sp_caps p"
proof (induction P n p rule: rep_spots.induct)
  case (2 P n p)
  then show ?case by (cases "step_rune P p") (auto dest: step_rune_caps)
qed simp

lemma cap_text_cong: "sp_caps q = sp_caps p \<Longrightarrow> cap_text q i = cap_text p i"
  by (simp add: cap_text_def)

lemma cap_text_other: "i \<noteq> j \<Longrightarrow> cap_text (q\<lparr>sp_caps := (j, t) # sp_caps q\<rparr>) i = cap_text q i"
  by (simp add: cap_text_def)

lemma without_cap_keeps: "without_cap i r \<Longrightarrow> q \<in> set (matches r p) \<Longrightarrow> cap_text q i = cap_text p i"
proof (induction r arbitrary: p q)
  case (Rune P)
  then show ?case by (cases "step_rune P p") (auto dest!: step_rune_caps intro: cap_text_cong)
next
  case (Rep greedy P low high)
  then show ?case
    by (auto simp: Let_def split: if_splits dest!: in_set_dropD rep_spots_caps intro: cap_text_cong)
next
  case (Seq r1 r2)
  then show ?case by fastforce
next
  case (Cap j r)
  then show ?case by (auto simp: cap_text_other)
qed (auto split: if_splits)

lemma cap_plus_bytes:
  assumes "\<And>r. P r \<Longrightarrow> \<exists>c. r = [c] \<and> B c" and "q \<in> set (matches (Cap i (plus P)) p)"
  shows "list_all B (cap_text q i)"
proof -
  obtain q1 n where q1: "q1 \<in> set (rep_spots P n p)"
    "q = q1\<lparr>sp_caps := (i, rev (take (length (sp_done q1) - length (sp_done p)) (sp_done q1))) # sp_caps q1\<rparr>"
    using assms(2) by (auto simp: plus_def Let_def dest!: in_set_dropD)
  obtain ws where "sp_done q1 = rev ws @ sp_done p" "list_all B ws"
    using rep_spots_bytes [OF assms(1) q1(1)] by blast
  then show ?thesis by (simp add: q1(2) cap_text_def)
qed

text \<open>
  An anchored heading: optional white space, then an expression that starts with one of the given
  bytes. Such a heading matches only when the first byte that is not white space is one of them.
\<close>

lemma heading_first_byte:
  assumes "MatchString (Seq TextStart (Seq (star white) r)) s"
    and "starts (\<lambda>x. \<exists>c\<in>C. x = [c] \<and> \<not> white_byte c) r"
  shows "\<exists>c\<in>C. \<exists>t. dropWhile white_byte s = c # t"
proof -
  have "matches (Seq (star white) r) (start_spot s) \<noteq> []"
    using assms(1) unfolding MatchString_def find_match_anchored by (auto simp del: matches.simps)
  then obtain q where q: "q \<in> set (matches (star white) (start_spot s))" "matches r q \<noteq> []" by auto
  obtain ws where ws: "s = ws @ sp_rest q" "list_all white_byte ws"
    using q(1) rep_spots_bytes [of white white_byte q _ "start_spot s"] by (auto simp: star_def Let_def start_spot_def white_iff)
  obtain c where c: "c \<in> C" "next_rune (sp_rest q) = [c]" "\<not> white_byte c"
    using assms(2) q(2) by (auto simp: starts_def)
  obtain t where "sp_rest q = c # t" using next_rune_single [OF c(2)] by blast
  then have "dropWhile white_byte s = c # t"
    using ws c(3) by (auto simp: list_all_iff dropWhile_append)
  with c(1) show ?thesis by blast
qed

end
