(* ===== verification/Claude_Text.thy ===== *)
theory Claude_Text
  imports Regex Claude_Limits
begin

text \<open>
  \<open>internal/collector/claude.go\<close>, the text part: the twelve patterns, the headings, percentages and
  reset times of \<open>/usage\<close> as printed for people, and \<open>ParseClaudeUsage\<close>, which prefers structured
  data and falls back to the text. Time zones are an argument (\<open>time_zones\<close>): whether a zone can be
  loaded, \<open>time.Date\<close> in a zone, the civil time of an instant in a zone, and the zone of the
  observation time.
\<close>

section \<open>Patterns\<close>

definition ansiPattern :: regex where
  "ansiPattern = sequence [literal [CHR 0x1B, CHR ''[''], star (in_bytes 0x30 0x3F), star (in_bytes 0x20 0x2F),
     Rune (in_bytes 0x40 0x7E)]"

definition percentPattern :: regex where
  "percentPattern = sequence [Cap 1 (Seq (plus digit_rune) (optional (Seq (literal ''.'') (plus digit_rune)))),
     star white, literal ''%'', star white, optional (literal_fold ''used'')]"

definition timestampPattern :: regex where
  "timestampPattern = sequence [exactly 4 digit_rune, literal ''-'', exactly 2 digit_rune, literal ''-'',
     exactly 2 digit_rune, literal ''T'', exactly 2 digit_rune, literal '':'', exactly 2 digit_rune, literal '':'',
     exactly 2 digit_rune, optional (Seq (literal ''.'') (plus digit_rune)),
     Alt (literal ''Z'') (sequence [Rune (one_of ''+-''), exactly 2 digit_rune, optional (literal '':''), exactly 2 digit_rune])]"

definition resetPhrasePattern :: regex where
  "resetPhrasePattern = sequence [WordBoundary, literal_fold ''reset'', optional (literal_fold ''s''), plus white,
     Cap 1 (lazy_plus any_rune), star white, TextEnd]"

definition relativeResetPattern :: regex where
  "relativeResetPattern = sequence [TextStart, literal_fold ''in'', plus white, Cap 1 (lazy_plus any_rune), star white, TextEnd]"

definition plural :: "string \<Rightarrow> regex" where
  "plural w = Seq (literal_fold w) (optional (literal_fold ''s''))"

definition relativeResetPart :: regex where
  "relativeResetPart = sequence [Cap 1 (plus digit_rune), star white,
     Cap 2 (choice [plural ''day'', literal_fold ''d'', plural ''hour'', plural ''hr'', literal_fold ''h'', plural ''minute'',
       plural ''min'', literal_fold ''m'', plural ''second'', plural ''sec'', literal_fold ''s''])]"

definition absoluteResetPattern :: regex where
  "absoluteResetPattern = sequence [TextStart, Cap 1 (plus letter_fold), plus white, Cap 2 (from_to 1 2 digit_rune),
     optional (sequence [literal '','', star white, Cap 3 (exactly 4 digit_rune)]),
     Alt (Seq (literal '','') (star white)) (sequence [plus white, literal_fold ''at'', plus white]),
     Cap 4 (from_to 1 2 digit_rune), optional (Seq (literal '':'') (Cap 5 (exactly 2 digit_rune))), star white,
     optional (Cap 6 (Alt (literal_fold ''am'') (literal_fold ''pm''))),
     optional (sequence [star white, literal ''('', Cap 7 (plus (none_of '')'')), literal '')'']), TextEnd]"

definition heading_end :: regex where
  "heading_end = Alt (Seq (star white) (literal '':'')) (Seq (star white) TextEnd)"

definition limit_or_usage :: regex where
  "limit_or_usage = optional (Seq (plus white) (Alt (literal_fold ''limit'') (literal_fold ''usage'')))"

definition currentWeekHeading :: regex where
  "currentWeekHeading = Seq TextStart (Seq (star white) (sequence [literal_fold ''current'', plus white, literal_fold ''week'',
     optional (sequence [star white, literal ''('', Cap 1 (star (none_of '')'')), literal '')'']), heading_end]))"

definition modelOnlyHeading :: regex where
  "modelOnlyHeading = Seq TextStart (Seq (star white) (sequence [from_to 1 80 (none_of '':''), WordBoundary,
     literal_fold ''only'', heading_end]))"

definition currentSessionHeading :: regex where
  "currentSessionHeading = Seq TextStart (Seq (star white) (sequence [literal_fold ''current'', plus white,
     literal_fold ''session'', limit_or_usage, heading_end]))"

definition fiveHourHeading :: regex where
  "fiveHourHeading = Seq TextStart (Seq (star white) (Seq
     (choice [sequence [literal_fold ''current'', plus white, literal_fold ''session''], literal_fold ''5h'',
        sequence [literal ''5'', star white, plural ''hour''], literal_fold ''5-hour''])
     (Seq limit_or_usage heading_end)))"

definition sevenDayHeading :: regex where
  "sevenDayHeading = Seq TextStart (Seq (star white) (Seq
     (choice [sequence [literal_fold ''all'', plus white, literal_fold ''models''], literal_fold ''7d'',
        sequence [literal ''7'', star white, plural ''day''], literal_fold ''7-day'',
        sequence [literal_fold ''weekly'', plus white, plural ''limit'']])
     heading_end))"

definition stripANSI :: "string \<Rightarrow> string" where
  "stripANSI value = ReplaceAllEmpty ansiPattern value"

section \<open>Reset times\<close>

definition claudeResetPastTolerance :: duration where "claudeResetPastTolerance = 24 * hour"
definition claudeResetMaxHorizon :: duration where "claudeResetMaxHorizon = 8 * 24 * hour"

definition validClaudeResetHorizon :: "time \<Rightarrow> time \<Rightarrow> bool" where
  "validClaudeResetHorizon reset observedAt =
     (let delta = Sub reset observedAt
      in - claudeResetPastTolerance \<le> delta \<and> delta \<le> claudeResetMaxHorizon)"

record civil =
  cv_year :: int
  cv_month :: nat
  cv_day :: int
  cv_hour :: int
  cv_minute :: int

record time_zones =
  tz_load :: "string \<Rightarrow> bool"
  tz_date :: "string \<Rightarrow> civil \<Rightarrow> time"
  tz_civil :: "string \<Rightarrow> time \<Rightarrow> civil"
  tz_local :: string

definition month_names :: "string list" where
  "month_names = [''january'', ''february'', ''march'', ''april'', ''may'', ''june'', ''july'', ''august'',
     ''september'', ''october'', ''november'', ''december'']"

fun find_month :: "string \<Rightarrow> nat \<Rightarrow> string list \<Rightarrow> nat option" where
  "find_month lower n [] = None"
| "find_month lower n (name # names) =
     (if lower = name \<or> lower = take 3 name then Some n else find_month lower (n + 1) names)"

definition englishMonth :: "string \<Rightarrow> nat option" where
  "englishMonth value = find_month (ToLower (TrimSpace value)) 1 month_names"

definition buildClaudeAbsoluteReset :: "time_zones \<Rightarrow> string \<Rightarrow> civil \<Rightarrow> time option" where
  "buildClaudeAbsoluteReset tz location c =
     (if tz_civil tz location (tz_date tz location c) = c then Some (tz_date tz location c) else None)"

text \<open>The clock time of an absolute reset: \<open>None\<close> when the hour or the minute is out of range.\<close>

definition clock_hour :: "string \<Rightarrow> int \<Rightarrow> int option" where
  "clock_hour meridiem h =
     (if meridiem \<noteq> [] then
        (if h < 1 \<or> h > 12 then None
         else let h' = (if h = 12 then 0 else h) in Some (if meridiem = ''pm'' then h' + 12 else h'))
      else if h < 0 \<or> h > 23 then None else Some h)"

definition accepted_reset :: "time_zones \<Rightarrow> string \<Rightarrow> time \<Rightarrow> civil \<Rightarrow> time option" where
  "accepted_reset tz location observedAt c =
     (case buildClaudeAbsoluteReset tz location c of
        None \<Rightarrow> None
      | Some parsed \<Rightarrow> if validClaudeResetHorizon parsed observedAt then Some parsed else None)"

definition atoi :: "string \<Rightarrow> int" where
  "atoi s = int (decimal_value s)"

text \<open>
  The candidates of an absolute reset once month, day and clock time are known: the year that is
  written, or the observation's own year and its neighbours.
\<close>

definition absolute_candidates :: "time_zones \<Rightarrow> (nat \<Rightarrow> string) \<Rightarrow> time \<Rightarrow> (int \<Rightarrow> civil) \<Rightarrow> time option" where
  "absolute_candidates tz match observedAt at_year =
     (let zoneName = TrimSpace (match 7);
          location = (if zoneName \<noteq> [] then zoneName else tz_local tz)
      in if zoneName \<noteq> [] \<and> \<not> tz_load tz zoneName then None
         else if match 3 \<noteq> [] then accepted_reset tz location observedAt (at_year (atoi (match 3)))
         else (let this_year = cv_year (tz_civil tz location observedAt)
               in first_some (map (\<lambda>y. accepted_reset tz location observedAt (at_year y))
                    [this_year - 1, this_year, this_year + 1])))"

definition parseClaudeAbsoluteReset :: "time_zones \<Rightarrow> string \<Rightarrow> time \<Rightarrow> time option" where
  "parseClaudeAbsoluteReset tz value observedAt =
     (case FindStringSubmatch absoluteResetPattern (TrimSpace value) of
        None \<Rightarrow> None
      | Some match \<Rightarrow>
        (case englishMonth (match 1) of
           None \<Rightarrow> None
         | Some month \<Rightarrow>
           (let day = atoi (match 2); mm = (if match 5 \<noteq> [] then atoi (match 5) else 0)
            in if day < 1 \<or> day > 31 \<or> mm < 0 \<or> mm > 59 then None
               else (case clock_hour (ToLower (match 6)) (atoi (match 4)) of
                  None \<Rightarrow> None
                | Some hh \<Rightarrow> absolute_candidates tz match observedAt
                    (\<lambda>y. \<lparr>cv_year = y, cv_month = month, cv_day = day, cv_hour = hh, cv_minute = mm\<rparr>)))))"

definition unit_of :: "string \<Rightarrow> duration option" where
  "unit_of name =
     (if name \<in> set [''d'', ''day'', ''days''] then Some (24 * hour)
      else if name \<in> set [''h'', ''hr'', ''hrs'', ''hour'', ''hours''] then Some hour
      else if name \<in> set [''m'', ''min'', ''mins'', ''minute'', ''minutes''] then Some minute
      else if name \<in> set [''s'', ''sec'', ''secs'', ''second'', ''seconds''] then Some second
      else None)"

text \<open>The loop over the parts; \<open>duration += amount * unit\<close> is 64-bit arithmetic.\<close>

fun add_parts :: "(nat \<Rightarrow> string) list \<Rightarrow> duration \<Rightarrow> duration option" where
  "add_parts [] acc = Some acc"
| "add_parts (part # parts) acc =
     (case ParseInt64 (part 1) of
        None \<Rightarrow> None
      | Some amount \<Rightarrow>
        (case unit_of (ToLower (part 2)) of
           None \<Rightarrow> None
         | Some u \<Rightarrow>
             if amount > 8 * 24 * hour div u then None
             else let acc' = wrap_int64 (acc + wrap_int64 (amount * u))
                  in if acc' > 8 * 24 * hour then None else add_parts parts acc'))"

text \<open>\<open>strings.ReplaceAll(s, "and", "")\<close> and \<open>strings.Trim(s, " \t,\<cdot>") = ""\<close>.\<close>

function remove_sub :: "string \<Rightarrow> string \<Rightarrow> string" where
  "remove_sub w [] = []"
| "remove_sub w (c # s) =
     (if w \<noteq> [] \<and> has_prefix (c # s) w then remove_sub w (drop (length w) (c # s)) else c # remove_sub w s)"
  by pat_completeness auto
termination
  by (relation "measure (\<lambda>(w, s). length s)") (auto simp: less_Suc_eq_le neq_Nil_conv)

fun only_separators :: "string \<Rightarrow> bool" where
  "only_separators [] = True"
| "only_separators (c # s) =
     (if c = CHR '' '' \<or> c = CHR 0x09 \<or> c = CHR '','' then only_separators s
      else (case s of d # t \<Rightarrow> c = CHR 0xC2 \<and> d = CHR 0xB7 \<and> only_separators t | [] \<Rightarrow> False))"

definition parseClaudeRelativeReset :: "string \<Rightarrow> time \<Rightarrow> time option" where
  "parseClaudeRelativeReset value observedAt =
     (case FindStringSubmatch relativeResetPattern (TrimSpace value) of
        None \<Rightarrow> None
      | Some match \<Rightarrow>
        let parts = FindAllStringSubmatch relativeResetPart (match 1) in
        if parts = [] then None
        else if \<not> only_separators (remove_sub ''and'' (ToLower (ReplaceAllEmpty relativeResetPart (match 1)))) then None
        else map_option (Add observedAt) (add_parts parts 0))"

definition parseClaudeUsageReset :: "claude_lib \<Rightarrow> time_zones \<Rightarrow> string \<Rightarrow> time \<Rightarrow> time option" where
  "parseClaudeUsageReset lib tz line observedAt =
     (case FindStringSubmatch resetPhrasePattern (TrimSpace line) of
        None \<Rightarrow> None
      | Some match \<Rightarrow>
        let value = TrimSpace (match 1); stamp = FindString timestampPattern value in
        if stamp \<noteq> [] then
          (case cl_time lib stamp of
             None \<Rightarrow> None
           | Some parsed \<Rightarrow> if validClaudeResetHorizon parsed observedAt then Some parsed else None)
        else case parseClaudeRelativeReset value observedAt of
          Some parsed \<Rightarrow> if validClaudeResetHorizon parsed observedAt then Some parsed else None
        | None \<Rightarrow> parseClaudeAbsoluteReset tz value observedAt)"

section \<open>Headings and windows\<close>

definition join_fields :: "string \<Rightarrow> string" where
  "join_fields s = join_char (CHR '' '') (Fields s)"

definition classifyClaudeUsageHeading :: "string \<Rightarrow> string \<times> bool" where
  "classifyClaudeUsageHeading line =
     (case FindStringSubmatch currentWeekHeading line of
        Some match \<Rightarrow> if fold_eq (join_fields (match 1)) ''all models'' then (''seven'', True) else ([], True)
      | None \<Rightarrow>
          if MatchString modelOnlyHeading line then ([], True)
          else if MatchString fiveHourHeading line then (''five'', True)
          else if MatchString sevenDayHeading line then (''seven'', True)
          else ([], False))"

record pendingWindow =
  pw_kind :: string
  pw_allowInactive :: bool
  pw_used :: "float64 option"
  pw_reset :: "time option"

definition no_pending :: pendingWindow where
  "no_pending = \<lparr>pw_kind = [], pw_allowInactive = False, pw_used = None, pw_reset = None\<rparr>"

definition commit_window :: "pendingWindow \<Rightarrow> provider_windows \<Rightarrow> provider_windows" where
  "commit_window pending ws =
     (case pw_used pending of
        None \<Rightarrow> ws
      | Some used \<Rightarrow>
        (case pw_reset pending of
           None \<Rightarrow>
             if pw_kind pending = ''five'' \<and> pw_allowInactive pending \<and> f64_eq used (F64 0)
             then ws\<lparr>FiveHour := Some \<lparr>UsedPercent = F64 0, RemainingPercent = F64 100, ResetsAt = None\<rparr>\<rparr>
             else ws
         | Some reset \<Rightarrow>
             if pw_kind pending = ''five'' then ws\<lparr>FiveHour := Some (normalizeWindow used reset)\<rparr>
             else if pw_kind pending = ''seven'' then ws\<lparr>SevenDay := Some (normalizeWindow used reset)\<rparr>
             else ws))"

text \<open>\<open>ParseFloat\<close> of a match is never a syntax error; a value out of range is infinite.\<close>

definition parsed_percent :: "claude_lib \<Rightarrow> string \<Rightarrow> string \<Rightarrow> float64" where
  "parsed_percent lib line digits =
     (let used = (case cl_float lib digits of Some x \<Rightarrow> x | None \<Rightarrow> F64Inf False)
      in if contains (ToLower line) ''remaining'' \<and> \<not> contains (ToLower line) ''used'' then f64_sub (F64 100) used
         else used)"

definition read_line ::
    "claude_lib \<Rightarrow> time_zones \<Rightarrow> time \<Rightarrow> string \<Rightarrow> pendingWindow \<times> provider_windows \<Rightarrow> pendingWindow \<times> provider_windows" where
  "read_line lib tz observedAt line st =
     (let (kind, isHeading) = classifyClaudeUsageHeading line;
          (pending, ws) =
            (if isHeading
             then (\<lparr>pw_kind = kind, pw_allowInactive = (kind = ''five'' \<and> MatchString currentSessionHeading line),
                    pw_used = None, pw_reset = None\<rparr>, commit_window (fst st) (snd st))
             else st)
      in if pw_kind pending = [] then (pending, ws)
         else (let pending1 = (case FindStringSubmatch percentPattern line of
                      None \<Rightarrow> pending
                    | Some match \<Rightarrow> pending\<lparr>pw_used := Some (parsed_percent lib line (match 1))\<rparr>)
               in (case parseClaudeUsageReset lib tz line observedAt of
                     None \<Rightarrow> pending1
                   | Some reset \<Rightarrow> pending1\<lparr>pw_reset := Some reset\<rparr>, ws)))"

definition parseClaudeUsageText ::
    "claude_lib \<Rightarrow> time_zones \<Rightarrow> string \<Rightarrow> time \<Rightarrow> (claude_error, provider_report) result" where
  "parseClaudeUsageText lib tz s observedAt =
     (case fold (read_line lib tz observedAt) (split_char (CHR 0x0A) s) (no_pending, no_windows) of
        (pending, ws0) \<Rightarrow>
          (let ws = commit_window pending ws0
           in if FiveHour ws = None \<and> SevenDay ws = None then err NoQuotaText
              else ok \<lparr>ObservedAt = observedAt, AuthState = ''authenticated'', Plan = [], Source = ''claude-usage'',
                     Windows = ws, ErrorCode = []\<rparr>))"

section \<open>The output of /usage\<close>

definition quota_text :: "string \<Rightarrow> bool" where
  "quota_text s =
     (contains (ToLower s) ''% used'' \<or> contains (ToLower s) ''rate limit'' \<or> contains (ToLower s) ''current session'')"

fun collectQuotaText :: "json \<Rightarrow> string list" where
  "collectQuotaText (JObject kvs) =
     concat (map (\<lambda>(key, child).
       (case child of
          JString t \<Rightarrow> if (key = ''result'' \<or> key = ''text'') \<and> quota_text t then [t] else []
        | _ \<Rightarrow> []) @ collectQuotaText child) kvs)"
| "collectQuotaText (JArray vs) = concat (map collectQuotaText vs)"
| "collectQuotaText _ = []"

text \<open>
  The loop over the lines of the stream: the first line with rate limits decides the result, also
  when its windows are invalid; otherwise the texts that mention quotas are collected. Limits
  that were found are encoded and decoded again in the source, which gives the same value.
\<close>

fun scan_lines ::
    "claude_lib \<Rightarrow> (string \<Rightarrow> json option) \<Rightarrow> time \<Rightarrow> string list \<Rightarrow> string list \<Rightarrow>
     (claude_error, provider_report) result + string list" where
  "scan_lines lib decode observedAt [] quotaText = Inr quotaText"
| "scan_lines lib decode observedAt (line # rest) quotaText =
     (if TrimSpace line = [] then scan_lines lib decode observedAt rest quotaText
      else case decode (TrimSpace line) of
        None \<Rightarrow> scan_lines lib decode observedAt rest quotaText
      | Some value \<Rightarrow>
        (case findRateLimits value of
           Some limits \<Rightarrow>
             Inl (parseClaudeRateLimits lib (Some (JObject [(''rate_limits'', JObject limits)])) observedAt ''claude-usage'')
         | None \<Rightarrow> scan_lines lib decode observedAt rest (quotaText @ collectQuotaText value)))"

definition ParseClaudeUsage ::
    "claude_lib \<Rightarrow> time_zones \<Rightarrow> (string \<Rightarrow> json option) \<Rightarrow> string \<Rightarrow> time \<Rightarrow> (claude_error, provider_report) result" where
  "ParseClaudeUsage lib tz decode payload observedAt =
     (case parseClaudeRateLimits lib (decode payload) observedAt ''claude-usage'' of
        Inr report \<Rightarrow> ok report
      | Inl _ \<Rightarrow>
        (case scan_lines lib decode observedAt (split_char (CHR 0x0A) payload) [] of
           Inl r \<Rightarrow> r
         | Inr quotaText \<Rightarrow>
             (let plain = parseClaudeUsageText lib tz (stripANSI payload) observedAt
              in if quotaText = [] then plain
                 else (case parseClaudeUsageText lib tz (join_char (CHR 0x0A) quotaText) observedAt of
                   Inr report \<Rightarrow> ok report
                 | Inl _ \<Rightarrow> plain))))"

section \<open>Reset times stay near the observation\<close>

definition reset_near :: "time \<Rightarrow> time \<Rightarrow> bool" where
  "reset_near observedAt t = (observedAt - 24 * hour \<le> t \<and> t \<le> observedAt + 8 * 24 * hour)"

lemma validClaudeResetHorizon_iff: "validClaudeResetHorizon t observedAt \<longleftrightarrow> reset_near observedAt t"
  using Sub_ge_iff [of "- (24 * hour)" t observedAt] Sub_le_iff [of "8 * 24 * hour" t observedAt]
  by (auto simp: validClaudeResetHorizon_def Let_def claudeResetPastTolerance_def claudeResetMaxHorizon_def
      duration_defs int64_defs reset_near_def)

lemma accepted_reset_near: "accepted_reset tz z observedAt c = Some t \<Longrightarrow> reset_near observedAt t"
  by (auto simp: accepted_reset_def validClaudeResetHorizon_iff split: option.splits if_splits)

lemma first_some_mem: "first_some xs = Some x \<Longrightarrow> Some x \<in> set xs"
  by (induction xs rule: first_some.induct) auto

lemma absolute_candidates_near: "absolute_candidates tz m observedAt f = Some t \<Longrightarrow> reset_near observedAt t"
  by (auto simp: absolute_candidates_def Let_def accepted_reset_near dest!: first_some_mem split: if_splits)

lemma parseClaudeAbsoluteReset_near: "parseClaudeAbsoluteReset tz value observedAt = Some t \<Longrightarrow> reset_near observedAt t"
  by (auto simp: parseClaudeAbsoluteReset_def Let_def split: option.splits if_splits dest!: absolute_candidates_near)

lemma parseClaudeUsageReset_near:
  "parseClaudeUsageReset lib tz line observedAt = Some t \<Longrightarrow> reset_near observedAt t"
  by (auto simp: parseClaudeUsageReset_def Let_def validClaudeResetHorizon_iff parseClaudeAbsoluteReset_near
      split: option.splits if_splits)

text \<open>The relative form: the 64-bit sum never wraps, and is the sum the text states.\<close>

definition part_value :: "(nat \<Rightarrow> string) \<Rightarrow> duration" where
  "part_value part = the (ParseInt64 (part 1)) * the (unit_of (ToLower (part 2)))"

lemma unit_of_cases: "unit_of n = Some u \<Longrightarrow> u \<in> {24 * hour, hour, minute, second}"
  by (auto simp: unit_of_def split: if_splits)

lemma ParseInt64_digits: "list_all is_digit s \<Longrightarrow> ParseInt64 s = Some n \<Longrightarrow> 0 \<le> n"
  by (cases s) (auto simp: ParseInt64_def Let_def is_digit_def byte_def split: if_splits)

lemma add_parts_exact:
  assumes "add_parts parts acc = Some r" and "0 \<le> acc" and "acc \<le> 8 * 24 * hour"
    and "\<forall>part\<in>set parts. list_all is_digit (part 1)"
  shows "r = acc + sum_list (map part_value parts) \<and> acc \<le> r \<and> r \<le> 8 * 24 * hour"
  using assms
proof (induction parts acc rule: add_parts.induct)
  case (2 part parts acc)
  obtain n where n: "ParseInt64 (part 1) = Some n" "0 \<le> n"
    using 2(2,5) ParseInt64_digits [of "part 1"] by (auto split: option.splits)
  obtain u where u: "unit_of (ToLower (part 2)) = Some u" "n \<le> 8 * 24 * hour div u"
    using 2(2) n(1) by (auto split: option.splits if_splits)
  have pos: "0 < u" using unit_of_cases [OF u(1)] by (auto simp: duration_defs)
  have le: "n * u \<le> 8 * 24 * hour"
    using mult_right_mono [OF u(2), of u] pos div_mult_mod_eq [of "8 * 24 * hour" u] pos_mod_sign [of u "8 * 24 * hour"]
    by linarith
  have nu: "0 \<le> n * u" using n(2) pos by simp
  have w: "wrap_int64 x = x" if "0 \<le> x" "x \<le> 2 * (8 * 24 * hour)" for x
    using that by (intro wrap_int64_id) (auto simp: in_int64_def min_int64_def max_int64_def duration_defs)
  have exact: "wrap_int64 (n * u) = n * u" "wrap_int64 (acc + n * u) = acc + n * u"
    using le nu 2(3,4) by (intro w; linarith)+
  have v: "part_value part = n * u" unfolding part_value_def n(1) u(1) by simp
  have "add_parts parts (acc + n * u) = Some r" "acc + n * u \<le> 8 * 24 * hour"
    using 2(2) n(1) u exact by (auto simp: Let_def split: if_splits)
  moreover have "0 \<le> acc + n * u" using n(2) pos 2(3) by simp
  ultimately have "r = acc + n * u + sum_list (map part_value parts) \<and> acc + n * u \<le> r \<and> r \<le> 8 * 24 * hour"
    using 2(1) [OF n(1) u(1) _ refl] u(2) exact 2(5) by auto
  with nu show ?case unfolding list.map sum_list.Cons v by linarith
qed simp

lemma find_match_matches: "find_match r p = Some (a, q) \<Longrightarrow> q \<in> set (matches r a) \<and> sp_caps a = sp_caps p"
proof (induction r p rule: find_match.induct)
  case (1 r p)
  show ?case
  proof (cases "matches r p")
    case Nil
    with 1 have "sp_rest p \<noteq> []" "find_match r (advance (next_rune (sp_rest p)) p) = Some (a, q)"
      by (simp_all add: find_match.simps [of r p] split: if_splits)
    with 1(1) [OF Nil] show ?thesis by (simp add: advance_def)
  qed (use 1(2) in \<open>simp add: find_match.simps [of r p]\<close>)
qed

lemma find_all_matches: "(a, q) \<in> set (fst (find_all r p)) \<Longrightarrow> q \<in> set (matches r a)"
proof (induction r p rule: find_all.induct)
  case (1 r p)
  show ?case
  proof (cases "find_match r p")
    case None
    with 1(2) show ?thesis by (simp add: find_all.simps [of r p])
  next
    case (Some m)
    obtain a0 q0 where m: "m = (a0, q0)" by fastforce
    show ?thesis
    proof (cases "length (sp_rest q0) < length (sp_rest p) \<and> (a, q) \<noteq> (a0, q0)")
      case True
      with 1(2) Some m have "(a, q) \<in> set (fst (find_all r (q0\<lparr>sp_caps := []\<rparr>)))"
        by (auto simp: find_all.simps [of r p] split: prod.splits)
      with 1(1) [OF Some [unfolded m] refl] True show ?thesis by blast
    next
      case False
      with 1(2) Some m find_match_matches [of r p a0 q0] show ?thesis
        by (auto simp: find_all.simps [of r p] split: prod.splits if_splits)
    qed
  qed
qed

lemma relative_parts_digits:
  assumes "part \<in> set (FindAllStringSubmatch relativeResetPart s)"
  shows "list_all is_digit (part 1)"
proof -
  obtain a q where q: "part = cap_text q" "q \<in> set (matches relativeResetPart a)"
    using assms find_all_matches by (fastforce simp: FindAllStringSubmatch_def)
  let ?units = "sequence [star white, Cap 2 (choice [plural ''day'', literal_fold ''d'', plural ''hour'', plural ''hr'',
     literal_fold ''h'', plural ''minute'', plural ''min'', literal_fold ''m'', plural ''second'', plural ''sec'', literal_fold ''s''])]"
  have "relativeResetPart = Seq (Cap 1 (plus digit_rune)) ?units" by (simp add: relativeResetPart_def)
  with q(2) have "q \<in> set (matches (Seq (Cap 1 (plus digit_rune)) ?units) a)" by (simp only:)
  then obtain q1 where q1: "q1 \<in> set (matches (Cap 1 (plus digit_rune)) a)" "q \<in> set (matches ?units q1)"
    by (rule matches_SeqE)
  have "without_cap 1 ?units" by (simp add: star_def plural_def literal_fold_def optional_def)
  then have "cap_text q 1 = cap_text q1 1" using q1(2) by (rule without_cap_keeps)
  moreover have "list_all is_digit (cap_text q1 1)"
    by (rule cap_plus_bytes [OF _ q1(1)])
      (auto simp: digit_rune_def in_bytes_def between_def is_digit_def split: list.splits)
  ultimately show ?thesis by (simp add: q(1))
qed

section \<open>Windows read from text\<close>

text \<open>
  A window of a text report: built from a percentage and a reset time near the observation, or the
  full five-hour window of a session that has not started.
\<close>

definition text_window :: "time \<Rightarrow> limit_window \<Rightarrow> bool" where
  "text_window observedAt w =
     ((\<exists>u t. w = normalizeWindow u t \<and> reset_near observedAt t) \<or>
      w = \<lparr>UsedPercent = F64 0, RemainingPercent = F64 100, ResetsAt = None\<rparr>)"

definition text_windows :: "time \<Rightarrow> provider_windows \<Rightarrow> bool" where
  "text_windows observedAt ws =
     (pred_option (text_window observedAt) (FiveHour ws) \<and>
      pred_option (\<lambda>w. text_window observedAt w \<and> ResetsAt w \<noteq> None) (SevenDay ws))"

definition pending_ok :: "time \<Rightarrow> pendingWindow \<Rightarrow> bool" where
  "pending_ok observedAt p = pred_option (reset_near observedAt) (pw_reset p)"

lemma text_windowI:
  "reset_near observedAt t \<Longrightarrow> text_window observedAt (normalizeWindow u t)"
  "text_window observedAt \<lparr>UsedPercent = F64 0, RemainingPercent = F64 100, ResetsAt = None\<rparr>"
  by (auto simp: text_window_def)

lemma commit_window_ok:
  "pending_ok observedAt p \<Longrightarrow> text_windows observedAt ws \<Longrightarrow> text_windows observedAt (commit_window p ws)"
  by (auto simp: commit_window_def text_windows_def text_windowI pending_ok_def split: option.splits)

lemma read_line_ok:
  assumes "pending_ok observedAt (fst st)" and "text_windows observedAt (snd st)"
  shows "pending_ok observedAt (fst (read_line lib tz observedAt line st)) \<and>
    text_windows observedAt (snd (read_line lib tz observedAt line st))"
  using assms commit_window_ok parseClaudeUsageReset_near [of lib tz line observedAt]
  by (auto simp: read_line_def Let_def pending_ok_def split: prod.splits option.splits if_splits)

lemma read_lines_ok:
  "pending_ok observedAt (fst st) \<Longrightarrow> text_windows observedAt (snd st) \<Longrightarrow>
     pending_ok observedAt (fst (fold (read_line lib tz observedAt) lines st)) \<and>
     text_windows observedAt (snd (fold (read_line lib tz observedAt) lines st))"
  by (induction lines arbitrary: st) (auto simp: read_line_ok)

lemma parseClaudeUsageText_windows:
  assumes "parseClaudeUsageText lib tz s observedAt = ok r"
  shows "text_windows observedAt (Windows r)" and "Windows r \<noteq> no_windows"
    and "ObservedAt r = observedAt \<and> AuthState r = ''authenticated'' \<and> Plan r = [] \<and> Source r = ''claude-usage'' \<and> ErrorCode r = []"
proof -
  let ?st = "fold (read_line lib tz observedAt) (split_char (CHR 0x0A) s) (no_pending, no_windows)"
  have st: "pending_ok observedAt (fst ?st)" "text_windows observedAt (snd ?st)"
    using read_lines_ok [of observedAt "(no_pending, no_windows)" lib tz "split_char (CHR 0x0A) s"]
    by (simp_all add: pending_ok_def no_pending_def text_windows_def no_windows_def)
  have r: "r = \<lparr>ObservedAt = observedAt, AuthState = ''authenticated'', Plan = [], Source = ''claude-usage'',
      Windows = commit_window (fst ?st) (snd ?st), ErrorCode = []\<rparr>"
    "\<not> (FiveHour (Windows r) = None \<and> SevenDay (Windows r) = None)"
    using assms by (auto simp: parseClaudeUsageText_def Let_def split: prod.splits if_splits)
  show "text_windows observedAt (Windows r)" using commit_window_ok [OF st] by (subst r(1)) simp
  show "Windows r \<noteq> no_windows" using r(2) by (auto simp: no_windows_def)
  show "ObservedAt r = observedAt \<and> AuthState r = ''authenticated'' \<and> Plan r = [] \<and> Source r = ''claude-usage'' \<and> ErrorCode r = []"
    by (subst r(1), simp)+
qed

lemma text_window_wf: "text_window observedAt w \<Longrightarrow> window_sane w \<Longrightarrow> window_wf w"
proof (cases "\<exists>u t. w = normalizeWindow u t")
  case True
  assume "window_sane w"
  with True normalizeWindow_sane show ?thesis by blast
next
  case False
  assume "text_window observedAt w"
  with False have "w = \<lparr>UsedPercent = F64 0, RemainingPercent = F64 100, ResetsAt = None\<rparr>"
    by (auto simp: text_window_def)
  then show ?thesis
    using f64_complement_sum [of "F64 0"] f64_complement [of 0] by (simp add: window_wf_def percent_ok_def)
qed

lemma scan_lines_report:
  "scan_lines lib decode t lines qs = Inl r \<Longrightarrow>
     \<exists>limits. r = parseClaudeRateLimits lib (Some (JObject [(''rate_limits'', JObject limits)])) t ''claude-usage''"
  by (induction lib decode t lines qs rule: scan_lines.induct) (auto split: if_splits option.splits)

lemma parseClaudeRateLimits_report:
  "parseClaudeRateLimits lib payload t src = ok r \<Longrightarrow> \<exists>limits. limits_report lib limits t src = ok r"
  by (auto simp: parseClaudeRateLimits_def split: option.splits)

text \<open>A usage report comes from a structured object or from text.\<close>

lemma ParseClaudeUsage_origin:
  assumes "ParseClaudeUsage lib tz decode payload t = ok r"
  shows "(\<exists>limits. limits_report lib limits t ''claude-usage'' = ok r) \<or> (\<exists>s. parseClaudeUsageText lib tz s t = ok r)"
proof (cases "parseClaudeRateLimits lib (decode payload) t ''claude-usage''")
  case (Inr r0)
  with assms have "parseClaudeRateLimits lib (decode payload) t ''claude-usage'' = ok r"
    by (simp add: ParseClaudeUsage_def)
  then show ?thesis using parseClaudeRateLimits_report by blast
next
  case (Inl e)
  show ?thesis
  proof (cases "scan_lines lib decode t (split_char (CHR 0x0A) payload) []")
    case (Inl r0)
    with assms \<open>_ = Inl e\<close> have "r0 = ok r" by (simp add: ParseClaudeUsage_def)
    with scan_lines_report [OF Inl] parseClaudeRateLimits_report show ?thesis by metis
  next
    case (Inr qs)
    with assms \<open>_ = Inl e\<close> show ?thesis
      by (auto simp: ParseClaudeUsage_def Let_def split: sum.splits if_splits)
  qed
qed

definition demo_zones :: time_zones where
  "demo_zones = \<lparr>tz_load = (\<lambda>_. False), tz_date = (\<lambda>_ _. 0),
     tz_civil = (\<lambda>_ _. \<lparr>cv_year = 1970, cv_month = 1, cv_day = 1, cv_hour = 0, cv_minute = 0\<rparr>), tz_local = ''UTC''\<rparr>"

definition demo_usage :: string where
  "demo_usage = ''5h:7%'' @ [CHR 0x0A] @ ''resets in 2h''"

definition demo_usage_report :: provider_report where
  "demo_usage_report = \<lparr>ObservedAt = 9, AuthState = ''authenticated'', Plan = [], Source = ''claude-usage'',
     Windows = \<lparr>FiveHour = Some (normalizeWindow (F64 7) (9 + 2 * hour)), SevenDay = None\<rparr>, ErrorCode = []\<rparr>"

definition demo_pending :: "time option \<Rightarrow> pendingWindow" where
  "demo_pending reset = \<lparr>pw_kind = ''five'', pw_allowInactive = False, pw_used = Some (F64 7), pw_reset = reset\<rparr>"

lemma demo_read_lines:
  "split_char (CHR 0x0A) demo_usage = [''5h:7%'', ''resets in 2h'']"
  "read_line demo_lib demo_zones 9 ''5h:7%'' (no_pending, no_windows) = (demo_pending None, no_windows)"
  "read_line demo_lib demo_zones 9 ''resets in 2h'' (demo_pending None, no_windows) =
     (demo_pending (Some (9 + 2 * hour)), no_windows)"
  by code_simp+

lemma demo_usage_parsed: "parseClaudeUsageText demo_lib demo_zones demo_usage 9 = ok demo_usage_report"
proof -
  have "fold (read_line demo_lib demo_zones 9) (split_char (CHR 0x0A) demo_usage) (no_pending, no_windows) =
      (demo_pending (Some (9 + 2 * hour)), no_windows)"
    by (simp add: demo_read_lines)
  then show ?thesis
    by (simp add: parseClaudeUsageText_def commit_window_def demo_pending_def no_windows_def demo_usage_report_def)
qed

lemma demo_usage_output: "ParseClaudeUsage demo_lib demo_zones (\<lambda>_. None) demo_usage 9 = ok demo_usage_report"
proof -
  have "scan_lines demo_lib (\<lambda>_. None) 9 (split_char (CHR 0x0A) demo_usage) [] = Inr []" by code_simp
  moreover have "stripANSI demo_usage = demo_usage" by code_simp
  ultimately show ?thesis by (simp add: ParseClaudeUsage_def parseClaudeRateLimits_def demo_usage_parsed)
qed

section \<open>How headings begin\<close>

definition first_in :: "string \<Rightarrow> string \<Rightarrow> bool" where
  "first_in C x = (\<exists>c\<in>set C. x = [c] \<and> \<not> white_byte c)"

lemma lower_byte_cases: "lower_byte d = e \<Longrightarrow> d = e \<or> byte d + 32 = byte e \<and> is_upper d"
  by (cases "is_upper d") (auto simp: lower_byte_def is_upper_def byte_char_of)

lemma byte_eqD: "byte c = byte d \<Longrightarrow> c = d"
  by (simp add: byte_def)

lemma lower_byte_letter:
  "lower_byte d = CHR ''c'' \<Longrightarrow> d \<in> {CHR ''c'', CHR ''C''}" "lower_byte d = CHR ''a'' \<Longrightarrow> d \<in> {CHR ''a'', CHR ''A''}"
  "lower_byte d = CHR ''w'' \<Longrightarrow> d \<in> {CHR ''w'', CHR ''W''}" "lower_byte d = CHR ''5'' \<Longrightarrow> d = CHR ''5''"
  "lower_byte d = CHR ''7'' \<Longrightarrow> d = CHR ''7''"
  using lower_byte_cases [of d] byte_eqD [of d "CHR ''C''"] byte_eqD [of d "CHR ''A''"] byte_eqD [of d "CHR ''W''"]
  by (auto simp: byte_def is_upper_def)

lemma starts_words:
  "starts (first_in ''cC5'') (literal_fold (CHR ''c'' # cs))" "starts (first_in ''cC'') (literal_fold (CHR ''c'' # cs))"
  "starts (first_in ''aAwW7'') (literal_fold (CHR ''a'' # cs))" "starts (first_in ''aAwW7'') (literal_fold (CHR ''w'' # cs))"
  "starts (first_in ''cC5'') (literal_fold (CHR ''5'' # cs))" "starts (first_in ''aAwW7'') (literal_fold (CHR ''7'' # cs))"
  "starts (first_in ''cC5'') (literal (CHR ''5'' # cs))" "starts (first_in ''aAwW7'') (literal (CHR ''7'' # cs))"
proof -
  have lows: "lower_byte (CHR ''c'') = CHR ''c''" "lower_byte (CHR ''a'') = CHR ''a''" "lower_byte (CHR ''w'') = CHR ''w''"
    "lower_byte (CHR ''5'') = CHR ''5''" "lower_byte (CHR ''7'') = CHR ''7''"
    by code_simp+
  show "starts (first_in ''cC5'') (literal_fold (CHR ''c'' # cs))" "starts (first_in ''cC'') (literal_fold (CHR ''c'' # cs))"
    "starts (first_in ''aAwW7'') (literal_fold (CHR ''a'' # cs))" "starts (first_in ''aAwW7'') (literal_fold (CHR ''w'' # cs))"
    "starts (first_in ''cC5'') (literal_fold (CHR ''5'' # cs))" "starts (first_in ''aAwW7'') (literal_fold (CHR ''7'' # cs))"
    by (rule starts_mono [OF starts_literal_fold],
        auto simp: fold_rune_def first_in_def white_byte_def lows split: list.splits dest!: lower_byte_letter)+
  show "starts (first_in ''cC5'') (literal (CHR ''5'' # cs))" "starts (first_in ''aAwW7'') (literal (CHR ''7'' # cs))"
    by (rule starts_mono [OF starts_literal],
        auto simp: one_of_def first_in_def white_byte_def split: list.splits)+
qed

lemma heading_word:
  assumes "MatchString (Seq TextStart (Seq (star white) r)) s" and "starts (first_in C) r"
  shows "\<exists>c\<in>set C. \<exists>t. dropWhile white_byte s = c # t"
  using heading_first_byte [OF assms(1)] assms(2) unfolding first_in_def by blast

section \<open>Properties\<close>

text \<open>
  What \<open>/usage\<close> yields can be reported. Whatever the output of the command (structured, a stream
  of JSON lines, text for people, with or without colour codes), a report that is accepted has at least one
  window, and if its percentages are numbers and its reset times are not the zero time, the
  server's validation accepts it.
\<close>

theorem claude_usage_is_valid:
  assumes "ParseClaudeUsage lib tz decode payload observedAt = ok r" and "windows_sane (Windows r)"
    and "observedAt \<noteq> zero_time"
    and "observedAt \<le> sentAt + MaxFutureSkew" "observedAt \<le> now + MaxFutureSkew"
  shows "Windows r \<noteq> no_windows \<and> validate_provider sentAt now ProviderClaude r = None"
proof -
  have "(ObservedAt r = observedAt \<and> AuthState r = ''authenticated'' \<and> Plan r = [] \<and> Source r = ''claude-usage'' \<and>
      ErrorCode r = []) \<and> Windows r \<noteq> no_windows \<and> windows_wf (Windows r)"
    using ParseClaudeUsage_origin [OF assms(1)]
  proof (elim disjE exE)
    fix limits assume l: "limits_report lib limits observedAt ''claude-usage'' = ok r"
    show ?thesis
      using limits_report_shape(1-6) [OF l] limits_report_windows_wf [OF l assms(2)] by auto
  next
    fix s assume t: "parseClaudeUsageText lib tz s observedAt = ok r"
    have "window_wf w" if "FiveHour (Windows r) = Some w \<or> SevenDay (Windows r) = Some w" for w
      using that parseClaudeUsageText_windows(1) [OF t] assms(2) text_window_wf
      by (auto simp: text_windows_def windows_sane_def)
    then have "windows_wf (Windows r)" by (auto simp: windows_wf_def option.pred_set)
    then show ?thesis using parseClaudeUsageText_windows(2,3) [OF t] by blast
  qed
  then show ?thesis
    using assms(3-) by (simp add: validate_provider_None_iff provider_wf_def ValidProvider_def)
qed

theorem claude_usage_is_valid_witness:
  "ParseClaudeUsage demo_lib demo_zones (\<lambda>_. None) demo_usage 9 = ok demo_usage_report \<and>
   validate_provider 10 10 ProviderClaude demo_usage_report = None"
proof -
  have "windows_sane (Windows demo_usage_report)"
    by (simp add: windows_sane_def window_sane_def demo_usage_report_def normalizeWindow_def IsNaN_def
        f64_gt_def Let_def zero_time_def duration_defs)
  from claude_usage_is_valid [OF demo_usage_output this, of 10 10] demo_usage_output
  show ?thesis by (simp add: zero_time_def second_def MaxFutureSkew_def minute_def)
qed

text \<open>
  No reset time is fabricated. Every window read from text has either a reset time between 24
  hours before and eight days after the observation, taken from the text, or, for the five-hour
  window alone, none, and then it is the untouched window of a session that has not started;
  a weekly window always has a reset time.
\<close>

theorem usage_text_resets_are_near:
  assumes "parseClaudeUsageText lib tz s observedAt = ok r"
    and "FiveHour (Windows r) = Some w \<or> SevenDay (Windows r) = Some w"
  shows "case ResetsAt w of
      Some t \<Rightarrow> observedAt - 24 * hour \<le> t \<and> t \<le> observedAt + 8 * 24 * hour
    | None \<Rightarrow> FiveHour (Windows r) = Some w \<and> UsedPercent w = F64 0 \<and> RemainingPercent w = F64 100"
  using parseClaudeUsageText_windows(1) [OF assms(1)] assms(2)
  by (auto simp: text_windows_def text_window_def reset_near_def split: option.splits)

theorem usage_text_resets_are_near_witness:
  "\<exists>w t. FiveHour (Windows demo_usage_report) = Some w \<and> ResetsAt w = Some t \<and> t \<le> 9 + 8 * 24 * hour"
  using usage_text_resets_are_near [OF demo_usage_parsed, of "normalizeWindow (F64 7) (9 + 2 * hour)"]
  by (simp add: demo_usage_report_def)

text \<open>
  A relative reset is the exact sum of its parts. For a text such as \<open>in 2d 5h\<close> the reset time is
  the observation time plus amount times unit over all parts; the 64-bit additions and
  multiplications never wrap, and the total lies between zero and eight days.
\<close>

theorem relative_reset_is_exact:
  assumes "parseClaudeRelativeReset value observedAt = Some t"
  shows "\<exists>s. t = observedAt + sum_list (map part_value (FindAllStringSubmatch relativeResetPart s)) \<and>
    observedAt \<le> t \<and> t \<le> observedAt + 8 * 24 * hour"
proof -
  obtain s d where d: "add_parts (FindAllStringSubmatch relativeResetPart s) 0 = Some d" "t = Add observedAt d"
    using assms by (auto simp: parseClaudeRelativeReset_def Let_def split: option.splits if_splits)
  have "d = 0 + sum_list (map part_value (FindAllStringSubmatch relativeResetPart s)) \<and> 0 \<le> d \<and> d \<le> 8 * 24 * hour"
    using add_parts_exact [OF d(1)] relative_parts_digits by (auto simp: duration_defs)
  then show ?thesis by (intro exI [of _ s]) (simp add: d(2) Add_def)
qed

theorem relative_reset_is_exact_witness:
  "parseClaudeRelativeReset ''in 2h'' 9 = Some (9 + 2 * hour) \<and> 9 + 2 * hour \<le> 9 + 8 * 24 * hour"
proof -
  have "parseClaudeRelativeReset ''in 2h'' 9 = Some (9 + 2 * hour)" by code_simp
  with relative_reset_is_exact [OF this] show ?thesis by blast
qed

text \<open>
  A reset line is never taken for a heading. A line opens the five-hour window only when its
  first character that is not white space is \<open>c\<close>, \<open>C\<close> or \<open>5\<close>, and the weekly window only
  when it is one of \<open>c\<close>, \<open>C\<close>, \<open>a\<close>, \<open>A\<close>, \<open>w\<close>, \<open>W\<close> or \<open>7\<close>: lines such as
  \<open>Resets in 5h\<close> or \<open>2d5h\<close> never do.
\<close>

theorem heading_first_character:
  assumes "classifyClaudeUsageHeading line = (kind, True)" and "kind \<noteq> []"
  shows "\<exists>c t. dropWhile white_byte line = c # t \<and>
    (kind = ''five'' \<and> c \<in> set ''cC5'' \<or> kind = ''seven'' \<and> c \<in> set ''cCaAwW7'')"
proof -
  consider "kind = ''five''" "MatchString fiveHourHeading line"
    | "kind = ''seven''" "MatchString currentWeekHeading line" | "kind = ''seven''" "MatchString sevenDayHeading line"
    using assms
    by (auto simp: classifyClaudeUsageHeading_def FindStringSubmatch_def MatchString_def split: option.splits if_splits)
  then show ?thesis
  proof cases
    case 1
    have "\<exists>c\<in>set ''cC5''. \<exists>t. dropWhile white_byte line = c # t"
      using 1(2) unfolding fiveHourHeading_def
      by (rule heading_word) (simp add: starts_Seq starts_Alt starts_words)
    with 1(1) show ?thesis by blast
  next
    case 2
    have "\<exists>c\<in>set ''cC''. \<exists>t. dropWhile white_byte line = c # t"
      using 2(2) unfolding currentWeekHeading_def
      by (rule heading_word) (simp add: starts_Seq starts_words)
    with 2(1) show ?thesis by auto
  next
    case 3
    have "\<exists>c\<in>set ''aAwW7''. \<exists>t. dropWhile white_byte line = c # t"
      using 3(2) unfolding sevenDayHeading_def
      by (rule heading_word) (simp add: starts_Seq starts_Alt starts_words)
    with 3(1) show ?thesis by auto
  qed
qed

theorem heading_first_character_witness:
  "\<exists>c t. dropWhile white_byte '' 5h:7%'' = c # t \<and> c \<in> set ''cC5''"
proof -
  have "classifyClaudeUsageHeading '' 5h:7%'' = (''five'', True)" by code_simp
  from heading_first_character [OF this] show ?thesis by auto
qed

end
