(* ===== verification/Claude_Collect.thy ===== *)
theory Claude_Collect
  imports Claude_Text Agent
begin

text \<open>
  \<open>internal/collector/claude.go\<close>, the process part: \<open>NewClaude\<close>, \<open>Collect\<close> with the confirmation of
  a logout, \<open>CollectClaudeAuth\<close> and \<open>CollectClaudeUsage\<close>. The command runner is an argument: for
  arguments and extra environment it gives the standard output and whether the command failed
  (a timeout is a failure). The collector's state is the count of consecutive logged-out answers.
\<close>

section \<open>The collector\<close>

definition ProbeEnvironment :: string where "ProbeEnvironment = ''QUOTA_MONITOR_PROBE=1''"
definition claudeLogoutConfirmations :: int where "claudeLogoutConfirmations = 2"

record ClaudeConfig =
  cc_Command :: string
  cc_Timeout :: duration

record ClaudeCollector =
  cc_cfg :: ClaudeConfig
  cc_consecutiveLoggedOut :: int

definition NewClaude :: "ClaudeConfig \<Rightarrow> ClaudeCollector" where
  "NewClaude cfg =
     \<lparr>cc_cfg = cfg\<lparr>cc_Command := (if cc_Command cfg = [] then ''claude'' else cc_Command cfg),
        cc_Timeout := (if cc_Timeout cfg \<le> 0 then 30 * second else cc_Timeout cfg)\<rparr>,
      cc_consecutiveLoggedOut = 0\<rparr>"

type_synonym command_runner = "string \<Rightarrow> string list \<Rightarrow> string list \<Rightarrow> string \<times> bool"

definition auth_args :: "string list" where "auth_args = [''auth'', ''status'', ''--json'']"

definition usage_args :: "string list" where
  "usage_args = [''-p'', ''/usage'', ''--output-format'', ''stream-json'', ''--verbose'', ''--no-session-persistence'']"

definition usage_env :: "string list" where
  "usage_env = [''NO_COLOR=1'', ProbeEnvironment, ''CLAUDE_CODE_QUOTA_MONITOR_PROBE=1'']"

definition confirmLoggedOut :: "ClaudeCollector \<Rightarrow> bool \<times> ClaudeCollector" where
  "confirmLoggedOut c =
     (let n = cc_consecutiveLoggedOut c + 1
      in (n \<ge> claudeLogoutConfirmations, c\<lparr>cc_consecutiveLoggedOut := n\<rparr>))"

definition resetLogoutConfirmation :: "ClaudeCollector \<Rightarrow> ClaudeCollector" where
  "resetLogoutConfirmation c = c\<lparr>cc_consecutiveLoggedOut := 0\<rparr>"

text \<open>The second half of \<open>Collect\<close>, after an authenticated answer.\<close>

definition collect_usage ::
    "claude_lib \<Rightarrow> time_zones \<Rightarrow> (string \<Rightarrow> json option) \<Rightarrow> time \<Rightarrow> string \<times> bool \<Rightarrow> provider_report \<Rightarrow>
     provider_report \<times> claude_error option" where
  "collect_usage lib tz decode now out auth =
     (if snd out
      then (auth\<lparr>ErrorCode := ''usage_command_failed'', Source := ''claude-auth-status''\<rparr>, Some (CommandFailed ''usage''))
      else case ParseClaudeUsage lib tz decode (fst out) now of
        Inl e \<Rightarrow> (auth\<lparr>ErrorCode := ''usage_parse_failed''\<rparr>, Some e)
      | Inr usage \<Rightarrow>
          (usage\<lparr>AuthState := AuthState auth, Plan := (if Plan usage = [] then Plan auth else Plan usage)\<rparr>, None))"

definition claude_Collect ::
    "claude_lib \<Rightarrow> time_zones \<Rightarrow> (string \<Rightarrow> json option) \<Rightarrow> command_runner \<Rightarrow> time \<Rightarrow> ClaudeCollector \<Rightarrow>
     provider_report \<times> claude_error option \<times> ClaudeCollector" where
  "claude_Collect lib tz decode run now c =
     (let authOut = run (cc_Command (cc_cfg c)) auth_args [''NO_COLOR=1'', ProbeEnvironment];
          unavailable = (\<lambda>code. unavailableReport ''claude-auth-status'' code now)
      in case ParseClaudeAuthStatus now (decode (fst authOut)) of
           Inl e \<Rightarrow>
             if snd authOut
             then (unavailable ''auth_status_failed'', Some (CommandFailed ''auth''), resetLogoutConfirmation c)
             else (unavailable ''auth_status_invalid'', Some e, resetLogoutConfirmation c)
         | Inr auth \<Rightarrow>
             if AuthState auth \<noteq> ''authenticated'' then
               (case confirmLoggedOut c of
                  (confirmed, c') \<Rightarrow>
                    if \<not> confirmed then (unavailable ''auth_logout_unconfirmed'', Some LogoutUnconfirmed, c')
                    else (auth\<lparr>ErrorCode := ''not_authenticated''\<rparr>, None, c'))
             else if snd authOut
               then (unavailable ''auth_status_failed'', Some (CommandFailed ''auth''), resetLogoutConfirmation c)
             else (case collect_usage lib tz decode now (run (cc_Command (cc_cfg c)) usage_args usage_env) auth of
                     (report, e) \<Rightarrow> (report, e, resetLogoutConfirmation c)))"

text \<open>The one-shot variants used by the command line.\<close>

definition CollectClaudeAuth ::
    "(string \<Rightarrow> json option) \<Rightarrow> command_runner \<Rightarrow> string \<Rightarrow> duration \<Rightarrow> time \<Rightarrow> (claude_error, provider_report) result" where
  "CollectClaudeAuth decode run command timeout now =
     (let c = NewClaude \<lparr>cc_Command = command, cc_Timeout = timeout\<rparr>;
          out = run (cc_Command (cc_cfg c)) auth_args [''NO_COLOR=1'', ProbeEnvironment]
      in case ParseClaudeAuthStatus now (decode (fst out)) of
           Inr report \<Rightarrow>
             if AuthState report \<noteq> ''authenticated'' then ok (report\<lparr>ErrorCode := ''not_authenticated''\<rparr>)
             else if \<not> snd out then ok report
             else err (CommandFailed ''auth'')
         | Inl e \<Rightarrow> if snd out then err (CommandFailed ''auth'') else err e)"

definition CollectClaudeUsage ::
    "claude_lib \<Rightarrow> time_zones \<Rightarrow> (string \<Rightarrow> json option) \<Rightarrow> command_runner \<Rightarrow> string \<Rightarrow> duration \<Rightarrow> time \<Rightarrow>
     (claude_error, provider_report) result" where
  "CollectClaudeUsage lib tz decode run command timeout now =
     (let c = NewClaude \<lparr>cc_Command = command, cc_Timeout = timeout\<rparr>;
          out = run (cc_Command (cc_cfg c)) usage_args usage_env
      in if snd out then err (CommandFailed ''usage'') else ParseClaudeUsage lib tz decode (fst out) now)"

section \<open>One poll\<close>

text \<open>Whether the command's answer to a poll is a logged-out status.\<close>

definition says_logged_out :: "(string \<Rightarrow> json option) \<Rightarrow> ClaudeConfig \<Rightarrow> time \<times> command_runner \<Rightarrow> bool" where
  "says_logged_out decode cfg poll =
     (case ParseClaudeAuthStatus (fst poll)
        (decode (fst (snd poll (cc_Command cfg) auth_args [''NO_COLOR=1'', ProbeEnvironment]))) of
        Inr auth \<Rightarrow> AuthState auth \<noteq> ''authenticated''
      | Inl _ \<Rightarrow> False)"

lemma report_fields:
  "Inr \<lparr>ObservedAt = t, AuthState = s, Plan = p, Source = src, Windows = w, ErrorCode = code\<rparr> = Inr r \<Longrightarrow>
     AuthState r = s \<and> Windows r = w"
  by auto

lemma ParseClaudeAuthStatus_states:
  assumes "ParseClaudeAuthStatus now v = ok r"
  shows "AuthState r = ''authenticated'' \<or> AuthState r = ''unauthenticated''" and "Windows r = no_windows"
proof -
  have "\<exists>raw. v = Some (JObject raw)"
  proof (cases v)
    case (Some j)
    have "\<exists>raw. j = JObject raw"
    proof (rule ccontr)
      assume "\<not> (\<exists>raw. j = JObject raw)"
      then have "\<exists>e. ParseClaudeAuthStatus now (Some j) = err e"
        by (cases j) (simp_all add: ParseClaudeAuthStatus_def)
      with assms Some show False by auto
    qed
    with Some show ?thesis by blast
  qed (use assms in \<open>simp add: ParseClaudeAuthStatus_def\<close>)
  then obtain raw where v: "v = Some (JObject raw)" ..
  note parsed = assms [unfolded v ParseClaudeAuthStatus_def option.case json.case Let_def]
  obtain b where b: "boolValue raw [''loggedIn'', ''logged_in'', ''authenticated''] = Some b"
  proof (cases "boolValue raw [''loggedIn'', ''logged_in'', ''authenticated'']")
    case None
    from parsed [unfolded None option.case] show ?thesis by blast
  qed
  from report_fields [OF parsed [unfolded b option.case]]
  show "AuthState r = ''authenticated'' \<or> AuthState r = ''unauthenticated''" "Windows r = no_windows"
    by (cases b; simp)+
qed

lemma claude_Collect_cases:
  assumes "claude_Collect lib tz decode run now c = (r, e, c')"
  obtains "says_logged_out decode (cc_cfg c) (now, run)" and "cc_consecutiveLoggedOut c' = cc_consecutiveLoggedOut c + 1"
      and "cc_consecutiveLoggedOut c < 1" and "e = Some LogoutUnconfirmed" and "AuthState r = ''unknown''" and "Windows r = no_windows"
  | "says_logged_out decode (cc_cfg c) (now, run)" and "cc_consecutiveLoggedOut c' = cc_consecutiveLoggedOut c + 1"
      and "1 \<le> cc_consecutiveLoggedOut c" and "e = None" and "AuthState r = ''unauthenticated''" and "Windows r = no_windows"
  | "\<not> says_logged_out decode (cc_cfg c) (now, run)" and "cc_consecutiveLoggedOut c' = 0"
      and "AuthState r \<in> {''unknown'', ''authenticated''}"
proof -
  let ?out = "run (cc_Command (cc_cfg c)) auth_args [''NO_COLOR=1'', ProbeEnvironment]"
  show thesis
  proof (cases "ParseClaudeAuthStatus now (decode (fst ?out))")
    case (Inl x)
    have "\<not> says_logged_out decode (cc_cfg c) (now, run)" by (simp add: says_logged_out_def Inl)
    moreover have "cc_consecutiveLoggedOut c' = 0" "AuthState r = ''unknown''"
      using assms Inl
      by (auto simp: claude_Collect_def Let_def unavailableReport_def resetLogoutConfirmation_def split: if_splits)
    ultimately show ?thesis using that(3) by simp
  next
    case (Inr auth)
    note st = ParseClaudeAuthStatus_states(1) [OF Inr] and w = ParseClaudeAuthStatus_states(2) [OF Inr]
    show ?thesis
    proof (cases "AuthState auth = ''authenticated''")
      case True
      have "\<not> says_logged_out decode (cc_cfg c) (now, run)" by (simp add: says_logged_out_def Inr True)
      moreover have "cc_consecutiveLoggedOut c' = 0 \<and> AuthState r \<in> {''unknown'', ''authenticated''}"
        using assms Inr True
        by (auto simp: claude_Collect_def collect_usage_def Let_def unavailableReport_def resetLogoutConfirmation_def
            split: if_splits sum.splits prod.splits)
      ultimately show ?thesis using that(3) by blast
    next
      case False
      have "says_logged_out decode (cc_cfg c) (now, run)" by (simp add: says_logged_out_def Inr False)
      with assms Inr False st w that(1,2) show ?thesis
        by (auto simp: claude_Collect_def Let_def unavailableReport_def confirmLoggedOut_def claudeLogoutConfirmations_def
            split: if_splits)
    qed
  qed
qed

lemma claude_Collect_cfg: "claude_Collect lib tz decode run now c = (r, e, c') \<Longrightarrow> cc_cfg c' = cc_cfg c"
  by (auto simp: claude_Collect_def Let_def resetLogoutConfirmation_def confirmLoggedOut_def
      split: sum.splits if_splits prod.splits)

section \<open>Polls and the agent\<close>

text \<open>The agent's poll of the Claude collector: collect, then store the result.\<close>

definition claude_poll ::
    "claude_lib \<Rightarrow> time_zones \<Rightarrow> (string \<Rightarrow> json option) \<Rightarrow> time \<times> command_runner \<Rightarrow>
     ClaudeCollector \<times> agent \<Rightarrow> ClaudeCollector \<times> agent" where
  "claude_poll lib tz decode poll st =
     (case claude_Collect lib tz decode (snd poll) (fst poll) (fst st) of
        (report, e, c') \<Rightarrow>
          (c', storeCollectionResult \<lparr>cr_provider = ProviderClaude, cr_report = report, cr_failed = (e \<noteq> None)\<rparr> (snd st)))"

definition shown_state :: "agent \<Rightarrow> string" where
  "shown_state a = (case gomap_get (ag_providers a) ProviderClaude of None \<Rightarrow> [] | Some r \<Rightarrow> AuthState r)"

fun two_in_a_row :: "bool list \<Rightarrow> bool" where
  "two_in_a_row (x # y # bs) = (x \<and> y \<or> two_in_a_row (y # bs))"
| "two_in_a_row _ = False"

lemma merge_state:
  "AuthState (MergeProviderReports a b) = ''unauthenticated'' \<Longrightarrow>
     AuthState a = ''unauthenticated'' \<or> AuthState b = ''unauthenticated''"
  by (auto simp: MergeProviderReports_def merge_into_def split: if_splits)

lemma stored_state:
  assumes "shown_state a \<noteq> ''unauthenticated''" and "AuthState r \<noteq> ''unauthenticated''"
  shows "shown_state (storeCollectionResult \<lparr>cr_provider = ProviderClaude, cr_report = r, cr_failed = f\<rparr> a) \<noteq> ''unauthenticated''"
  using assms merge_state
  by (auto simp: shown_state_def store_get collected_report_def split: option.splits)

lemma claude_polls_state:
  assumes "shown_state a \<noteq> ''unauthenticated''" and "cc_consecutiveLoggedOut c = (if last_out then 1 else 0)"
    and "\<not> two_in_a_row (last_out # map (says_logged_out decode (cc_cfg c)) polls)"
  shows "shown_state (snd (fold (claude_poll lib tz decode) polls (c, a))) \<noteq> ''unauthenticated''"
  using assms
proof (induction polls arbitrary: c a last_out)
  case (Cons poll polls)
  obtain r e c' where run: "claude_Collect lib tz decode (snd poll) (fst poll) c = (r, e, c')"
    by (metis prod_cases3)
  let ?a = "storeCollectionResult \<lparr>cr_provider = ProviderClaude, cr_report = r, cr_failed = (e \<noteq> None)\<rparr> a"
  let ?out = "says_logged_out decode (cc_cfg c) poll"
  have fold1: "fold (claude_poll lib tz decode) (poll # polls) (c, a) = fold (claude_poll lib tz decode) polls (c', ?a)"
    by (simp add: claude_poll_def run)
  have rest: "\<not> two_in_a_row (?out # map (says_logged_out decode (cc_cfg c')) polls)" "\<not> (last_out \<and> ?out)"
    using Cons.prems(3) claude_Collect_cfg [OF run] by auto
  have "cc_consecutiveLoggedOut c' = (if ?out then 1 else 0) \<and> AuthState r \<noteq> ''unauthenticated''"
    using run rest(2) Cons.prems(2) by (cases rule: claude_Collect_cases) auto
  then show ?case
    using Cons.IH [of ?a c' ?out] stored_state [OF Cons.prems(1)] rest(1) fold1 by simp
qed simp

section \<open>Properties\<close>

text \<open>
  C15: One logged-out answer is not enough. Start from a new collector and an agent that does not show
  Claude as logged out. Whatever the answers of the command line over any number of polls
  (failures, garbage, quotas, logged-out answers), as long as no two consecutive answers are
  logged-out ones, the agent never shows the account as logged out.
\<close>

theorem single_logout_is_never_shown:
  assumes "shown_state a \<noteq> ''unauthenticated''"
    and "\<not> two_in_a_row (map (says_logged_out decode (cc_cfg (NewClaude cfg))) polls)"
  shows "shown_state (snd (fold (claude_poll lib tz decode) polls (NewClaude cfg, a))) \<noteq> ''unauthenticated''"
proof (rule claude_polls_state [OF assms(1), where last_out = False])
  show "cc_consecutiveLoggedOut (NewClaude cfg) = (if False then 1 else 0)" by (simp add: NewClaude_def)
  show "\<not> two_in_a_row (False # map (says_logged_out decode (cc_cfg (NewClaude cfg))) polls)"
    using assms(2) by (cases polls) simp_all
qed

definition demo_auth_decode :: "string \<Rightarrow> json option" where
  "demo_auth_decode s = (if s = ''out'' then Some (JObject [(''loggedIn'', JBool False)]) else None)"

definition demo_claude_config :: ClaudeConfig where
  "demo_claude_config = \<lparr>cc_Command = [], cc_Timeout = 0\<rparr>"

definition demo_out :: "time \<times> command_runner" where
  "demo_out = (5, \<lambda>_ _ _. (''out'', True))"

definition demo_garbage :: "time \<times> command_runner" where
  "demo_garbage = (6, \<lambda>_ _ _. (''?'', False))"

lemma demo_answers:
  "says_logged_out demo_auth_decode (cc_cfg (NewClaude demo_claude_config)) demo_out"
  "\<not> says_logged_out demo_auth_decode (cc_cfg (NewClaude demo_claude_config)) demo_garbage"
  by code_simp+

theorem single_logout_is_never_shown_witness:
  "shown_state (snd (fold (claude_poll demo_lib demo_zones demo_auth_decode) [demo_out, demo_garbage, demo_out]
     (NewClaude demo_claude_config, demo_agent))) \<noteq> ''unauthenticated''"
proof (rule single_logout_is_never_shown)
  show "shown_state demo_agent \<noteq> ''unauthenticated''" by code_simp
  show "\<not> two_in_a_row (map (says_logged_out demo_auth_decode (cc_cfg (NewClaude demo_claude_config)))
      [demo_out, demo_garbage, demo_out])"
    using demo_answers by simp
qed

text \<open>
  Two consecutive logged-out answers are shown. After a second logged-out answer in a row the
  collection succeeds with the unauthenticated state, no window and the code
  \<open>not_authenticated\<close>, for a collector in any state.
\<close>

theorem second_logout_is_confirmed:
  assumes "says_logged_out decode (cc_cfg c) (t1, run1)" and "says_logged_out decode (cc_cfg c) (t2, run2)"
    and "0 \<le> cc_consecutiveLoggedOut c" and "claude_Collect lib tz decode run1 t1 c = (r1, e1, c1)"
  shows "\<exists>r c2. claude_Collect lib tz decode run2 t2 c1 = (r, None, c2) \<and> AuthState r = ''unauthenticated'' \<and>
    Windows r = no_windows"
proof -
  have c1: "cc_consecutiveLoggedOut c1 = cc_consecutiveLoggedOut c + 1"
    using assms(4) assms(1) by (cases rule: claude_Collect_cases) auto
  have cfg: "cc_cfg c1 = cc_cfg c" by (rule claude_Collect_cfg [OF assms(4)])
  obtain r e c2 where run: "claude_Collect lib tz decode run2 t2 c1 = (r, e, c2)" by (metis prod_cases3)
  then have "e = None \<and> AuthState r = ''unauthenticated'' \<and> Windows r = no_windows"
    using assms(2,3) c1 cfg by (cases rule: claude_Collect_cases) auto
  with run show ?thesis by blast
qed

theorem second_logout_is_confirmed_witness:
  "\<exists>r c1 c2 e1 r1. claude_Collect demo_lib demo_zones demo_auth_decode (snd demo_out) 5 (NewClaude demo_claude_config) = (r1, e1, c1) \<and>
     claude_Collect demo_lib demo_zones demo_auth_decode (snd demo_out) 5 c1 = (r, None, c2) \<and> AuthState r = ''unauthenticated''"
proof -
  have out: "says_logged_out demo_auth_decode (cc_cfg (NewClaude demo_claude_config)) (5, snd demo_out)"
    using demo_answers(1) by (simp add: demo_out_def)
  have n: "0 \<le> cc_consecutiveLoggedOut (NewClaude demo_claude_config)" by (simp add: NewClaude_def)
  obtain r1 e1 c1 where run: "claude_Collect demo_lib demo_zones demo_auth_decode (snd demo_out) 5 (NewClaude demo_claude_config) = (r1, e1, c1)"
    by (metis prod_cases3)
  from second_logout_is_confirmed [OF out out n run] run show ?thesis by blast
qed

end
