(* ===== verification/Spec2Isabelle.thy ===== *)
theory Spec2Isabelle
  imports Command_Line Report_Targets Firmware_Power Codex_RPC Claude_Collect
begin

text \<open>
  \<^bold>\<open>The quota monitor.\<close> The program collects the quota windows of the Codex and Claude command line
  tools on several machines and shows them on a small display. An \<^emph>\<open>agent\<close> on each machine asks the
  provider tools (\<open>internal/collector\<close>), receives hook events and status lines on a local endpoint
  (\<open>internal/hooks\<close>, \<open>internal/agent\<close>) and uploads a full report every 15 seconds. The \<^emph>\<open>server\<close>
  (\<open>internal/server\<close>) authenticates the upload, validates it and stores it in SQLite
  (\<open>internal/store\<close>); the display reads a snapshot and downloads verified firmware
  (\<open>internal/firmware\<close>). The wire contract is \<open>internal/model\<close>. One executable
  (\<open>cmd/quota-monitor\<close>) holds all of it; its \<^emph>\<open>standalone\<close> mode joins agent, server and database in
  one process.

  \<^bold>\<open>Theories and the code they model.\<close>
  \<^item> \<open>Prelude\<close>: results, Go maps as association lists with the locale \<open>finite_map\<close>, and the locale
    \<open>preference\<close> for loops that keep the best element of a map.
  \<^item> \<open>Go_Time\<close>, \<open>Go_Float\<close>, \<open>Go_Strings\<close>, \<open>Go_JSON\<close>, \<open>Go_Flags\<close>, \<open>Regex\<close>: the parts of the Go language
    and library the program relies on: \<open>int64\<close> with wrap-around, \<open>time.Time\<close> (saturating \<open>Sub\<close>,
    wrapping \<open>UnixNano\<close>), IEEE double arithmetic with correct rounding (locale \<open>rounding\<close>), strings
    as bytes, the writing of JSON, command line flags, and regular expressions as data with a
    leftmost-first matcher.
  \<^item> \<open>Model\<close> and \<open>Validation\<close>: \<open>model/types.go\<close>, \<open>model/normalize.go\<close> and \<open>ValidateAgentReport\<close> of
    \<open>server.go\<close>, with the proof that the checks decide a declarative predicate \<open>report_wf\<close>.
  \<^item> \<open>Store_Tokens\<close>, \<open>Store_Reports\<close>, \<open>Store_Snapshot\<close>, \<open>Store_Open\<close>: \<open>store/store.go\<close>, that is, the token
    table, the report transaction (with a fault possible at every statement), the four queries of
    the display snapshot, and opening and migrating a database file. The locale \<open>report_store\<close> is
    the abstract per-agent versioned store that \<open>ReplaceAgentReport\<close> refines.
  \<^item> \<open>Limiter\<close> and \<open>Server\<close>: \<open>server/server.go\<close>, that is, the fixed-window limiter, authentication,
    routing and every handler, over the store and the firmware directory.
  \<^item> \<open>Firmware\<close>, \<open>Firmware_Power\<close>: \<open>firmware/firmware.go\<close>, \<open>atomic_replace_unix.go\<close> and
    \<open>atomic_replace_windows.go\<close>: versions, manifests, verified images, and publication as a sequence of
    file operations each of which may fail or be the last one before a crash; the directories that a
    loss of power can leave, and the Windows variant without directory syncs.
  \<^item> \<open>Hook_Events\<close>, \<open>Hook_Forward\<close>, \<open>Host_Files\<close>, \<open>Hook_Install\<close>: \<open>hooks/event.go\<close> (parsing, forwarding and
    the status line wrapper) and \<open>hooks/install.go\<close> (the transaction over several files of the host,
    each system call of which may fail, and the installer built on it).
  \<^item> \<open>Codex_Normalize\<close>, \<open>Codex_Collect\<close>, \<open>Codex_RPC\<close>: \<open>collector/codex.go\<close>, that is, the choice of
    windows and plan labels (two instances of \<open>preference\<close>), one collection with its forced token
    refresh, and the concurrent request table as an interleaving step relation.
  \<^item> \<open>Claude_Limits\<close>, \<open>Claude_Text\<close>, \<open>Claude_Collect\<close>: \<open>collector/claude.go\<close>, that is, authentication
    status, rate limits and the merging of observations; the text output with its headings, reset
    phrases and calendar dates; collection and the confirmation of a logout.
  \<^item> \<open>Ledger\<close>, \<open>Agent\<close>, \<open>Agent_Run\<close>, \<open>Service_Files\<close>: \<open>agent/ledger.go\<close>, \<open>agent.go\<close>, \<open>hookserver.go\<close> and
    \<open>service.go\<close>: the task ledger; configuration, provider map, reports, retry schedule and local
    endpoint; the scheduler loop, collection worker and hook server of \<open>Agent.run\<close> as interleaved
    steps, with the locale \<open>progress\<close> for what holds of every fair execution of a step relation; the
    generated service files.
  \<^item> \<open>Hook_Commands\<close>, \<open>Store_Commands\<close>, \<open>Agent_Command\<close>, \<open>Standalone\<close>, \<open>Command_Line\<close>:
    \<open>cmd/quota-monitor/main.go\<close>, that is, the commands on hooks, on the database, the agent with its
    configuration file, standalone mode with its report sink, display token and status notifier,
    the other commands, and the dispatch with its exit status.
  \<^item> \<open>Report_Targets\<close>: the contract of a place to send reports to, the locale \<open>report_target\<close>, for the
    server's endpoint and for the report sink of standalone mode.

  \<^bold>\<open>What is shown.\<close> For the server: only a live token of the right scope authenticates and a revoked one
  never does again; a report is stored only for the agent its token is bound to, atomically, exactly
  if it is newer, and independently of arrival order, so each agent's last accepted upload is shown; the display snapshot shows the newest
  observation with exact freshness; the limiter bounds the grants of every interval; every reachable
  server state is well formed; an interrupted migration is completed by the next one. For firmware:
  readers see the old or the new release at every instant and after every loss of power, a
  published release is durable, and only verified bytes are served. For
  the agent: reports never depend on Go's random map order where the code claims so, merging never
  revives quota that was reset or logged out, one logged-out answer is not shown, a collection
  refreshes credentials at most once, the read loop of the request table never blocks, and every
  report that a healthy agent builds from any sequence of inputs passes the server's validation. Its
  scheduler closes collectors only after the worker has stopped, loses no tick, always has the next
  report scheduled, and in every fair execution returns after its context is cancelled. For the
  hooks: installing and uninstalling restores the user's files, a failed transaction changes nothing,
  an installed command exits with status 0 whatever happens, and with everything in place its event
  reaches the ledger. For the command line: exit status and error output agree, a configured agent
  is safe to start, the generated unit starts exactly the agent it was generated for, the display
  token file and the database stay in step, and standalone mode starts its schedulers from a
  complete stored snapshot. Further theorems exhibit behaviour the code does not intend: a wrapped
  observation time, a late event, a request lost when a child is replaced, a percentage that is not
  a number, a null configuration file, and an empty user group that uninstalling drops.

  \<^bold>\<open>Conventions.\<close> Code outside the repository is an argument: SHA-256, random bytes, decoding of JSON
  text, \<open>time.Parse\<close>, \<open>time.ParseDuration\<close>, \<open>url.Parse\<close>, the time-zone database, the app-server child,
  programs that are run, the network and the file system's failures; a theorem that relies on one
  names what it assumes (a digest has 32 bytes, encoding round-trips), and its witness instantiates
  it. Clock readings are arguments. The host is a map from cleaned Unix paths to files with
  permission bits; directories are not represented, so creating one is a call that may fail and
  nothing else. All recursive functions terminate, so no fuel is used; a possible failure of a
  statement or system call is read from a fault oracle \<open>nat \<Rightarrow> bool\<close>, one position per call.
  Concurrency is a step relation whose steps are critical sections and channel operations; progress
  is stated for fair executions: a goroutine goes on, a call to a collector or a delivery returns,
  and select does not ignore a ready branch for ever.

  \<^bold>\<open>What is not modelled.\<close> The texts of error messages where only their kind matters, the HTTP library's
  time limits, the bytes on the pipes of the app-server, the Windows system calls behind file locking
  and renaming (a write, rename or lock is one call that works or fails), the start of a child
  process, and the display's own C++ firmware.
\<close>

end
